(* ===== verification/Prelude.thy ===== *)
theory Prelude
  imports Main "HOL-Library.Word" "HOL-Library.Char_ord" "HOL-Library.List_Lexorder"
    "HOL-Library.Monad_Syntax"
begin

text \<open>
  What every component shares: C strings and their comparison functions, the
  tokenisers of the C library the program relies on, fixed size copies, and the
  list facts that stand for the intrusive linked lists of utlist.

  A C string is a \<open>string\<close> (a list of bytes) without its terminating NUL; a pointer
  that may be NULL is a \<open>string option\<close>.  A function whose execution is undefined in
  C for some input (a NULL or an out of bounds access, a signed overflow) has an
  \<open>option\<close> result and is \<open>None\<close> there; errors that the code handles are values of a
  result type of their own.
\<close>

named_theorems ub_simps \<open>equations that evaluate the undefined-behaviour monad\<close>

unbundle bit_operations_syntax

section \<open>Machine types\<close>

type_synonym c_int = "32 word"
type_synonym c_uint = "32 word"

datatype errno = ENOMEM | EINVAL | ERANGE | ENOTCONN | ENOBUFS | EEXIST | EMSGSIZE | EILSEQ | ENOENT
  | ECONNRESET

section \<open>Characters\<close>

text \<open>
  \<open>tolower\<close>, \<open>isspace\<close> and \<open>isdigit\<close> in the C locale.
\<close>

definition to_lower :: "char \<Rightarrow> char" where
  "to_lower c =
     (let n = (of_char c :: nat) in if 65 \<le> n \<and> n \<le> 90 then char_of (n + 32) else c)"

definition is_space :: "char \<Rightarrow> bool" where
  "is_space c = (let n = (of_char c :: nat) in n = 32 \<or> (9 \<le> n \<and> n \<le> 13))"

definition is_digit :: "char \<Rightarrow> bool" where
  "is_digit c = (let n = (of_char c :: nat) in 48 \<le> n \<and> n \<le> 57)"

definition digit_value :: "char \<Rightarrow> nat" where
  "digit_value c = of_char c - 48"

abbreviation NUL :: char where "NUL \<equiv> CHR 0x00"
abbreviation CR :: char where "CR \<equiv> CHR 0x0D"
abbreviation LF :: char where "LF \<equiv> CHR 0x0A"
abbreviation SOH :: char where "SOH \<equiv> CHR 0x01"

lemma to_lower_idem [simp]: "to_lower (to_lower c) = to_lower c"
  by (simp add: to_lower_def Let_def)

section \<open>String comparison\<close>

text \<open>
  \<open>strcasecmp (s, t) == 0\<close>, \<open>strncmp (s, t, n) == 0\<close> and \<open>strncasecmp (s, t, n) == 0\<close>:
  the bounded ones look at no more than \<open>n\<close> bytes of each and stop at a terminator.
\<close>

definition strcaseeq :: "string \<Rightarrow> string \<Rightarrow> bool" where
  "strcaseeq s t = (map to_lower s = map to_lower t)"

definition strneq :: "string \<Rightarrow> string \<Rightarrow> nat \<Rightarrow> bool" where
  "strneq s t n = (take n s = take n t)"

definition strncaseeq :: "string \<Rightarrow> string \<Rightarrow> nat \<Rightarrow> bool" where
  "strncaseeq s t n = (map to_lower (take n s) = map to_lower (take n t))"

lemma strcaseeq_refl [simp]: "strcaseeq s s"
  by (simp add: strcaseeq_def)

lemma strcaseeq_sym: "strcaseeq s t = strcaseeq t s"
  by (metis strcaseeq_def)

lemma strcaseeq_trans: "strcaseeq s t \<Longrightarrow> strcaseeq t u \<Longrightarrow> strcaseeq s u"
  by (simp add: strcaseeq_def)

lemma strcaseeq_congL: "strcaseeq s t \<Longrightarrow> strcaseeq s u = strcaseeq t u"
  by (simp add: strcaseeq_def)

lemma strcaseeq_congR: "strcaseeq s t \<Longrightarrow> strcaseeq u s = strcaseeq u t"
  by (simp add: strcaseeq_def)

lemma strcaseeq_lower [simp]:
  "strcaseeq (map to_lower s) t = strcaseeq s t"
  "strcaseeq t (map to_lower s) = strcaseeq t s"
  unfolding strcaseeq_def by (simp_all only: map_map comp_def to_lower_idem)

lemma strneq_prefix: "strneq s t (length t) = (take (length t) s = t)"
  by (simp add: strneq_def)

section \<open>Searching and splitting\<close>

text \<open>
  \<open>strchr\<close> as a split: the text before the first \<open>d\<close> and, if there is one, the text
  after it.
\<close>

fun split_at :: "char \<Rightarrow> string \<Rightarrow> string \<times> string option" where
  "split_at d [] = ([], None)"
| "split_at d (c # cs) =
     (if c = d then ([], Some cs)
      else (case split_at d cs of (a, r) \<Rightarrow> (c # a, r)))"

lemma split_at_eq:
  "split_at d s = (takeWhile (\<lambda>c. c \<noteq> d) s,
     (case dropWhile (\<lambda>c. c \<noteq> d) s of [] \<Rightarrow> None | _ # r \<Rightarrow> Some r))"
  by (induction s) simp_all

lemma split_at_None: "split_at d s = (a, None) \<longleftrightarrow> d \<notin> set s \<and> a = s"
proof (cases "d \<in> set s")
  case True
  then have "dropWhile (\<lambda>c. c \<noteq> d) s \<noteq> []" by (auto simp: dropWhile_eq_Nil_conv)
  with True show ?thesis by (auto simp: split_at_eq split: list.splits)
next
  case False
  then have "\<forall>c \<in> set s. c \<noteq> d" by blast
  then have "dropWhile (\<lambda>c. c \<noteq> d) s = []" "takeWhile (\<lambda>c. c \<noteq> d) s = s"
    by (auto simp: dropWhile_eq_Nil_conv takeWhile_eq_all_conv)
  then have "split_at d s = (s, None)" by (simp only: split_at_eq list.case)
  with False show ?thesis by auto
qed

lemma split_at_append: "d \<notin> set a \<Longrightarrow> split_at d (a @ d # r) = (a, Some r)"
  by (induction a) auto

lemma split_at_Some: "split_at d s = (a, Some r) \<longleftrightarrow> s = a @ d # r \<and> d \<notin> set a"
proof
  assume L: "split_at d s = (a, Some r)"
  then obtain c where c: "dropWhile (\<lambda>c. c \<noteq> d) s = c # r" and a: "a = takeWhile (\<lambda>c. c \<noteq> d) s"
    by (auto simp: split_at_eq split: list.splits)
  have "c = d" using c by (metis (full_types) hd_dropWhile list.discI list.sel(1))
  with c a show "s = a @ d # r \<and> d \<notin> set a"
    by (metis (full_types) set_takeWhileD takeWhile_dropWhile_id)
qed (auto simp: split_at_append)

lemma split_at_length: "split_at d s = (a, Some r) \<Longrightarrow> length r < length s"
  by (auto simp: split_at_Some)

text \<open>
  \<open>strtok_r\<close> called until it returns NULL: the non-empty pieces between delimiters.
\<close>

function tokens :: "char \<Rightarrow> string \<Rightarrow> string list" where
  "tokens d s =
     (let s' = dropWhile (\<lambda>c. c = d) s
      in if s' = [] then []
         else takeWhile (\<lambda>c. c \<noteq> d) s' # tokens d (dropWhile (\<lambda>c. c \<noteq> d) s'))"
  by pat_completeness auto
termination
proof (relation "measure (\<lambda>(d, s). length s)")
  fix d :: char and s x :: string
  assume x: "x = dropWhile (\<lambda>c. c = d) s" and ne: "x \<noteq> []"
  then have "hd x \<noteq> d" by (metis (full_types) hd_dropWhile)
  with ne have "length (dropWhile (\<lambda>c. c \<noteq> d) x) < length x"
    by (cases x) (auto simp: le_imp_less_Suc length_dropWhile_le)
  moreover have "length x \<le> length s"
    using x by (simp add: length_dropWhile_le)
  ultimately show "((d, dropWhile (\<lambda>c. c \<noteq> d) x), d, s) \<in> measure (\<lambda>(d, s). length s)"
    by simp
qed simp

declare tokens.simps [simp del]

lemma tokens_not_empty: "t \<in> set (tokens d s) \<Longrightarrow> t \<noteq> []"
proof (induction d s rule: tokens.induct)
  case (1 d s)
  let ?s = "dropWhile (\<lambda>c. c = d) s"
  have "?s \<noteq> [] \<Longrightarrow> hd ?s \<noteq> d" by (metis (full_types) hd_dropWhile)
  then have "?s \<noteq> [] \<Longrightarrow> takeWhile (\<lambda>c. c \<noteq> d) ?s \<noteq> []"
    by (cases ?s) auto
  with 1 show ?case
    by (subst (asm) tokens.simps) (auto simp: Let_def split: if_splits)
qed

lemma tokens_no_delim: "t \<in> set (tokens d s) \<Longrightarrow> d \<notin> set t"
proof (induction d s rule: tokens.induct)
  case (1 d s)
  then show ?case
    by (subst (asm) tokens.simps) (auto simp: Let_def dest: set_takeWhileD split: if_splits)
qed

section \<open>Decimal numbers\<close>

text \<open>
  What \<open>strtoll\<close> and \<open>atoi\<close> read: blanks, a sign and digits; the value and the rest,
  \<open>None\<close> when there is no digit.
\<close>

definition digits_value :: "string \<Rightarrow> int" where
  "digits_value ds = foldl (\<lambda>n d. 10 * n + int (digit_value d)) 0 ds"

definition read_digits :: "string \<Rightarrow> (int \<times> string) option" where
  "read_digits s =
     (let ds = takeWhile is_digit s
      in if ds = [] then None else Some (digits_value ds, dropWhile is_digit s))"

definition read_int :: "string \<Rightarrow> (int \<times> string) option" where
  "read_int s =
     (case dropWhile is_space s of
        [] \<Rightarrow> None
      | c # cs \<Rightarrow>
          if c = CHR ''-'' then map_option (\<lambda>(v, r). (- v, r)) (read_digits cs)
          else if c = CHR ''+'' then read_digits cs
          else read_digits (c # cs))"

text \<open>
  \<open>atoi\<close>: undefined when the value does not fit an \<open>int\<close>.
\<close>

definition atoi :: "string \<Rightarrow> int option" where
  "atoi s =
     (case read_int s of
        None \<Rightarrow> Some 0
      | Some (v, _) \<Rightarrow> if - (2 ^ 31) \<le> v \<and> v < 2 ^ 31 then Some v else None)"

section \<open>Fixed size copies\<close>

text \<open>
  \<open>strlcpy\<close> and \<open>snprintf\<close> into a buffer of \<open>n\<close> bytes keep at most \<open>n - 1\<close> bytes and
  return the length they wanted.
\<close>

definition fit :: "nat \<Rightarrow> string \<Rightarrow> string" where
  "fit n s = take (n - 1) s"

lemma length_fit [simp]: "length (fit n s) = min (n - 1) (length s)"
  by (simp add: fit_def min.commute)

lemma fit_id: "length s < n \<Longrightarrow> fit n s = s"
  by (simp add: fit_def)

section \<open>Linked lists\<close>

text \<open>
  A singly or doubly linked list is the list of its elements.  Deleting the element a
  search found is deleting the first one that satisfies the predicate; updating it in
  place replaces the first one.
\<close>

fun delete_first :: "('a \<Rightarrow> bool) \<Rightarrow> 'a list \<Rightarrow> 'a list" where
  "delete_first P [] = []"
| "delete_first P (x # xs) = (if P x then xs else x # delete_first P xs)"

fun update_first :: "('a \<Rightarrow> bool) \<Rightarrow> ('a \<Rightarrow> 'a) \<Rightarrow> 'a list \<Rightarrow> 'a list" where
  "update_first P f [] = []"
| "update_first P f (x # xs) = (if P x then f x # xs else x # update_first P f xs)"

lemma set_delete_first: "set (delete_first P xs) \<subseteq> set xs"
  by (induction xs) auto

lemma delete_first_id: "\<not> (\<exists>x \<in> set xs. P x) \<Longrightarrow> delete_first P xs = xs"
  by (induction xs) auto

lemma find_delete_first_other:
  "(\<And>x. P x \<Longrightarrow> \<not> Q x) \<Longrightarrow> find Q (delete_first P xs) = find Q xs"
  by (induction xs) auto

lemma map_update_first: "(\<And>x. g (f x) = g x) \<Longrightarrow> map g (update_first P f xs) = map g xs"
  by (induction xs) auto

lemma find_update_first_same:
  "(\<And>x. P (f x) = P x) \<Longrightarrow> find P (update_first P f xs) = map_option f (find P xs)"
  by (induction xs) auto

lemma find_update_first_other:
  "(\<And>x. P x \<Longrightarrow> \<not> Q x) \<Longrightarrow> (\<And>x. Q (f x) = Q x) \<Longrightarrow>
     find Q (update_first P f xs) = find Q xs"
  by (induction xs) auto

lemma length_update_first [simp]: "length (update_first P f xs) = length xs"
  by (induction xs) auto

lemma ball_update_first:
  "\<forall>x \<in> set xs. Q x \<Longrightarrow> (\<And>x. Q x \<Longrightarrow> Q (f x)) \<Longrightarrow> \<forall>x \<in> set (update_first P f xs). Q x"
  by (induction xs) auto

lemma update_first_id: "\<not> (\<exists>x \<in> set xs. P x) \<Longrightarrow> update_first P f xs = xs"
  by (induction xs) auto

lemma find_None_iff': "find P xs = None \<longleftrightarrow> (\<forall>x \<in> set xs. \<not> P x)"
  by (auto simp: find_None_iff)

lemma find_SomeD: "find P xs = Some x \<Longrightarrow> x \<in> set xs \<and> P x"
  by (induction xs) (auto split: if_splits)

lemma distinct_map_delete_first:
  "distinct (map f xs) \<Longrightarrow> distinct (map f (delete_first P xs))"
  by (induction xs) (use set_delete_first in \<open>fastforce split: if_splits\<close>)+

lemma find_delete_first_same:
  assumes "distinct (map f xs)" and P: "\<And>x. P x = (f x = k)"
  shows "find P (delete_first P xs) = None"
  using assms(1)
proof (induction xs)
  case Nil
  then show ?case by simp
next
  case (Cons a xs)
  show ?case
  proof (cases "P a")
    case True
    with Cons.prems P have "\<forall>x \<in> set xs. \<not> P x" by (metis distinct.simps(2) image_eqI list.map(2) list.set_map)
    with True show ?thesis by (simp add: find_None_iff')
  next
    case False
    with Cons show ?thesis by simp
  qed
qed

section \<open>Case insensitive collections\<close>

text \<open>
  The contract of the collections keyed by a name up to case: the criteria of a rule and
  the members of a channel.  Its clients (configuration, \<open>RULE-ADD\<close> and \<open>RULE-EDIT\<close>,
  the NAMES reply) add and remove names one after the other and rely on these laws.
\<close>

locale ci_set =
  fixes wf :: "'c \<Rightarrow> bool"
    and has :: "'c \<Rightarrow> string \<Rightarrow> bool"
    and add :: "'c \<Rightarrow> string \<Rightarrow> 'c"
    and remove :: "'c \<Rightarrow> string \<Rightarrow> 'c"
  assumes has_add: "wf c \<Longrightarrow> has (add c v) w = (strcaseeq v w \<or> has c w)"
    and has_remove: "wf c \<Longrightarrow> has (remove c v) w = (\<not> strcaseeq v w \<and> has c w)"
    and wf_add: "wf c \<Longrightarrow> wf (add c v)"
    and wf_remove: "wf c \<Longrightarrow> wf (remove c v)"
begin

lemma wf_add_all: "wf c \<Longrightarrow> wf (foldl add c vs)"
  by (induction vs arbitrary: c) (simp_all add: wf_add)

lemma has_add_all:
  "wf c \<Longrightarrow> has (foldl add c vs) w = (has c w \<or> (\<exists>v \<in> set vs. strcaseeq v w))"
  by (induction vs arbitrary: c) (auto simp: wf_add has_add)

lemma wf_remove_all: "wf c \<Longrightarrow> wf (foldl remove c vs)"
  by (induction vs arbitrary: c) (simp_all add: wf_remove)

lemma has_remove_all:
  "wf c \<Longrightarrow> has (foldl remove c vs) w = (has c w \<and> \<not> (\<exists>v \<in> set vs. strcaseeq v w))"
  by (induction vs arbitrary: c) (auto simp: wf_remove has_remove)

lemma add_then_remove:
  "wf c \<Longrightarrow> has (remove (add c v) v) w = (\<not> strcaseeq v w \<and> has c w)"
  by (auto simp: wf_add has_remove has_add)

end

section \<open>Bounded output\<close>

text \<open>
  The contract of the buffers that are appended to and refuse what does not fit: the
  output of a connection and the buffer a template is expanded into.
\<close>

fun append_all :: "('b \<Rightarrow> 'd \<Rightarrow> 'e + 'b) \<Rightarrow> 'b \<Rightarrow> 'd list \<Rightarrow> 'e + 'b" where
  "append_all app b [] = Inr b"
| "append_all app b (d # ds) = (case app b d of Inl e \<Rightarrow> Inl e | Inr b' \<Rightarrow> append_all app b' ds)"

locale bounded_append =
  fixes contents :: "'b \<Rightarrow> string"
    and room :: "'b \<Rightarrow> nat"
    and app :: "'b \<Rightarrow> 'd \<Rightarrow> 'e + 'b"
    and bytes :: "'d \<Rightarrow> string"
  assumes app_contents: "app b d = Inr b' \<Longrightarrow> contents b' = contents b @ bytes d"
    and app_room: "app b d = Inr b' \<Longrightarrow> room b' + length (bytes d) = room b"
begin

lemma app_capacity: "app b d = Inr b' \<Longrightarrow> length (contents b') + room b' = length (contents b) + room b"
  using app_contents app_room by fastforce

lemma append_all_contents:
  "append_all app b ds = Inr b' \<Longrightarrow> contents b' = contents b @ concat (map bytes ds)"
  by (induction ds arbitrary: b) (auto simp: app_contents split: sum.splits)

lemma append_all_capacity:
  "append_all app b ds = Inr b' \<Longrightarrow> length (contents b') + room b' = length (contents b) + room b"
  by (induction ds arbitrary: b) (auto simp: app_capacity split: sum.splits)

end

section \<open>Registries\<close>

text \<open>
  The contract of the collections of the bot: objects found by their exact name.  Adding
  an object stores what becomes of it (a server is connected, a plugin is loaded) or is
  refused; removing takes out the object of that name.
\<close>

locale registry =
  fixes wf :: "'r \<Rightarrow> bool"
    and key :: "'x \<Rightarrow> string"
    and get :: "'r \<Rightarrow> string \<Rightarrow> 'x option"
    and add :: "'r \<Rightarrow> 'x \<Rightarrow> 'r option"
    and stored :: "'x \<Rightarrow> 'x"
    and remove :: "'r \<Rightarrow> string \<Rightarrow> 'r"
  assumes add_refused: "wf r \<Longrightarrow> get r (key x) \<noteq> None \<Longrightarrow> add r x = None"
    and get_add: "wf r \<Longrightarrow> add r x = Some r' \<Longrightarrow> get r' k = (if k = key x then Some (stored x) else get r k)"
    and wf_add: "wf r \<Longrightarrow> add r x = Some r' \<Longrightarrow> wf r'"
    and get_remove: "wf r \<Longrightarrow> get (remove r n) k = (if k = n then None else get r k)"
    and wf_remove: "wf r \<Longrightarrow> wf (remove r n)"
begin

lemma add_new: "wf r \<Longrightarrow> add r x = Some r' \<Longrightarrow> get r (key x) = None"
  using add_refused by fastforce

lemma add_twice: "wf r \<Longrightarrow> add r x = Some r' \<Longrightarrow> key y = key x \<Longrightarrow> add r' y = None"
  using add_refused get_add wf_add by (metis option.distinct(1))

lemma remove_added:
  "wf r \<Longrightarrow> add r x = Some r' \<Longrightarrow> get (remove r' (key x)) k = get r k"
  using add_new get_add get_remove wf_add by auto

lemma wf_remove_all: "wf r \<Longrightarrow> wf (foldl remove r ns)"
  by (induction ns arbitrary: r) (simp_all add: wf_remove)

lemma get_remove_all: "wf r \<Longrightarrow> get (foldl remove r ns) k = (if k \<in> set ns then None else get r k)"
  by (induction ns arbitrary: r) (auto simp: wf_remove get_remove)

end

text \<open>Lists whose elements are found by name.\<close>

definition find_key :: "('x \<Rightarrow> string) \<Rightarrow> 'x list \<Rightarrow> string \<Rightarrow> 'x option" where
  "find_key key xs name = find (\<lambda>x. key x = name) xs"

definition delete_key :: "('x \<Rightarrow> string) \<Rightarrow> 'x list \<Rightarrow> string \<Rightarrow> 'x list" where
  "delete_key key xs name = delete_first (\<lambda>x. key x = name) xs"

lemma find_key_Cons [simp]:
  "find_key key (x # xs) name = (if key x = name then Some x else find_key key xs name)"
  by (simp add: find_key_def)

lemma find_key_append:
  "find_key key (xs @ [x]) name =
     (case find_key key xs name of Some y \<Rightarrow> Some y | None \<Rightarrow> if key x = name then Some x else None)"
  by (induction xs) (simp_all add: find_key_def)

lemma find_key_None: "find_key key xs name = None \<longleftrightarrow> name \<notin> key ` set xs"
  by (auto simp: find_key_def find_None_iff')

lemma find_key_Some: "find_key key xs name = Some x \<Longrightarrow> key x = name \<and> x \<in> set xs"
  by (auto simp: find_key_def dest: find_SomeD)

lemma find_delete_key:
  "distinct (map key xs) \<Longrightarrow> find_key key (delete_key key xs n) k = (if k = n then None else find_key key xs k)"
proof (induction xs)
  case (Cons x xs)
  then show ?case using find_key_None [of key xs n] by (auto simp: delete_key_def)
qed (simp add: find_key_def delete_key_def)

lemma distinct_delete_key: "distinct (map key xs) \<Longrightarrow> distinct (map key (delete_key key xs n))"
  by (simp add: delete_key_def distinct_map_delete_first)

end
