(* ===== verification/Conn.thy ===== *)
theory Conn
  imports Prelude
begin

text \<open>
  The IRC connection (\<open>lib/irccd/conn.c\<close>, \<open>conn.h\<close>): parsing of raw messages, the input
  and output buffers, the socket callbacks and the connection state machine.

  The buffers are the bytes in use (\<open>insz\<close> and \<open>outsz\<close> are their lengths).  System calls
  are outcomes given to the model: a list of results for a call made in a loop, in the
  order the kernel gives them; \<open>None\<close> for such a loop means that it has not ended when
  the outcomes are used up.  The coroutine library and \<open>libev\<close> are not modelled: what a
  coroutine does between two yields is one function here.
\<close>

section \<open>Messages\<close>

record conn_msg =
  m_prefix :: "string option"
  m_cmd :: string
  m_args :: "string list"

text \<open>
  \<open>irc__conn_msg_scan\<close>: cut the line at the next space and move behind it, or to the end.
\<close>

definition irc__conn_msg_scan :: "string \<Rightarrow> string \<times> string" where
  "irc__conn_msg_scan line =
     (case split_at CHR '' '' line of (a, Some r) \<Rightarrow> (a, r) | (a, None) \<Rightarrow> (a, []))"

lemma scan_shorter: "line \<noteq> [] \<Longrightarrow> length (snd (irc__conn_msg_scan line)) < length line"
  by (auto simp: irc__conn_msg_scan_def split_at_Some split: prod.splits option.splits)

function parse_args :: "string \<Rightarrow> string list" where
  "parse_args ptr =
     (if ptr = [] then []
      else if hd ptr = CHR '':'' then [tl ptr]
      else fst (irc__conn_msg_scan ptr) # parse_args (snd (irc__conn_msg_scan ptr)))"
  by pat_completeness auto
termination
  by (relation "measure length") (auto simp: scan_shorter)

declare parse_args.simps [simp del]

definition parse_line :: "string \<Rightarrow> conn_msg" where
  "parse_line ptr =
     (let (prefix, p1) =
            (if ptr \<noteq> [] \<and> hd ptr = CHR '':''
             then (case irc__conn_msg_scan (tl ptr) of (a, r) \<Rightarrow> (Some a, r))
             else (None, ptr));
          (cmd, p2) = irc__conn_msg_scan p1
      in \<lparr>m_prefix = prefix, m_cmd = cmd, m_args = parse_args p2\<rparr>)"

text \<open>\<open>strndup\<close> stops at a NUL byte.\<close>

definition irc__conn_msg_parse :: "string \<Rightarrow> nat \<Rightarrow> conn_msg" where
  "irc__conn_msg_parse line linesz = parse_line (takeWhile (\<lambda>c. c \<noteq> NUL) (take linesz line))"

definition irc__conn_msg_is_ctcp :: "string \<Rightarrow> bool" where
  "irc__conn_msg_is_ctcp line =
     (if length line < 2 then False else hd line = SOH \<and> last line = SOH)"

definition irc__conn_msg_ctcp :: "string \<Rightarrow> string" where
  "irc__conn_msg_ctcp line =
     (let l1 = (if line \<noteq> [] \<and> hd line = SOH then tl line else line);
          l2 = takeWhile (\<lambda>c. c \<noteq> SOH) l1
      in if strneq l2 ''ACTION '' 7 then drop 7 l2 else l2)"

subsection \<open>Printing and parsing\<close>

text \<open>
  The wire form of a message: the last argument may be a trailing one, written behind a
  colon, all others are words.
\<close>

definition word_arg :: "string \<Rightarrow> bool" where
  "word_arg a = (a \<noteq> [] \<and> CHR '' '' \<notin> set a \<and> hd a \<noteq> CHR '':'')"

fun print_args :: "string list \<Rightarrow> string option \<Rightarrow> string" where
  "print_args [] None = []"
| "print_args [] (Some t) = CHR '' '' # CHR '':'' # t"
| "print_args (a # as) t = CHR '' '' # a @ print_args as t"

definition print_msg :: "string option \<Rightarrow> string \<Rightarrow> string list \<Rightarrow> string option \<Rightarrow> string" where
  "print_msg prefix cmd as t =
     (case prefix of None \<Rightarrow> [] | Some p \<Rightarrow> CHR '':'' # p @ '' '') @ cmd @ print_args as t"

lemma scan_space: "CHR '' '' \<notin> set a \<Longrightarrow> irc__conn_msg_scan (a @ CHR '' '' # r) = (a, r)"
  by (simp add: irc__conn_msg_scan_def split_at_append)

lemma scan_end: "CHR '' '' \<notin> set a \<Longrightarrow> irc__conn_msg_scan a = (a, [])"
proof -
  assume "CHR '' '' \<notin> set a"
  then have "split_at CHR '' '' a = (a, None)" by (simp only: split_at_None simp_thms)
  then show ?thesis by (simp add: irc__conn_msg_scan_def)
qed

lemma print_args_cases:
  "print_args as t = [] \<or> (\<exists>r. print_args as t = CHR '' '' # r \<and> parse_args r =
     parse_args (tl (print_args as t)))"
  by (cases as; cases t) auto

lemma scan_print:
  assumes "CHR '' '' \<notin> set a"
  shows "irc__conn_msg_scan (a @ print_args as t) = (a, tl (print_args as t))"
  using print_args_cases [of as t] assms by (auto simp: scan_space scan_end)

lemma parse_print_args:
  "\<forall>a \<in> set as. word_arg a \<Longrightarrow> parse_args (tl (print_args as t)) = as @ (case t of None \<Rightarrow> [] | Some x \<Rightarrow> [x])"
proof (induction as)
  case Nil
  then show ?case by (cases t) (simp_all add: parse_args.simps)
next
  case (Cons a as)
  then have "a @ print_args as t \<noteq> []" "hd (a @ print_args as t) \<noteq> CHR '':''"
    "CHR '' '' \<notin> set a" by (auto simp: word_arg_def)
  with Cons show ?case
    by (subst parse_args.simps) (simp add: scan_print)
qed

text \<open>
  C5. Parsing is the inverse of printing: a message written with an optional prefix, a
  command, words and an optional trailing argument is read back field by field, whatever
  follows it in the buffer; the trailing argument may hold spaces and colons.
\<close>
theorem msg_parse_print:
  assumes "\<forall>p. prefix = Some p \<longrightarrow> CHR '' '' \<notin> set p" and "word_arg cmd"
    and "\<forall>a \<in> set as. word_arg a" and "NUL \<notin> set (print_msg prefix cmd as t)"
  shows "irc__conn_msg_parse (print_msg prefix cmd as t @ rest) (length (print_msg prefix cmd as t)) =
     \<lparr>m_prefix = prefix, m_cmd = cmd, m_args = as @ (case t of None \<Rightarrow> [] | Some x \<Rightarrow> [x])\<rparr>"
proof -
  let ?l = "print_msg prefix cmd as t"
  have tw: "takeWhile (\<lambda>c. c \<noteq> NUL) ?l = ?l"
    using assms(4) by (auto simp: takeWhile_eq_all_conv)
  have cmd: "irc__conn_msg_scan (cmd @ print_args as t) = (cmd, tl (print_args as t))"
    "cmd \<noteq> []" "hd cmd \<noteq> CHR '':''"
    using assms(2) by (auto simp: scan_print word_arg_def)
  have "irc__conn_msg_parse (?l @ rest) (length ?l) = parse_line ?l"
    by (simp add: irc__conn_msg_parse_def tw)
  also have "\<dots> = \<lparr>m_prefix = prefix, m_cmd = cmd,
      m_args = as @ (case t of None \<Rightarrow> [] | Some x \<Rightarrow> [x])\<rparr>"
  proof (cases prefix)
    case None
    with cmd show ?thesis
      by (simp add: parse_line_def print_msg_def parse_print_args [OF assms(3)])
  next
    case (Some p)
    with assms(1) have p: "CHR '' '' \<notin> set p" by simp
    from Some cmd show ?thesis
      by (simp add: parse_line_def print_msg_def scan_space [OF p] parse_print_args [OF assms(3)])
  qed
  finally show ?thesis .
qed

theorem msg_parse_print_witness:
  "irc__conn_msg_parse '':irc.org 332 boris #test :Welcome to :: #test'' 45 =
     \<lparr>m_prefix = Some ''irc.org'', m_cmd = ''332'',
      m_args = [''boris'', ''#test'', ''Welcome to :: #test'']\<rparr>"
  using msg_parse_print [of "Some ''irc.org''" "''332''" "[''boris'', ''#test'']"
      "Some ''Welcome to :: #test''" "[]"]
  by (simp add: word_arg_def print_msg_def numeral_eq_Suc)

text \<open>
  A CTCP action is recognised and its text extracted, and the text of any other CTCP
  message is what stands between its two delimiters.
\<close>
theorem ctcp_unwrap:
  assumes "SOH \<notin> set t"
  shows "irc__conn_msg_is_ctcp (SOH # t @ [SOH]) \<and>
         irc__conn_msg_ctcp (SOH # ''ACTION '' @ t @ [SOH]) = t \<and>
         (\<not> strneq t ''ACTION '' 7 \<longrightarrow> irc__conn_msg_ctcp (SOH # t @ [SOH]) = t)"
proof -
  have tw: "takeWhile (\<lambda>c. c \<noteq> SOH) (x @ t @ [SOH]) = x @ t" if "SOH \<notin> set x" for x
  proof -
    have "\<forall>c \<in> set (x @ t). c \<noteq> SOH" using that assms by auto
    then have "takeWhile (\<lambda>c. c \<noteq> SOH) ((x @ t) @ [SOH]) = x @ t"
      by (subst takeWhile_append2) auto
    then show ?thesis by simp
  qed
  show ?thesis
    using tw [of "''ACTION ''"] tw [of "[]"]
    by (simp add: irc__conn_msg_is_ctcp_def irc__conn_msg_ctcp_def strneq_def)
qed

theorem ctcp_unwrap_witness:
  "irc__conn_msg_ctcp (SOH # ''ACTION eats'' @ [SOH]) = ''eats''"
  using ctcp_unwrap [of "''eats''"] by simp

section \<open>Connection state and buffers\<close>

datatype conn_state = STATE_RESOLVE | STATE_CONNECT | STATE_IDENT | STATE_READY

text \<open>
  The states are the C enumeration, ordered by their value: how far the connection got.
\<close>

fun state_rank :: "conn_state \<Rightarrow> nat" where
  "state_rank STATE_RESOLVE = 0"
| "state_rank STATE_CONNECT = 1"
| "state_rank STATE_IDENT = 2"
| "state_rank STATE_READY = 3"

instantiation conn_state :: linorder
begin

definition less_eq_conn_state :: "conn_state \<Rightarrow> conn_state \<Rightarrow> bool" where
  "less_eq_conn_state a b = (state_rank a \<le> state_rank b)"

definition less_conn_state :: "conn_state \<Rightarrow> conn_state \<Rightarrow> bool" where
  "less_conn_state a b = (state_rank a < state_rank b)"

instance
proof
  fix a b :: conn_state
  show "a \<le> b \<Longrightarrow> b \<le> a \<Longrightarrow> a = b"
    by (cases a; cases b) (simp_all add: less_eq_conn_state_def)
qed (auto simp: less_eq_conn_state_def less_conn_state_def)

end

text \<open>Event masks of libev: \<open>EV_READ\<close> is 1 and \<open>EV_WRITE\<close> is 2.\<close>

type_synonym io_events = c_int

definition EV_READ :: io_events where "EV_READ = 1"
definition EV_WRITE :: io_events where "EV_WRITE = 2"
definition CONN_IN_SIZE :: nat where "CONN_IN_SIZE = 8096"
definition CONN_OUT_SIZE :: nat where "CONN_OUT_SIZE = 65536"
definition IRCCD_MESSAGE_LEN :: nat where "IRCCD_MESSAGE_LEN = 512"

text \<open>
  \<open>c_ai\<close> are the endpoints from the current one on, \<open>c_events\<close> what the socket watcher
  waits for and \<open>c_idle\<close> says that the I/O coroutine has given up (\<open>conn_reschedule\<close>) and
  waits for the timer to replace it.
\<close>

record 'ep conn =
  c_state :: conn_state
  c_ai :: "'ep list"
  c_in :: string
  c_out :: string
  c_events :: io_events
  c_idle :: bool

definition conn_ok :: "'ep conn \<Rightarrow> bool" where
  "conn_ok c = (length (c_in c) \<le> CONN_IN_SIZE \<and> length (c_out c) < CONN_OUT_SIZE)"

definition conn_new :: "'ep conn" where
  "conn_new = \<lparr>c_state = STATE_RESOLVE, c_ai = [], c_in = [], c_out = [],
     c_events = 0, c_idle = False\<rparr>"

definition irc__conn_ready :: "'ep conn option \<Rightarrow> bool" where
  "irc__conn_ready conn =
     (case conn of None \<Rightarrow> False
      | Some c \<Rightarrow> c_state c = STATE_READY \<or> c_state c = STATE_IDENT)"

text \<open>
  \<open>irc__conn_push\<close> appends a message and its terminator if both fit, and leaves at least
  one byte of the buffer unused.  The subtraction does not wrap as the buffer is never
  over full.
\<close>

definition irc__conn_push :: "'ep conn \<Rightarrow> string \<Rightarrow> errno + 'ep conn" where
  "irc__conn_push c data =
     (if length data + 2 \<ge> CONN_OUT_SIZE - length (c_out c) then Inl ENOBUFS
      else Inr (c\<lparr>c_out := c_out c @ data @ [CR, LF], c_events := EV_READ OR EV_WRITE\<rparr>))"

subsection \<open>Framing\<close>

fun find_crlf :: "string \<Rightarrow> nat option" where
  "find_crlf (a # b # cs) =
     (if a = CR \<and> b = LF then Some 0 else map_option Suc (find_crlf (b # cs)))"
| "find_crlf _ = None"

text \<open>
  \<open>conn_next\<close> returns non-zero as soon as it removed a line, but fills the message in only
  for lines of 1 to 511 bytes: \<open>Stale\<close> stands for the caller's message left as it was.
\<close>

datatype delivery = Fresh conn_msg | Stale

definition conn_next :: "'ep conn \<Rightarrow> (delivery \<times> 'ep conn) option" where
  "conn_next c =
     (case find_crlf (c_in c) of
        None \<Rightarrow> None
      | Some len \<Rightarrow>
          Some (if 0 < len \<and> len < IRCCD_MESSAGE_LEN
                then Fresh (irc__conn_msg_parse (c_in c) len) else Stale,
                c\<lparr>c_in := drop (len + 2) (c_in c)\<rparr>))"

lemma find_crlf_bound: "find_crlf s = Some n \<Longrightarrow> n + 2 \<le> length s"
  by (induction s arbitrary: n rule: find_crlf.induct) (auto split: if_splits)

lemma conn_next_shorter: "conn_next c = Some (d, c') \<Longrightarrow> length (c_in c') < length (c_in c)"
  by (auto simp: conn_next_def dest: find_crlf_bound split: option.splits)

text \<open>
  The producer coroutine calls \<open>conn_next\<close> until it returns zero and pushes a message to
  the consumer after each non-zero result.
\<close>

function conn_producer :: "'ep conn \<Rightarrow> delivery list \<times> 'ep conn" where
  "conn_producer c =
     (case conn_next c of
        None \<Rightarrow> ([], c)
      | Some (d, c') \<Rightarrow> (case conn_producer c' of (ds, c'') \<Rightarrow> (d # ds, c'')))"
  by pat_completeness auto
termination
  by (relation "measure (\<lambda>c. length (c_in c))") (auto dest: conn_next_shorter)

declare conn_producer.simps [simp del]

lemma find_crlf_append: "find_crlf s = Some n \<Longrightarrow> find_crlf (s @ t) = Some n"
proof (induction s arbitrary: n rule: find_crlf.induct)
  case (1 a b cs)
  then show ?case by (auto split: if_splits)
qed auto

lemma parse_prefix: "n \<le> length s \<Longrightarrow> irc__conn_msg_parse (s @ t) n = irc__conn_msg_parse s n"
  by (simp add: irc__conn_msg_parse_def)

lemma conn_next_append:
  assumes "conn_next c = Some (d, c')"
  shows "conn_next (c\<lparr>c_in := c_in c @ t\<rparr>) = Some (d, c'\<lparr>c_in := c_in c' @ t\<rparr>)"
proof -
  from assms obtain n where n: "find_crlf (c_in c) = Some n"
    by (auto simp: conn_next_def split: option.splits)
  with find_crlf_bound [OF n] assms show ?thesis
    by (auto simp: conn_next_def find_crlf_append parse_prefix)
qed

lemma conn_producer_append:
  "conn_producer c = (ds, c') \<Longrightarrow>
     conn_producer (c\<lparr>c_in := c_in c @ t\<rparr>) =
       (case conn_producer (c'\<lparr>c_in := c_in c' @ t\<rparr>) of (es, c'') \<Rightarrow> (ds @ es, c''))"
proof (induction c arbitrary: ds c' rule: conn_producer.induct)
  case (1 c)
  show ?case
  proof (cases "conn_next c")
    case None
    with "1.prems" have "ds = []" "c' = c" by (auto simp: conn_producer.simps [of c])
    then show ?thesis by (simp split: prod.splits)
  next
    case (Some p)
    obtain d c1 where p: "p = (d, c1)" by fastforce
    obtain es c2 where es: "conn_producer c1 = (es, c2)" by fastforce
    with "1.prems" Some p have eq: "ds = d # es" "c' = c2" by (auto simp: conn_producer.simps [of c])
    from Some p have sp: "conn_next c = Some (d, c1)" by simp
    from "1.IH" [OF sp refl es] conn_next_append [OF sp, of t] eq
    show ?thesis
      by (subst conn_producer.simps) (auto split: prod.splits)
  qed
qed

text \<open>
  C4. How the bytes of the server are cut into packets does not matter: draining the
  buffer after the first packet and again after the second one delivers the same messages
  and leaves the same rest as draining it once after both.
\<close>
theorem framing_chunks:
  "fst (conn_producer (c\<lparr>c_in := x @ y\<rparr>)) =
     fst (conn_producer (c\<lparr>c_in := x\<rparr>)) @
     fst (conn_producer ((snd (conn_producer (c\<lparr>c_in := x\<rparr>)))
        \<lparr>c_in := c_in (snd (conn_producer (c\<lparr>c_in := x\<rparr>))) @ y\<rparr>)) \<and>
   c_in (snd (conn_producer (c\<lparr>c_in := x @ y\<rparr>))) =
     c_in (snd (conn_producer ((snd (conn_producer (c\<lparr>c_in := x\<rparr>)))
        \<lparr>c_in := c_in (snd (conn_producer (c\<lparr>c_in := x\<rparr>))) @ y\<rparr>)))"
proof (cases "conn_producer (c\<lparr>c_in := x\<rparr>)")
  case (Pair ds c')
  from conn_producer_append [OF Pair, of y] show ?thesis
    by (simp add: Pair split: prod.splits)
qed

text \<open>
  A blank line and a line of 512 bytes or more are removed from the buffer but still
  reported as a message: the consumer is given the message the producer's variable holds
  from before, which is uninitialised the first time and freed by the consumer afterwards.
\<close>
theorem conn_next_stale:
  assumes "find_crlf (c_in c) = Some len" and "len = 0 \<or> IRCCD_MESSAGE_LEN \<le> len"
  shows "conn_next c = Some (Stale, c\<lparr>c_in := drop (len + 2) (c_in c)\<rparr>)"
  using assms by (auto simp: conn_next_def)

theorem conn_next_stale_witness:
  "conn_next (conn_new\<lparr>c_in := [CR, LF] @ ''PING :x'' @ [CR, LF]\<rparr>) =
     Some (Stale, (conn_new :: unit conn)\<lparr>c_in := ''PING :x'' @ [CR, LF]\<rparr>)"
  using conn_next_stale [of "(conn_new :: unit conn)\<lparr>c_in := [CR, LF] @ ''PING :x'' @ [CR, LF]\<rparr>" 0]
  by simp

section \<open>Socket callbacks\<close>

text \<open>
  Results of \<open>recv\<close> and \<open>send\<close>; \<open>EWOULDBLOCK\<close> and \<open>EAGAIN\<close> are one value.  A received
  empty string is the end of the stream.
\<close>

datatype sys_err = Sys_EINTR | Sys_EAGAIN | Sys_other

datatype recv_res = Recv_ok string | Recv_err sys_err

datatype send_res = Send_ok nat | Send_err sys_err

fun conn_tcp_recv :: "recv_res list \<Rightarrow> io_events \<Rightarrow> (int \<times> string \<times> io_events) option" where
  "conn_tcp_recv [] ev = None"
| "conn_tcp_recv (Recv_err e # rs) ev =
     (if e = Sys_EINTR then conn_tcp_recv rs ev
      else if e = Sys_EAGAIN then Some (0, [], EV_READ)
      else Some (-1, [], ev))"
| "conn_tcp_recv (Recv_ok s # rs) ev =
     (if s = [] then Some (-1, [], ev) else Some (int (length s), s, ev))"

text \<open>
  The loop of \<open>conn_tcp_send\<close> goes on while \<open>send\<close> fails with anything BUT \<open>EINTR\<close>, so
  the branches behind it see no other error.
\<close>

fun conn_tcp_send :: "send_res list \<Rightarrow> nat \<Rightarrow> io_events \<Rightarrow> (int \<times> io_events) option" where
  "conn_tcp_send [] bufsz ev = None"
| "conn_tcp_send (Send_err e # rs) bufsz ev =
     (if e \<noteq> Sys_EINTR then conn_tcp_send rs bufsz ev else Some (-1, ev))"
| "conn_tcp_send (Send_ok ns # rs) bufsz ev =
     Some (int ns, if ns < bufsz then ev OR EV_WRITE else ev)"

text \<open>
  The kernel never stores more than the room it is given: a longer result is outside of
  the contract of \<open>recv\<close> and the model has no outcome for it.
\<close>

definition conn_recv ::
  "'ep conn \<Rightarrow> recv_res list \<Rightarrow> io_events \<Rightarrow> (int \<times> 'ep conn \<times> io_events) option" where
  "conn_recv c rs ev =
     do {
       (nr, data, ev') \<leftarrow> conn_tcp_recv rs ev;
       if CONN_IN_SIZE - length (c_in c) < length data then None
       else Some (nr, if 0 < nr then c\<lparr>c_in := c_in c @ data\<rparr> else c, ev')
     }"

definition conn_send ::
  "'ep conn \<Rightarrow> send_res list \<Rightarrow> io_events \<Rightarrow> (int \<times> 'ep conn \<times> io_events) option" where
  "conn_send c ss ev =
     (if c_out c = [] then Some (0, c, ev)
      else do {
        (ns, ev') \<leftarrow> conn_tcp_send ss (length (c_out c)) ev;
        Some (ns, if 0 < ns
                  then (if int (length (c_out c)) \<le> ns then c\<lparr>c_out := []\<rparr>
                        else c\<lparr>c_out := drop (nat ns) (c_out c)\<rparr>)
                  else c, ev')
      })"

record io_round =
  revents :: io_events
  recvs :: "recv_res list"
  sends :: "send_res list"

definition conn_wait :: "'ep conn \<Rightarrow> io_round \<Rightarrow> (int \<times> 'ep conn) option" where
  "conn_wait c io =
     do {
       (rc1, c1, ev1) \<leftarrow> (if revents io AND EV_READ \<noteq> 0 then conn_recv c (recvs io) EV_READ
                          else Some (0, c, EV_READ));
       if rc1 < 0 then Some (rc1, c1)
       else do {
         (rc2, c2, ev2) \<leftarrow> (if revents io AND EV_WRITE \<noteq> 0 then conn_send c1 (sends io) ev1
                            else Some (0, c1, ev1));
         if rc2 < 0 then Some (rc2, c2)
         else Some (0, if ev2 \<noteq> c_events c2 then c2\<lparr>c_events := ev2\<rparr> else c2)
       }
     }"

section \<open>The connection state machine\<close>

definition conn_reschedule :: "'ep conn \<Rightarrow> 'ep conn" where
  "conn_reschedule c = c\<lparr>c_idle := True, c_events := 0\<rparr>"

text \<open>\<open>getaddrinfo\<close> gives an error or a list of endpoints.\<close>

definition conn_resolve :: "'ep conn \<Rightarrow> 'ep list option \<Rightarrow> 'ep conn" where
  "conn_resolve c res =
     (case res of
        None \<Rightarrow> conn_reschedule c
      | Some ai_list \<Rightarrow> c\<lparr>c_state := STATE_CONNECT, c_ai := ai_list\<rparr>)"

text \<open>
  What happens to one endpoint: no socket, \<open>connect\<close> succeeds or fails at once, or it is
  in progress and \<open>SO_ERROR\<close> tells the outcome later (0 or a positive \<open>errno\<close>).
\<close>

datatype dial = Socket_failed | Connect_now | Connect_refused | Connect_later nat

fun conn_dial :: "dial \<Rightarrow> int" where
  "conn_dial Socket_failed = -1"
| "conn_dial Connect_now = 0"
| "conn_dial Connect_refused = -1"
| "conn_dial (Connect_later so_error) = int so_error"

fun conn_connect_loop :: "int \<Rightarrow> 'ep list \<Rightarrow> dial list \<Rightarrow> (int \<times> 'ep list) option" where
  "conn_connect_loop rc [] ds = None"
| "conn_connect_loop rc (ep # eps) [] = None"
| "conn_connect_loop rc (ep # eps) (d # ds) =
     (let rc' = (if conn_dial d < 0 then -1 else rc)
      in if rc' = 0 then Some (0, ep # eps)
         else if eps = [] then Some (rc', [])
         else conn_connect_loop rc' eps ds)"

definition conn_connect :: "'ep conn \<Rightarrow> dial list \<Rightarrow> 'ep conn option" where
  "conn_connect c ds =
     do {
       (rc, eps) \<leftarrow> conn_connect_loop 0 (c_ai c) ds;
       Some (if rc < 0 then conn_reschedule (c\<lparr>c_ai := eps\<rparr>)
             else c\<lparr>c_ai := eps, c_events := EV_READ, c_state := STATE_IDENT\<rparr>)
     }"

text \<open>The wait loop of \<open>conn_ident\<close>; what it sends first is in the server's model.\<close>

fun conn_ident_wait :: "'ep conn \<Rightarrow> io_round list \<Rightarrow> 'ep conn option" where
  "conn_ident_wait c [] = (if c_out c = [] then Some (c\<lparr>c_state := STATE_READY\<rparr>) else None)"
| "conn_ident_wait c (io # ios) =
     (if c_out c = [] then Some (c\<lparr>c_state := STATE_READY\<rparr>)
      else case conn_wait c io of
             None \<Rightarrow> None
           | Some (rc, c') \<Rightarrow> if rc = 0 then conn_ident_wait c' ios else Some (conn_reschedule c'))"

text \<open>One turn of the loop of \<open>conn_ready\<close>, with what follows the loop when it ends.\<close>

definition internal_000 :: string where
  "internal_000 = '':internal 000'' @ [CR, LF]"

definition conn_ready :: "'ep conn \<Rightarrow> io_round \<Rightarrow> 'ep conn option" where
  "conn_ready c io =
     map_option (\<lambda>(rc, c'). if rc = 0 then c'
        else conn_reschedule (c'\<lparr>c_in := internal_000\<rparr>)) (conn_wait c io)"

text \<open>
  The timer coroutine destroys the I/O coroutine, whose finalizer drops the endpoints and
  the socket; after the delay a new one starts in the first state.  The buffers stay.
\<close>

definition conn_io_finalizer :: "'ep conn \<Rightarrow> 'ep conn" where
  "conn_io_finalizer c = c\<lparr>c_ai := [], c_events := 0\<rparr>"

definition conn_io_entry :: "'ep conn \<Rightarrow> 'ep conn" where
  "conn_io_entry c = c\<lparr>c_state := STATE_RESOLVE, c_idle := False\<rparr>"

definition conn_timer_resurrect :: "'ep conn \<Rightarrow> 'ep conn" where
  "conn_timer_resurrect c = conn_io_entry (conn_io_finalizer c)"

subsection \<open>Bounds of the buffers\<close>

lemma push_Inr:
  "irc__conn_push c data = Inr c' \<longleftrightarrow>
     length data + 2 < CONN_OUT_SIZE - length (c_out c) \<and>
     c' = c\<lparr>c_out := c_out c @ data @ [CR, LF], c_events := EV_READ OR EV_WRITE\<rparr>"
  by (auto simp: irc__conn_push_def not_le)

lemma push_ok: "irc__conn_push c data = Inr c' \<Longrightarrow> conn_ok c \<Longrightarrow> conn_ok c'"
  by (auto simp: push_Inr conn_ok_def)

lemma push_fields:
  "irc__conn_push c data = Inr c' \<Longrightarrow>
     c_state c' = c_state c \<and> c_ai c' = c_ai c \<and> c_idle c' = c_idle c \<and> c_in c' = c_in c"
  by (auto simp: push_Inr)

lemma tcp_recv_size:
  "conn_tcp_recv rs ev = Some (nr, data, ev') \<Longrightarrow> 0 < nr \<Longrightarrow> nr = int (length data)"
  by (induction rs ev rule: conn_tcp_recv.induct) (auto split: if_splits)

lemma conn_recv_ok:
  assumes "conn_recv c rs ev = Some (nr, c', ev')" and "conn_ok c"
  shows "conn_ok c'"
  using assms
  by (auto simp: conn_recv_def conn_ok_def bind_eq_Some_conv split: if_splits)

lemma conn_send_out:
  assumes "conn_send c ss ev = Some (ns, c', ev')"
  shows "c_out c = take (nat ns) (c_out c) @ c_out c'"
  using assms
  by (auto simp: conn_send_def bind_eq_Some_conv split: if_splits)

lemma conn_send_ok:
  assumes "conn_send c ss ev = Some (ns, c', ev')" and "conn_ok c"
  shows "conn_ok c'"
  using assms
  by (auto simp: conn_send_def conn_ok_def bind_eq_Some_conv split: if_splits)

lemma conn_recv_fields:
  "conn_recv c rs ev = Some (nr, c', ev') \<Longrightarrow>
     c_state c' = c_state c \<and> c_ai c' = c_ai c \<and> c_idle c' = c_idle c \<and> c_out c' = c_out c"
  by (auto simp: conn_recv_def bind_eq_Some_conv split: if_splits)

lemma conn_send_fields:
  "conn_send c ss ev = Some (ns, c', ev') \<Longrightarrow>
     c_state c' = c_state c \<and> c_ai c' = c_ai c \<and> c_idle c' = c_idle c \<and> c_in c' = c_in c"
  by (auto simp: conn_send_def bind_eq_Some_conv split: if_splits)

text \<open>A round is a reception and an emission, each of which may be skipped.\<close>

lemma conn_wait_cases:
  assumes "conn_wait c io = Some (rc, c')"
  obtains c1 c2 ns ss ev1 ev2 rs nr ev0 where
    "c1 = c \<or> conn_recv c rs EV_READ = Some (nr, c1, ev0)"
    "c2 = c1 \<or> conn_send c1 ss ev1 = Some (ns, c2, ev2)"
    "\<exists>e. c' = c2\<lparr>c_events := e\<rparr>"
proof -
  from assms obtain rc1 c1 ev1 where
    1: "(if revents io AND EV_READ \<noteq> 0 then conn_recv c (recvs io) EV_READ
         else Some (0, c, EV_READ)) = Some (rc1, c1, ev1)"
    by (auto simp: conn_wait_def bind_eq_Some_conv)
  then have r: "c1 = c \<or> conn_recv c (recvs io) EV_READ = Some (rc1, c1, ev1)"
    by (auto split: if_splits)
  show ?thesis
  proof (cases "rc1 < 0")
    case True
    with assms 1 have "c' = c1" by (simp add: conn_wait_def)
    then have "\<exists>e. c' = c1\<lparr>c_events := e\<rparr>" by (metis conn.surjective conn.update_convs(5))
    with r that show ?thesis by blast
  next
    case False
    with assms 1 obtain rc2 c2 ev2 where
      2: "(if revents io AND EV_WRITE \<noteq> 0 then conn_send c1 (sends io) ev1
           else Some (0, c1, ev1)) = Some (rc2, c2, ev2)"
      and 3: "c' = c2 \<or> c' = c2\<lparr>c_events := ev2\<rparr>"
      by (auto simp: conn_wait_def bind_eq_Some_conv split: if_splits)
    from 2 have "c2 = c1 \<or> conn_send c1 (sends io) ev1 = Some (rc2, c2, ev2)"
      by (auto split: if_splits)
    moreover from 3 have "\<exists>e. c' = c2\<lparr>c_events := e\<rparr>"
      by (metis conn.surjective conn.update_convs(5))
    ultimately show ?thesis using r that by blast
  qed
qed

lemma conn_ok_events [simp]: "conn_ok (c\<lparr>c_events := e\<rparr>) = conn_ok c"
  by (simp add: conn_ok_def)

lemma conn_wait_ok: "conn_wait c io = Some (rc, c') \<Longrightarrow> conn_ok c \<Longrightarrow> conn_ok c'"
  by (erule conn_wait_cases) (auto dest: conn_recv_ok conn_send_ok)

lemma conn_wait_fields:
  "conn_wait c io = Some (rc, c') \<Longrightarrow>
     c_state c' = c_state c \<and> c_ai c' = c_ai c \<and> c_idle c' = c_idle c"
  by (erule conn_wait_cases) (auto dest!: conn_recv_fields conn_send_fields)

lemma conn_ident_wait_ok:
  "conn_ident_wait c ios = Some c' \<Longrightarrow> conn_ok c \<Longrightarrow> conn_ok c'"
proof (induction c ios rule: conn_ident_wait.induct)
  case (1 c)
  then show ?case by (auto simp: conn_ok_def split: if_splits)
next
  case (2 c io ios)
  then show ?case
    by (auto simp: conn_ok_def conn_reschedule_def split: if_splits option.splits
        dest!: conn_wait_ok)
qed

lemma conn_ident_wait_state:
  "conn_ident_wait c ios = Some c' \<Longrightarrow> c_state c = STATE_IDENT \<Longrightarrow>
     c_state c' = STATE_READY \<or> c_idle c' \<and> c_state c' = STATE_IDENT"
proof (induction c ios rule: conn_ident_wait.induct)
  case (1 c)
  then show ?case by (auto split: if_splits)
next
  case (2 c io ios)
  then show ?case
    by (auto simp: conn_reschedule_def split: if_splits option.splits dest!: conn_wait_fields)
qed

subsection \<open>Reachable connections\<close>

text \<open>
  The steps of a connection: one turn of the state machine of \<open>conn_io_entry\<close> in the
  state it is in, a message taken by the producer, a message queued by the client and the
  restart by the timer.  The resolver gives at least one endpoint when it succeeds, as
  \<open>getaddrinfo\<close> documents.
\<close>

inductive conn_step :: "'ep conn \<Rightarrow> 'ep conn \<Rightarrow> bool" where
  step_resolve: "c_state c = STATE_RESOLVE \<Longrightarrow> \<not> c_idle c \<Longrightarrow> res \<noteq> Some [] \<Longrightarrow>
     conn_step c (conn_resolve c res)"
| step_connect: "c_state c = STATE_CONNECT \<Longrightarrow> \<not> c_idle c \<Longrightarrow> conn_connect c ds = Some c' \<Longrightarrow>
     conn_step c c'"
| step_ident: "c_state c = STATE_IDENT \<Longrightarrow> \<not> c_idle c \<Longrightarrow> conn_ident_wait c ios = Some c' \<Longrightarrow>
     conn_step c c'"
| step_ready: "c_state c = STATE_READY \<Longrightarrow> \<not> c_idle c \<Longrightarrow> conn_ready c io = Some c' \<Longrightarrow>
     conn_step c c'"
| step_next: "conn_next c = Some (d, c') \<Longrightarrow> conn_step c c'"
| step_push: "irc__conn_push c data = Inr c' \<Longrightarrow> conn_step c c'"
| step_restart: "conn_step c (conn_timer_resurrect c)"

inductive_cases conn_stepE: "conn_step c c'"

inductive conn_reachable :: "'ep conn \<Rightarrow> bool" where
  reach_new: "conn_reachable conn_new"
| reach_step: "conn_reachable c \<Longrightarrow> conn_step c c' \<Longrightarrow> conn_reachable c'"

text \<open>
  The invariant of reachable connections, and what a step may do to the state: it moves
  forward, except for the timer.
\<close>

definition conn_inv :: "'ep conn \<Rightarrow> bool" where
  "conn_inv c = (conn_ok c \<and> (c_state c = STATE_CONNECT \<and> \<not> c_idle c \<longrightarrow> c_ai c \<noteq> []))"

lemma conn_connect_cases:
  assumes "conn_connect c ds = Some c'"
  shows "(c_state c' = STATE_IDENT \<and> c_idle c' = c_idle c \<or> c_state c' = c_state c \<and> c_idle c') \<and>
    c_in c' = c_in c \<and> c_out c' = c_out c"
  using assms by (auto simp: conn_connect_def conn_reschedule_def bind_eq_Some_conv split: if_splits)

lemma conn_next_fields:
  "conn_next c = Some (d, c') \<Longrightarrow>
     c_state c' = c_state c \<and> c_ai c' = c_ai c \<and> c_idle c' = c_idle c \<and> c_out c' = c_out c"
  by (auto simp: conn_next_def split: option.splits)

lemma conn_next_ok: "conn_next c = Some (d, c') \<Longrightarrow> conn_ok c \<Longrightarrow> conn_ok c'"
  by (auto simp: conn_next_def conn_ok_def split: option.splits)

lemma conn_ready_ok: "conn_ready c io = Some c' \<Longrightarrow> conn_ok c \<Longrightarrow> conn_ok c'"
  by (auto simp: conn_ready_def conn_reschedule_def conn_ok_def internal_000_def CONN_IN_SIZE_def
      dest!: conn_wait_ok split: if_splits)

lemma conn_ready_state: "conn_ready c io = Some c' \<Longrightarrow> c_state c' = c_state c"
  by (auto simp: conn_ready_def conn_reschedule_def dest!: conn_wait_fields split: if_splits)

lemma conn_inv_step:
  assumes "conn_step c c'" and "conn_inv c"
  shows "conn_inv c'"
  using assms
proof (cases rule: conn_step.cases)
  case (step_resolve res)
  then show ?thesis using assms(2)
    by (auto simp: conn_inv_def conn_ok_def conn_resolve_def conn_reschedule_def split: option.splits)
next
  case (step_connect ds)
  then show ?thesis using assms(2) conn_connect_cases [OF step_connect(3)]
    by (auto simp: conn_inv_def conn_ok_def)
next
  case (step_ident ios)
  then show ?thesis using assms(2) conn_ident_wait_state [OF step_ident(3)] conn_ident_wait_ok [OF step_ident(3)]
    by (auto simp: conn_inv_def)
next
  case (step_ready io)
  then show ?thesis using assms(2) conn_ready_ok [OF step_ready(3)] conn_ready_state [OF step_ready(3)]
    by (auto simp: conn_inv_def)
next
  case (step_next d)
  then show ?thesis using assms(2) conn_next_ok conn_next_fields by (fastforce simp: conn_inv_def)
next
  case (step_push data)
  then show ?thesis using assms(2) push_ok push_fields by (fastforce simp: conn_inv_def)
next
  case step_restart
  then show ?thesis using assms(2)
    by (simp add: conn_inv_def conn_ok_def conn_timer_resurrect_def conn_io_entry_def conn_io_finalizer_def)
qed

lemma conn_inv_reachable: "conn_reachable c \<Longrightarrow> conn_inv c"
proof (induction rule: conn_reachable.induct)
  case reach_new
  then show ?case by (simp add: conn_inv_def conn_ok_def conn_new_def CONN_IN_SIZE_def CONN_OUT_SIZE_def)
next
  case (reach_step c c')
  then show ?case by (blast intro: conn_inv_step)
qed

text \<open>
  C3. Whatever the peers, the resolver and the client do, the input buffer never exceeds
  its 8096 bytes, the output buffer always keeps a free byte of its 65536, and while an
  active connection looks for an endpoint there is a current one to dial.
\<close>
theorem conn_invariant:
  assumes "conn_reachable c"
  shows "length (c_in c) \<le> CONN_IN_SIZE \<and> length (c_out c) < CONN_OUT_SIZE \<and>
    (c_state c = STATE_CONNECT \<and> \<not> c_idle c \<longrightarrow> c_ai c \<noteq> [])"
  using conn_inv_reachable [OF assms] by (simp add: conn_inv_def conn_ok_def)

lemma reachable_one: "conn_reachable (conn_resolve conn_new (Some [ep]))"
  by (rule reach_step [OF reach_new], rule step_resolve) (simp_all add: conn_new_def)

theorem conn_invariant_witness:
  "length (c_in (conn_resolve conn_new (Some [1 :: nat]))) \<le> CONN_IN_SIZE \<and>
   c_ai (conn_resolve conn_new (Some [1 :: nat])) \<noteq> []"
  using conn_invariant [OF reachable_one [of "1 :: nat"]]
  by (simp add: conn_resolve_def conn_new_def)

lemma conn_step_forward:
  assumes "conn_step c c'" and "c' \<noteq> conn_timer_resurrect c"
  shows "c_state c \<le> c_state c'"
  using assms
proof (cases rule: conn_step.cases)
  case (step_resolve res)
  then show ?thesis by (auto simp: less_eq_conn_state_def)
next
  case (step_connect ds)
  then show ?thesis using conn_connect_cases [OF step_connect(3)] by (auto simp: less_eq_conn_state_def)
next
  case (step_ident ios)
  then show ?thesis using conn_ident_wait_state [OF step_ident(3)] by (auto simp: less_eq_conn_state_def)
next
  case (step_ready io)
  then show ?thesis using conn_ready_state [OF step_ready(3)] by simp
next
  case (step_next d)
  then show ?thesis using conn_next_fields [OF step_next] by simp
next
  case (step_push data)
  then show ?thesis using push_fields [OF step_push] by simp
qed simp

text \<open>
  The state machine only moves forward: every step other than a restart by the timer
  keeps the state or goes to a later one, and a restart begins again at the resolution.
\<close>
theorem conn_state_forward:
  assumes "conn_step c c'"
  shows "c_state c \<le> c_state c' \<or> c' = conn_timer_resurrect c \<and> c_state c' = STATE_RESOLVE"
proof (cases "c' = conn_timer_resurrect c")
  case True
  then show ?thesis by (simp add: conn_timer_resurrect_def conn_io_entry_def)
next
  case False
  with conn_step_forward [OF assms] show ?thesis by simp
qed

theorem conn_state_forward_witness:
  "c_state (conn_new :: nat conn) \<le> c_state (conn_resolve conn_new (Some [1 :: nat]))"
proof -
  have step: "conn_step (conn_new :: nat conn) (conn_resolve conn_new (Some [1]))"
    by (rule step_resolve) (simp_all add: conn_new_def)
  from conn_state_forward [OF step] show ?thesis
    by (auto simp: conn_new_def conn_resolve_def less_eq_conn_state_def)
qed

section \<open>Sending\<close>

text \<open>
  What a client does to the output: it queues messages and the coroutine sends what the
  socket takes.  The run gives the wire form of the accepted messages and the bytes
  handed to the kernel.
\<close>

datatype out_op = Queue string | Flush "send_res list"

definition wire :: "string \<Rightarrow> string" where
  "wire data = data @ [CR, LF]"

fun output_run :: "'ep conn \<Rightarrow> out_op list \<Rightarrow> (string \<times> string \<times> 'ep conn) option" where
  "output_run c [] = Some ([], [], c)"
| "output_run c (Queue data # ops) =
     (case irc__conn_push c data of
        Inl _ \<Rightarrow> output_run c ops
      | Inr c' \<Rightarrow> map_option (\<lambda>(a, s, c''). (wire data @ a, s, c'')) (output_run c' ops))"
| "output_run c (Flush ss # ops) =
     do {
       (ns, c', _) \<leftarrow> conn_send c ss 0;
       (a, s, c'') \<leftarrow> output_run c' ops;
       Some (a, take (nat ns) (c_out c) @ s, c'')
     }"

text \<open>
  C18. The output is first in first out and loses nothing: the bytes sent followed by
  those still in the buffer are the ones that were in it followed by the messages
  accepted, each with its terminator, in their order.  A message that does not fit is
  refused as a whole.
\<close>
theorem output_fifo:
  assumes "output_run c ops = Some (accepted, sent, c')"
  shows "c_out c @ accepted = sent @ c_out c'"
  using assms
proof (induction c ops arbitrary: accepted sent c' rule: output_run.induct)
  case (1 c)
  then show ?case by simp
next
  case (2 c data ops)
  show ?case
  proof (cases "irc__conn_push c data")
    case (Inl e)
    with 2 show ?thesis by simp
  next
    case (Inr c1)
    with "2.prems" obtain a where run: "output_run c1 ops = Some (a, sent, c')"
      and a: "accepted = wire data @ a" by auto
    from Inr have "c_out c1 = c_out c @ wire data" by (simp add: push_Inr wire_def)
    with "2.IH" (2) [OF Inr run] a show ?thesis by simp
  qed
next
  case (3 c ss ops)
  from "3.prems" obtain ns c1 ev s where send: "conn_send c ss 0 = Some (ns, c1, ev)"
    and run: "output_run c1 ops = Some (accepted, s, c')" and sent: "sent = take (nat ns) (c_out c) @ s"
    by (auto simp: bind_eq_Some_conv)
  have "c_out c @ accepted = take (nat ns) (c_out c) @ c_out c1 @ accepted"
    by (subst (1) conn_send_out [OF send]) (simp only: append.assoc)
  also have "c_out c1 @ accepted = s @ c_out c'"
    by (rule "3.IH" [OF send refl refl run])
  finally show ?case by (simp add: sent)
qed

theorem output_fifo_witness:
  "output_run (conn_new :: unit conn) [Queue ''A'', Queue ''B'', Flush [Send_ok 4]] =
     Some (wire ''A'' @ wire ''B'', ''A'' @ [CR, LF] @ ''B'', conn_new\<lparr>c_out := [CR, LF], c_events := 3\<rparr>) \<and>
   ([] :: string) @ wire ''A'' @ wire ''B'' = (''A'' @ [CR, LF] @ ''B'') @ [CR, LF]"
proof -
  have run: "output_run (conn_new :: unit conn) [Queue ''A'', Queue ''B'', Flush [Send_ok 4]] =
     Some (wire ''A'' @ wire ''B'', ''A'' @ [CR, LF] @ ''B'', conn_new\<lparr>c_out := [CR, LF], c_events := 3\<rparr>)"
    by (simp add: conn_new_def irc__conn_push_def wire_def CONN_OUT_SIZE_def conn_send_def
        EV_READ_def EV_WRITE_def)
  with output_fifo [OF run] show ?thesis by (simp add: conn_new_def)
qed

interpretation outbuf: bounded_append c_out "\<lambda>c. CONN_OUT_SIZE - length (c_out c)" irc__conn_push wire
  by unfold_locales (auto simp: push_Inr wire_def)

text \<open>
  A message is accepted exactly when at least one byte of the buffer stays free
  behind it and its terminator; nothing of a refused message is kept.
\<close>
theorem push_accepts:
  "irc__conn_push c data =
     (if length (c_out c) + length data + 2 < CONN_OUT_SIZE
      then Inr (c\<lparr>c_out := c_out c @ wire data, c_events := 3\<rparr>) else Inl ENOBUFS)"
  by (auto simp: irc__conn_push_def wire_def EV_READ_def EV_WRITE_def)

section \<open>Failures\<close>

text \<open>
  Only the first endpoint counts: the dialling result is never reset, so when the
  first endpoint fails every other one is dialled (and left open if it answers) and the
  connection is given up, whatever they answer.
\<close>
theorem connect_first_endpoint:
  assumes "c_ai c = ep # eps" and "length ds \<ge> length (ep # eps)"
  shows "conn_connect c ds =
    Some (if conn_dial (hd ds) < 0 then conn_reschedule (c\<lparr>c_ai := []\<rparr>)
          else c\<lparr>c_events := EV_READ, c_state := STATE_IDENT\<rparr>)"
proof -
  obtain d ds' where ds: "ds = d # ds'" using assms(2) by (cases ds) auto
  have sticky: "length xs \<ge> length es \<Longrightarrow> es \<noteq> [] \<Longrightarrow> conn_connect_loop (-1) es xs = Some (-1, [])"
    for es :: "'a list" and xs
  proof (induction es arbitrary: xs)
    case (Cons e es)
    then show ?case by (cases xs) (auto simp: Let_def)
  qed simp
  from sticky [of eps ds'] assms ds show ?thesis
    by (auto simp: conn_connect_def Let_def)
qed

theorem connect_first_endpoint_witness:
  "conn_connect (conn_new\<lparr>c_ai := [6, 4 :: nat]\<rparr>) [Connect_refused, Connect_now] =
     Some (conn_reschedule (conn_new\<lparr>c_ai := []\<rparr>))"
  using connect_first_endpoint [of "conn_new\<lparr>c_ai := [6, 4 :: nat]\<rparr>" 6 "[4]" "[Connect_refused, Connect_now]"]
  by simp

text \<open>
  After a round that only read, the socket is no longer watched for writing: output
  that is still queued waits until the next message is queued behind it.
\<close>
theorem read_round_stalls_output:
  assumes "s \<noteq> []" and "length (c_in c) + length s \<le> CONN_IN_SIZE"
  shows "conn_wait c \<lparr>revents = EV_READ, recvs = [Recv_ok s], sends = ss\<rparr> =
     Some (0, c\<lparr>c_in := c_in c @ s, c_events := EV_READ\<rparr>)"
  using assms by (simp add: conn_wait_def conn_recv_def EV_READ_def EV_WRITE_def)

theorem read_round_stalls_output_witness:
  "conn_wait (conn_new\<lparr>c_out := ''QUIT'', c_events := 3\<rparr>)
     \<lparr>revents = EV_READ, recvs = [Recv_ok ''x''], sends = []\<rparr> =
   Some (0, (conn_new :: unit conn)\<lparr>c_in := ''x'', c_out := ''QUIT'', c_events := EV_READ\<rparr>)"
  using read_round_stalls_output [of "''x''" "(conn_new :: unit conn)\<lparr>c_out := ''QUIT'', c_events := 3\<rparr>" "[]"]
  by (simp add: conn_new_def CONN_IN_SIZE_def)

text \<open>
  An interrupted \<open>send\<close> is taken for a lost connection and one that would block is
  repeated for ever, where the receiving side repeats the first and accepts the second.
\<close>
theorem send_retry_inverted:
  "conn_tcp_send (Send_err Sys_EINTR # ss) n ev = Some (-1, ev) \<and>
   conn_tcp_send (replicate k (Send_err Sys_EAGAIN)) n ev = None \<and>
   conn_tcp_recv (Recv_err Sys_EINTR # rs) ev = conn_tcp_recv rs ev \<and>
   conn_tcp_recv (Recv_err Sys_EAGAIN # rs) ev = Some (0, [], EV_READ)"
  by (induction k) auto

text \<open>
  C21. When an established connection is lost the producer still gets one message, the
  internal command 000, and whatever was received before is dropped; until the timer
  restarts it the connection passes for usable, and what is queued but not sent is kept
  over the restart and goes first to the next connection.
\<close>
theorem connection_lost:
  assumes "c_state c = STATE_READY" and "conn_wait c io = Some (rc, c1)" and "rc \<noteq> 0"
  shows "\<exists>c'. conn_ready c io = Some c' \<and>
     conn_producer c' = ([Fresh \<lparr>m_prefix = Some ''internal'', m_cmd = ''000'', m_args = []\<rparr>],
        c'\<lparr>c_in := []\<rparr>) \<and>
     irc__conn_ready (Some c') \<and> c_idle c' \<and>
     c_out c' = c_out c1 \<and> c_out (conn_timer_resurrect c') = c_out c1"
proof -
  let ?c = "conn_reschedule (c1\<lparr>c_in := internal_000\<rparr>)"
  have parse: "irc__conn_msg_parse internal_000 13 =
      \<lparr>m_prefix = Some ''internal'', m_cmd = ''000'', m_args = []\<rparr>" by code_simp
  have crlf: "find_crlf internal_000 = Some 13" "drop 15 internal_000 = []" by code_simp+
  have "conn_next ?c = Some (Fresh \<lparr>m_prefix = Some ''internal'', m_cmd = ''000'', m_args = []\<rparr>,
      ?c\<lparr>c_in := []\<rparr>)"
    by (simp add: conn_next_def conn_reschedule_def crlf parse IRCCD_MESSAGE_LEN_def)
  moreover have "conn_next (?c\<lparr>c_in := []\<rparr>) = None"
    by (simp add: conn_next_def)
  ultimately have prod: "conn_producer ?c =
      ([Fresh \<lparr>m_prefix = Some ''internal'', m_cmd = ''000'', m_args = []\<rparr>], ?c\<lparr>c_in := []\<rparr>)"
    by (simp add: conn_producer.simps [of ?c] conn_producer.simps [of "?c\<lparr>c_in := []\<rparr>"])
  have st: "c_state c1 = STATE_READY" using assms conn_wait_fields [OF assms(2)] by simp
  show ?thesis
    by (rule exI [of _ ?c], use prod st assms in
      \<open>simp add: conn_ready_def irc__conn_ready_def conn_reschedule_def
         conn_timer_resurrect_def conn_io_entry_def conn_io_finalizer_def\<close>)
qed

definition lost_conn :: "unit conn" where
  "lost_conn = conn_new\<lparr>c_state := STATE_READY, c_out := ''JOIN #a''\<rparr>"

theorem connection_lost_witness:
  "\<exists>c'. conn_ready lost_conn \<lparr>revents = EV_READ, recvs = [Recv_ok []], sends = []\<rparr> = Some c' \<and>
     irc__conn_ready (Some c') \<and> c_out (conn_timer_resurrect c') = ''JOIN #a''"
proof -
  have wait: "conn_wait lost_conn \<lparr>revents = EV_READ, recvs = [Recv_ok []], sends = []\<rparr> =
      Some (-1, lost_conn)"
    by (simp add: conn_wait_def conn_recv_def EV_READ_def lost_conn_def conn_new_def)
  have "c_state lost_conn = STATE_READY" by (simp add: lost_conn_def)
  from connection_lost [OF this wait] show ?thesis by (auto simp: lost_conn_def)
qed

end
