(* ===== verification/Channel.thy ===== *)
theory Channel
  imports Prelude
begin

text \<open>
  Channels and their members (\<open>lib/irccd/channel.c\<close>, \<open>channel.h\<close>).  The member list is a
  utlist singly linked list: \<open>LL_PREPEND\<close> is \<open>#\<close>, a search returns the first member whose
  nickname is equal up to case.  The model of \<open>calloc\<close>/\<open>strdup\<close> failures is the one of the
  code: the process dies, so they have no result.
\<close>

record channel_user =
  u_nickname :: string
  u_modes :: c_int

record irc_channel =
  ch_name :: string
  ch_password :: "string option"
  ch_flags :: c_int
  ch_users :: "channel_user list"

definition IRC_CHANNEL_FLAGS_NONE :: c_int where "IRC_CHANNEL_FLAGS_NONE = 0"
definition IRC_CHANNEL_FLAGS_JOINED :: c_int where "IRC_CHANNEL_FLAGS_JOINED = 1"

section \<open>Operations\<close>

definition is_user :: "string \<Rightarrow> channel_user \<Rightarrow> bool" where
  "is_user nickname u = strcaseeq (u_nickname u) nickname"

definition find_user :: "irc_channel \<Rightarrow> string \<Rightarrow> channel_user option" where
  "find_user ch nickname = find (is_user nickname) (ch_users ch)"

definition irc_channel_new :: "string \<Rightarrow> string option \<Rightarrow> c_int \<Rightarrow> irc_channel" where
  "irc_channel_new name password flags =
     \<lparr>ch_name = map to_lower name, ch_password = password, ch_flags = flags, ch_users = []\<rparr>"

definition irc_channel_get :: "irc_channel \<Rightarrow> string \<Rightarrow> channel_user option" where
  "irc_channel_get ch nickname = find_user ch nickname"

definition irc_channel_add :: "irc_channel \<Rightarrow> string \<Rightarrow> c_int \<Rightarrow> irc_channel" where
  "irc_channel_add ch nickname modes =
     (if irc_channel_get ch nickname \<noteq> None then ch
      else ch\<lparr>ch_users := \<lparr>u_nickname = nickname, u_modes = modes\<rparr> # ch_users ch\<rparr>)"

definition irc_channel_set :: "irc_channel \<Rightarrow> string \<Rightarrow> c_int \<Rightarrow> irc_channel" where
  "irc_channel_set ch nickname modes =
     ch\<lparr>ch_users := update_first (is_user nickname) (\<lambda>u. u\<lparr>u_modes := modes\<rparr>) (ch_users ch)\<rparr>"

definition irc_channel_clear :: "irc_channel \<Rightarrow> irc_channel" where
  "irc_channel_clear ch = ch\<lparr>ch_users := [], ch_flags := IRC_CHANNEL_FLAGS_NONE\<rparr>"

definition irc_channel_count :: "irc_channel \<Rightarrow> nat" where
  "irc_channel_count ch = length (ch_users ch)"

definition irc_channel_remove :: "irc_channel \<Rightarrow> string \<Rightarrow> irc_channel" where
  "irc_channel_remove ch nickname =
     ch\<lparr>ch_users := delete_first (is_user nickname) (ch_users ch)\<rparr>"

section \<open>Invariant and laws\<close>

text \<open>
  No two members have the same nickname up to case, and the name is stored in lower case.
\<close>

definition user_key :: "channel_user \<Rightarrow> string" where
  "user_key u = map to_lower (u_nickname u)"

definition ch_wf :: "irc_channel \<Rightarrow> bool" where
  "ch_wf ch = (distinct (map user_key (ch_users ch)) \<and> map to_lower (ch_name ch) = ch_name ch)"

lemma is_user_key: "is_user n u = (user_key u = map to_lower n)"
  by (simp add: is_user_def user_key_def strcaseeq_def)

lemma is_user_modes [simp]: "is_user n (u\<lparr>u_modes := m\<rparr>) = is_user n u"
  by (simp add: is_user_def)

lemma is_user_other: "is_user v u \<Longrightarrow> \<not> strcaseeq v w \<Longrightarrow> \<not> is_user w u"
  by (auto simp: is_user_key strcaseeq_def)

lemma is_user_same: "strcaseeq v w \<Longrightarrow> is_user v = is_user w"
  by (intro ext) (simp add: is_user_key strcaseeq_def)

lemma ch_wf_new: "ch_wf (irc_channel_new n p f)"
  by (simp add: ch_wf_def irc_channel_new_def comp_def)

lemma ch_wf_add: "ch_wf ch \<Longrightarrow> ch_wf (irc_channel_add ch n m)"
  by (auto simp: ch_wf_def irc_channel_add_def irc_channel_get_def find_user_def
      find_None_iff' is_user_key user_key_def)

lemma ch_wf_set: "ch_wf ch \<Longrightarrow> ch_wf (irc_channel_set ch n m)"
proof -
  have "map user_key (update_first (is_user n) (\<lambda>u. u\<lparr>u_modes := m\<rparr>) us) = map user_key us" for us
    by (rule map_update_first) (simp add: user_key_def)
  then show "ch_wf ch \<Longrightarrow> ch_wf (irc_channel_set ch n m)"
    by (simp add: ch_wf_def irc_channel_set_def)
qed

lemma ch_wf_clear: "ch_wf ch \<Longrightarrow> ch_wf (irc_channel_clear ch)"
  by (simp add: ch_wf_def irc_channel_clear_def)

lemma ch_wf_remove: "ch_wf ch \<Longrightarrow> ch_wf (irc_channel_remove ch n)"
  by (simp add: ch_wf_def irc_channel_remove_def distinct_map_delete_first)

lemmas ch_wf_intros = ch_wf_new ch_wf_add ch_wf_set ch_wf_clear ch_wf_remove

lemma get_add:
  "irc_channel_get (irc_channel_add ch n m) w =
     (if irc_channel_get ch n = None \<and> strcaseeq n w
      then Some \<lparr>u_nickname = n, u_modes = m\<rparr> else irc_channel_get ch w)"
  by (simp add: irc_channel_get_def irc_channel_add_def find_user_def is_user_def)

lemma get_set:
  "irc_channel_get (irc_channel_set ch n m) w =
     (if strcaseeq n w then map_option (\<lambda>u. u\<lparr>u_modes := m\<rparr>) (irc_channel_get ch w)
      else irc_channel_get ch w)"
proof (cases "strcaseeq n w")
  case True
  have "find (is_user w) (update_first (is_user w) (\<lambda>u. u\<lparr>u_modes := m\<rparr>) us) =
      map_option (\<lambda>u. u\<lparr>u_modes := m\<rparr>) (find (is_user w) us)" for us
    by (rule find_update_first_same) simp
  with is_user_same [OF True] True show ?thesis
    by (simp add: irc_channel_get_def irc_channel_set_def find_user_def)
next
  case False
  then have "find (is_user w) (update_first (is_user n) (\<lambda>u. u\<lparr>u_modes := m\<rparr>) us) =
      find (is_user w) us" for us
    by (intro find_update_first_other) (simp_all add: is_user_other)
  with False show ?thesis
    by (simp add: irc_channel_get_def irc_channel_set_def find_user_def)
qed

lemma get_clear [simp]: "irc_channel_get (irc_channel_clear ch) w = None"
  by (simp add: irc_channel_get_def irc_channel_clear_def find_user_def)

lemma get_new [simp]: "irc_channel_get (irc_channel_new n p f) w = None"
  by (simp add: irc_channel_get_def irc_channel_new_def find_user_def)

lemma get_remove:
  assumes "ch_wf ch"
  shows "irc_channel_get (irc_channel_remove ch n) w =
     (if strcaseeq n w then None else irc_channel_get ch w)"
proof (cases "strcaseeq n w")
  case True
  have "find (is_user n) (delete_first (is_user n) (ch_users ch)) = None"
    using assms by (intro find_delete_first_same [where f = user_key])
      (simp_all add: ch_wf_def is_user_key)
  with True show ?thesis
    by (simp add: irc_channel_get_def irc_channel_remove_def find_user_def is_user_same)
next
  case False
  then have "find (is_user w) (delete_first (is_user n) (ch_users ch)) = find (is_user w) (ch_users ch)"
    by (intro find_delete_first_other) (simp add: is_user_other)
  with False show ?thesis
    by (simp add: irc_channel_get_def irc_channel_remove_def find_user_def)
qed

lemma channel_frame [simp]:
  "ch_name (irc_channel_add ch n m) = ch_name ch"
  "ch_name (irc_channel_set ch n m) = ch_name ch"
  "ch_name (irc_channel_clear ch) = ch_name ch"
  "ch_name (irc_channel_remove ch n) = ch_name ch"
  "ch_password (irc_channel_add ch n m) = ch_password ch"
  "ch_password (irc_channel_set ch n m) = ch_password ch"
  "ch_password (irc_channel_clear ch) = ch_password ch"
  "ch_password (irc_channel_remove ch n) = ch_password ch"
  "ch_flags (irc_channel_add ch n m) = ch_flags ch"
  "ch_flags (irc_channel_set ch n m) = ch_flags ch"
  "ch_flags (irc_channel_clear ch) = IRC_CHANNEL_FLAGS_NONE"
  "ch_flags (irc_channel_remove ch n) = ch_flags ch"
  by (simp_all add: irc_channel_add_def irc_channel_set_def irc_channel_clear_def
      irc_channel_remove_def)

lemma get_cong: "strcaseeq v w \<Longrightarrow> irc_channel_get ch v = irc_channel_get ch w"
  by (simp add: irc_channel_get_def find_user_def is_user_same)

lemma count_simps:
  "irc_channel_count (irc_channel_add ch n m) =
     irc_channel_count ch + (if irc_channel_get ch n = None then 1 else 0)"
  "irc_channel_count (irc_channel_set ch n m) = irc_channel_count ch"
  "irc_channel_count (irc_channel_clear ch) = 0"
  by (simp_all add: irc_channel_count_def irc_channel_add_def irc_channel_set_def
      irc_channel_clear_def)

interpretation members: ci_set ch_wf "\<lambda>ch n. irc_channel_get ch n \<noteq> None"
  "\<lambda>ch n. irc_channel_add ch n modes" irc_channel_remove for modes
  by unfold_locales (auto simp: get_add get_remove ch_wf_add ch_wf_remove get_cong)

section \<open>Properties\<close>

text \<open>
  The member list behaves as a map from nicknames, up to case, to modes: a lookup
  after an insertion, a mode change or a removal returns what that operation says, and a
  nickname that is already present keeps its modes when it is added again.
\<close>
theorem channel_members_map:
  assumes "ch_wf ch"
  shows "irc_channel_get (irc_channel_add ch n m) w =
           (if irc_channel_get ch n = None \<and> strcaseeq n w
            then Some \<lparr>u_nickname = n, u_modes = m\<rparr> else irc_channel_get ch w) \<and>
         irc_channel_get (irc_channel_set ch n m) w =
           (if strcaseeq n w then map_option (\<lambda>u. u\<lparr>u_modes := m\<rparr>) (irc_channel_get ch w)
            else irc_channel_get ch w) \<and>
         irc_channel_get (irc_channel_remove ch n) w =
           (if strcaseeq n w then None else irc_channel_get ch w) \<and>
         irc_channel_get (irc_channel_clear ch) w = None"
  using assms by (simp_all add: get_add get_set get_remove)

theorem channel_members_map_witness:
  "irc_channel_get (irc_channel_remove
     (irc_channel_add (irc_channel_new ''#Test'' None 0) ''jean'' 1) ''JEAN'') ''jean'' = None"
proof -
  note * = channel_members_map [OF ch_wf_add [OF ch_wf_new],
      of "''#Test''" None 0 "''jean''" 1 "''JEAN''" 0 "''jean''"]
  have "strcaseeq ''JEAN'' ''jean''" by code_simp
  with * show ?thesis by simp
qed

text \<open>
  Every channel operation keeps the invariant (no two members equal up to case, name
  in lower case), starting from a new channel, and the count is the number of members.
\<close>
theorem channel_invariant:
  assumes "ch_wf ch"
  shows "ch_wf (irc_channel_new name pw fl) \<and> ch_wf (irc_channel_add ch n m) \<and>
         ch_wf (irc_channel_set ch n m) \<and> ch_wf (irc_channel_clear ch) \<and>
         ch_wf (irc_channel_remove ch n) \<and>
         irc_channel_count (irc_channel_add ch n m) =
           irc_channel_count ch + (if irc_channel_get ch n = None then 1 else 0) \<and>
         irc_channel_count (irc_channel_set ch n m) = irc_channel_count ch \<and>
         irc_channel_count (irc_channel_clear ch) = 0"
  using assms by (simp add: ch_wf_intros count_simps)

theorem channel_invariant_witness:
  "ch_wf (irc_channel_remove (irc_channel_new ''#Test'' None 0) ''x'')"
  using channel_invariant [OF ch_wf_new [of "''#Test''" None 0], where n = "''x''"] by blast

end
