(* ===== verification/Util.thy ===== *)
theory Util
  imports Prelude
begin

text \<open>
  The string utilities of \<open>lib/irccd/util.c\<close> with logic of their own: splitting a line
  into arguments, splitting an IRC prefix into nickname, user name and host, bounded
  copies and the conversion to an integer.  The allocation wrappers die on failure and
  have no other behaviour.
\<close>

section \<open>Splitting a line\<close>

fun split_loop :: "nat \<Rightarrow> char \<Rightarrow> string \<Rightarrow> string list" where
  "split_loop 0 d line = []"
| "split_loop (Suc n) d line =
     (case split_at d line of
        (_, None) \<Rightarrow> [line]
      | (a, Some rest) \<Rightarrow> if n = 0 then [line] else a # split_loop n d rest)"

definition irc_util_split :: "string \<Rightarrow> nat \<Rightarrow> char \<Rightarrow> string list" where
  "irc_util_split line mx delim = (if line = [] then [] else split_loop mx delim line)"

fun join_with :: "char \<Rightarrow> string list \<Rightarrow> string" where
  "join_with d [] = []"
| "join_with d [x] = x"
| "join_with d (x # y # ys) = x @ d # join_with d (y # ys)"

lemma split_loop_not_Nil: "split_loop (Suc n) d s \<noteq> []"
  by (auto split: prod.splits option.splits)

lemma length_split_loop: "length (split_loop n d s) \<le> n"
  by (induction n d s rule: split_loop.induct) (auto split: prod.splits option.splits)

lemma join_with_Cons: "ys \<noteq> [] \<Longrightarrow> join_with d (x # ys) = x @ d # join_with d ys"
  by (cases ys) simp_all

lemma join_split_loop: "n \<noteq> 0 \<Longrightarrow> join_with d (split_loop n d s) = s"
proof (induction n d s rule: split_loop.induct)
  case (2 n d line)
  show ?case
  proof (cases "split_at d line")
    case (Pair a q)
    show ?thesis
    proof (cases q)
      case None
      with Pair show ?thesis by simp
    next
      case (Some r)
      with Pair have line: "line = a @ d # r" by (simp add: split_at_Some)
      show ?thesis
      proof (cases n)
        case 0
        with Pair Some show ?thesis by simp
      next
        case (Suc m)
        with 2 Pair Some have "join_with d (split_loop n d r) = r" by auto
        moreover have "split_loop n d r \<noteq> []" using Suc split_loop_not_Nil by blast
        ultimately show ?thesis using Pair Some Suc line by (simp add: join_with_Cons)
      qed
    qed
  qed
qed simp

lemma split_loop_delim:
  "length (split_loop n d s) = m \<Longrightarrow> i < m \<Longrightarrow> Suc i < n \<Longrightarrow> d \<notin> set (split_loop n d s ! i)"
proof (induction n d s arbitrary: i m rule: split_loop.induct)
  case (2 n d line)
  show ?case
  proof (cases "split_at d line")
    case (Pair a q)
    show ?thesis
    proof (cases q)
      case None
      with Pair have d: "d \<notin> set line" by (simp add: split_at_None)
      from Pair None have "split_loop (Suc n) d line = [line]" by simp
      with d "2.prems" show ?thesis by (metis length_Cons less_Suc0 list.size(3) nth_Cons_0 One_nat_def)
    next
      case (Some r)
      then have a: "d \<notin> set a" using Pair by (simp add: split_at_Some)
      show ?thesis
        using 2 Pair Some a by (cases i) auto
    qed
  qed
qed simp

text \<open>
  Splitting loses nothing: the pieces joined by the delimiter give the line back,
  there are at most \<open>mx\<close> of them, and only the last one of a full array may still hold
  the delimiter.
\<close>
theorem split_join:
  assumes "mx \<noteq> 0"
  shows "join_with d (irc_util_split line mx d) = line \<and>
         length (irc_util_split line mx d) \<le> mx \<and>
         (\<forall>i < length (irc_util_split line mx d). Suc i < mx \<longrightarrow>
            d \<notin> set (irc_util_split line mx d ! i))"
  using assms length_split_loop [of mx d line] split_loop_delim [of mx d line]
  by (simp add: irc_util_split_def join_split_loop)

theorem split_join_witness:
  "irc_util_split ''a b c'' 2 CHR '' '' = [''a'', ''b c''] \<and>
   join_with CHR '' '' (irc_util_split ''a b c'' 2 CHR '' '') = ''a b c''"
proof -
  have "join_with CHR '' '' (irc_util_split ''a b c'' 2 CHR '' '') = ''a b c''"
    using split_join [of 2 "CHR '' ''" "''a b c''"] by simp
  moreover have "irc_util_split ''a b c'' 2 CHR '' '' = [''a'', ''b c'']" by code_simp
  ultimately show ?thesis by simp
qed

section \<open>IRC prefixes\<close>

text \<open>
  \<open>irc_util_user_split\<close> matches the POSIX regular expression \<open>([^!]+)!([^@]+)@(.*)\<close>: the
  leftmost match, each group as long as it can be.  At a given position there is only
  one candidate, the text up to the next \<open>!\<close> and then up to the next \<open>@\<close>.
\<close>

record irc_user =
  nickname :: string
  username :: "string option"
  host :: "string option"

definition regex_at :: "string \<Rightarrow> (string \<times> string \<times> string) option" where
  "regex_at s =
     (case split_at CHR ''!'' s of
        (n, Some r) \<Rightarrow> (case split_at CHR ''@'' r of
           (u, Some h) \<Rightarrow> if n \<noteq> [] \<and> u \<noteq> [] then Some (n, u, h) else None
         | (_, None) \<Rightarrow> None)
      | (_, None) \<Rightarrow> None)"

fun regexec_user :: "string \<Rightarrow> (string \<times> string \<times> string) option" where
  "regexec_user [] = regex_at []"
| "regexec_user (c # cs) =
     (case regex_at (c # cs) of Some m \<Rightarrow> Some m | None \<Rightarrow> regexec_user cs)"

definition irc_util_user_split :: "string \<Rightarrow> irc_user" where
  "irc_util_user_split prefix =
     (case regexec_user prefix of
        Some (n, u, h) \<Rightarrow> \<lparr>nickname = n, username = Some u, host = Some h\<rparr>
      | None \<Rightarrow> \<lparr>nickname = prefix, username = None, host = None\<rparr>)"

lemma regexec_user_hit: "regex_at s = Some m \<Longrightarrow> regexec_user s = Some m"
  by (cases s) simp_all

lemma regexec_user_None: "CHR ''!'' \<notin> set s \<Longrightarrow> regexec_user s = None"
proof (induction s)
  case Nil
  then show ?case by (simp add: regex_at_def)
next
  case (Cons c cs)
  then have "split_at CHR ''!'' (c # cs) = (c # cs, None)"
    by (simp only: split_at_None) simp
  with Cons show ?case by (simp add: regex_at_def)
qed

text \<open>
  A full prefix \<open>nick!user@host\<close> is taken apart into its three parts (the host may
  hold anything, the user name even a \<open>!\<close>), and a prefix without \<open>!\<close>, as servers
  send, is all nickname.
\<close>
theorem user_split_parts:
  assumes "n \<noteq> []" and "CHR ''!'' \<notin> set n" and "u \<noteq> []" and "CHR ''@'' \<notin> set u"
    and "CHR ''!'' \<notin> set p"
  shows "irc_util_user_split (n @ CHR ''!'' # u @ CHR ''@'' # h) =
           \<lparr>nickname = n, username = Some u, host = Some h\<rparr> \<and>
         irc_util_user_split p = \<lparr>nickname = p, username = None, host = None\<rparr>"
proof -
  have "regex_at (n @ CHR ''!'' # u @ CHR ''@'' # h) = Some (n, u, h)"
    using assms by (simp add: regex_at_def split_at_append)
  then have "regexec_user (n @ CHR ''!'' # u @ CHR ''@'' # h) = Some (n, u, h)"
    by (rule regexec_user_hit)
  then show ?thesis
    using assms(5) by (simp add: irc_util_user_split_def regexec_user_None)
qed

theorem user_split_parts_witness:
  "irc_util_user_split ''jean!~j@host'' =
     \<lparr>nickname = ''jean'', username = Some ''~j'', host = Some ''host''\<rparr> \<and>
   irc_util_user_split ''irc.org'' = \<lparr>nickname = ''irc.org'', username = None, host = None\<rparr>"
  using user_split_parts [of "''jean''" "''~j''" "''irc.org''" "''host''"] by simp

section \<open>Bounded copies and integers\<close>

definition PATH_MAX :: nat where "PATH_MAX = 4096"

text \<open>
  Both return the length of the string they tried to make, and the contents of the
  buffer of \<open>len\<close> bytes.
\<close>

definition irc_util_strlcpy :: "string \<Rightarrow> nat \<Rightarrow> nat \<times> string" where
  "irc_util_strlcpy src len = (length src, fit len src)"

definition irc_util_strlcat :: "string \<Rightarrow> string \<Rightarrow> nat \<Rightarrow> nat \<times> string" where
  "irc_util_strlcat dst src len =
     (min len (length dst) + length src,
      (if len \<le> length dst then dst else dst @ take (len - 1 - length dst) src))"

definition irc_util_stoi :: "string \<Rightarrow> errno + int" where
  "irc_util_stoi s =
     (case read_int s of
        Some (v, []) \<Rightarrow> if - (2 ^ 63) \<le> v \<and> v < 2 ^ 63 then Inr v else Inl ERANGE
      | _ \<Rightarrow> Inl EINVAL)"

lemma irc_util_stoi_bounds: "irc_util_stoi s = Inr v \<Longrightarrow> - (2 ^ 63) \<le> v \<and> v < 2 ^ 63"
  by (auto simp: irc_util_stoi_def split: option.splits list.splits if_splits)

lemma length_strlcat: "length dst < n \<Longrightarrow> length (snd (irc_util_strlcat dst src n)) < n"
  by (simp add: irc_util_strlcat_def)

section \<open>Printing numbers\<close>

text \<open>A number as \<open>%u\<close> and \<open>%zu\<close> print it.\<close>

fun show_nat :: "nat \<Rightarrow> string" where
  "show_nat n = (if n < 10 then [char_of (48 + n)] else show_nat (n div 10) @ [char_of (48 + n mod 10)])"

declare show_nat.simps [simp del]

lemma show_digit: "d < 10 \<Longrightarrow> is_digit (char_of (48 + d))" "d < 10 \<Longrightarrow> digit_value (char_of (48 + d)) = d"
  by (simp_all add: is_digit_def digit_value_def Let_def)

lemma show_nat_digits: "\<forall>c \<in> set (show_nat n). is_digit c"
proof (induction n rule: show_nat.induct)
  case (1 n)
  then show ?case by (subst show_nat.simps) (simp add: show_digit)
qed

lemma show_nat_not_Nil [simp]: "show_nat n \<noteq> []"
  by (subst show_nat.simps) simp

lemma digits_value_append: "digits_value (xs @ [c]) = 10 * digits_value xs + int (digit_value c)"
  by (simp add: digits_value_def)

lemma digits_value_show: "digits_value (show_nat n) = int n"
proof (induction n rule: show_nat.induct)
  case (1 n)
  show ?case
  proof (cases "n < 10")
    case True
    then show ?thesis by (subst show_nat.simps) (simp add: digits_value_def show_digit)
  next
    case False
    with 1 have "digits_value (show_nat n) = 10 * int (n div 10) + int (n mod 10)"
      by (subst show_nat.simps) (simp add: digits_value_append show_digit)
    also have "\<dots> = int (10 * (n div 10) + n mod 10)" by (simp only: of_nat_add of_nat_mult of_nat_numeral)
    finally show ?thesis by (simp only: mult_div_mod_eq)
  qed
qed

text \<open>Reading a number back, up to the first byte that is no digit.\<close>

lemma read_int_show:
  assumes "r = [] \<or> \<not> is_digit (hd r)"
  shows "read_int (show_nat n @ r) = Some (int n, r)"
proof -
  obtain c cs where s: "show_nat n = c # cs" by (cases "show_nat n") simp_all
  have c: "is_digit c" using show_nat_digits [of n] by (simp add: s)
  then have other: "\<not> is_space c" "c \<noteq> CHR ''-''" "c \<noteq> CHR ''+''"
    by (auto simp: is_digit_def is_space_def Let_def)
  have "takeWhile is_digit (show_nat n @ r) = show_nat n" "dropWhile is_digit (show_nat n @ r) = r"
    using show_nat_digits [of n] assms by (cases r; simp add: takeWhile_append2 dropWhile_append2)+
  then have "read_digits (show_nat n @ r) = Some (int n, r)"
    by (simp add: read_digits_def digits_value_show)
  with s other show ?thesis by (simp add: read_int_def)
qed

lemma stoi_show: "n < 2 ^ 63 \<Longrightarrow> irc_util_stoi (show_nat n) = Inr (int n)"
  using read_int_show [of "[]" n] by (simp add: irc_util_stoi_def)

text \<open>A signed number as \<open>%d\<close> prints it.\<close>

definition show_int :: "int \<Rightarrow> string" where
  "show_int i = (if i < 0 then CHR ''-'' # show_nat (nat (- i)) else show_nat (nat i))"

end
