(* ===== verification/Server.thy ===== *)
theory Server
  imports Conn Channel Util
begin

text \<open>
  IRC servers (\<open>lib/irccd/server.c\<close>, \<open>server.h\<close>), without the handlers of incoming
  messages: the record, the mode prefixes announced by the network, the channels, the
  setters, the connection and the commands that are sent.

  A failed assertion is \<open>None\<close>, like undefined behaviour.  The coroutine of a server is
  its connection; \<open>None\<close> stands for NULL.  \<open>IRCCD_WITH_SSL\<close> is a build option, passed to
  the function that tests it.
\<close>

section \<open>Data\<close>

type_synonym endpoint = string

definition IRC_SERVER_FLAGS_SSL :: c_uint where "IRC_SERVER_FLAGS_SSL = 1"
definition IRC_SERVER_FLAGS_AUTO_REJOIN :: c_uint where "IRC_SERVER_FLAGS_AUTO_REJOIN = 2"
definition IRC_SERVER_FLAGS_JOIN_INVITE :: c_uint where "IRC_SERVER_FLAGS_JOIN_INVITE = 4"

record irc_server_umode =
  um_mode :: char
  um_symbol :: char

record irc_server =
  sv_name :: string
  sv_hostname :: "string option"
  sv_port :: c_uint
  sv_prefix :: "string option"
  sv_nickname :: "string option"
  sv_username :: "string option"
  sv_realname :: "string option"
  sv_password :: "string option"
  sv_ctcp_version :: "string option"
  sv_ctcp_source :: "string option"
  sv_flags :: c_uint
  sv_channels :: "irc_channel list"
  sv_chantypes :: "string option"
  sv_charset :: "string option"
  sv_casemapping :: "string option"
  sv_channel_max :: c_uint
  sv_nickname_max :: c_uint
  sv_topic_max :: c_uint
  sv_away_max :: c_uint
  sv_kick_max :: c_uint
  sv_prefixes :: "irc_server_umode list"
  sv_coroutine :: "endpoint conn option"
  sv_refc :: nat

definition irc_server_new :: "string \<Rightarrow> irc_server" where
  "irc_server_new name =
     \<lparr>sv_name = name, sv_hostname = None, sv_port = 6667, sv_prefix = Some ''!'',
      sv_nickname = None, sv_username = None, sv_realname = None, sv_password = None,
      sv_ctcp_version = Some ''IRC Client Daemon'',
      sv_ctcp_source = Some ''http://hg.malikania.fr/irccd'',
      sv_flags = 0, sv_channels = [], sv_chantypes = None, sv_charset = None,
      sv_casemapping = None, sv_channel_max = 0, sv_nickname_max = 0, sv_topic_max = 0,
      sv_away_max = 0, sv_kick_max = 0, sv_prefixes = [], sv_coroutine = None, sv_refc = 0\<rparr>"

section \<open>Identity and modes\<close>

definition irc_server_is_self :: "irc_server \<Rightarrow> string \<Rightarrow> bool option" where
  "irc_server_is_self server nick =
     map_option (\<lambda>own. strncaseeq own nick (length own)) (sv_nickname server)"

text \<open>
  The conversions of \<open>sscanf\<close> used here: \<open>%n[set]\<close> reads one to \<open>n\<close> bytes of the set and
  \<open>%ns\<close> skips blanks and reads one to \<open>n\<close> bytes that are not blank.
\<close>

definition scan_set :: "(char \<Rightarrow> bool) \<Rightarrow> nat \<Rightarrow> string \<Rightarrow> (string \<times> string) option" where
  "scan_set P n s =
     (let a = take n (takeWhile P s) in if a = [] then None else Some (a, drop (length a) s))"

definition scan_word :: "nat \<Rightarrow> string \<Rightarrow> (string \<times> string) option" where
  "scan_word n s = scan_set (\<lambda>c. \<not> is_space c) n (dropWhile is_space s)"

definition scan_char :: "char \<Rightarrow> string \<Rightarrow> string option" where
  "scan_char c s = (case s of [] \<Rightarrow> None | x # xs \<Rightarrow> if x = c then Some xs else None)"

definition sscanf_prefix :: "string \<Rightarrow> (string \<times> string) option" where
  "sscanf_prefix value =
     do {
       r1 \<leftarrow> scan_char CHR ''('' value;
       (modes, r2) \<leftarrow> scan_set (\<lambda>c. c \<noteq> CHR '')'') 15 r1;
       r3 \<leftarrow> scan_char CHR '')'' r2;
       (syms, _) \<leftarrow> scan_word 15 r3;
       Some (modes, syms)
     }"

definition irc_server_modes_parse :: "irc_server \<Rightarrow> string \<Rightarrow> irc_server" where
  "irc_server_modes_parse server value =
     (let server1 = server\<lparr>sv_prefixes := []\<rparr>
      in case sscanf_prefix value of
           None \<Rightarrow> server1
         | Some (modes, syms) \<Rightarrow>
             if length modes \<noteq> length syms then server1
             else server1\<lparr>sv_prefixes :=
               map2 (\<lambda>m s. \<lparr>um_mode = m, um_symbol = s\<rparr>) modes syms\<rparr>)"

fun modes_find_loop :: "irc_server_umode list \<Rightarrow> char \<Rightarrow> nat \<Rightarrow> nat" where
  "modes_find_loop [] mode i = 0"
| "modes_find_loop (p # ps) mode i = (if um_mode p = mode then i else modes_find_loop ps mode (Suc i))"

definition irc_server_modes_find :: "irc_server \<Rightarrow> char \<Rightarrow> nat" where
  "irc_server_modes_find server mode = modes_find_loop (sv_prefixes server) mode 0"

fun strip_loop :: "irc_server_umode list \<Rightarrow> nat \<Rightarrow> c_int \<Rightarrow> string \<Rightarrow> c_int \<times> string" where
  "strip_loop [] i modes what = (modes, what)"
| "strip_loop (p # ps) i modes what =
     (if what \<noteq> [] \<and> hd what = um_symbol p
      then strip_loop ps (Suc i) (modes OR push_bit i 1) (tl what)
      else strip_loop ps (Suc i) modes what)"

definition irc_server_strip :: "irc_server \<Rightarrow> string \<Rightarrow> c_int \<times> string" where
  "irc_server_strip server what = strip_loop (sv_prefixes server) 0 0 what"

section \<open>Channels\<close>

definition is_channel :: "string \<Rightarrow> irc_channel \<Rightarrow> bool" where
  "is_channel name ch = strcaseeq (ch_name ch) name"

definition irc_server_channels_find :: "irc_server \<Rightarrow> string \<Rightarrow> irc_channel option" where
  "irc_server_channels_find server name = find (is_channel name) (sv_channels server)"

text \<open>
  An operation through the pointer that a search returned changes the channel in place.
\<close>

definition on_channel ::
  "irc_server \<Rightarrow> string \<Rightarrow> (irc_channel \<Rightarrow> irc_channel) \<Rightarrow> irc_server" where
  "on_channel server name f =
     server\<lparr>sv_channels := update_first (is_channel name) f (sv_channels server)\<rparr>"

definition irc_server_channels_add ::
  "irc_server \<Rightarrow> string \<Rightarrow> string option \<Rightarrow> c_int \<Rightarrow> irc_server" where
  "irc_server_channels_add server name password flags =
     (case irc_server_channels_find server name of
        Some _ \<Rightarrow> on_channel server name (\<lambda>ch. ch\<lparr>ch_flags := ch_flags ch OR flags\<rparr>)
      | None \<Rightarrow> server\<lparr>sv_channels := irc_channel_new name password flags # sv_channels server\<rparr>)"

definition irc_server_channels_remove :: "irc_server \<Rightarrow> string \<Rightarrow> irc_server" where
  "irc_server_channels_remove server name =
     server\<lparr>sv_channels := delete_first (is_channel name) (sv_channels server)\<rparr>"

definition irc_server_channels_clear :: "irc_server \<Rightarrow> irc_server" where
  "irc_server_channels_clear server =
     server\<lparr>sv_channels := map irc_channel_clear (sv_channels server)\<rparr>"

definition irc_server_channels_free :: "irc_server \<Rightarrow> irc_server" where
  "irc_server_channels_free server = server\<lparr>sv_channels := []\<rparr>"

definition irc_server_clear :: "irc_server \<Rightarrow> irc_server" where
  "irc_server_clear server =
     server\<lparr>sv_chantypes := None, sv_charset := None, sv_casemapping := None,
       sv_channel_max := 0, sv_nickname_max := 0, sv_topic_max := 0, sv_away_max := 0,
       sv_kick_max := 0, sv_prefixes := []\<rparr>"

section \<open>Sending\<close>

text \<open>
  The result of a command: 0 when it was queued, a negative error, or 1 from
  \<open>irc_server_join\<close> when nothing had to be sent.  \<open>irc_server_send_va\<close> is given the text
  that the format produces.
\<close>

type_synonym sent = "errno + nat"

definition server_ready :: "irc_server \<Rightarrow> bool" where
  "server_ready server = irc__conn_ready (sv_coroutine server)"

definition irc_server_send_va :: "irc_server \<Rightarrow> string \<Rightarrow> sent \<times> irc_server" where
  "irc_server_send_va server text =
     (case sv_coroutine server of
        None \<Rightarrow> (Inl ENOTCONN, server)
      | Some c \<Rightarrow>
          if \<not> irc__conn_ready (Some c) then (Inl ENOTCONN, server)
          else (case irc__conn_push c (fit IRCCD_MESSAGE_LEN text) of
                  Inl e \<Rightarrow> (Inl e, server)
                | Inr c' \<Rightarrow> (Inr 0, server\<lparr>sv_coroutine := Some c'\<rparr>)))"

definition irc_server_send :: "irc_server \<Rightarrow> string \<Rightarrow> sent \<times> irc_server" where
  "irc_server_send server text = irc_server_send_va server text"

definition irc_server_invite :: "irc_server \<Rightarrow> string \<Rightarrow> string \<Rightarrow> sent \<times> irc_server" where
  "irc_server_invite server channel target =
     irc_server_send server (''INVITE '' @ target @ '' '' @ channel)"

definition irc_server_join ::
  "irc_server \<Rightarrow> string \<Rightarrow> string option \<Rightarrow> sent \<times> irc_server" where
  "irc_server_join server name pass =
     (let server1 = (if irc_server_channels_find server name = None
                     then irc_server_channels_add server name pass IRC_CHANNEL_FLAGS_NONE
                     else server)
      in case irc_server_channels_find server1 name of
           None \<Rightarrow> (Inr 1, server1)
         | Some ch \<Rightarrow>
             if ch_flags ch AND IRC_CHANNEL_FLAGS_JOINED = 0 \<and> server_ready server1
             then irc_server_send server1
                    (case pass of Some p \<Rightarrow> ''JOIN '' @ name @ '' '' @ p | None \<Rightarrow> ''JOIN '' @ name)
             else (Inr 1, server1))"

definition irc_server_kick ::
  "irc_server \<Rightarrow> string \<Rightarrow> string \<Rightarrow> string option \<Rightarrow> sent \<times> irc_server" where
  "irc_server_kick server channel target reason =
     irc_server_send server
       (case reason of
          Some r \<Rightarrow> ''KICK '' @ channel @ '' '' @ target @ '' :'' @ r
        | None \<Rightarrow> ''KICK '' @ channel @ '' '' @ target)"

definition irc_server_part :: "irc_server \<Rightarrow> string \<Rightarrow> string option \<Rightarrow> sent \<times> irc_server" where
  "irc_server_part server channel reason =
     irc_server_send server
       (case reason of
          Some r \<Rightarrow> if r \<noteq> [] then ''PART '' @ channel @ '' :'' @ r else ''PART '' @ channel
        | None \<Rightarrow> ''PART '' @ channel)"

definition irc_server_topic :: "irc_server \<Rightarrow> string \<Rightarrow> string \<Rightarrow> sent \<times> irc_server" where
  "irc_server_topic server channel topic =
     irc_server_send server (''TOPIC '' @ channel @ '' :'' @ topic)"

definition irc_server_message :: "irc_server \<Rightarrow> string \<Rightarrow> string \<Rightarrow> sent \<times> irc_server" where
  "irc_server_message server chan msg =
     irc_server_send server (''PRIVMSG '' @ chan @ '' :'' @ msg)"

definition irc_server_me :: "irc_server \<Rightarrow> string \<Rightarrow> string \<Rightarrow> sent \<times> irc_server" where
  "irc_server_me server chan message =
     irc_server_send server (''PRIVMSG '' @ chan @ '' :'' @ [SOH] @ ''ACTION '' @ message @ [SOH])"

definition irc_server_mode ::
  "irc_server \<Rightarrow> string \<Rightarrow> string \<Rightarrow> string option \<Rightarrow> sent \<times> irc_server" where
  "irc_server_mode server channel mode args =
     irc_server_send server (''MODE '' @ channel @ '' '' @ mode @ '' '' @
       (case args of None \<Rightarrow> [] | Some a \<Rightarrow> a))"

definition irc_server_names :: "irc_server \<Rightarrow> string \<Rightarrow> sent \<times> irc_server" where
  "irc_server_names server channel = irc_server_send server (''NAMES '' @ channel)"

definition irc_server_notice :: "irc_server \<Rightarrow> string \<Rightarrow> string \<Rightarrow> sent \<times> irc_server" where
  "irc_server_notice server channel message =
     irc_server_send server (''NOTICE '' @ channel @ '' :'' @ message)"

definition irc_server_whois :: "irc_server \<Rightarrow> string \<Rightarrow> sent \<times> irc_server" where
  "irc_server_whois server target = irc_server_send server (''WHOIS '' @ target)"

text \<open>
  What \<open>conn_ident\<close> sends; the results of the commands are ignored.  The assertions of
  \<open>irc_server_connect\<close> make the names non-NULL.
\<close>

definition conn_ident_lines :: "irc_server \<Rightarrow> string list option" where
  "conn_ident_lines server =
     do {
       nick \<leftarrow> sv_nickname server;
       user \<leftarrow> sv_username server;
       real \<leftarrow> sv_realname server;
       Some ([''CAP REQ :multi-prefix''] @
             (case sv_password server of None \<Rightarrow> [] | Some p \<Rightarrow> [''PASS '' @ p]) @
             [''NICK '' @ nick,
              ''USER '' @ user @ '' '' @ user @ '' '' @ user @ '' :'' @ real,
              ''CAP END''])
     }"

definition conn_ident :: "irc_server \<Rightarrow> irc_server option" where
  "conn_ident server =
     map_option (foldl (\<lambda>s l. snd (irc_server_send s l)) server) (conn_ident_lines server)"

section \<open>Setters\<close>

definition irc_server_set_hostname :: "irc_server \<Rightarrow> string option \<Rightarrow> irc_server option" where
  "irc_server_set_hostname server hostname =
     (if sv_coroutine server = None then Some (server\<lparr>sv_hostname := hostname\<rparr>) else None)"

definition irc_server_set_flags :: "irc_server \<Rightarrow> c_uint \<Rightarrow> irc_server" where
  "irc_server_set_flags server flags = server\<lparr>sv_flags := flags\<rparr>"

definition irc_server_set_port :: "irc_server \<Rightarrow> c_uint \<Rightarrow> irc_server option" where
  "irc_server_set_port server port =
     (if sv_coroutine server = None then Some (server\<lparr>sv_port := port\<rparr>) else None)"

definition irc_server_set_nickname :: "irc_server \<Rightarrow> string \<Rightarrow> irc_server" where
  "irc_server_set_nickname server nick =
     (if server_ready server then snd (irc_server_send server (''NICK '' @ nick))
      else server\<lparr>sv_nickname := Some nick\<rparr>)"

definition irc_server_set_username :: "irc_server \<Rightarrow> string \<Rightarrow> irc_server option" where
  "irc_server_set_username server user =
     (if sv_coroutine server = None then Some (server\<lparr>sv_username := Some user\<rparr>) else None)"

definition irc_server_set_realname :: "irc_server \<Rightarrow> string \<Rightarrow> irc_server option" where
  "irc_server_set_realname server real =
     (if sv_coroutine server = None then Some (server\<lparr>sv_realname := Some real\<rparr>) else None)"

definition irc_server_set_ctcp :: "irc_server \<Rightarrow> string \<Rightarrow> string \<Rightarrow> irc_server" where
  "irc_server_set_ctcp server key value =
     (if strcaseeq key ''version'' then server\<lparr>sv_ctcp_version := Some value\<rparr>
      else if strcaseeq key ''source'' then server\<lparr>sv_ctcp_source := Some value\<rparr>
      else server)"

definition irc_server_set_prefix :: "irc_server \<Rightarrow> string \<Rightarrow> irc_server" where
  "irc_server_set_prefix server pfx = server\<lparr>sv_prefix := Some pfx\<rparr>"

definition irc_server_set_password :: "irc_server \<Rightarrow> string option \<Rightarrow> irc_server option" where
  "irc_server_set_password server password =
     (if sv_coroutine server = None then Some (server\<lparr>sv_password := password\<rparr>) else None)"

section \<open>Connecting\<close>

definition irc_server_connect :: "bool \<Rightarrow> irc_server \<Rightarrow> irc_server option" where
  "irc_server_connect with_ssl server =
     (if sv_hostname server = None \<or> sv_port server = 0 \<or> sv_nickname server = None \<or>
         sv_username server = None \<or> sv_realname server = None then None
      else if sv_coroutine server \<noteq> None then Some server
      else if with_ssl \<and> sv_flags server AND IRC_SERVER_FLAGS_SSL \<noteq> 0 then Some server
      else Some (server\<lparr>sv_coroutine := Some conn_new\<rparr>))"

definition irc_server_disconnect :: "irc_server \<Rightarrow> irc_server" where
  "irc_server_disconnect server =
     irc_server_clear (irc_server_channels_clear (server\<lparr>sv_coroutine := None\<rparr>))"

definition irc_server_reconnect :: "bool \<Rightarrow> irc_server \<Rightarrow> irc_server option" where
  "irc_server_reconnect with_ssl server = irc_server_connect with_ssl (irc_server_disconnect server)"

text \<open>Reference counts: \<open>Inl ()\<close> is the server once freed.\<close>

definition irc_server_incref :: "irc_server \<Rightarrow> irc_server" where
  "irc_server_incref server = server\<lparr>sv_refc := Suc (sv_refc server)\<rparr>"

definition irc_server_decref :: "irc_server \<Rightarrow> (unit + irc_server) option" where
  "irc_server_decref server =
     (if sv_refc server = 0 then None
      else if sv_refc server = 1 then Some (Inl ())
      else Some (Inr (server\<lparr>sv_refc := sv_refc server - 1\<rparr>)))"

section \<open>Channels as a collection\<close>

definition ch_key :: "irc_channel \<Rightarrow> string" where
  "ch_key ch = map to_lower (ch_name ch)"

definition sv_wf :: "irc_server \<Rightarrow> bool" where
  "sv_wf s = (distinct (map ch_key (sv_channels s)) \<and> (\<forall>ch \<in> set (sv_channels s). ch_wf ch))"

lemma is_channel_key: "is_channel n ch = (ch_key ch = map to_lower n)"
  by (simp add: is_channel_def ch_key_def strcaseeq_def)

lemma is_channel_same: "strcaseeq v w \<Longrightarrow> is_channel v = is_channel w"
  by (intro ext) (simp add: is_channel_key strcaseeq_def)

lemma is_channel_other: "is_channel v ch \<Longrightarrow> \<not> strcaseeq v w \<Longrightarrow> \<not> is_channel w ch"
  by (auto simp: is_channel_key strcaseeq_def)

lemma is_channel_new [simp]: "is_channel w (irc_channel_new n p f) = strcaseeq n w"
  by (simp add: is_channel_def irc_channel_new_def)

lemma ch_key_new [simp]: "ch_key (irc_channel_new n p f) = map to_lower n"
  by (simp add: ch_key_def irc_channel_new_def)

lemma ch_wf_flags [simp]: "ch_wf (ch\<lparr>ch_flags := f\<rparr>) = ch_wf ch"
  by (simp add: ch_wf_def)

lemma find_channels_update [simp]:
  "irc_server_channels_find (sv\<lparr>sv_coroutine := c\<rparr>) n = irc_server_channels_find sv n"
  by (simp add: irc_server_channels_find_def)

lemma sv_wf_coroutine [simp]: "sv_wf (sv\<lparr>sv_coroutine := c\<rparr>) = sv_wf sv"
  by (simp add: sv_wf_def)

lemma find_channels_cong:
  "strcaseeq v w \<Longrightarrow> irc_server_channels_find sv v = irc_server_channels_find sv w"
  by (simp add: irc_server_channels_find_def is_channel_same)

lemma find_on_channel:
  assumes "\<And>ch. ch_name (f ch) = ch_name ch"
  shows "irc_server_channels_find (on_channel sv n f) w =
    (if strcaseeq n w then map_option f (irc_server_channels_find sv w)
     else irc_server_channels_find sv w)"
proof (cases "strcaseeq n w")
  case True
  then have eq: "is_channel n = is_channel w" by (rule is_channel_same)
  have "find (is_channel w) (update_first (is_channel w) f chs) = map_option f (find (is_channel w) chs)"
    for chs by (rule find_update_first_same) (simp add: is_channel_def assms)
  with True show ?thesis
    by (simp add: irc_server_channels_find_def on_channel_def eq)
next
  case False
  have "find (is_channel w) (update_first (is_channel n) f chs) = find (is_channel w) chs" for chs
  proof (rule find_update_first_other)
    show "is_channel n x \<Longrightarrow> \<not> is_channel w x" for x using False by (rule is_channel_other [rotated])
    show "is_channel w (f x) = is_channel w x" for x by (simp add: is_channel_def assms)
  qed
  with False show ?thesis by (simp add: irc_server_channels_find_def on_channel_def)
qed

lemma sv_wf_on_channel:
  assumes "sv_wf sv" and "\<And>ch. ch_name (f ch) = ch_name ch" and "\<And>ch. ch_wf ch \<Longrightarrow> ch_wf (f ch)"
  shows "sv_wf (on_channel sv n f)"
proof -
  have "map ch_key (update_first (is_channel n) f chs) = map ch_key chs" for chs
    by (rule map_update_first) (simp add: ch_key_def assms(2))
  moreover have "\<forall>ch \<in> set (update_first (is_channel n) f (sv_channels sv)). ch_wf ch"
    using assms(1) by (intro ball_update_first) (simp_all add: sv_wf_def assms(3))
  ultimately show ?thesis using assms(1) by (simp add: sv_wf_def on_channel_def)
qed

lemma find_add:
  "irc_server_channels_find (irc_server_channels_add sv n p fl) w =
     (if strcaseeq n w
      then (case irc_server_channels_find sv w of
              None \<Rightarrow> Some (irc_channel_new n p fl)
            | Some ch \<Rightarrow> Some (ch\<lparr>ch_flags := ch_flags ch OR fl\<rparr>))
      else irc_server_channels_find sv w)"
proof (cases "irc_server_channels_find sv n")
  case None
  then have "strcaseeq n w \<Longrightarrow> irc_server_channels_find sv w = None"
    by (simp add: irc_server_channels_find_def is_channel_same)
  with None show ?thesis
    by (auto simp: irc_server_channels_add_def) (simp_all add: irc_server_channels_find_def)
next
  case (Some ch)
  then have "strcaseeq n w \<Longrightarrow> irc_server_channels_find sv w = Some ch"
    by (simp add: irc_server_channels_find_def is_channel_same)
  with Some show ?thesis by (simp add: irc_server_channels_add_def find_on_channel)
qed

lemma sv_wf_add:
  assumes "sv_wf sv"
  shows "sv_wf (irc_server_channels_add sv n p fl)"
proof (cases "irc_server_channels_find sv n")
  case None
  then have "map to_lower n \<notin> ch_key ` set (sv_channels sv)"
    by (auto simp: irc_server_channels_find_def find_None_iff' is_channel_key)
  with None assms show ?thesis
    by (simp add: irc_server_channels_add_def sv_wf_def ch_wf_new)
next
  case (Some ch)
  with sv_wf_on_channel [OF assms, of "\<lambda>ch. ch\<lparr>ch_flags := ch_flags ch OR fl\<rparr>" n] show ?thesis
    by (simp add: irc_server_channels_add_def)
qed

lemma find_remove:
  assumes "sv_wf sv"
  shows "irc_server_channels_find (irc_server_channels_remove sv n) w =
    (if strcaseeq n w then None else irc_server_channels_find sv w)"
proof (cases "strcaseeq n w")
  case True
  have "find (is_channel n) (delete_first (is_channel n) (sv_channels sv)) = None"
    using assms by (intro find_delete_first_same [where f = ch_key]) (simp_all add: sv_wf_def is_channel_key)
  with True show ?thesis
    by (simp add: irc_server_channels_find_def irc_server_channels_remove_def is_channel_same)
next
  case False
  then have "find (is_channel w) (delete_first (is_channel n) chs) = find (is_channel w) chs" for chs
    by (intro find_delete_first_other) (simp add: is_channel_other)
  with False show ?thesis
    by (simp add: irc_server_channels_find_def irc_server_channels_remove_def)
qed

lemma sv_wf_remove:
  assumes "sv_wf sv"
  shows "sv_wf (irc_server_channels_remove sv n)"
  using assms set_delete_first [of "is_channel n" "sv_channels sv"]
  by (auto simp: sv_wf_def irc_server_channels_remove_def distinct_map_delete_first)

interpretation channels: ci_set sv_wf "\<lambda>sv n. irc_server_channels_find sv n \<noteq> None"
  "\<lambda>sv n. irc_server_channels_add sv n p fl" irc_server_channels_remove for p fl
  by unfold_locales
     (auto simp: find_add find_remove sv_wf_add sv_wf_remove split: option.splits)

lemma sv_wf_clear: "sv_wf sv \<Longrightarrow> sv_wf (irc_server_channels_clear sv)"
proof -
  have "ch_key (irc_channel_clear ch) = ch_key ch" for ch by (simp add: ch_key_def)
  then have "map ch_key (map irc_channel_clear chs) = map ch_key chs" for chs by simp
  then show "sv_wf sv \<Longrightarrow> sv_wf (irc_server_channels_clear sv)"
    unfolding sv_wf_def irc_server_channels_clear_def by (auto simp: ch_wf_clear simp del: map_map)
qed

lemma send_cases:
  "snd (irc_server_send sv text) = sv \<or> (\<exists>c. snd (irc_server_send sv text) = sv\<lparr>sv_coroutine := Some c\<rparr>)"
  by (auto simp: irc_server_send_def irc_server_send_va_def split: option.splits sum.splits)

lemma send_frame [simp]:
  "sv_channels (snd (irc_server_send sv text)) = sv_channels sv"
  "sv_nickname (snd (irc_server_send sv text)) = sv_nickname sv"
  "sv_prefixes (snd (irc_server_send sv text)) = sv_prefixes sv"
  "sv_flags (snd (irc_server_send sv text)) = sv_flags sv"
  "sv_name (snd (irc_server_send sv text)) = sv_name sv"
  "irc_server_channels_find (snd (irc_server_send sv text)) n = irc_server_channels_find sv n"
  "sv_wf (snd (irc_server_send sv text)) = sv_wf sv"
  using send_cases [of sv "text"] by auto

lemma sv_wf_join: "sv_wf sv \<Longrightarrow> sv_wf (snd (irc_server_join sv n p))"
  by (simp add: irc_server_join_def Let_def sv_wf_add split: option.splits)

text \<open>
  The channels of a server are a map from names up to case: no name is held twice,
  whatever is joined, left or cleared, and adding a channel that is there keeps its
  members and password and only adds flags.
\<close>
theorem server_channels_map:
  assumes "sv_wf sv"
  shows "sv_wf (irc_server_channels_add sv n p fl) \<and> sv_wf (irc_server_channels_remove sv n) \<and>
    sv_wf (snd (irc_server_join sv n p)) \<and> sv_wf (irc_server_disconnect sv) \<and>
    irc_server_channels_find (irc_server_channels_add sv n p fl) w =
      (if strcaseeq n w
       then (case irc_server_channels_find sv w of
               None \<Rightarrow> Some (irc_channel_new n p fl)
             | Some ch \<Rightarrow> Some (ch\<lparr>ch_flags := ch_flags ch OR fl\<rparr>))
       else irc_server_channels_find sv w) \<and>
    irc_server_channels_find (irc_server_channels_remove sv n) w =
      (if strcaseeq n w then None else irc_server_channels_find sv w)"
proof -
  have "sv_wf (irc_server_disconnect sv)"
    using sv_wf_clear [of sv] assms
    by (simp add: irc_server_disconnect_def irc_server_clear_def irc_server_channels_clear_def sv_wf_def)
  with assms show ?thesis
    by (simp only: sv_wf_add sv_wf_remove sv_wf_join find_add find_remove)
qed

lemma sv_wf_new: "sv_wf (irc_server_new name)"
  by (simp add: sv_wf_def irc_server_new_def)

theorem server_channels_map_witness:
  "irc_server_channels_find (irc_server_channels_remove (irc_server_new ''s'') ''#a'') ''#A'' = None"
  using server_channels_map [OF sv_wf_new, of "''s''" "''#a''" None 0 "''#A''"]
  by (simp add: irc_server_channels_find_def irc_server_new_def)

section \<open>Commands\<close>

lemma push_Inl: "irc__conn_push c data = Inl e \<longleftrightarrow>
    e = ENOBUFS \<and> CONN_OUT_SIZE - length (c_out c) \<le> length data + 2"
  by (auto simp: irc__conn_push_def)

lemma send_outcome:
  "irc_server_send sv line =
    (case sv_coroutine sv of
       None \<Rightarrow> (Inl ENOTCONN, sv)
     | Some c \<Rightarrow>
         if c_state c < STATE_IDENT then (Inl ENOTCONN, sv)
         else if length (c_out c) + min 511 (length line) + 2 < CONN_OUT_SIZE
         then (Inr 0, sv\<lparr>sv_coroutine := Some (c\<lparr>c_out := c_out c @ wire (take 511 line), c_events := 3\<rparr>)\<rparr>)
         else (Inl ENOBUFS, sv))"
proof (cases "sv_coroutine sv")
  case None
  then show ?thesis by (simp add: irc_server_send_def irc_server_send_va_def)
next
  case (Some c)
  have "irc__conn_ready (Some c) = (\<not> c_state c < STATE_IDENT)"
    by (cases "c_state c") (simp_all add: irc__conn_ready_def less_conn_state_def)
  with Some show ?thesis
    by (simp add: irc_server_send_def irc_server_send_va_def push_accepts fit_def
        IRCCD_MESSAGE_LEN_def min.commute)
qed

text \<open>
  A command is queued as one line cut to 511 bytes when the server is connected and
  the output buffer has room; otherwise the error tells which of the two is missing and
  nothing changes.
\<close>
theorem server_send_outcome:
  "irc_server_send sv line =
    (case sv_coroutine sv of
       None \<Rightarrow> (Inl ENOTCONN, sv)
     | Some c \<Rightarrow>
         if c_state c < STATE_IDENT then (Inl ENOTCONN, sv)
         else if length (c_out c) + min 511 (length line) + 2 < CONN_OUT_SIZE
         then (Inr 0, sv\<lparr>sv_coroutine := Some (c\<lparr>c_out := c_out c @ wire (take 511 line), c_events := 3\<rparr>)\<rparr>)
         else (Inl ENOBUFS, sv))"
  by (rule send_outcome)

lemma server_ready_iff:
  "server_ready sv = (\<exists>c. sv_coroutine sv = Some c \<and> STATE_IDENT \<le> c_state c)"
proof (cases "sv_coroutine sv")
  case (Some c)
  then show ?thesis
    by (cases "c_state c") (simp_all add: server_ready_def irc__conn_ready_def less_eq_conn_state_def)
qed (simp add: server_ready_def irc__conn_ready_def)

text \<open>
  Joining remembers the channel, connected or not, and asks the network for it only
  when the server is connected and the channel is not marked as joined; joining the same
  name again, in any case, changes no channel and drops a new password.
\<close>
theorem server_join_outcome:
  "irc_server_channels_find (snd (irc_server_join sv n p)) w =
     (if irc_server_channels_find sv n = None \<and> strcaseeq n w
      then Some (irc_channel_new n p 0) else irc_server_channels_find sv w) \<and>
   (server_ready sv \<and>
    (\<forall>ch. irc_server_channels_find sv n = Some ch \<longrightarrow> ch_flags ch AND IRC_CHANNEL_FLAGS_JOINED = 0) \<longrightarrow>
      fst (irc_server_join sv n p) =
        fst (irc_server_send sv (case p of Some k \<Rightarrow> ''JOIN '' @ n @ '' '' @ k | None \<Rightarrow> ''JOIN '' @ n))) \<and>
   (\<not> server_ready sv \<or>
    (\<exists>ch. irc_server_channels_find sv n = Some ch \<and> ch_flags ch AND IRC_CHANNEL_FLAGS_JOINED \<noteq> 0) \<longrightarrow>
      fst (irc_server_join sv n p) = Inr 1)"
proof (cases "irc_server_channels_find sv n")
  case None
  let ?s = "irc_server_channels_add sv n p 0"
  have co: "sv_coroutine ?s = sv_coroutine sv"
    using None by (simp add: irc_server_channels_add_def)
  have "fst (irc_server_send ?s line) = fst (irc_server_send sv line)" for line
    by (simp add: irc_server_send_def irc_server_send_va_def co split: option.splits sum.splits)
  moreover have "strcaseeq n w \<Longrightarrow> irc_server_channels_find sv w = None"
    using None find_channels_cong by metis
  ultimately show ?thesis using None co
    by (simp add: irc_server_join_def Let_def find_add IRC_CHANNEL_FLAGS_NONE_def server_ready_def
        irc_channel_new_def)
next
  case (Some ch)
  then show ?thesis by (auto simp: irc_server_join_def Let_def)
qed

theorem server_join_outcome_witness:
  "irc_server_channels_find (snd (irc_server_join (irc_server_new ''s'') ''#A'' None)) ''#a'' =
     Some (irc_channel_new ''#A'' None 0) \<and>
   fst (irc_server_join (irc_server_new ''s'') ''#A'' None) = Inr 1"
proof -
  have eq: "strcaseeq ''#A'' ''#a''" by code_simp
  have new: "irc_server_channels_find (irc_server_new ''s'') n = None"
    "\<not> server_ready (irc_server_new ''s'')" for n
    by (simp_all add: irc_server_channels_find_def irc_server_new_def server_ready_def irc__conn_ready_def)
  from server_join_outcome [of "irc_server_new ''s''" "''#A''" None "''#a''"] eq new
  show ?thesis by simp
qed

lemma sends_queued:
  assumes "sv_coroutine s = Some k" and "\<not> c_state k < STATE_IDENT"
    and "length (c_out k) + 513 * length xs < CONN_OUT_SIZE"
  shows "\<exists>c'. sv_coroutine (foldl (\<lambda>s l. snd (irc_server_send s l)) s xs) = Some c' \<and>
      c_out c' = c_out k @ concat (map (wire \<circ> take 511) xs)"
  using assms
proof (induction xs arbitrary: s k)
  case (Cons x xs)
  let ?k = "k\<lparr>c_out := c_out k @ wire (take 511 x), c_events := 3\<rparr>"
  from Cons.prems have fits: "length (c_out k) + min 511 (length x) + 2 < CONN_OUT_SIZE" by simp
  have "snd (irc_server_send s x) = s\<lparr>sv_coroutine := Some ?k\<rparr>"
    by (simp only: server_send_outcome Cons.prems option.case fits) simp
  moreover have "length (c_out ?k) + 513 * length xs < CONN_OUT_SIZE"
    using Cons.prems(3) by (simp add: wire_def)
  ultimately show ?case
    using Cons.IH [of "s\<lparr>sv_coroutine := Some ?k\<rparr>" ?k] Cons.prems(2) by simp
qed simp

text \<open>
  Identification queues exactly its four or five lines, in order: the capability, the
  password if there is one, the nickname, the user and the end of the negotiation.
\<close>
theorem ident_lines_queued:
  assumes "sv_coroutine sv = Some c" and "c_state c = STATE_IDENT" and "c_out c = []"
    and "conn_ident_lines sv = Some ls"
  shows "\<exists>sv' c'. conn_ident sv = Some sv' \<and> sv_coroutine sv' = Some c' \<and>
     c_out c' = concat (map (wire \<circ> take 511) ls) \<and> length ls \<le> 5"
proof -
  have len: "length ls \<le> 5"
    using assms(4) by (auto simp: conn_ident_lines_def bind_eq_Some_conv split: option.splits)
  have "length (c_out c) + 513 * length ls < CONN_OUT_SIZE"
    using len assms(3) by (simp add: CONN_OUT_SIZE_def)
  from sends_queued [OF assms(1) _ this] assms(2-4) len show ?thesis
    by (auto simp: conn_ident_def less_conn_state_def)
qed

definition ident_server :: irc_server where
  "ident_server = (irc_server_new ''s'')\<lparr>sv_nickname := Some ''n'', sv_username := Some ''u'',
     sv_realname := Some ''r'', sv_coroutine := Some (conn_new\<lparr>c_state := STATE_IDENT\<rparr>)\<rparr>"

theorem ident_lines_queued_witness:
  "\<exists>sv' c'. conn_ident ident_server = Some sv' \<and> sv_coroutine sv' = Some c' \<and>
     c_out c' = wire ''CAP REQ :multi-prefix'' @ wire ''NICK n'' @ wire ''USER u u u :r'' @ wire ''CAP END''"
proof -
  have "sv_coroutine ident_server = Some (conn_new\<lparr>c_state := STATE_IDENT\<rparr>)"
    "conn_ident_lines ident_server =
       Some [''CAP REQ :multi-prefix'', ''NICK n'', ''USER u u u :r'', ''CAP END'']"
    by (simp_all add: ident_server_def conn_ident_lines_def irc_server_new_def)
  from ident_lines_queued [OF this(1) _ _ this(2)] show ?thesis
    by (simp add: conn_new_def)
qed

section \<open>Prefixes\<close>

lemma strip_loop_nths:
  assumes "i + length ps \<le> 32" and "distinct (map um_symbol ps)"
    and "nick = [] \<or> hd nick \<notin> um_symbol ` set ps"
  shows "snd (strip_loop ps i m (nths (map um_symbol ps) I @ nick)) = nick \<and>
    (\<forall>k. bit (fst (strip_loop ps i m (nths (map um_symbol ps) I @ nick))) k \<longleftrightarrow>
       bit m k \<or> (i \<le> k \<and> k < i + length ps \<and> k - i \<in> I))"
  using assms
proof (induction ps arbitrary: i m I)
  case Nil
  then show ?case by auto
next
  case (Cons p ps)
  let ?J = "{j. Suc j \<in> I}"
  let ?w = "nths (map um_symbol ps) ?J @ nick"
  have IH: "snd (strip_loop ps (Suc i) m' ?w) = nick \<and>
    (\<forall>k. bit (fst (strip_loop ps (Suc i) m' ?w)) k \<longleftrightarrow>
       bit m' k \<or> (Suc i \<le> k \<and> k < Suc i + length ps \<and> k - Suc i \<in> ?J))" for m'
    using Cons.prems by (intro Cons.IH) auto
  have range: "(Suc i \<le> k \<and> k < Suc i + length ps \<and> k - Suc i \<in> ?J) =
      (i \<le> k \<and> k \<noteq> i \<and> k < i + length (p # ps) \<and> k - i \<in> I)" for k
    by (auto simp: Suc_diff_Suc)
  have bitp: "bit (2 ^ i :: c_int) k = (k = i)" for k
    using Cons.prems(1) by (auto simp: bit_simps)
  show ?case
  proof (cases "0 \<in> I")
    case True
    then have "nths (map um_symbol (p # ps)) I @ nick = um_symbol p # ?w"
      by (simp add: nths_Cons)
    then have step: "strip_loop (p # ps) i m (nths (map um_symbol (p # ps)) I @ nick) =
        strip_loop ps (Suc i) (m OR push_bit i 1) ?w" by simp
    have "bit (m OR push_bit i 1) k \<or> (i \<le> k \<and> k \<noteq> i \<and> k < i + length (p # ps) \<and> k - i \<in> I) \<longleftrightarrow>
        bit m k \<or> (i \<le> k \<and> k < i + length (p # ps) \<and> k - i \<in> I)" for k
      by (cases "k = i") (simp_all add: bit_or_iff bitp True)
    with IH [of "m OR push_bit i 1"] show ?thesis
      unfolding step range by simp
  next
    case False
    then have w: "nths (map um_symbol (p # ps)) I @ nick = ?w"
      by (simp add: nths_Cons)
    have "set ?w \<subseteq> um_symbol ` set ps \<union> set nick"
      by (auto dest: in_set_nthsD)
    have "?w \<noteq> [] \<Longrightarrow> hd ?w \<noteq> um_symbol p"
    proof (cases "nths (map um_symbol ps) ?J = []")
      case True
      then show "?w \<noteq> [] \<Longrightarrow> hd ?w \<noteq> um_symbol p" using Cons.prems(3) by auto
    next
      case False
      then have "hd ?w \<in> um_symbol ` set ps"
        by (metis (no_types, lifting) hd_append2 hd_in_set in_set_nthsD list.set_map)
      then show "hd ?w \<noteq> um_symbol p" using Cons.prems(2) by auto
    qed
    then have "strip_loop (p # ps) i m (nths (map um_symbol (p # ps)) I @ nick) =
        strip_loop ps (Suc i) m ?w"
      unfolding w by auto
    moreover have "(i \<le> k \<and> k \<noteq> i \<and> k < i + length (p # ps) \<and> k - i \<in> I) =
        (i \<le> k \<and> k < i + length (p # ps) \<and> k - i \<in> I)" for k
      by (cases "k = i") (simp_all add: False)
    ultimately show ?thesis using IH [of m] unfolding range by simp
  qed
qed

text \<open>
  With the prefixes the network announced, stripping the combined symbols of a
  nickname (as \<open>multi-prefix\<close> sends them, in the order of the announcement) gives the
  nickname and the mask with exactly the bits of these symbols.
\<close>
theorem strip_multi_prefix:
  assumes "distinct (map um_symbol (sv_prefixes sv))" and "length (sv_prefixes sv) \<le> 15"
    and "nick = [] \<or> hd nick \<notin> um_symbol ` set (sv_prefixes sv)"
  shows "snd (irc_server_strip sv (nths (map um_symbol (sv_prefixes sv)) I @ nick)) = nick \<and>
    (\<forall>k. bit (fst (irc_server_strip sv (nths (map um_symbol (sv_prefixes sv)) I @ nick))) k \<longleftrightarrow>
       k < length (sv_prefixes sv) \<and> k \<in> I)"
  using strip_loop_nths [of 0 "sv_prefixes sv" nick 0 I] assms
  by (simp add: irc_server_strip_def)

lemma modes_parse_ov:
  "sv_prefixes (irc_server_modes_parse sv ''(ov)@+'') =
     [\<lparr>um_mode = CHR ''o'', um_symbol = CHR ''@''\<rparr>, \<lparr>um_mode = CHR ''v'', um_symbol = CHR ''+''\<rparr>]"
proof -
  have "sscanf_prefix ''(ov)@+'' = Some (''ov'', ''@+'')" by code_simp
  then show ?thesis by (simp add: irc_server_modes_parse_def)
qed

theorem strip_multi_prefix_witness:
  "snd (irc_server_strip (irc_server_modes_parse (irc_server_new ''s'') ''(ov)@+'') ''@+jean'') = ''jean'' \<and>
   bit (fst (irc_server_strip (irc_server_modes_parse (irc_server_new ''s'') ''(ov)@+'') ''@+jean'')) 1"
  using strip_multi_prefix [of "irc_server_modes_parse (irc_server_new ''s'') ''(ov)@+''" "''jean''" "{0, 1}"]
  by (simp add: modes_parse_ov nths_Cons)

section \<open>Identity and connection\<close>

text \<open>
  A nickname counts as the bot's own as soon as the bot's is a prefix of it, up to
  case: the origin of every message of the bot is recognised, and so is that of any user
  whose nickname continues the bot's.
\<close>
theorem self_is_prefix:
  assumes "sv_nickname sv = Some own" and "strcaseeq own start"
  shows "irc_server_is_self sv (start @ rest) = Some True"
proof -
  have "length own = length start"
    using assms(2) unfolding strcaseeq_def by (rule map_eq_imp_length_eq)
  then show ?thesis
    using assms by (simp add: irc_server_is_self_def strncaseeq_def strcaseeq_def)
qed

theorem self_is_prefix_witness:
  "irc_server_is_self ((irc_server_new ''s'')\<lparr>sv_nickname := Some ''jean''\<rparr>) ''JEANNE!j@host'' = Some True"
proof -
  have "strcaseeq ''jean'' ''JEAN''" by code_simp
  from self_is_prefix [OF _ this, of "(irc_server_new ''s'')\<lparr>sv_nickname := Some ''jean''\<rparr>" "''NE!j@host''"]
  show ?thesis by simp
qed

text \<open>
  Disconnecting keeps every channel with its name and password but forgets that it
  was joined, who is in it and all that the network announced; reconnecting then starts a
  fresh connection, except that a build with TLS support refuses a server that asks for
  TLS, while a build without it connects such a server in clear text.
\<close>
theorem server_reconnect:
  assumes "sv_hostname sv \<noteq> None" and "sv_port sv \<noteq> 0" and "sv_nickname sv \<noteq> None"
    and "sv_username sv \<noteq> None" and "sv_realname sv \<noteq> None"
  shows "\<exists>sv'. irc_server_reconnect with_ssl sv = Some sv' \<and>
    sv_coroutine sv' =
      (if with_ssl \<and> sv_flags sv AND IRC_SERVER_FLAGS_SSL \<noteq> 0 then None else Some conn_new) \<and>
    map ch_name (sv_channels sv') = map ch_name (sv_channels sv) \<and>
    map ch_password (sv_channels sv') = map ch_password (sv_channels sv) \<and>
    (\<forall>ch \<in> set (sv_channels sv'). ch_users ch = [] \<and> ch_flags ch = 0) \<and>
    sv_prefixes sv' = []"
  using assms
  by (auto simp: irc_server_reconnect_def irc_server_disconnect_def irc_server_connect_def
      irc_server_clear_def irc_server_channels_clear_def irc_channel_clear_def
      IRC_CHANNEL_FLAGS_NONE_def)

definition tls_server :: irc_server where
  "tls_server = ident_server\<lparr>sv_hostname := Some ''h'', sv_flags := IRC_SERVER_FLAGS_SSL\<rparr>"

theorem server_reconnect_witness:
  "\<exists>a b. irc_server_reconnect True tls_server = Some a \<and> sv_coroutine a = None \<and>
     irc_server_reconnect False tls_server = Some b \<and> sv_coroutine b = Some conn_new"
proof -
  have h: "sv_hostname tls_server \<noteq> None" "sv_port tls_server \<noteq> 0" "sv_nickname tls_server \<noteq> None"
    "sv_username tls_server \<noteq> None" "sv_realname tls_server \<noteq> None"
    "sv_flags tls_server AND IRC_SERVER_FLAGS_SSL \<noteq> 0"
    by (simp_all add: tls_server_def ident_server_def irc_server_new_def IRC_SERVER_FLAGS_SSL_def)
  from server_reconnect [OF h(1-5), of True] server_reconnect [OF h(1-5), of False] h(6)
  show ?thesis by auto
qed

text \<open>
  The index 0 of the mode table is both a mode and the answer for an unknown one.
\<close>
theorem modes_find_ambiguous:
  assumes "m \<notin> um_mode ` set (p # ps)" and "um_mode ` set ps \<inter> {um_mode p} = {}"
  shows "irc_server_modes_find (sv\<lparr>sv_prefixes := p # ps\<rparr>) m = 0 \<and>
    irc_server_modes_find (sv\<lparr>sv_prefixes := p # ps\<rparr>) (um_mode p) = 0 \<and>
    (\<forall>i < length ps. distinct (map um_mode ps) \<longrightarrow>
       irc_server_modes_find (sv\<lparr>sv_prefixes := p # ps\<rparr>) (um_mode (ps ! i)) = Suc i)"
proof -
  have none: "m \<notin> um_mode ` set qs \<Longrightarrow> modes_find_loop qs m k = 0" for qs k
    by (induction qs arbitrary: k) auto
  have at: "i < length qs \<Longrightarrow> distinct (map um_mode qs) \<Longrightarrow>
      modes_find_loop qs (um_mode (qs ! i)) k = k + i" for qs i k
  proof (induction qs arbitrary: i k)
    case (Cons q qs)
    show ?case
    proof (cases i)
      case (Suc j)
      with Cons have "um_mode q \<noteq> um_mode (qs ! j)" by (auto simp: image_iff)
      with Cons Suc show ?thesis by simp
    qed simp
  qed simp
  have "i < length ps \<Longrightarrow> um_mode p \<noteq> um_mode (ps ! i)" for i
    using assms(2) by (metis disjoint_insert(2) image_eqI nth_mem)
  with none [of "p # ps" 0] assms at show ?thesis
    by (simp add: irc_server_modes_find_def)
qed

theorem modes_find_ambiguous_witness:
  "irc_server_modes_find (irc_server_modes_parse (irc_server_new ''s'') ''(ov)@+'') CHR ''x'' = 0 \<and>
   irc_server_modes_find (irc_server_modes_parse (irc_server_new ''s'') ''(ov)@+'') CHR ''o'' = 0"
proof -
  have "irc_server_modes_parse (irc_server_new ''s'') ''(ov)@+'' =
    (irc_server_new ''s'')\<lparr>sv_prefixes := sv_prefixes (irc_server_modes_parse (irc_server_new ''s'') ''(ov)@+'')\<rparr>"
    by (simp add: irc_server_modes_parse_def Let_def split: option.splits)
  with modes_find_ambiguous [of "CHR ''x''" "\<lparr>um_mode = CHR ''o'', um_symbol = CHR ''@''\<rparr>"
      "[\<lparr>um_mode = CHR ''v'', um_symbol = CHR ''+''\<rparr>]" "irc_server_new ''s''"]
  show ?thesis by (simp add: modes_parse_ov)
qed

end
