(* ===== verification/Event.thy ===== *)
theory Event
  imports Util
begin

text \<open>
  Events (\<open>lib/irccd/event.h\<close>, \<open>event.c\<close>): what a server reports to the bot, one record
  per C structure, and the line that is broadcast to the clients of the daemon.

  The union with its tag is a datatype whose constructors are the event types; the server
  an event comes from is given by its name, which identifies it in the bot.
\<close>

section \<open>Data\<close>

record irc_event_invite =
  invite_origin :: string
  invite_channel :: string

record irc_event_join =
  join_origin :: string
  join_channel :: string

record irc_event_kick =
  kick_origin :: string
  kick_channel :: string
  kick_target :: string
  kick_reason :: "string option"

record irc_event_message =
  message_origin :: string
  message_channel :: string
  message_message :: string

record irc_event_mode =
  mode_origin :: string
  mode_channel :: string
  mode_mode :: string
  mode_args :: "string list"

text \<open>An entry of the names array is zeroed when allocated: its nickname may be NULL.\<close>

record irc_event_names =
  names_channel :: string
  names_users :: "(string option \<times> c_int) list"

record irc_event_nick =
  nick_origin :: string
  nick_nickname :: string

record irc_event_notice =
  notice_origin :: string
  notice_channel :: string
  notice_notice :: string

record irc_event_part =
  part_origin :: string
  part_channel :: string
  part_reason :: "string option"

record irc_event_topic =
  topic_origin :: string
  topic_channel :: string
  topic_topic :: string

record irc_event_whois =
  whois_nickname :: string
  whois_username :: string
  whois_realname :: string
  whois_hostname :: string
  whois_channels :: "(string \<times> c_int) list"

datatype irc_event_type =
    IRC_EVENT_UNKNOWN
  | IRC_EVENT_COMMAND irc_event_message
  | IRC_EVENT_CONNECT
  | IRC_EVENT_DISCONNECT
  | IRC_EVENT_INVITE irc_event_invite
  | IRC_EVENT_JOIN irc_event_join
  | IRC_EVENT_KICK irc_event_kick
  | IRC_EVENT_ME irc_event_message
  | IRC_EVENT_MESSAGE irc_event_message
  | IRC_EVENT_MODE irc_event_mode
  | IRC_EVENT_NAMES irc_event_names
  | IRC_EVENT_NICK irc_event_nick
  | IRC_EVENT_NOTICE irc_event_notice
  | IRC_EVENT_PART irc_event_part
  | IRC_EVENT_TOPIC irc_event_topic
  | IRC_EVENT_WHOIS irc_event_whois

record irc_event =
  ev_type :: irc_event_type
  ev_server :: string

section \<open>Printing\<close>

text \<open>
  \<open>snprintf\<close> of fields separated by spaces: the result is the length wanted, the buffer
  of \<open>strsz\<close> bytes keeps what fits.
\<close>

fun fields :: "string list \<Rightarrow> string" where
  "fields [] = []"
| "fields [x] = x"
| "fields (x # xs) = x @ CHR '' '' # fields xs"

definition snprintf :: "nat \<Rightarrow> string \<Rightarrow> nat \<times> string" where
  "snprintf strsz text = (length text, fit strsz text)"

definition or_empty :: "string option \<Rightarrow> string" where
  "or_empty s = (case s of None \<Rightarrow> [] | Some x \<Rightarrow> x)"

text \<open>The loop over the mode arguments: each is appended, the last length is kept.\<close>

fun mode_args_loop :: "nat \<times> string \<Rightarrow> string list \<Rightarrow> nat \<Rightarrow> nat \<times> string" where
  "mode_args_loop (written, str) [] strsz = (written, str)"
| "mode_args_loop (written, str) (m # ms) strsz =
     mode_args_loop (irc_util_strlcat str m strsz) ms strsz"

definition irc_event_str_body :: "irc_event \<Rightarrow> string \<Rightarrow> nat \<Rightarrow> nat \<times> string" where
  "irc_event_str_body ev str strsz =
     (let sv = ev_server ev in
      case ev_type ev of
        IRC_EVENT_CONNECT \<Rightarrow> snprintf strsz (fields [''EVENT-CONNECT'', sv])
      | IRC_EVENT_DISCONNECT \<Rightarrow> snprintf strsz (fields [''EVENT-DISCONNECT'', sv])
      | IRC_EVENT_INVITE e \<Rightarrow>
          snprintf strsz (fields [''EVENT-INVITE'', sv, invite_origin e, invite_channel e])
      | IRC_EVENT_JOIN e \<Rightarrow>
          snprintf strsz (fields [''EVENT-JOIN'', sv, join_origin e, join_channel e])
      | IRC_EVENT_KICK e \<Rightarrow>
          snprintf strsz (fields [''EVENT-KICK'', sv, kick_origin e, kick_channel e,
            kick_target e, or_empty (kick_reason e)])
      | IRC_EVENT_ME e \<Rightarrow>
          snprintf strsz (fields [''EVENT-ME'', sv, message_origin e, message_channel e,
            message_message e])
      | IRC_EVENT_MESSAGE e \<Rightarrow>
          snprintf strsz (fields [''EVENT-MESSAGE'', sv, message_origin e, message_channel e,
            message_message e])
      | IRC_EVENT_MODE e \<Rightarrow>
          mode_args_loop (0, snd (snprintf strsz (fields [''EVENT-MODE'', sv, mode_origin e,
            mode_channel e, mode_mode e, []]))) (mode_args e) strsz
      | IRC_EVENT_NICK e \<Rightarrow>
          snprintf strsz (fields [''EVENT-NICK'', sv, nick_origin e, nick_nickname e])
      | IRC_EVENT_NOTICE e \<Rightarrow>
          snprintf strsz (fields [''EVENT-NOTICE'', sv, notice_origin e, notice_channel e,
            notice_notice e])
      | IRC_EVENT_PART e \<Rightarrow>
          snprintf strsz (fields [''EVENT-PART'', sv, part_origin e, part_channel e,
            or_empty (part_reason e)])
      | IRC_EVENT_TOPIC e \<Rightarrow>
          snprintf strsz (fields [''EVENT-TOPIC'', sv, topic_origin e, topic_channel e,
            topic_topic e])
      | IRC_EVENT_WHOIS e \<Rightarrow>
          (0, snd (snprintf strsz (fields [''EVENT-WHOIS'', sv, whois_nickname e,
            whois_username e, whois_realname e, whois_hostname e])))
      | _ \<Rightarrow> (0, str))"

text \<open>\<open>Inl ()\<close> is the result -1; the buffer is written to in both cases.\<close>

definition irc_event_str :: "irc_event \<Rightarrow> string \<Rightarrow> nat \<Rightarrow> bool \<times> string" where
  "irc_event_str ev str strsz =
     (case irc_event_str_body ev str strsz of (written, s) \<Rightarrow> (0 < written, s))"

section \<open>What is broadcast\<close>

lemma mode_args_loop_ok: 
  "length str < n \<Longrightarrow> length (snd (mode_args_loop (w, str) ms n)) < n"
proof (induction ms arbitrary: w str)
  case (Cons m ms)
  obtain w' s' where c: "irc_util_strlcat str m n = (w', s')" by fastforce
  with length_strlcat [OF Cons.prems, of m] have "length s' < n" by simp
  from Cons.IH [OF this] show ?case by (simp add: c)
qed simp

lemma mode_args_loop_big:
  "length str + length (concat ms) < n \<Longrightarrow> snd (mode_args_loop (w, str) ms n) = str @ concat ms"
proof (induction ms arbitrary: w str)
  case (Cons m ms)
  then show ?case
    by (simp add: irc_util_strlcat_def del: mode_args_loop.simps)
       (subst mode_args_loop.simps, simp add: irc_util_strlcat_def)
qed simp

lemma snprintf_ok: "n \<noteq> 0 \<Longrightarrow> length (snd (snprintf n s)) < n"
  by (simp add: snprintf_def)

lemma event_str_snd [simp]: "snd (irc_event_str ev str n) = snd (irc_event_str_body ev str n)"
  and event_str_fst [simp]: "fst (irc_event_str ev str n) = (0 < fst (irc_event_str_body ev str n))"
  by (simp_all add: irc_event_str_def split: prod.splits)

lemma event_body_bounded:
  assumes "strsz \<noteq> 0" and "length str < strsz"
  shows "length (snd (irc_event_str_body ev str strsz)) < strsz"
  using assms
  by (cases "ev_type ev")
     (simp_all add: irc_event_str_body_def snprintf_ok mode_args_loop_ok del: fields.simps)

text \<open>
  The line never exceeds its buffer, whatever the event holds.
\<close>
theorem event_str_bounded:
  assumes "strsz \<noteq> 0" and "length str < strsz"
  shows "length (snd (irc_event_str ev str strsz)) < strsz"
  using event_body_bounded [OF assms] by simp

theorem event_str_bounded_witness:
  "length (snd (irc_event_str \<lparr>ev_type = IRC_EVENT_CONNECT, ev_server = ''libera''\<rparr> [] 10)) < 10"
  using event_str_bounded [of 10 "[]"] by simp

text \<open>The events for which the loop or the print gives a positive length.\<close>

fun reported :: "irc_event_type \<Rightarrow> bool" where
  "reported IRC_EVENT_UNKNOWN = False"
| "reported (IRC_EVENT_COMMAND _) = False"
| "reported (IRC_EVENT_NAMES _) = False"
| "reported (IRC_EVENT_WHOIS _) = False"
| "reported (IRC_EVENT_MODE e) = (mode_args e \<noteq> [])"
| "reported _ = True"

lemma mode_args_loop_pos:
  assumes "str \<noteq> []" and "n \<noteq> 0"
  shows "ms \<noteq> [] \<Longrightarrow> 0 < fst (mode_args_loop (w, str) ms n)"
  using assms(1)
proof (induction ms arbitrary: w str)
  case (Cons m ms)
  have r: "fst (irc_util_strlcat str m n) > 0" "snd (irc_util_strlcat str m n) \<noteq> []"
    using Cons.prems(2) assms(2) by (auto simp: irc_util_strlcat_def)
  obtain w' s' where c: "irc_util_strlcat str m n = (w', s')" by fastforce
  show ?case
  proof (cases ms)
    case Nil
    with r c show ?thesis by simp
  next
    case Cons
    with Cons.IH [of s' w'] r c show ?thesis by simp
  qed
qed simp

lemma mode_line_nonempty: "2 \<le> n \<Longrightarrow> snd (snprintf n (fields (''EVENT-MODE'' # x # xs))) \<noteq> []"
  by (simp add: snprintf_def fit_def)

text \<open>
  A mode change without arguments is never reported to the clients, like a WHOIS
  answer whose line is complete; every other event with a line of its own is.
\<close>
theorem event_reported:
  assumes "2 \<le> strsz"
  shows "fst (irc_event_str ev str strsz) = reported (ev_type ev)"
proof (cases "ev_type ev")
  case (IRC_EVENT_MODE e)
  show ?thesis
  proof (cases "mode_args e")
    case Nil
    with IRC_EVENT_MODE show ?thesis by (simp add: irc_event_str_body_def)
  next
    case (Cons a as)
    with IRC_EVENT_MODE mode_line_nonempty [OF assms] assms show ?thesis
      by (simp add: irc_event_str_body_def mode_args_loop_pos del: fields.simps mode_args_loop.simps)
  qed
qed (simp_all add: irc_event_str_body_def Let_def snprintf_def)

theorem event_reported_witness:
  "\<not> fst (irc_event_str \<lparr>ev_type = IRC_EVENT_MODE \<lparr>mode_origin = ''jean'', mode_channel = ''#a'',
      mode_mode = ''+m'', mode_args = []\<rparr>, ev_server = ''libera''\<rparr> [] 512)"
  using event_reported [of 512] by simp

text \<open>
  The arguments of a mode change are written one behind the other without a separator:
  different argument lists give the same line.
\<close>
theorem event_mode_text:
  assumes "ev_type ev = IRC_EVENT_MODE e"
    and "length (fields [''EVENT-MODE'', ev_server ev, mode_origin e, mode_channel e, mode_mode e, []] @
           concat (mode_args e)) < strsz"
  shows "snd (irc_event_str ev str strsz) =
    fields [''EVENT-MODE'', ev_server ev, mode_origin e, mode_channel e, mode_mode e, []] @
    concat (mode_args e)"
proof -
  let ?f = "fields [''EVENT-MODE'', ev_server ev, mode_origin e, mode_channel e, mode_mode e, []]"
  have "snd (snprintf strsz ?f) = ?f"
    using assms(2) by (simp add: snprintf_def fit_id del: fields.simps)
  moreover have "length ?f + length (concat (mode_args e)) < strsz"
    using assms(2) by (simp only: length_append)
  ultimately show ?thesis
    using assms(1) mode_args_loop_big [of ?f "mode_args e" strsz 0]
    by (simp add: irc_event_str_body_def del: fields.simps mode_args_loop.simps)
qed

theorem event_mode_text_witness:
  "snd (irc_event_str \<lparr>ev_type = IRC_EVENT_MODE \<lparr>mode_origin = ''j'', mode_channel = ''#a'',
      mode_mode = ''+oo'', mode_args = [''bob'', ''alice'']\<rparr>, ev_server = ''s''\<rparr> [] 512) =
    ''EVENT-MODE s j #a +oo bobalice''"
  by (subst event_mode_text [OF irc_event.select_convs(1)]) simp_all

end
