(* ===== verification/Handlers.thy ===== *)
theory Handlers
  imports Server Event
begin

text \<open>
  What a server does with an incoming message (the \<open>irc_server_handle*\<close> functions of
  \<open>lib/irccd/server.c\<close>).  A handler gives the new server and the event it dispatches, if
  any, always as its last action; \<open>None\<close> is undefined behaviour.  The arguments of a
  message are an array of exactly \<open>argsz\<close> pointers, so reading the argument number
  \<open>argsz\<close> is out of bounds.

  The handler of a WHOIS answer pulls further messages itself: every handler is given the
  messages that follow and returns those it left.
\<close>

section \<open>Access to a message\<close>

definition arg :: "conn_msg \<Rightarrow> nat \<Rightarrow> string option" where
  "arg msg i = (if i < length (m_args msg) then Some (m_args msg ! i) else None)"

type_synonym handled = "irc_server \<times> irc_event option"

definition dispatched :: "irc_server \<Rightarrow> irc_event_type \<Rightarrow> handled" where
  "dispatched server t = (server, Some \<lparr>ev_type = t, ev_server = sv_name server\<rparr>)"

section \<open>Connection\<close>

definition irc_server_handle_connect :: "irc_server \<Rightarrow> conn_msg \<Rightarrow> handled option" where
  "irc_server_handle_connect server msg =
     Some (dispatched
       (foldl (\<lambda>s ch. snd (irc_server_join s (ch_name ch) (ch_password ch))) server (sv_channels server))
       IRC_EVENT_CONNECT)"

definition irc_server_handle_disconnect :: "irc_server \<Rightarrow> conn_msg \<Rightarrow> handled option" where
  "irc_server_handle_disconnect server msg = Some (dispatched server IRC_EVENT_DISCONNECT)"

definition sscanf_keyval :: "string \<Rightarrow> (string \<times> string) option" where
  "sscanf_keyval a =
     do {
       (key, r1) \<leftarrow> scan_set (\<lambda>c. c \<noteq> CHR ''='') 63 a;
       r2 \<leftarrow> scan_char CHR ''='' r1;
       (value, _) \<leftarrow> scan_word 63 r2;
       Some (key, value)
     }"

definition atoi_unsigned :: "string \<Rightarrow> c_uint option" where
  "atoi_unsigned s = map_option word_of_int (atoi s)"

definition support_one :: "irc_server \<Rightarrow> string \<Rightarrow> irc_server option" where
  "support_one server a =
     (case sscanf_keyval a of
        None \<Rightarrow> Some server
      | Some (key, value) \<Rightarrow>
          if key = ''PREFIX'' then Some (irc_server_modes_parse server value)
          else if key = ''CHANTYPES'' then Some (server\<lparr>sv_chantypes := Some value\<rparr>)
          else if key = ''CHANNELLEN''
            then map_option (\<lambda>n. server\<lparr>sv_channel_max := n\<rparr>) (atoi_unsigned value)
          else if key = ''NICKLEN''
            then map_option (\<lambda>n. server\<lparr>sv_nickname_max := n\<rparr>) (atoi_unsigned value)
          else if key = ''TOPICLEN''
            then map_option (\<lambda>n. server\<lparr>sv_topic_max := n\<rparr>) (atoi_unsigned value)
          else if key = ''AWAYLEN''
            then map_option (\<lambda>n. server\<lparr>sv_away_max := n\<rparr>) (atoi_unsigned value)
          else if key = ''KICKLEN''
            then map_option (\<lambda>n. server\<lparr>sv_kick_max := n\<rparr>) (atoi_unsigned value)
          else if key = ''CHARSET'' then Some (server\<lparr>sv_charset := Some value\<rparr>)
          else if key = ''CASEMAPPING'' then Some (server\<lparr>sv_casemapping := Some value\<rparr>)
          else Some server)"

fun support_loop :: "irc_server \<Rightarrow> string list \<Rightarrow> irc_server option" where
  "support_loop server [] = Some server"
| "support_loop server (a # as) =
     (case support_one server a of None \<Rightarrow> None | Some s \<Rightarrow> support_loop s as)"

definition irc_server_handle_support :: "irc_server \<Rightarrow> conn_msg \<Rightarrow> handled option" where
  "irc_server_handle_support server msg =
     map_option (\<lambda>s. (s, None)) (support_loop server (m_args msg))"

section \<open>Channels\<close>

definition irc_server_handle_invite :: "irc_server \<Rightarrow> conn_msg \<Rightarrow> handled option" where
  "irc_server_handle_invite server msg =
     do {
       origin \<leftarrow> m_prefix msg;
       channel \<leftarrow> arg msg 1;
       Some (dispatched
         (if sv_flags server AND IRC_SERVER_FLAGS_JOIN_INVITE \<noteq> 0
          then snd (irc_server_join server channel None) else server)
         (IRC_EVENT_INVITE \<lparr>invite_origin = origin, invite_channel = channel\<rparr>))
     }"

definition irc_server_handle_join :: "irc_server \<Rightarrow> conn_msg \<Rightarrow> handled option" where
  "irc_server_handle_join server msg =
     do {
       origin \<leftarrow> m_prefix msg;
       channel \<leftarrow> arg msg 0;
       _ \<leftarrow> irc_server_is_self server origin;
       Some (dispatched
         (irc_server_channels_add server channel None IRC_CHANNEL_FLAGS_JOINED)
         (IRC_EVENT_JOIN \<lparr>join_origin = origin, join_channel = channel\<rparr>))
     }"

definition irc_server_handle_kick :: "irc_server \<Rightarrow> conn_msg \<Rightarrow> handled option" where
  "irc_server_handle_kick server msg =
     do {
       origin \<leftarrow> m_prefix msg;
       channel \<leftarrow> arg msg 0;
       target \<leftarrow> arg msg 1;
       reason \<leftarrow> arg msg 2;
       let server1 = irc_server_channels_add server channel None 1;
       ch \<leftarrow> irc_server_channels_find server1 channel;
       self \<leftarrow> irc_server_is_self server1 target;
       let server2 =
         (if self then
            let s = on_channel server1 channel
                      (\<lambda>c. irc_channel_clear (c\<lparr>ch_flags := ch_flags c AND IRC_CHANNEL_FLAGS_JOINED\<rparr>))
            in if sv_flags server AND IRC_SERVER_FLAGS_AUTO_REJOIN \<noteq> 0
               then snd (irc_server_join s (ch_name ch) (ch_password ch)) else s
          else on_channel server1 channel (\<lambda>c. irc_channel_remove c target));
       Some (dispatched server2
         (IRC_EVENT_KICK \<lparr>kick_origin = origin, kick_channel = channel,
            kick_target = target, kick_reason = Some reason\<rparr>))
     }"

text \<open>
  The walk over the mode letters: the channel is updated on the way, the sign and the
  index of the next argument are carried along.  A shift by the index of a mode stays
  below 15, as there are at most 15 prefixes.
\<close>

fun mode_loop ::
  "irc_server \<Rightarrow> conn_msg \<Rightarrow> irc_channel \<Rightarrow> string \<Rightarrow> char option \<Rightarrow> nat \<Rightarrow> irc_channel option" where
  "mode_loop server msg ch [] action argindex = Some ch"
| "mode_loop server msg ch (p # ps) action argindex =
     (if p = CHR ''+'' \<or> p = CHR ''-'' then mode_loop server msg ch ps (Some p) argindex
      else if p = CHR ''b'' \<or> p = CHR ''k'' \<or> p = CHR ''l'' \<or> p = CHR ''e'' \<or> p = CHR ''I''
        then mode_loop server msg ch ps action (Suc argindex)
      else let mode = irc_server_modes_find server p in
        if mode = 0 then mode_loop server msg ch ps action (Suc argindex)
        else case arg msg argindex of
               None \<Rightarrow> None
             | Some who \<Rightarrow>
                 (case irc_channel_get ch who of
                    None \<Rightarrow> mode_loop server msg ch ps action (Suc argindex)
                  | Some u \<Rightarrow>
                      mode_loop server msg
                        (irc_channel_set ch (u_nickname u)
                          (if action = Some CHR ''+'' then u_modes u OR push_bit mode 1
                           else u_modes u AND NOT (push_bit mode 1)))
                        ps action (Suc argindex)))"

definition irc_server_handle_mode :: "irc_server \<Rightarrow> conn_msg \<Rightarrow> handled option" where
  "irc_server_handle_mode server msg =
     do {
       origin \<leftarrow> m_prefix msg;
       channel \<leftarrow> arg msg 0;
       mode \<leftarrow> arg msg 1;
       server1 \<leftarrow> (case irc_server_channels_find server channel of
                     None \<Rightarrow> Some server
                   | Some ch \<Rightarrow> map_option (\<lambda>ch'. on_channel server channel (\<lambda>_. ch'))
                                  (mode_loop server msg ch mode None 2));
       Some (dispatched server1
         (IRC_EVENT_MODE \<lparr>mode_origin = origin, mode_channel = channel, mode_mode = mode,
            mode_args = drop 2 (m_args msg)\<rparr>))
     }"

definition irc_server_handle_part :: "irc_server \<Rightarrow> conn_msg \<Rightarrow> handled option" where
  "irc_server_handle_part server msg =
     do {
       origin \<leftarrow> m_prefix msg;
       channel \<leftarrow> arg msg 0;
       reason \<leftarrow> arg msg 1;
       self \<leftarrow> irc_server_is_self server origin;
       server1 \<leftarrow>
         (if self then Some (irc_server_channels_remove server channel)
          else if irc_server_channels_find server channel = None then None
          else Some (on_channel server channel (\<lambda>c. irc_channel_remove c origin)));
       Some (dispatched server1
         (IRC_EVENT_PART \<lparr>part_origin = origin, part_channel = channel, part_reason = Some reason\<rparr>))
     }"

definition irc_server_handle_names :: "irc_server \<Rightarrow> conn_msg \<Rightarrow> handled option" where
  "irc_server_handle_names server msg =
     do {
       channel \<leftarrow> arg msg 2;
       text \<leftarrow> arg msg 3;
       Some (on_channel (irc_server_channels_add server channel None 1) channel
         (\<lambda>ch. foldl (\<lambda>c token. case irc_server_strip server token of
                                   (modes, who) \<Rightarrow> irc_channel_add c who modes)
                 ch (tokens CHR '' '' text)), None)
     }"

text \<open>
  The index of the users array is never advanced: every member is written to the first
  entry, so the last one stays there and the other entries keep their zeroes.
\<close>

definition names_entries :: "channel_user list \<Rightarrow> (string option \<times> c_int) list" where
  "names_entries us =
     foldl (\<lambda>es u. es[0 := (Some (u_nickname u), u_modes u)])
       (replicate (length us) (None, 0)) us"

definition irc_server_handle_endofnames :: "irc_server \<Rightarrow> conn_msg \<Rightarrow> handled option" where
  "irc_server_handle_endofnames server msg =
     do {
       channel \<leftarrow> arg msg 1;
       Some (case irc_server_channels_find server channel of
               None \<Rightarrow> (server, None)
             | Some ch \<Rightarrow> dispatched server
                 (IRC_EVENT_NAMES \<lparr>names_channel = channel, names_users = names_entries (ch_users ch)\<rparr>))
     }"

section \<open>Messages\<close>

text \<open>
  The parameter \<open>now\<close> is the text of \<open>ctime\<close> for the current time, which ends with a
  newline.
\<close>

definition handle_ctcp ::
  "string \<Rightarrow> irc_server \<Rightarrow> string \<Rightarrow> string \<Rightarrow> string \<Rightarrow> handled" where
  "handle_ctcp now server origin channel a =
     (let nick = nickname (irc_util_user_split origin) in
      if a = [SOH] @ ''CLIENTINFO'' @ [SOH] then
        dispatched (snd (irc_server_notice server nick
          ([SOH] @ ''CLIENTINFO ACTION CLIENTINFO SOURCE TIME VERSION'' @ [SOH]))) IRC_EVENT_UNKNOWN
      else if a = [SOH] @ ''SOURCE'' @ [SOH] \<and> sv_ctcp_source server \<noteq> None then
        dispatched (snd (irc_server_send server
          (''NOTICE '' @ nick @ '' :'' @ [SOH] @ ''SOURCE '' @ the (sv_ctcp_source server) @ [SOH])))
          IRC_EVENT_UNKNOWN
      else if a = [SOH] @ ''TIME'' @ [SOH] then
        dispatched (snd (irc_server_send server
          (''NOTICE '' @ nick @ '' :'' @ [SOH] @ ''TIME '' @ now @ [SOH]))) IRC_EVENT_UNKNOWN
      else if a = [SOH] @ ''VERSION'' @ [SOH] \<and> sv_ctcp_version server \<noteq> None then
        dispatched (snd (irc_server_send server
          (''NOTICE '' @ nick @ '' :'' @ [SOH] @ ''VERSION '' @ the (sv_ctcp_version server) @ [SOH])))
          IRC_EVENT_UNKNOWN
      else if strneq a ([SOH] @ ''ACTION'') 7 then
        dispatched server (IRC_EVENT_ME \<lparr>message_origin = origin, message_channel = channel,
          message_message = irc__conn_msg_ctcp a\<rparr>)
      else dispatched server IRC_EVENT_UNKNOWN)"

definition irc_server_handle_msg :: "string \<Rightarrow> irc_server \<Rightarrow> conn_msg \<Rightarrow> handled option" where
  "irc_server_handle_msg now server msg =
     do {
       a \<leftarrow> arg msg 1;
       origin \<leftarrow> m_prefix msg;
       channel \<leftarrow> arg msg 0;
       Some (if irc__conn_msg_is_ctcp a then handle_ctcp now server origin channel a
             else dispatched server
               (IRC_EVENT_MESSAGE \<lparr>message_origin = origin, message_channel = channel,
                  message_message = a\<rparr>))
     }"

definition irc_server_handle_nick :: "irc_server \<Rightarrow> conn_msg \<Rightarrow> handled option" where
  "irc_server_handle_nick server msg =
     do {
       origin \<leftarrow> m_prefix msg;
       nick \<leftarrow> arg msg 0;
       self \<leftarrow> irc_server_is_self server origin;
       Some (dispatched (if self then server\<lparr>sv_nickname := Some nick\<rparr> else server)
         (IRC_EVENT_NICK \<lparr>nick_origin = origin, nick_nickname = nick\<rparr>))
     }"

definition irc_server_handle_notice :: "irc_server \<Rightarrow> conn_msg \<Rightarrow> handled option" where
  "irc_server_handle_notice server msg =
     do {
       origin \<leftarrow> m_prefix msg;
       channel \<leftarrow> arg msg 0;
       n \<leftarrow> arg msg 1;
       Some (dispatched server
         (IRC_EVENT_NOTICE \<lparr>notice_origin = origin, notice_channel = channel, notice_notice = n\<rparr>))
     }"

definition irc_server_handle_topic :: "irc_server \<Rightarrow> conn_msg \<Rightarrow> handled option" where
  "irc_server_handle_topic server msg =
     do {
       origin \<leftarrow> m_prefix msg;
       channel \<leftarrow> arg msg 0;
       t \<leftarrow> arg msg 1;
       Some (dispatched server
         (IRC_EVENT_TOPIC \<lparr>topic_origin = origin, topic_channel = channel, topic_topic = t\<rparr>))
     }"

definition irc_server_handle_ping :: "irc_server \<Rightarrow> conn_msg \<Rightarrow> handled option" where
  "irc_server_handle_ping server msg =
     Some (case m_args msg of
             [] \<Rightarrow> (server, None)
           | a # _ \<Rightarrow> (snd (irc_server_send server (''PONG :'' @ a)), None))"

definition irc_server_handle_nicknameinuse :: "irc_server \<Rightarrow> conn_msg \<Rightarrow> handled option" where
  "irc_server_handle_nicknameinuse server msg = Some (server, None)"

definition irc_server_handle_error :: "irc_server \<Rightarrow> conn_msg \<Rightarrow> handled option" where
  "irc_server_handle_error server msg = map_option (\<lambda>_. (server, None)) (arg msg 0)"

section \<open>WHOIS\<close>

definition irc_server_handle_whoischannels ::
  "irc_server \<Rightarrow> irc_event_whois \<Rightarrow> conn_msg \<Rightarrow> irc_event_whois option" where
  "irc_server_handle_whoischannels server ev msg =
     map_option (\<lambda>text. ev\<lparr>whois_channels := whois_channels ev @
         map (\<lambda>token. case irc_server_strip server token of (modes, name) \<Rightarrow> (name, modes))
           (tokens CHR '' '' text)\<rparr>)
       (arg msg 2)"

text \<open>
  The loop that pulls messages until the end of the answer: the event when it is complete,
  no event while the coroutine still waits.  Messages of any other kind are dropped.
\<close>

fun whois_loop ::
  "irc_server \<Rightarrow> irc_event_whois \<Rightarrow> conn_msg list \<Rightarrow>
     (irc_event_whois option \<times> conn_msg list) option" where
  "whois_loop server ev [] = Some (None, [])"
| "whois_loop server ev (msg # msgs) =
     do {
       ev1 \<leftarrow> (if m_cmd msg = ''319'' then irc_server_handle_whoischannels server ev msg else Some ev);
       if m_cmd msg = ''318'' then Some (Some ev1, msgs) else whois_loop server ev1 msgs
     }"

definition irc_server_handle_whoisuser ::
  "irc_server \<Rightarrow> conn_msg \<Rightarrow> conn_msg list \<Rightarrow> (handled \<times> conn_msg list) option" where
  "irc_server_handle_whoisuser server msg msgs =
     do {
       nick \<leftarrow> arg msg 1;
       user \<leftarrow> arg msg 2;
       hostn \<leftarrow> arg msg 3;
       real \<leftarrow> arg msg 5;
       (res, rest) \<leftarrow> whois_loop server \<lparr>whois_nickname = nick, whois_username = user,
          whois_realname = real, whois_hostname = hostn, whois_channels = []\<rparr> msgs;
       Some (case res of
               None \<Rightarrow> (server, None)
             | Some ev \<Rightarrow> dispatched server (IRC_EVENT_WHOIS ev), rest)
     }"

section \<open>The table\<close>

type_synonym handler = "irc_server \<Rightarrow> conn_msg \<Rightarrow> conn_msg list \<Rightarrow> (handled \<times> conn_msg list) option"

definition no_pull :: "(irc_server \<Rightarrow> conn_msg \<Rightarrow> handled option) \<Rightarrow> handler" where
  "no_pull h server msg msgs = map_option (\<lambda>r. (r, msgs)) (h server msg)"

definition handlers :: "string \<Rightarrow> (string \<times> handler) list" where
  "handlers now =
    [(''000'',     no_pull irc_server_handle_disconnect),
     (''001'',     no_pull irc_server_handle_connect),
     (''005'',     no_pull irc_server_handle_support),
     (''311'',     irc_server_handle_whoisuser),
     (''353'',     no_pull irc_server_handle_names),
     (''366'',     no_pull irc_server_handle_endofnames),
     (''433'',     no_pull irc_server_handle_nicknameinuse),
     (''ERROR'',   no_pull irc_server_handle_error),
     (''INVITE'',  no_pull irc_server_handle_invite),
     (''JOIN'',    no_pull irc_server_handle_join),
     (''KICK'',    no_pull irc_server_handle_kick),
     (''MODE'',    no_pull irc_server_handle_mode),
     (''NICK'',    no_pull irc_server_handle_nick),
     (''NOTICE'',  no_pull irc_server_handle_notice),
     (''PART'',    no_pull irc_server_handle_part),
     (''PING'',    no_pull irc_server_handle_ping),
     (''PRIVMSG'', no_pull (irc_server_handle_msg now)),
     (''TOPIC'',   no_pull irc_server_handle_topic)]"

text \<open>\<open>bsearch\<close> with \<open>strcmp\<close>, between two indices of the table.\<close>

function bsearch :: "string \<Rightarrow> (string \<times> 'a) list \<Rightarrow> nat \<Rightarrow> nat \<Rightarrow> 'a option" where
  "bsearch key tab lo hi =
     (if hi \<le> lo then None
      else let mid = (lo + hi) div 2 in
        if key < fst (tab ! mid) then bsearch key tab lo mid
        else if fst (tab ! mid) < key then bsearch key tab (Suc mid) hi
        else Some (snd (tab ! mid)))"
  by pat_completeness auto
termination
  by (relation "measure (\<lambda>(_, _, lo, hi). hi - lo)") auto

declare bsearch.simps [simp del]

definition irc_server_handle :: "string \<Rightarrow> handler" where
  "irc_server_handle now server msg msgs =
     (case bsearch (m_cmd msg) (handlers now) 0 (length (handlers now)) of
        None \<Rightarrow> Some ((server, None), msgs)
      | Some h \<Rightarrow> h server msg msgs)"

section \<open>Table lookup\<close>

lemma bsearch_map_of:
  assumes "sorted_wrt (<) (map fst tab)" and "hi \<le> length tab"
    and "\<forall>i < length tab. fst (tab ! i) = key \<longrightarrow> lo \<le> i \<and> i < hi"
  shows "bsearch key tab lo hi = map_of tab key"
  using assms
proof (induction key tab lo hi rule: bsearch.induct)
  case (1 key tab lo hi)
  have less: "i < j \<Longrightarrow> j < length tab \<Longrightarrow> fst (tab ! i) < fst (tab ! j)" for i j
    using "1.prems"(1) by (auto simp: sorted_wrt_iff_nth_less)
  show ?case
  proof (cases "hi \<le> lo")
    case True
    with "1.prems"(3) have "\<forall>i < length tab. fst (tab ! i) \<noteq> key" by (metis leD le_trans nat_less_le)
    then have "key \<notin> fst ` set tab" by (metis (no_types, lifting) imageE in_set_conv_nth)
    then have "map_of tab key = None" by (simp add: map_of_eq_None_iff)
    with True show ?thesis by (simp add: bsearch.simps)
  next
    case False
    define mid where "mid = (lo + hi) div 2"
    with False "1.prems"(2) have mid: "lo \<le> mid" "mid < hi" "mid < length tab" by auto
    consider "key < fst (tab ! mid)" | "fst (tab ! mid) < key" | "fst (tab ! mid) = key"
      by (metis linorder_less_linear)
    then show ?thesis
    proof cases
      case 1
      have "\<forall>i < length tab. fst (tab ! i) = key \<longrightarrow> lo \<le> i \<and> i < mid"
        using 1 "1.prems"(3) less mid by (metis linorder_not_less nat_less_le not_less_iff_gr_or_eq)
      with "1.IH"(1) [OF False mid_def 1] "1.prems"(1) mid 1 False show ?thesis
        by (subst bsearch.simps) (simp add: mid_def [symmetric] Let_def)
    next
      case 2
      have "\<forall>i < length tab. fst (tab ! i) = key \<longrightarrow> Suc mid \<le> i \<and> i < hi"
        using 2 "1.prems"(3) less mid by (metis linorder_not_less nat_less_le not_less_eq_eq not_less_iff_gr_or_eq)
      moreover from 2 have "\<not> key < fst (tab ! mid)" by simp
      ultimately show ?thesis
        using "1.IH"(2) [OF False mid_def _ 2] "1.prems"(1,2) 2 False
        by (subst bsearch.simps) (simp add: mid_def [symmetric] Let_def)
    next
      case 3
      have "distinct (map fst tab)"
        using "1.prems"(1) strict_sorted_iff by blast
      then have "map_of tab key = Some (snd (tab ! mid))"
        using mid 3 by (metis map_of_eq_Some_iff nth_mem prod.collapse)
      with 3 False show ?thesis
        by (subst bsearch.simps) (simp add: mid_def [symmetric] Let_def)
    qed
  qed
qed

lemma handlers_sorted: "sorted_wrt (<) (map fst (handlers now))"
proof -
  have "sorted_wrt (<)
    [''000'', ''001'', ''005'', ''311'', ''353'', ''366'', ''433'', ''ERROR'', ''INVITE'', ''JOIN'',
     ''KICK'', ''MODE'', ''NICK'', ''NOTICE'', ''PART'', ''PING'', ''PRIVMSG'', ''TOPIC'']"
    by code_simp
  then show ?thesis by (simp only: handlers_def list.map fst_conv)
qed

lemma handle_map_of:
  "irc_server_handle now server msg msgs =
     (case map_of (handlers now) (m_cmd msg) of
        None \<Rightarrow> Some ((server, None), msgs) | Some h \<Rightarrow> h server msg msgs)"
  by (simp only: irc_server_handle_def bsearch_map_of [OF handlers_sorted le_refl] simp_thms le0)
     (subst bsearch_map_of [OF handlers_sorted le_refl], simp_all)

lemma whois_loop_rest:
  "whois_loop server ev msgs = Some (res, rest) \<Longrightarrow> length rest \<le> length msgs"
proof (induction server ev msgs rule: whois_loop.induct)
  case (2 server ev msg msgs)
  then show ?case
    by (auto simp: bind_eq_Some_conv split: if_splits)
qed simp

lemma handler_cases:
  assumes "irc_server_handle now server msg msgs = Some (r, rest)"
  obtains
    h where "m_cmd msg \<in> fst ` set (handlers now)" "h server msg = Some r" "rest = msgs"
      "h \<in> {irc_server_handle_disconnect, irc_server_handle_connect, irc_server_handle_support,
        irc_server_handle_names, irc_server_handle_endofnames, irc_server_handle_nicknameinuse,
        irc_server_handle_error, irc_server_handle_invite, irc_server_handle_join,
        irc_server_handle_kick, irc_server_handle_mode, irc_server_handle_nick,
        irc_server_handle_notice, irc_server_handle_part, irc_server_handle_ping,
        irc_server_handle_msg now, irc_server_handle_topic}"
  | "irc_server_handle_whoisuser server msg msgs = Some (r, rest)"
  | "r = (server, None)" "rest = msgs"
proof (cases "map_of (handlers now) (m_cmd msg)")
  case None
  with assms that(3) show ?thesis by (simp add: handle_map_of)
next
  case (Some g)
  then have "(m_cmd msg, g) \<in> set (handlers now)" by (rule map_of_SomeD)
  moreover have "g server msg msgs = Some (r, rest)"
    using Some assms by (simp add: handle_map_of)
  moreover have "m_cmd msg \<in> fst ` set (handlers now)"
    using calculation(1) by (metis fst_conv imageI)
  ultimately show ?thesis
    using that(1,2) unfolding handlers_def
    by (simp only: set_simps insert_iff empty_iff prod.inject simp_thms)
       (elim disjE; force simp: no_pull_def)
qed

lemma handle_rest:
  "irc_server_handle now server msg msgs = Some (r, rest) \<Longrightarrow> length rest \<le> length msgs"
  by (erule handler_cases)
     (auto simp: irc_server_handle_whoisuser_def bind_eq_Some_conv dest: whois_loop_rest)

text \<open>
  The consumer coroutine: messages are handled one after the other, in the order of the
  producer, until none is left; the events are those dispatched, in their order.
\<close>

function irc_server_consumer_entry ::
  "string \<Rightarrow> irc_server \<Rightarrow> conn_msg list \<Rightarrow> (irc_server \<times> irc_event list) option" where
  "irc_server_consumer_entry now server [] = Some (server, [])"
| "irc_server_consumer_entry now server (msg # msgs) =
     (case irc_server_handle now server msg msgs of
        None \<Rightarrow> None
      | Some ((s, ev), rest) \<Rightarrow>
          map_option (\<lambda>(s', evs). (s', (case ev of None \<Rightarrow> evs | Some e \<Rightarrow> e # evs)))
            (irc_server_consumer_entry now s rest))"
  by pat_completeness auto
termination
  by (relation "measure (\<lambda>(_, _, msgs). length msgs)") (auto dest: handle_rest)

section \<open>The invariant of a server\<close>

lemma sv_wf_channels_eq: "sv_channels s = sv_channels t \<Longrightarrow> sv_wf s = sv_wf t"
  by (simp add: sv_wf_def)

lemma dispatched_simps [simp]:
  "fst (dispatched s t) = s" "snd (dispatched s t) = Some \<lparr>ev_type = t, ev_server = sv_name s\<rparr>"
  by (simp_all add: dispatched_def)

lemma support_one_channels: "support_one s a = Some s' \<Longrightarrow> sv_channels s' = sv_channels s"
  by (auto simp: support_one_def irc_server_modes_parse_def Let_def
      split: option.splits prod.splits if_splits)

lemma support_loop_channels: "support_loop s as = Some s' \<Longrightarrow> sv_channels s' = sv_channels s"
proof (induction s as rule: support_loop.induct)
  case (2 s a as)
  then show ?case by (auto split: option.splits dest: support_one_channels)
qed simp

lemma mode_loop_keeps:
  "mode_loop sv msg ch ps act i = Some ch' \<Longrightarrow> ch_name ch' = ch_name ch \<and> (ch_wf ch \<longrightarrow> ch_wf ch')"
proof (induction sv msg ch ps act i rule: mode_loop.induct)
  case (2 sv msg ch p ps act i)
  show ?case
    using "2.prems"
    by (simp only: mode_loop.simps Let_def split: if_splits option.splits)
       (drule "2.IH"; auto simp: ch_wf_set)+
qed simp

lemma names_fold_keeps:
  "ch_name (foldl (\<lambda>c token. case f token of (m, w) \<Rightarrow> irc_channel_add c w m) ch ts) = ch_name ch \<and>
   (ch_wf ch \<longrightarrow> ch_wf (foldl (\<lambda>c token. case f token of (m, w) \<Rightarrow> irc_channel_add c w m) ch ts))"
  by (induction ts arbitrary: ch) (auto simp: ch_wf_add split: prod.splits)

lemma connect_fold_wf:
  "sv_wf s \<Longrightarrow> sv_wf (foldl (\<lambda>s ch. snd (irc_server_join s (ch_name ch) (ch_password ch))) s chs)"
  by (induction chs arbitrary: s) (simp_all add: sv_wf_join)

lemma sv_wf_on_found:
  assumes "sv_wf sv" and "irc_server_channels_find sv n = Some ch" and "ch_name ch' = ch_name ch" and "ch_wf ch'"
  shows "sv_wf (on_channel sv n (\<lambda>_. ch'))"
proof -
  have key: "map ch_key (update_first (is_channel n) (\<lambda>_. ch') chs) = map ch_key chs"
    if "find (is_channel n) chs = Some ch" for chs
    using that by (induction chs) (auto simp: ch_key_def assms(3))
  have "\<forall>c \<in> set (update_first (is_channel n) (\<lambda>_. ch') (sv_channels sv)). ch_wf c"
    using assms(1,4) by (intro ball_update_first) (simp_all add: sv_wf_def)
  with key [of "sv_channels sv"] assms(1,2) show ?thesis
    by (simp add: sv_wf_def on_channel_def irc_server_channels_find_def)
qed

lemma find_on_found:
  assumes "irc_server_channels_find sv n = Some ch" and "ch_name ch' = ch_name ch"
  shows "irc_server_channels_find (on_channel sv n (\<lambda>_. ch')) n = Some ch'"
proof -
  have "find (is_channel n) (update_first (is_channel n) (\<lambda>_. ch') chs) = Some ch'"
    if "find (is_channel n) chs = Some ch" for chs
    using that assms(2) by (induction chs) (auto simp: is_channel_def split: if_splits)
  with assms(1) show ?thesis by (simp add: irc_server_channels_find_def on_channel_def)
qed

lemma sv_wf_kick: "irc_server_handle_kick sv msg = Some (sv', ev) \<Longrightarrow> sv_wf sv \<Longrightarrow> sv_wf sv'"
proof -
  have clear: "sv_wf (on_channel s n (\<lambda>c. irc_channel_clear (c\<lparr>ch_flags := ch_flags c AND f\<rparr>)))"
    if "sv_wf s" for s n f
    using that by (rule sv_wf_on_channel) (simp_all add: ch_wf_clear)
  have remove: "sv_wf (on_channel s n (\<lambda>c. irc_channel_remove c t))" if "sv_wf s" for s n t
    using that by (rule sv_wf_on_channel) (simp_all add: ch_wf_remove)
  show "irc_server_handle_kick sv msg = Some (sv', ev) \<Longrightarrow> sv_wf sv \<Longrightarrow> sv_wf sv'"
    by (auto simp: irc_server_handle_kick_def dispatched_def bind_eq_Some_conv Let_def
        sv_wf_add sv_wf_join clear remove)
qed

lemma sv_wf_mode: "irc_server_handle_mode sv msg = Some (sv', ev) \<Longrightarrow> sv_wf sv \<Longrightarrow> sv_wf sv'"
proof -
  have wf: "sv_wf sv \<Longrightarrow> irc_server_channels_find sv n = Some ch \<Longrightarrow> ch_wf ch" for n ch
    by (auto simp: sv_wf_def irc_server_channels_find_def dest: find_SomeD)
  show "irc_server_handle_mode sv msg = Some (sv', ev) \<Longrightarrow> sv_wf sv \<Longrightarrow> sv_wf sv'"
    by (auto simp: irc_server_handle_mode_def dispatched_def bind_eq_Some_conv split: option.splits
        dest!: mode_loop_keeps intro: sv_wf_on_found wf)
qed

lemma sv_wf_part: "irc_server_handle_part sv msg = Some (sv', ev) \<Longrightarrow> sv_wf sv \<Longrightarrow> sv_wf sv'"
proof -
  have remove: "sv_wf (on_channel s n (\<lambda>c. irc_channel_remove c t))" if "sv_wf s" for s n t
    using that by (rule sv_wf_on_channel) (simp_all add: ch_wf_remove)
  show "irc_server_handle_part sv msg = Some (sv', ev) \<Longrightarrow> sv_wf sv \<Longrightarrow> sv_wf sv'"
    by (auto simp: irc_server_handle_part_def dispatched_def bind_eq_Some_conv sv_wf_remove remove
        split: if_splits)
qed

lemma sv_wf_names: "irc_server_handle_names sv msg = Some (sv', ev) \<Longrightarrow> sv_wf sv \<Longrightarrow> sv_wf sv'"
proof -
  have names: "sv_wf (on_channel s n (\<lambda>ch. foldl (\<lambda>c token. case irc_server_strip sv token of
      (m, w) \<Rightarrow> irc_channel_add c w m) ch ts))" if "sv_wf s" for s n ts
    using that by (rule sv_wf_on_channel) (simp_all add: names_fold_keeps)
  show "irc_server_handle_names sv msg = Some (sv', ev) \<Longrightarrow> sv_wf sv \<Longrightarrow> sv_wf sv'"
    by (auto simp: irc_server_handle_names_def bind_eq_Some_conv sv_wf_add names)
qed

lemma sv_wf_ctcp: "sv_wf sv \<Longrightarrow> sv_wf (fst (handle_ctcp now sv origin channel a))"
  by (simp add: handle_ctcp_def Let_def irc_server_notice_def)

lemma sv_wf_nickname [simp]: "sv_wf (sv\<lparr>sv_nickname := n\<rparr>) = sv_wf sv"
  by (simp add: sv_wf_def)

lemma sv_wf_connect:
  "irc_server_handle_connect sv msg = Some (sv', ev) \<Longrightarrow> sv_wf sv \<Longrightarrow> sv_wf sv'"
  by (auto simp: irc_server_handle_connect_def dispatched_def connect_fold_wf)

lemma sv_wf_support:
  "irc_server_handle_support sv msg = Some (sv', ev) \<Longrightarrow> sv_wf sv \<Longrightarrow> sv_wf sv'"
  by (auto simp: irc_server_handle_support_def sv_wf_def dest!: support_loop_channels)

lemma sv_wf_invite:
  "irc_server_handle_invite sv msg = Some (sv', ev) \<Longrightarrow> sv_wf sv \<Longrightarrow> sv_wf sv'"
  by (auto simp: irc_server_handle_invite_def dispatched_def bind_eq_Some_conv sv_wf_join)

lemma sv_wf_handle_join:
  "irc_server_handle_join sv msg = Some (sv', ev) \<Longrightarrow> sv_wf sv \<Longrightarrow> sv_wf sv'"
  by (auto simp: irc_server_handle_join_def dispatched_def bind_eq_Some_conv sv_wf_add)

lemma sv_wf_msg:
  "irc_server_handle_msg now sv msg = Some (sv', ev) \<Longrightarrow> sv_wf sv \<Longrightarrow> sv_wf sv'"
  using sv_wf_ctcp [of sv now]
  by (auto simp: irc_server_handle_msg_def bind_eq_Some_conv dispatched_def split: if_splits)
     (metis fst_conv)

lemma sv_wf_nick:
  "irc_server_handle_nick sv msg = Some (sv', ev) \<Longrightarrow> sv_wf sv \<Longrightarrow> sv_wf sv'"
  by (auto simp: irc_server_handle_nick_def dispatched_def bind_eq_Some_conv split: if_splits)

lemma sv_wf_ping:
  "irc_server_handle_ping sv msg = Some (sv', ev) \<Longrightarrow> sv_wf sv \<Longrightarrow> sv_wf sv'"
  by (auto simp: irc_server_handle_ping_def split: list.splits)

text \<open>The handlers that leave the server as it is.\<close>

lemma handlers_frame:
  "irc_server_handle_disconnect sv msg = Some (sv', ev) \<Longrightarrow> sv' = sv"
  "irc_server_handle_notice sv msg = Some (sv', ev) \<Longrightarrow> sv' = sv"
  "irc_server_handle_topic sv msg = Some (sv', ev) \<Longrightarrow> sv' = sv"
  "irc_server_handle_nicknameinuse sv msg = Some (sv', ev) \<Longrightarrow> sv' = sv"
  "irc_server_handle_error sv msg = Some (sv', ev) \<Longrightarrow> sv' = sv"
  "irc_server_handle_endofnames sv msg = Some (sv', ev) \<Longrightarrow> sv' = sv"
  "irc_server_handle_whoisuser sv msg msgs = Some ((sv', ev), rest) \<Longrightarrow> sv' = sv"
  by (auto simp: irc_server_handle_disconnect_def irc_server_handle_notice_def
      irc_server_handle_topic_def irc_server_handle_nicknameinuse_def irc_server_handle_error_def
      irc_server_handle_endofnames_def irc_server_handle_whoisuser_def dispatched_def
      bind_eq_Some_conv split: option.splits)

lemmas handlers_wf = sv_wf_connect sv_wf_support sv_wf_invite sv_wf_handle_join sv_wf_msg
  sv_wf_nick sv_wf_ping sv_wf_kick sv_wf_mode sv_wf_part sv_wf_names

lemma handle_wf:
  assumes "irc_server_handle now sv msg msgs = Some ((sv', ev), rest)" and wf: "sv_wf sv"
  shows "sv_wf sv'"
  using assms(1)
proof (cases rule: handler_cases)
  case (1 h)
  from 1(2,4) show ?thesis
    by (simp only: insert_iff empty_iff simp_thms)
       (elim disjE; simp only:; blast intro: handlers_wf wf dest: handlers_frame)
next
  case 2
  then show ?thesis using wf handlers_frame(7) by blast
next
  case 3
  then show ?thesis using wf by simp
qed


lemma wf_new_server: "irc_server_consumer_entry now (irc_server_new n) [] = Some (irc_server_new n, [])"
  by simp


section \<open>What the handlers do\<close>

lemma handle_lookup:
  "map_of (handlers now) (m_cmd msg) = Some h \<Longrightarrow> irc_server_handle now sv msg msgs = h sv msg msgs"
  by (simp add: handle_map_of)

lemma handlers_lookup:
  "map_of (handlers now) ''001'' = Some (no_pull irc_server_handle_connect)"
  "map_of (handlers now) ''311'' = Some irc_server_handle_whoisuser"
  "map_of (handlers now) ''353'' = Some (no_pull irc_server_handle_names)"
  "map_of (handlers now) ''366'' = Some (no_pull irc_server_handle_endofnames)"
  "map_of (handlers now) ''ERROR'' = Some (no_pull irc_server_handle_error)"
  "map_of (handlers now) ''INVITE'' = Some (no_pull irc_server_handle_invite)"
  "map_of (handlers now) ''JOIN'' = Some (no_pull irc_server_handle_join)"
  "map_of (handlers now) ''KICK'' = Some (no_pull irc_server_handle_kick)"
  "map_of (handlers now) ''MODE'' = Some (no_pull irc_server_handle_mode)"
  "map_of (handlers now) ''NICK'' = Some (no_pull irc_server_handle_nick)"
  "map_of (handlers now) ''NOTICE'' = Some (no_pull irc_server_handle_notice)"
  "map_of (handlers now) ''PART'' = Some (no_pull irc_server_handle_part)"
  "map_of (handlers now) ''PING'' = Some (no_pull irc_server_handle_ping)"
  "map_of (handlers now) ''PRIVMSG'' = Some (no_pull (irc_server_handle_msg now))"
  "map_of (handlers now) ''TOPIC'' = Some (no_pull irc_server_handle_topic)"
  by (simp_all add: handlers_def)

text \<open>
  The commands are found in the table exactly by their name, and every other message
  is ignored: the table is sorted as the binary search needs.
\<close>
theorem handle_dispatch:
  "sorted_wrt (<) (map fst (handlers now)) \<and>
   irc_server_handle now sv msg msgs =
     (case map_of (handlers now) (m_cmd msg) of
        None \<Rightarrow> Some ((sv, None), msgs) | Some h \<Rightarrow> h sv msg msgs)"
  using handlers_sorted handle_map_of by blast

text \<open>
  When somebody leaves a channel the event is reported, but the member that is
  removed is the one whose nickname is the whole origin: after a PART of \<open>nick!user@host\<close>
  every member whose name is not that string is still listed, the one who left included.
  When the bot leaves, the channel is forgotten.
\<close>
theorem part_effect:
  assumes "m_cmd msg = ''PART''" and "m_prefix msg = Some origin" and "m_args msg = [chan, reason]"
    and "sv_wf sv" and "irc_server_channels_find sv chan = Some ch"
    and "irc_server_is_self sv origin = Some self"
  shows "\<exists>sv'. irc_server_handle now sv msg msgs =
      Some ((sv', Some \<lparr>ev_type = IRC_EVENT_PART \<lparr>part_origin = origin, part_channel = chan,
        part_reason = Some reason\<rparr>, ev_server = sv_name sv\<rparr>), msgs) \<and>
    (self \<longrightarrow> irc_server_channels_find sv' chan = None) \<and>
    (\<not> self \<longrightarrow> (\<exists>ch'. irc_server_channels_find sv' chan = Some ch' \<and>
       irc_channel_get ch' w = (if strcaseeq origin w then None else irc_channel_get ch w)))"
proof -
  have cw: "ch_wf ch" using assms(4,5)
    by (auto simp: sv_wf_def irc_server_channels_find_def dest: find_SomeD)
  let ?s = "if self then irc_server_channels_remove sv chan
    else on_channel sv chan (\<lambda>c. irc_channel_remove c origin)"
  have "irc_server_handle now sv msg msgs =
      Some ((?s, Some \<lparr>ev_type = IRC_EVENT_PART \<lparr>part_origin = origin, part_channel = chan,
        part_reason = Some reason\<rparr>, ev_server = sv_name sv\<rparr>), msgs)"
    using assms by (simp add: handle_map_of handlers_lookup no_pull_def irc_server_handle_part_def arg_def
        dispatched_def on_channel_def irc_server_channels_remove_def)
  then show ?thesis
    using cw assms(4,5) by (intro exI [of _ ?s]) (simp add: find_remove find_on_channel get_remove)
qed

definition part_server :: irc_server where
  "part_server = (irc_server_new ''s'')\<lparr>sv_nickname := Some ''bot'',
     sv_channels := [irc_channel_add (irc_channel_new ''#a'' None 1) ''jean'' 0]\<rparr>"

theorem part_effect_witness:
  "\<exists>sv' ch'. irc_server_handle [] part_server
     \<lparr>m_prefix = Some ''jean!j@h'', m_cmd = ''PART'', m_args = [''#a'', ''bye'']\<rparr> [] =
       Some ((sv', Some \<lparr>ev_type = IRC_EVENT_PART \<lparr>part_origin = ''jean!j@h'', part_channel = ''#a'',
         part_reason = Some ''bye''\<rparr>, ev_server = ''s''\<rparr>), []) \<and>
     irc_server_channels_find sv' ''#a'' = Some ch' \<and>
     irc_channel_get ch' ''jean'' = Some \<lparr>u_nickname = ''jean'', u_modes = 0\<rparr>"
proof -
  let ?c = "irc_channel_add (irc_channel_new ''#a'' None 1) ''jean'' 0"
  have wf: "sv_wf part_server"
    by (simp add: sv_wf_def part_server_def ch_wf_add ch_wf_new)
  have find: "irc_server_channels_find part_server ''#a'' = Some ?c"
    by (simp add: irc_server_channels_find_def part_server_def is_channel_def irc_channel_new_def
        strcaseeq_def)
  have self: "irc_server_is_self part_server ''jean!j@h'' = Some False" by code_simp
  have ne: "\<not> strcaseeq ''jean!j@h'' ''jean''" by code_simp
  have name: "sv_name part_server = ''s''" by (simp add: part_server_def irc_server_new_def)
  have get: "irc_channel_get ?c ''jean'' = Some \<lparr>u_nickname = ''jean'', u_modes = 0\<rparr>"
    by (simp add: get_add)
  from part_effect [of "\<lparr>m_prefix = Some ''jean!j@h'', m_cmd = ''PART'', m_args = [''#a'', ''bye'']\<rparr>"
      "''jean!j@h''" "''#a''" "''bye''" part_server ?c False "[]" "[]" "''jean''"]
    wf find self ne name get
  show ?thesis by simp
qed

text \<open>
  A mode change of one member: for every announced mode but the first one, \<open>+\<close> sets
  its bit and \<open>-\<close> clears it and no other member changes; the first mode of the
  announcement (operator, on most networks) is taken for an unknown one and changes nothing.
\<close>
theorem mode_effect:
  assumes "m_cmd msg = ''MODE''" and "m_prefix msg = Some origin"
    and "m_args msg = [chan, [sign, m], who]" and "sign = CHR ''+'' \<or> sign = CHR ''-''"
    and "m \<notin> {CHR ''+'', CHR ''-'', CHR ''b'', CHR ''k'', CHR ''l'', CHR ''e'', CHR ''I''}"
    and "irc_server_channels_find sv chan = Some ch" and "irc_channel_get ch who = Some u"
  shows "\<exists>sv' ch'. irc_server_handle now sv msg msgs =
      Some ((sv', Some \<lparr>ev_type = IRC_EVENT_MODE \<lparr>mode_origin = origin, mode_channel = chan,
        mode_mode = [sign, m], mode_args = [who]\<rparr>, ev_server = sv_name sv\<rparr>), msgs) \<and>
    irc_server_channels_find sv' chan = Some ch' \<and>
    (irc_server_modes_find sv m = 0 \<longrightarrow> ch' = ch) \<and>
    (irc_server_modes_find sv m \<noteq> 0 \<longrightarrow>
       ch' = irc_channel_set ch (u_nickname u)
         (if sign = CHR ''+'' then u_modes u OR push_bit (irc_server_modes_find sv m) 1
          else u_modes u AND NOT (push_bit (irc_server_modes_find sv m) 1)))"
proof -
  let ?ch = "if irc_server_modes_find sv m = 0 then ch else irc_channel_set ch (u_nickname u)
         (if sign = CHR ''+'' then u_modes u OR push_bit (irc_server_modes_find sv m) 1
          else u_modes u AND NOT (push_bit (irc_server_modes_find sv m) 1))"
  let ?s = "on_channel sv chan (\<lambda>_. ?ch)"
  have run: "mode_loop sv msg ch [sign, m] None 2 = Some ?ch"
    using assms(3-5,7) by (auto simp: arg_def Let_def)
  have "irc_server_handle now sv msg msgs =
      Some ((?s, Some \<lparr>ev_type = IRC_EVENT_MODE \<lparr>mode_origin = origin, mode_channel = chan,
        mode_mode = [sign, m], mode_args = [who]\<rparr>, ev_server = sv_name sv\<rparr>), msgs)"
    using assms(1-3,6)
    by (simp add: handle_map_of handlers_lookup no_pull_def irc_server_handle_mode_def arg_def
        dispatched_def run on_channel_def del: mode_loop.simps)
  moreover have "irc_server_channels_find ?s chan = Some ?ch"
    using assms(6) by (rule find_on_found) simp
  ultimately show ?thesis by (intro exI [of _ ?s] exI [of _ ?ch]) simp
qed

definition mode_server :: irc_server where
  "mode_server = part_server\<lparr>sv_prefixes :=
     [\<lparr>um_mode = CHR ''o'', um_symbol = CHR ''@''\<rparr>, \<lparr>um_mode = CHR ''v'', um_symbol = CHR ''+''\<rparr>]\<rparr>"

lemma mode_server_chan:
  "irc_server_channels_find mode_server ''#a'' =
     Some (irc_channel_add (irc_channel_new ''#a'' None 1) ''jean'' 0)"
  "irc_channel_get (irc_channel_add (irc_channel_new ''#a'' None 1) ''jean'' 0) ''jean'' =
     Some \<lparr>u_nickname = ''jean'', u_modes = 0\<rparr>"
  by (simp add: irc_server_channels_find_def part_server_def mode_server_def is_channel_def
      irc_channel_new_def strcaseeq_def) (simp add: get_add)

theorem mode_effect_witness:
  "\<exists>sv' ev ch'. irc_server_handle [] mode_server
     \<lparr>m_prefix = Some ''x'', m_cmd = ''MODE'', m_args = [''#a'', ''+v'', ''jean'']\<rparr> [] = Some ((sv', ev), []) \<and>
     irc_server_channels_find sv' ''#a'' = Some ch' \<and>
     irc_channel_get ch' ''jean'' = Some \<lparr>u_nickname = ''jean'', u_modes = 2\<rparr>"
proof -
  have v: "irc_server_modes_find mode_server CHR ''v'' = 1"
    by (simp add: irc_server_modes_find_def mode_server_def)
  from mode_effect [of "\<lparr>m_prefix = Some ''x'', m_cmd = ''MODE'', m_args = [''#a'', ''+v'', ''jean'']\<rparr>"
      "''x''" "''#a''" "CHR ''+''" "CHR ''v''" "''jean''" mode_server _ _ "[]" "[]"] mode_server_chan v
  show ?thesis by (fastforce simp: get_set)
qed

text \<open>
  C23. A channel message is reported with its origin, target and text as they stand, and a
  CTCP action as such with its text; a ping is answered with its own text and reports
  nothing.
\<close>
theorem message_effect:
  assumes "m_cmd msg = ''PRIVMSG''" and "m_prefix msg = Some origin" and "m_args msg = [chan, line]"
    and "\<not> irc__conn_msg_is_ctcp line" and "SOH \<notin> set act"
    and "m_cmd ping = ''PING''" and "m_args ping = token # others"
  shows "irc_server_handle now sv msg msgs =
      Some ((sv, Some \<lparr>ev_type = IRC_EVENT_MESSAGE \<lparr>message_origin = origin,
        message_channel = chan, message_message = line\<rparr>, ev_server = sv_name sv\<rparr>), msgs) \<and>
    irc_server_handle now sv (msg\<lparr>m_args := [chan, SOH # ''ACTION '' @ act @ [SOH]]\<rparr>) msgs =
      Some ((sv, Some \<lparr>ev_type = IRC_EVENT_ME \<lparr>message_origin = origin,
        message_channel = chan, message_message = act\<rparr>, ev_server = sv_name sv\<rparr>), msgs) \<and>
    irc_server_handle now sv ping msgs =
      Some ((snd (irc_server_send sv (''PONG :'' @ token)), None), msgs)"
proof -
  have ctcp: "irc__conn_msg_is_ctcp (SOH # ''ACTION '' @ act @ [SOH])"
    by (simp add: irc__conn_msg_is_ctcp_def)
  have unwrapped: "irc__conn_msg_ctcp (SOH # ''ACTION '' @ act @ [SOH]) = act"
  proof -
    have "takeWhile (\<lambda>c. c \<noteq> SOH) (act @ [SOH]) = act"
      using assms(5) by (subst takeWhile_append2) auto
    then show ?thesis by (simp add: irc__conn_msg_ctcp_def strneq_def)
  qed
  have "handle_ctcp now sv origin chan (SOH # ''ACTION '' @ act @ [SOH]) =
      dispatched sv (IRC_EVENT_ME \<lparr>message_origin = origin, message_channel = chan, message_message = act\<rparr>)"
    unfolding handle_ctcp_def Let_def unwrapped by (simp add: strneq_def)
  with ctcp show ?thesis
    using assms by (simp add: handle_map_of handlers_lookup no_pull_def irc_server_handle_msg_def
        irc_server_handle_ping_def arg_def dispatched_def)
qed

theorem message_effect_witness:
  "irc_server_handle [] (irc_server_new ''s'')
     \<lparr>m_prefix = Some ''jean!j@h'', m_cmd = ''PRIVMSG'', m_args = [''#a'', ''hello'']\<rparr> [] =
   Some ((irc_server_new ''s'', Some \<lparr>ev_type = IRC_EVENT_MESSAGE \<lparr>message_origin = ''jean!j@h'',
        message_channel = ''#a'', message_message = ''hello''\<rparr>, ev_server = ''s''\<rparr>), [])"
proof -
  have "\<not> irc__conn_msg_is_ctcp ''hello''" by code_simp
  from message_effect [OF _ _ _ this, of "\<lparr>m_prefix = Some ''jean!j@h'', m_cmd = ''PRIVMSG'', m_args = [''#a'', ''hello'']\<rparr>"
    "''jean!j@h''" "''#a''" "[]" "\<lparr>m_prefix = None, m_cmd = ''PING'', m_args = [''x'']\<rparr>" "''x''" "[]" "[]"
    "irc_server_new ''s''" "[]"]
  show ?thesis by (simp add: irc_server_new_def)
qed

lemma join_joined:
  assumes "irc_server_channels_find sv n = Some ch" and "ch_flags ch AND IRC_CHANNEL_FLAGS_JOINED \<noteq> 0"
  shows "irc_server_join sv n p = (Inr 1, sv)"
  using assms by (simp add: irc_server_join_def Let_def)

lemma sv_wf_find:
  assumes "sv_wf sv" and "ch \<in> set (sv_channels sv)"
  shows "irc_server_channels_find sv (ch_name ch) = Some ch"
proof -
  have "find (is_channel (ch_name ch)) chs = Some ch"
    if "distinct (map ch_key chs)" "ch \<in> set chs" for chs
    using that
  proof (induction chs)
    case (Cons c chs)
    show ?case
    proof (cases "c = ch")
      case True
      then show ?thesis by (simp add: is_channel_def)
    next
      case False
      with Cons.prems have in_tl: "ch \<in> set chs" by simp
      with Cons.prems(1) have "ch_key c \<noteq> ch_key ch" by (auto simp: image_iff)
      then have "\<not> is_channel (ch_name ch) c" by (simp add: is_channel_key) (simp add: ch_key_def)
      with Cons in_tl show ?thesis by simp
    qed
  qed simp
  with assms show ?thesis by (simp add: sv_wf_def irc_server_channels_find_def)
qed

lemma foldl_joined:
  assumes "\<forall>ch \<in> set chs. irc_server_channels_find sv (ch_name ch) = Some ch \<and>
      ch_flags ch AND IRC_CHANNEL_FLAGS_JOINED \<noteq> 0"
  shows "foldl (\<lambda>s ch. snd (irc_server_join s (ch_name ch) (ch_password ch))) sv chs = sv"
  using assms by (induction chs) (simp_all add: join_joined)

definition join_line :: "irc_channel \<Rightarrow> string" where
  "join_line ch = (case ch_password ch of Some p \<Rightarrow> ''JOIN '' @ ch_name ch @ '' '' @ p
     | None \<Rightarrow> ''JOIN '' @ ch_name ch)"

lemma send_ready: "server_ready sv \<Longrightarrow> server_ready (snd (irc_server_send sv line))"
  by (auto simp: server_ready_def irc_server_send_def irc_server_send_va_def irc__conn_ready_def
      push_Inr split: option.splits sum.splits)

lemma foldl_unjoined:
  assumes "\<forall>ch \<in> set chs. irc_server_channels_find sv (ch_name ch) = Some ch \<and> ch_flags ch = 0"
    and "server_ready sv"
  shows "foldl (\<lambda>s ch. snd (irc_server_join s (ch_name ch) (ch_password ch))) sv chs =
    foldl (\<lambda>s l. snd (irc_server_send s l)) sv (map join_line chs)"
  using assms
proof (induction chs arbitrary: sv)
  case (Cons c chs)
  have "irc_server_join sv (ch_name c) (ch_password c) = irc_server_send sv (join_line c)"
    using Cons.prems by (simp add: irc_server_join_def Let_def join_line_def)
  with Cons send_ready show ?case by simp
qed simp

text \<open>
  When the network welcomes the bot, the channels that are not marked as joined are
  asked for; after a lost connection the marks are still there, so that the bot comes
  back into none of its channels, while after a disconnection it asks for all of them.
\<close>
theorem rejoin_channels:
  assumes "sv_wf sv" and "m_cmd msg = ''001''"
    and "sv_coroutine sv = Some c" and "c_state c = STATE_READY"
    and "length (c_out c) + 513 * length (sv_channels sv) < CONN_OUT_SIZE"
  shows "((\<forall>ch \<in> set (sv_channels sv). ch_flags ch AND IRC_CHANNEL_FLAGS_JOINED \<noteq> 0) \<longrightarrow>
      irc_server_handle now sv msg msgs = Some (dispatched sv IRC_EVENT_CONNECT, msgs)) \<and>
    ((\<forall>ch \<in> set (sv_channels sv). ch_flags ch = 0) \<longrightarrow>
      (\<exists>sv' c'. irc_server_handle now sv msg msgs = Some (dispatched sv' IRC_EVENT_CONNECT, msgs) \<and>
        sv_coroutine sv' = Some c' \<and>
        c_out c' = c_out c @ concat (map (wire \<circ> take 511 \<circ> join_line) (sv_channels sv))))"
proof (intro conjI impI)
  assume "\<forall>ch \<in> set (sv_channels sv). ch_flags ch AND IRC_CHANNEL_FLAGS_JOINED \<noteq> 0"
  with sv_wf_find [OF assms(1)] have "foldl (\<lambda>s ch. snd (irc_server_join s (ch_name ch) (ch_password ch)))
      sv (sv_channels sv) = sv"
    by (intro foldl_joined) blast
  with assms(2) show "irc_server_handle now sv msg msgs = Some (dispatched sv IRC_EVENT_CONNECT, msgs)"
    by (simp add: handle_map_of handlers_lookup no_pull_def irc_server_handle_connect_def)
next
  assume "\<forall>ch \<in> set (sv_channels sv). ch_flags ch = 0"
  moreover have "server_ready sv"
    using assms(3,4) by (simp add: server_ready_def irc__conn_ready_def)
  ultimately have eq: "foldl (\<lambda>s ch. snd (irc_server_join s (ch_name ch) (ch_password ch)))
      sv (sv_channels sv) = foldl (\<lambda>s l. snd (irc_server_send s l)) sv (map join_line (sv_channels sv))"
    using sv_wf_find [OF assms(1)] by (intro foldl_unjoined) blast+
  have "\<not> c_state c < STATE_IDENT" using assms(4) by (simp add: less_conn_state_def)
  from sends_queued [OF assms(3) this, of "map join_line (sv_channels sv)"] assms(5)
  obtain c' where "sv_coroutine (foldl (\<lambda>s l. snd (irc_server_send s l)) sv (map join_line (sv_channels sv))) = Some c'"
    "c_out c' = c_out c @ concat (map (wire \<circ> take 511 \<circ> join_line) (sv_channels sv))"
    by (auto simp: comp_assoc)
  with assms(2) eq show "\<exists>sv' c'. irc_server_handle now sv msg msgs = Some (dispatched sv' IRC_EVENT_CONNECT, msgs) \<and>
        sv_coroutine sv' = Some c' \<and>
        c_out c' = c_out c @ concat (map (wire \<circ> take 511 \<circ> join_line) (sv_channels sv))"
    by (auto simp: handle_map_of handlers_lookup no_pull_def irc_server_handle_connect_def)
qed

definition lost_server :: irc_server where
  "lost_server = part_server\<lparr>sv_coroutine := Some (conn_new\<lparr>c_state := STATE_READY\<rparr>)\<rparr>"

theorem rejoin_channels_witness:
  "irc_server_handle [] lost_server \<lparr>m_prefix = None, m_cmd = ''001'', m_args = []\<rparr> [] =
     Some (dispatched lost_server IRC_EVENT_CONNECT, [])"
proof -
  have "sv_wf lost_server"
    by (simp add: sv_wf_def lost_server_def part_server_def ch_wf_add ch_wf_new)
  from rejoin_channels [OF this, of "\<lparr>m_prefix = None, m_cmd = ''001'', m_args = []\<rparr>"
      "conn_new\<lparr>c_state := STATE_READY\<rparr>" "[]" "[]"]
  show ?thesis
    by (simp add: lost_server_def part_server_def conn_new_def CONN_OUT_SIZE_def
        irc_channel_new_def IRC_CHANNEL_FLAGS_JOINED_def)
qed

text \<open>
  Messages that do not carry what a handler reads are undefined behaviour: a PART or a
  KICK without a reason (which the protocol allows) makes the handler read an argument
  behind the last one, and a message without a prefix is copied from NULL.
\<close>
theorem missing_arguments_undefined:
  "irc_server_handle now sv \<lparr>m_prefix = p, m_cmd = ''PART'', m_args = [chan]\<rparr> msgs = None \<and>
   irc_server_handle now sv \<lparr>m_prefix = p, m_cmd = ''KICK'', m_args = [chan, target]\<rparr> msgs = None \<and>
   irc_server_handle now sv \<lparr>m_prefix = p, m_cmd = ''ERROR'', m_args = []\<rparr> msgs = None \<and>
   irc_server_handle now sv \<lparr>m_prefix = None, m_cmd = ''JOIN'', m_args = [chan]\<rparr> msgs = None \<and>
   irc_server_handle now sv \<lparr>m_prefix = None, m_cmd = ''NOTICE'', m_args = as\<rparr> msgs = None"
  by (simp add: handle_map_of handlers_lookup no_pull_def irc_server_handle_part_def
      irc_server_handle_kick_def irc_server_handle_error_def irc_server_handle_join_def
      irc_server_handle_notice_def arg_def bind_eq_None_conv)

section \<open>Names and WHOIS\<close>

lemma names_fold_get:
  "irc_channel_get (foldl (\<lambda>c token. case f token of (m, w) \<Rightarrow> irc_channel_add c w m) ch ts) n =
     (case irc_channel_get ch n of
        Some u \<Rightarrow> Some u
      | None \<Rightarrow> map_option (\<lambda>t. \<lparr>u_nickname = snd (f t), u_modes = fst (f t)\<rparr>)
                  (find (\<lambda>t. strcaseeq (snd (f t)) n) ts))"
proof (induction ts arbitrary: ch)
  case (Cons t ts)
  show ?case
  proof (cases "f t")
    case (Pair m w)
    have "strcaseeq w n \<Longrightarrow> irc_channel_get ch w = irc_channel_get ch n"
      by (rule get_cong)
    with Cons Pair show ?thesis by (auto simp: get_add split: option.splits)
  qed
qed (simp split: option.splits)

lemma names_entries_eq:
  "us \<noteq> [] \<Longrightarrow> names_entries us =
     (Some (u_nickname (last us)), u_modes (last us)) # replicate (length us - 1) (None, 0)"
proof -
  have fold: "foldl (\<lambda>es u. es[0 := (Some (u_nickname u), u_modes u)]) (e # es) us =
     (if us = [] then e else (Some (u_nickname (last us)), u_modes (last us))) # es"
    for e :: "string option \<times> c_int" and es
    by (induction us arbitrary: e) auto
  have replicate: "us \<noteq> [] \<Longrightarrow> replicate (length us) x = x # replicate (length us - 1) x" for x
    by (cases us) simp_all
  show "us \<noteq> [] \<Longrightarrow> names_entries us =
     (Some (u_nickname (last us)), u_modes (last us)) # replicate (length us - 1) (None, 0)"
    by (simp add: names_entries_def replicate fold)
qed

lemma names_entries_nil: "names_entries [] = []"
  by (simp add: names_entries_def)

text \<open>
  The names the network lists become members of the channel under their stripped
  nickname and with the modes of their symbols, members that are known keep theirs; but of
  the list that is then reported only the first entry is filled, with the last member,
  and all others are empty.
\<close>
theorem names_effect:
  assumes "m_cmd msg = ''353''" and "m_args msg = a # b # chan # line # others" and "sv_wf sv"
    and "m_cmd end = ''366''" and "m_args end = x # chan # more'"
  shows "\<exists>sv' ch'. irc_server_handle now sv msg msgs = Some ((sv', None), msgs) \<and>
    irc_server_channels_find sv' chan = Some ch' \<and>
    irc_channel_get ch' n =
      (case irc_server_channels_find sv chan \<bind> (\<lambda>c. irc_channel_get c n) of
         Some u \<Rightarrow> Some u
       | None \<Rightarrow> map_option (\<lambda>t. \<lparr>u_nickname = snd (irc_server_strip sv t), u_modes = fst (irc_server_strip sv t)\<rparr>)
           (find (\<lambda>t. strcaseeq (snd (irc_server_strip sv t)) n) (tokens CHR '' '' line))) \<and>
    (\<exists>es. irc_server_handle now sv' end msgs = Some ((sv', Some \<lparr>ev_type = IRC_EVENT_NAMES
        \<lparr>names_channel = chan, names_users = es\<rparr>, ev_server = sv_name sv'\<rparr>), msgs) \<and>
      length es = length (ch_users ch') \<and> (\<forall>e \<in> set (tl es). e = (None, 0)))"
proof -
  let ?f = "\<lambda>ch. foldl (\<lambda>c token. case irc_server_strip sv token of
      (modes, who) \<Rightarrow> irc_channel_add c who modes) ch (tokens CHR '' '' line)"
  let ?s1 = "irc_server_channels_add sv chan None 1"
  let ?s = "on_channel ?s1 chan ?f"
  have h: "irc_server_handle now sv msg msgs = Some ((?s, None), msgs)"
    using assms(1,2)
    by (simp add: handle_map_of handlers_lookup no_pull_def irc_server_handle_names_def arg_def)
  have "ch_name (?f c) = ch_name c" for c by (simp add: names_fold_keeps)
  then have found: "irc_server_channels_find ?s chan = map_option ?f (irc_server_channels_find ?s1 chan)"
    by (simp add: find_on_channel)
  obtain c1 where c1: "irc_server_channels_find ?s1 chan = Some c1"
    and get1: "\<And>n. irc_channel_get c1 n = irc_server_channels_find sv chan \<bind> (\<lambda>c. irc_channel_get c n)"
    by (cases "irc_server_channels_find sv chan")
       (auto simp: find_add irc_channel_get_def find_user_def irc_channel_new_def)
  have get: "irc_channel_get (?f c1) n =
      (case irc_server_channels_find sv chan \<bind> (\<lambda>c. irc_channel_get c n) of
         Some u \<Rightarrow> Some u
       | None \<Rightarrow> map_option (\<lambda>t. \<lparr>u_nickname = snd (irc_server_strip sv t), u_modes = fst (irc_server_strip sv t)\<rparr>)
           (find (\<lambda>t. strcaseeq (snd (irc_server_strip sv t)) n) (tokens CHR '' '' line)))"
    by (simp only: names_fold_get get1)
  have "irc_server_handle now ?s end msgs = Some ((?s, Some \<lparr>ev_type = IRC_EVENT_NAMES
        \<lparr>names_channel = chan, names_users = names_entries (ch_users (?f c1))\<rparr>, ev_server = sv_name ?s\<rparr>), msgs)"
    using assms(4,5) found c1
    by (simp add: handle_map_of handlers_lookup no_pull_def irc_server_handle_endofnames_def arg_def
        dispatched_def)
  moreover have "length (names_entries us) = length us \<and> (\<forall>e \<in> set (tl (names_entries us)). e = (None, 0))" for us
    by (cases "us = []") (simp_all add: names_entries_eq names_entries_nil)
  ultimately show ?thesis
    using h found c1 get by (intro exI [of _ ?s] exI [of _ "?f c1"]) simp
qed

theorem names_effect_witness:
  "\<exists>sv' ch' es. irc_server_handle [] part_server
      \<lparr>m_prefix = None, m_cmd = ''353'', m_args = [''bot'', ''='', ''#a'', ''@bob jean'']\<rparr> [] = Some ((sv', None), []) \<and>
    irc_channel_get ch' ''jean'' = Some \<lparr>u_nickname = ''jean'', u_modes = 0\<rparr> \<and>
    irc_server_handle [] sv' \<lparr>m_prefix = None, m_cmd = ''366'', m_args = [''bot'', ''#a'']\<rparr> [] =
      Some ((sv', Some \<lparr>ev_type = IRC_EVENT_NAMES \<lparr>names_channel = ''#a'', names_users = es\<rparr>,
        ev_server = sv_name sv'\<rparr>), []) \<and> (\<forall>e \<in> set (tl es). e = (None, 0))"
proof -
  let ?c = "irc_channel_add (irc_channel_new ''#a'' None 1) ''jean'' 0"
  have wf: "sv_wf part_server"
    by (simp add: sv_wf_def part_server_def ch_wf_add ch_wf_new)
  have find: "irc_server_channels_find part_server ''#a'' = Some ?c"
    by (simp add: irc_server_channels_find_def part_server_def is_channel_def irc_channel_new_def
        strcaseeq_def)
  have get: "irc_channel_get ?c ''jean'' = Some \<lparr>u_nickname = ''jean'', u_modes = 0\<rparr>"
    by (simp add: get_add)
  from names_effect [of "\<lparr>m_prefix = None, m_cmd = ''353'', m_args = [''bot'', ''='', ''#a'', ''@bob jean'']\<rparr>"
      "''bot''" "''=''" "''#a''" "''@bob jean''" "[]" part_server
      "\<lparr>m_prefix = None, m_cmd = ''366'', m_args = [''bot'', ''#a'']\<rparr>" "''bot''" "[]" "[]" "[]" "''jean''"]
    wf find get
  show ?thesis by auto
qed

definition whois_entries :: "irc_server \<Rightarrow> conn_msg \<Rightarrow> (string \<times> c_int) list" where
  "whois_entries sv msg =
     map (\<lambda>token. (snd (irc_server_strip sv token), fst (irc_server_strip sv token)))
       (tokens CHR '' '' (m_args msg ! 2))"

text \<open>
  The answer to a WHOIS collects the channels of every 319 line up to the end of the
  answer; whatever else the network sends in between (messages, pings, joins) is consumed
  by the handler and reaches no other one.
\<close>
theorem whois_collects:
  assumes "\<forall>m \<in> set pre. m_cmd m \<noteq> ''318'' \<and> (m_cmd m = ''319'' \<longrightarrow> 3 \<le> length (m_args m))"
    and "m_cmd last_msg = ''318''"
  shows "whois_loop sv ev (pre @ last_msg # rest) =
    Some (Some (ev\<lparr>whois_channels := whois_channels ev @
      concat (map (whois_entries sv) (filter (\<lambda>m. m_cmd m = ''319'') pre))\<rparr>), rest)"
  using assms(1)
proof (induction pre arbitrary: ev)
  case Nil
  then show ?case by (simp add: assms(2))
next
  case (Cons m pre)
  show ?case
  proof (cases "m_cmd m = ''319''")
    case True
    with Cons.prems have "irc_server_handle_whoischannels sv ev m =
        Some (ev\<lparr>whois_channels := whois_channels ev @ whois_entries sv m\<rparr>)"
      by (simp add: irc_server_handle_whoischannels_def arg_def whois_entries_def split_beta)
    with Cons True show ?thesis by simp
  next
    case False
    with Cons show ?thesis by simp
  qed
qed

theorem whois_collects_witness:
  "whois_loop (irc_server_new ''s'') \<lparr>whois_nickname = ''j'', whois_username = ''u'', whois_realname = ''r'',
      whois_hostname = ''h'', whois_channels = []\<rparr>
     [\<lparr>m_prefix = None, m_cmd = ''PING'', m_args = [''x'']\<rparr>, \<lparr>m_prefix = None, m_cmd = ''318'', m_args = []\<rparr>] =
   Some (Some \<lparr>whois_nickname = ''j'', whois_username = ''u'', whois_realname = ''r'',
      whois_hostname = ''h'', whois_channels = []\<rparr>, [])"
  using whois_collects [of "[\<lparr>m_prefix = None, m_cmd = ''PING'', m_args = [''x'']\<rparr>]"
      "\<lparr>m_prefix = None, m_cmd = ''318'', m_args = []\<rparr>" "irc_server_new ''s''"
      "\<lparr>whois_nickname = ''j'', whois_username = ''u'', whois_realname = ''r'', whois_hostname = ''h'', whois_channels = []\<rparr>" "[]"]
  by simp

end
