(* ===== verification/Hook.thy ===== *)
theory Hook
  imports Event
begin

text \<open>
  Hooks (\<open>lib/irccd/hook.c\<close>, \<open>hook.h\<close>): programs that are run for every event.  The model
  builds the argument vector; forking and waiting are left to the operating system.  The
  vector ends at its first NULL, so an absent reason cuts it there.
\<close>

record irc_hook =
  hk_name :: string
  hk_path :: string

definition irc_hook_new :: "string \<Rightarrow> string \<Rightarrow> irc_hook" where
  "irc_hook_new name path = \<lparr>hk_name = name, hk_path = path\<rparr>"

text \<open>What the program sees of an array of possibly NULL strings.\<close>

fun until_null :: "string option list \<Rightarrow> string list" where
  "until_null [] = []"
| "until_null (None # xs) = []"
| "until_null (Some x # xs) = x # until_null xs"

definition alloc :: "irc_hook \<Rightarrow> string option list \<Rightarrow> string list" where
  "alloc h args = until_null (Some (hk_path h) # args)"

definition alloc_mode :: "irc_hook \<Rightarrow> irc_event \<Rightarrow> irc_event_mode \<Rightarrow> string list" where
  "alloc_mode h ev e =
     alloc h [Some ''onMode'', Some (ev_server ev), Some (mode_origin e), Some (mode_channel e),
       Some (mode_mode e)] @ mode_args e"

definition make_args :: "irc_hook \<Rightarrow> irc_event \<Rightarrow> string list option" where
  "make_args h ev =
     (let sv = Some (ev_server ev) in
      case ev_type ev of
        IRC_EVENT_CONNECT \<Rightarrow> Some (alloc h [Some ''onConnect'', sv])
      | IRC_EVENT_DISCONNECT \<Rightarrow> Some (alloc h [Some ''onDisconnect'', sv])
      | IRC_EVENT_INVITE e \<Rightarrow>
          Some (alloc h [Some ''onInvite'', sv, Some (invite_origin e), Some (invite_channel e)])
      | IRC_EVENT_JOIN e \<Rightarrow>
          Some (alloc h [Some ''onJoin'', sv, Some (join_origin e), Some (join_channel e)])
      | IRC_EVENT_KICK e \<Rightarrow>
          Some (alloc h [Some ''onKick'', sv, Some (kick_origin e), Some (kick_channel e),
            Some (kick_target e), kick_reason e])
      | IRC_EVENT_ME e \<Rightarrow>
          Some (alloc h [Some ''onMe'', sv, Some (message_origin e), Some (message_channel e),
            Some (message_message e)])
      | IRC_EVENT_MESSAGE e \<Rightarrow>
          Some (alloc h [Some ''onMessage'', sv, Some (message_origin e), Some (message_channel e),
            Some (message_message e)])
      | IRC_EVENT_MODE e \<Rightarrow> Some (alloc_mode h ev e)
      | IRC_EVENT_NICK e \<Rightarrow>
          Some (alloc h [Some ''onNick'', sv, Some (nick_origin e), Some (nick_nickname e)])
      | IRC_EVENT_NOTICE e \<Rightarrow>
          Some (alloc h [Some ''onNotice'', sv, Some (notice_origin e), Some (notice_channel e),
            Some (notice_notice e)])
      | IRC_EVENT_PART e \<Rightarrow>
          Some (alloc h [Some ''onPart'', sv, Some (part_origin e), Some (part_channel e),
            part_reason e])
      | IRC_EVENT_TOPIC e \<Rightarrow>
          Some (alloc h [Some ''onTopic'', sv, Some (topic_origin e), Some (topic_channel e),
            Some (topic_topic e)])
      | _ \<Rightarrow> None)"

text \<open>The vector that is executed, if any.\<close>

definition irc_hook_invoke :: "irc_hook \<Rightarrow> irc_event \<Rightarrow> string list option" where
  "irc_hook_invoke h ev = make_args h ev"

text \<open>The name of an event as rules and hooks know it.\<close>

fun event_name :: "irc_event_type \<Rightarrow> string" where
  "event_name IRC_EVENT_UNKNOWN = []"
| "event_name (IRC_EVENT_COMMAND _) = ''onCommand''"
| "event_name IRC_EVENT_CONNECT = ''onConnect''"
| "event_name IRC_EVENT_DISCONNECT = ''onDisconnect''"
| "event_name (IRC_EVENT_INVITE _) = ''onInvite''"
| "event_name (IRC_EVENT_JOIN _) = ''onJoin''"
| "event_name (IRC_EVENT_KICK _) = ''onKick''"
| "event_name (IRC_EVENT_ME _) = ''onMe''"
| "event_name (IRC_EVENT_MESSAGE _) = ''onMessage''"
| "event_name (IRC_EVENT_MODE _) = ''onMode''"
| "event_name (IRC_EVENT_NAMES _) = ''onNames''"
| "event_name (IRC_EVENT_NICK _) = ''onNick''"
| "event_name (IRC_EVENT_NOTICE _) = ''onNotice''"
| "event_name (IRC_EVENT_PART _) = ''onPart''"
| "event_name (IRC_EVENT_TOPIC _) = ''onTopic''"
| "event_name (IRC_EVENT_WHOIS _) = ''onWhois''"

text \<open>
  Every hook run is the program itself, the name of the event and the server, then
  the fields of the event; no program is run for names, WHOIS answers, commands and
  unknown events.
\<close>
theorem hook_vector:
  "(case irc_hook_invoke h ev of
      None \<Rightarrow> \<exists>e w c. ev_type ev \<in> {IRC_EVENT_UNKNOWN, IRC_EVENT_COMMAND c, IRC_EVENT_NAMES e, IRC_EVENT_WHOIS w}
    | Some argv \<Rightarrow> take 3 argv = [hk_path h, event_name (ev_type ev), ev_server ev])"
  by (cases "ev_type ev")
     (simp_all add: irc_hook_invoke_def make_args_def alloc_def alloc_mode_def Let_def)

end
