(* ===== verification/Plugin.thy ===== *)
theory Plugin
  imports Event
begin

text \<open>
  Plugins and plugin loaders (\<open>lib/irccd/plugin.c\<close>, \<open>plugin.h\<close>).  A plugin is its
  description and a table of optional callbacks; what the callbacks keep between calls is
  the state of type \<open>'s\<close>.  A callback that is NULL is \<open>None\<close> and calling it does nothing.
\<close>

record 's irc_plugin =
  pl_name :: string
  pl_license :: string
  pl_version :: string
  pl_author :: string
  pl_description :: string
  pl_state :: 's
  pl_set_template :: "('s \<Rightarrow> string \<Rightarrow> string \<Rightarrow> 's) option"
  pl_get_template :: "('s \<Rightarrow> string \<Rightarrow> string option) option"
  pl_get_templates :: "('s \<Rightarrow> string list option) option"
  pl_set_path :: "('s \<Rightarrow> string \<Rightarrow> string \<Rightarrow> 's) option"
  pl_get_path :: "('s \<Rightarrow> string \<Rightarrow> string option) option"
  pl_get_paths :: "('s \<Rightarrow> string list option) option"
  pl_set_option :: "('s \<Rightarrow> string \<Rightarrow> string \<Rightarrow> 's) option"
  pl_get_option :: "('s \<Rightarrow> string \<Rightarrow> string option) option"
  pl_get_options :: "('s \<Rightarrow> string list option) option"
  pl_load :: "('s \<Rightarrow> int \<times> 's) option"
  pl_reload :: "('s \<Rightarrow> 's) option"
  pl_unload :: "('s \<Rightarrow> 's) option"
  pl_handle :: "('s \<Rightarrow> irc_event \<Rightarrow> 's) option"
  pl_finish :: "('s \<Rightarrow> 's) option"

text \<open>A loader opens a file, which may change the state of its type \<open>'l\<close>.\<close>

record 's irc_plugin_loader =
  ld_paths :: "string option"
  ld_extensions :: "string option"
  ld_open :: "string \<Rightarrow> string \<Rightarrow> 's irc_plugin option"

text \<open>The parameter \<open>version\<close> is the build's \<open>IRCCD_VERSION\<close>.\<close>

definition irc_plugin_init :: "string \<Rightarrow> 's \<Rightarrow> string \<Rightarrow> 's irc_plugin" where
  "irc_plugin_init version s name =
     \<lparr>pl_name = name, pl_license = ''ISC'', pl_version = version, pl_author = ''nobody'',
      pl_description = ''no description'', pl_state = s, pl_set_template = None,
      pl_get_template = None, pl_get_templates = None, pl_set_path = None, pl_get_path = None,
      pl_get_paths = None, pl_set_option = None, pl_get_option = None, pl_get_options = None,
      pl_load = None, pl_reload = None, pl_unload = None, pl_handle = None, pl_finish = None\<rparr>"

definition irc_plugin_set_info ::
  "'s irc_plugin \<Rightarrow> string option \<Rightarrow> string option \<Rightarrow> string option \<Rightarrow> string option \<Rightarrow> 's irc_plugin" where
  "irc_plugin_set_info plg license version author description =
     plg\<lparr>pl_license := (case license of None \<Rightarrow> pl_license plg | Some x \<Rightarrow> x),
       pl_version := (case version of None \<Rightarrow> pl_version plg | Some x \<Rightarrow> x),
       pl_author := (case author of None \<Rightarrow> pl_author plg | Some x \<Rightarrow> x),
       pl_description := (case description of None \<Rightarrow> pl_description plg | Some x \<Rightarrow> x)\<rparr>"

section \<open>Calls through the table\<close>

definition irc_plugin_set_template :: "'s irc_plugin \<Rightarrow> string \<Rightarrow> string \<Rightarrow> 's irc_plugin" where
  "irc_plugin_set_template plg key value =
     (case pl_set_template plg of None \<Rightarrow> plg
      | Some f \<Rightarrow> plg\<lparr>pl_state := f (pl_state plg) key value\<rparr>)"

definition irc_plugin_get_template :: "'s irc_plugin \<Rightarrow> string \<Rightarrow> string option" where
  "irc_plugin_get_template plg key =
     (case pl_get_template plg of None \<Rightarrow> None | Some f \<Rightarrow> f (pl_state plg) key)"

definition irc_plugin_get_templates :: "'s irc_plugin \<Rightarrow> string list option" where
  "irc_plugin_get_templates plg =
     (case pl_get_templates plg of None \<Rightarrow> None | Some f \<Rightarrow> f (pl_state plg))"

definition irc_plugin_set_path :: "'s irc_plugin \<Rightarrow> string \<Rightarrow> string \<Rightarrow> 's irc_plugin" where
  "irc_plugin_set_path plg key value =
     (case pl_set_path plg of None \<Rightarrow> plg
      | Some f \<Rightarrow> plg\<lparr>pl_state := f (pl_state plg) key value\<rparr>)"

definition irc_plugin_get_path :: "'s irc_plugin \<Rightarrow> string \<Rightarrow> string option" where
  "irc_plugin_get_path plg key =
     (case pl_get_path plg of None \<Rightarrow> None | Some f \<Rightarrow> f (pl_state plg) key)"

definition irc_plugin_get_paths :: "'s irc_plugin \<Rightarrow> string list option" where
  "irc_plugin_get_paths plg =
     (case pl_get_paths plg of None \<Rightarrow> None | Some f \<Rightarrow> f (pl_state plg))"

definition irc_plugin_set_option :: "'s irc_plugin \<Rightarrow> string \<Rightarrow> string \<Rightarrow> 's irc_plugin" where
  "irc_plugin_set_option plg key value =
     (case pl_set_option plg of None \<Rightarrow> plg
      | Some f \<Rightarrow> plg\<lparr>pl_state := f (pl_state plg) key value\<rparr>)"

definition irc_plugin_get_option :: "'s irc_plugin \<Rightarrow> string \<Rightarrow> string option" where
  "irc_plugin_get_option plg key =
     (case pl_get_option plg of None \<Rightarrow> None | Some f \<Rightarrow> f (pl_state plg) key)"

definition irc_plugin_get_options :: "'s irc_plugin \<Rightarrow> string list option" where
  "irc_plugin_get_options plg =
     (case pl_get_options plg of None \<Rightarrow> None | Some f \<Rightarrow> f (pl_state plg))"

definition irc_plugin_load :: "'s irc_plugin \<Rightarrow> int \<times> 's irc_plugin" where
  "irc_plugin_load plg =
     (case pl_load plg of None \<Rightarrow> (0, plg)
      | Some f \<Rightarrow> (case f (pl_state plg) of (rc, s) \<Rightarrow> (rc, plg\<lparr>pl_state := s\<rparr>)))"

definition irc_plugin_reload :: "'s irc_plugin \<Rightarrow> 's irc_plugin" where
  "irc_plugin_reload plg =
     (case pl_reload plg of None \<Rightarrow> plg | Some f \<Rightarrow> plg\<lparr>pl_state := f (pl_state plg)\<rparr>)"

definition irc_plugin_unload :: "'s irc_plugin \<Rightarrow> 's irc_plugin" where
  "irc_plugin_unload plg =
     (case pl_unload plg of None \<Rightarrow> plg | Some f \<Rightarrow> plg\<lparr>pl_state := f (pl_state plg)\<rparr>)"

definition irc_plugin_handle :: "'s irc_plugin \<Rightarrow> irc_event \<Rightarrow> 's irc_plugin" where
  "irc_plugin_handle plg ev =
     (case pl_handle plg of None \<Rightarrow> plg | Some f \<Rightarrow> plg\<lparr>pl_state := f (pl_state plg) ev\<rparr>)"

text \<open>The strings are released, then the plugin may release itself: its state is left.\<close>

definition irc_plugin_finish :: "'s irc_plugin \<Rightarrow> 's" where
  "irc_plugin_finish plg =
     (case pl_finish plg of None \<Rightarrow> pl_state plg | Some f \<Rightarrow> f (pl_state plg))"

definition irc_plugin_loader_open ::
  "'s irc_plugin_loader \<Rightarrow> string \<Rightarrow> string \<Rightarrow> 's irc_plugin option" where
  "irc_plugin_loader_open ldr name path = ld_open ldr name path"

lemma plugin_name [simp]:
  "pl_name (irc_plugin_set_path plg k v) = pl_name plg"
  "pl_name (irc_plugin_set_option plg k v) = pl_name plg"
  "pl_name (irc_plugin_set_template plg k v) = pl_name plg"
  "pl_name (irc_plugin_reload plg) = pl_name plg"
  "pl_name (irc_plugin_unload plg) = pl_name plg"
  "pl_name (irc_plugin_handle plg ev) = pl_name plg"
  "pl_name (irc_plugin_set_info plg l ver a d) = pl_name plg"
  "pl_name (snd (irc_plugin_load plg)) = pl_name plg"
  by (simp_all add: irc_plugin_set_path_def irc_plugin_set_option_def irc_plugin_set_template_def
      irc_plugin_reload_def irc_plugin_unload_def irc_plugin_handle_def irc_plugin_set_info_def
      irc_plugin_load_def split: option.splits prod.splits)

end
