(* ===== verification/Rule.thy ===== *)
theory Rule
  imports Prelude
begin

text \<open>
  Rule filtering (\<open>lib/irccd/rule.c\<close>): the criteria lists of a rule, the match of one
  rule and of the bot's rule list against an event.

  A criterion is a NULL terminated array or NULL: \<open>None\<close> is NULL and accepts anything.
  A value may be NULL too (the dispatcher passes NULL for events without a channel or
  an origin); comparing it with an entry is \<open>strcasecmp (s, NULL)\<close>, which is undefined,
  so the match functions are partial.
\<close>

datatype rule_action = Rule_Accept | Rule_Drop

record irc_rule =
  r_action :: rule_action
  r_servers :: "string list option"
  r_channels :: "string list option"
  r_origins :: "string list option"
  r_plugins :: "string list option"
  r_events :: "string list option"

section \<open>Criteria lists\<close>

fun list_search :: "string list \<Rightarrow> string option \<Rightarrow> bool option" where
  "list_search [] v = Some False"
| "list_search (x # xs) None = None"
| "list_search (x # xs) (Some v) = (if strcaseeq x v then Some True else list_search xs (Some v))"

fun list_match :: "string list option \<Rightarrow> string option \<Rightarrow> bool option" where
  "list_match None v = Some True"
| "list_match (Some xs) v = list_search xs v"

fun list_contains :: "string list option \<Rightarrow> string \<Rightarrow> bool" where
  "list_contains None v = False"
| "list_contains (Some xs) v = (\<exists>x \<in> set xs. strcaseeq x v)"

fun list_count :: "string list option \<Rightarrow> nat" where
  "list_count None = 0"
| "list_count (Some xs) = length xs"

definition entries :: "string list option \<Rightarrow> string list" where
  "entries l = (case l of None \<Rightarrow> [] | Some xs \<Rightarrow> xs)"

definition list_add :: "string list option \<Rightarrow> string \<Rightarrow> string list option" where
  "list_add l v = (if list_contains l v then l else Some (entries l @ [v]))"

fun list_remove_loop :: "string list option \<Rightarrow> string list \<Rightarrow> string \<Rightarrow> string list option" where
  "list_remove_loop rc [] v = rc"
| "list_remove_loop rc (x # xs) v =
     (if strcaseeq x v then list_remove_loop rc xs v
      else list_remove_loop (list_add rc x) xs v)"

definition list_remove :: "string list option \<Rightarrow> string \<Rightarrow> string list option" where
  "list_remove l v = (case l of None \<Rightarrow> None | Some xs \<Rightarrow> list_remove_loop None xs v)"

section \<open>Construction and edition\<close>

definition irc_rule_new :: "rule_action \<Rightarrow> irc_rule" where
  "irc_rule_new a = \<lparr>r_action = a, r_servers = None, r_channels = None, r_origins = None,
     r_plugins = None, r_events = None\<rparr>"

definition irc_rule_add_server :: "irc_rule \<Rightarrow> string \<Rightarrow> irc_rule" where
  "irc_rule_add_server r v = r\<lparr>r_servers := list_add (r_servers r) v\<rparr>"

definition irc_rule_remove_server :: "irc_rule \<Rightarrow> string \<Rightarrow> irc_rule" where
  "irc_rule_remove_server r v = r\<lparr>r_servers := list_remove (r_servers r) v\<rparr>"

definition irc_rule_add_channel :: "irc_rule \<Rightarrow> string \<Rightarrow> irc_rule" where
  "irc_rule_add_channel r v = r\<lparr>r_channels := list_add (r_channels r) v\<rparr>"

definition irc_rule_remove_channel :: "irc_rule \<Rightarrow> string \<Rightarrow> irc_rule" where
  "irc_rule_remove_channel r v = r\<lparr>r_channels := list_remove (r_channels r) v\<rparr>"

definition irc_rule_add_origin :: "irc_rule \<Rightarrow> string \<Rightarrow> irc_rule" where
  "irc_rule_add_origin r v = r\<lparr>r_origins := list_add (r_origins r) v\<rparr>"

definition irc_rule_remove_origin :: "irc_rule \<Rightarrow> string \<Rightarrow> irc_rule" where
  "irc_rule_remove_origin r v = r\<lparr>r_origins := list_remove (r_origins r) v\<rparr>"

definition irc_rule_add_plugin :: "irc_rule \<Rightarrow> string \<Rightarrow> irc_rule" where
  "irc_rule_add_plugin r v = r\<lparr>r_plugins := list_add (r_plugins r) v\<rparr>"

definition irc_rule_remove_plugin :: "irc_rule \<Rightarrow> string \<Rightarrow> irc_rule" where
  "irc_rule_remove_plugin r v = r\<lparr>r_plugins := list_remove (r_plugins r) v\<rparr>"

definition irc_rule_add_event :: "irc_rule \<Rightarrow> string \<Rightarrow> irc_rule" where
  "irc_rule_add_event r v = r\<lparr>r_events := list_add (r_events r) v\<rparr>"

definition irc_rule_remove_event :: "irc_rule \<Rightarrow> string \<Rightarrow> irc_rule" where
  "irc_rule_remove_event r v = r\<lparr>r_events := list_remove (r_events r) v\<rparr>"

section \<open>Matching\<close>

text \<open>
  The conjunction is evaluated left to right and stops at the first criterion that does
  not match, so a NULL value behind it is not looked at.
\<close>

definition and_then :: "bool option \<Rightarrow> bool option \<Rightarrow> bool option" where
  "and_then a b = Option.bind a (\<lambda>x. if x then b else Some False)"

definition irc_rule_match ::
  "irc_rule \<Rightarrow> string \<Rightarrow> string option \<Rightarrow> string option \<Rightarrow> string \<Rightarrow> string \<Rightarrow> bool option" where
  "irc_rule_match r server channel origin plugin event =
     and_then (list_match (r_servers r) (Some server))
    (and_then (list_match (r_channels r) channel)
    (and_then (list_match (r_origins r) origin)
    (and_then (list_match (r_plugins r) (Some plugin))
              (list_match (r_events r) (Some event)))))"

fun matchlist_loop ::
  "bool \<Rightarrow> irc_rule list \<Rightarrow> string \<Rightarrow> string option \<Rightarrow> string option \<Rightarrow> string \<Rightarrow> string
     \<Rightarrow> bool option" where
  "matchlist_loop result [] server channel origin plugin event = Some result"
| "matchlist_loop result (r # rs) server channel origin plugin event =
     Option.bind (irc_rule_match r server channel origin plugin event)
       (\<lambda>m. matchlist_loop (if m then r_action r = Rule_Accept else result)
              rs server channel origin plugin event)"

definition irc_rule_matchlist ::
  "irc_rule list \<Rightarrow> string \<Rightarrow> string option \<Rightarrow> string option \<Rightarrow> string \<Rightarrow> string \<Rightarrow> bool option" where
  "irc_rule_matchlist rs server channel origin plugin event =
     matchlist_loop True rs server channel origin plugin event"

section \<open>Facts on criteria lists\<close>

text \<open>
  What a criterion means: the set of its entries up to case, where NULL is everything.
\<close>

definition folded :: "string list option \<Rightarrow> string set" where
  "folded l = map to_lower ` set (entries l)"

definition crit_wf :: "string list option \<Rightarrow> bool" where
  "crit_wf l = (l \<noteq> Some [] \<and> distinct (map (map to_lower) (entries l)))"

lemma entries_simps [simp]: "entries None = []" "entries (Some xs) = xs"
  by (simp_all add: entries_def)

lemma list_search_Some [simp]:
  "list_search xs (Some v) = Some (\<exists>x \<in> set xs. strcaseeq x v)"
  by (induction xs) auto

lemma list_search_None: "list_search xs None = (if xs = [] then Some False else None)"
  by (cases xs) auto

lemma list_match_Some [simp]:
  "list_match l (Some v) = Some (l = None \<or> list_contains l v)"
  by (cases l) auto

lemma lower_image_iff: "map to_lower v \<in> map to_lower ` A \<longleftrightarrow> (\<exists>x \<in> A. strcaseeq x v)"
  unfolding strcaseeq_def image_iff by metis

lemma list_contains_folded: "list_contains l v = (map to_lower v \<in> folded l)"
  by (cases l) (simp_all add: folded_def lower_image_iff)

lemma list_contains_cong: "strcaseeq v w \<Longrightarrow> list_contains l v = list_contains l w"
  by (simp add: list_contains_folded strcaseeq_def)

lemma folded_list_add: "folded (list_add l v) = insert (map to_lower v) (folded l)"
proof (cases "list_contains l v")
  case True
  then show ?thesis by (auto simp: list_add_def list_contains_folded)
next
  case False
  then show ?thesis by (simp add: list_add_def folded_def)
qed

lemma crit_wf_list_add: "crit_wf l \<Longrightarrow> crit_wf (list_add l v)"
  by (cases l) (auto simp: crit_wf_def list_add_def strcaseeq_def)

lemma list_add_not_None [simp]: "list_add l v \<noteq> None"
  by (cases l) (auto simp: list_add_def)

lemma folded_remove_loop:
  "folded (list_remove_loop rc xs v) =
     folded rc \<union> (map to_lower ` set xs - {map to_lower v})"
  by (induction xs arbitrary: rc) (auto simp: folded_list_add strcaseeq_def)

lemma crit_wf_remove_loop: "crit_wf rc \<Longrightarrow> crit_wf (list_remove_loop rc xs v)"
  by (induction xs arbitrary: rc) (auto simp: crit_wf_list_add)

lemma folded_list_remove: "folded (list_remove l v) = folded l - {map to_lower v}"
  by (cases l) (auto simp: list_remove_def folded_remove_loop, auto simp: folded_def)

lemma crit_wf_list_remove: "crit_wf (list_remove l v)"
proof -
  have "crit_wf None" by (simp add: crit_wf_def)
  then show ?thesis
    by (cases l) (auto simp: list_remove_def crit_wf_remove_loop)
qed

lemma crit_wf_None_iff: "crit_wf l \<Longrightarrow> l = None \<longleftrightarrow> folded l = {}"
  by (cases l) (auto simp: crit_wf_def folded_def)

interpretation criteria: ci_set crit_wf list_contains list_add list_remove
proof unfold_locales
  fix l v w
  show "list_contains (list_add l v) w = (strcaseeq v w \<or> list_contains l w)"
    unfolding list_contains_folded folded_list_add by (auto simp: strcaseeq_def)
  show "list_contains (list_remove l v) w = (\<not> strcaseeq v w \<and> list_contains l w)"
    unfolding list_contains_folded folded_list_remove by (auto simp: strcaseeq_def)
qed (simp_all add: crit_wf_list_add crit_wf_list_remove)

section \<open>Facts on matching\<close>

lemma and_then_simps [simp]:
  "and_then (Some True) b = b"
  "and_then (Some False) b = Some False"
  "and_then None b = None"
  by (simp_all add: and_then_def)

lemma and_then_Some: "and_then (Some a) b = (if a then b else Some False)"
  by (simp add: and_then_def)

definition accepts :: "string list option \<Rightarrow> string \<Rightarrow> bool" where
  "accepts l v = (l = None \<or> list_contains l v)"

lemma irc_rule_match_total:
  "irc_rule_match r s (Some c) (Some o') p e =
     Some (accepts (r_servers r) s \<and> accepts (r_channels r) c \<and> accepts (r_origins r) o' \<and>
           accepts (r_plugins r) p \<and> accepts (r_events r) e)"
  by (simp add: irc_rule_match_def accepts_def and_then_Some)

lemma matchlist_append:
  "matchlist_loop res (rs @ qs) s c o' p e =
     Option.bind (matchlist_loop res rs s c o' p e) (\<lambda>b. matchlist_loop b qs s c o' p e)"
  by (induction rs arbitrary: res) (auto split: Option.bind_splits)

lemma matchlist_total:
  assumes "\<And>r. r \<in> set rs \<Longrightarrow> irc_rule_match r s c o' p e = Some (m r)"
  shows "matchlist_loop res rs s c o' p e =
     Some (case find m (rev rs) of None \<Rightarrow> res | Some r \<Rightarrow> r_action r = Rule_Accept)"
  using assms
proof (induction rs rule: rev_induct)
  case Nil
  then show ?case by simp
next
  case (snoc r rs)
  then show ?case by (simp add: matchlist_append)
qed

section \<open>Properties\<close>

text \<open>
  C1. Against an event whose server, channel, origin, plugin and event name are known,
  the rule list never fails and the LAST rule that matches decides; an event no rule
  matches is accepted.  A rule matches when each of its five criteria is absent or holds
  the event's value up to case.
\<close>
theorem matchlist_last_match:
  "irc_rule_matchlist rs server (Some channel) (Some origin) plugin event =
     Some (case find (\<lambda>r. accepts (r_servers r) server \<and> accepts (r_channels r) channel \<and>
                       accepts (r_origins r) origin \<and> accepts (r_plugins r) plugin \<and>
                       accepts (r_events r) event) (rev rs) of
             None \<Rightarrow> True | Some r \<Rightarrow> r_action r = Rule_Accept)"
  unfolding irc_rule_matchlist_def by (rule matchlist_total) (rule irc_rule_match_total)

text \<open>
  The dispatcher passes a NULL channel for connection events.  A rule that reaches a
  non-empty channel criterion with it has undefined behaviour (\<open>strcasecmp (s, NULL)\<close>),
  whatever its other criteria are, and so has every rule list that starts with it.
\<close>
theorem match_null_channel_undefined:
  assumes "accepts (r_servers r) server" and "r_channels r = Some (c # cs)"
  shows "irc_rule_match r server None origin plugin event = None \<and>
         irc_rule_matchlist (r # rs) server None origin plugin event = None"
proof -
  have "irc_rule_match r server None origin plugin event = None"
    using assms by (simp add: irc_rule_match_def accepts_def and_then_Some)
  then show ?thesis by (simp add: irc_rule_matchlist_def)
qed

theorem match_null_channel_undefined_witness:
  "irc_rule_match (irc_rule_add_channel (irc_rule_new Rule_Drop) ''#staff'')
     ''local'' None None ''ask'' ''onConnect'' = None"
  by (rule conjunct1 [OF match_null_channel_undefined [where c = "''#staff''" and cs = "[]"]])
    (simp_all add: accepts_def irc_rule_add_channel_def irc_rule_new_def list_add_def)

text \<open>
  Editing a criterion is editing a set of names up to case: adding a value keeps it
  free of duplicates and makes exactly that value match in addition, removing one makes
  exactly that value stop matching, and a criterion whose last entry is removed is NULL
  again, that is, it accepts everything.
\<close>
theorem criteria_edit:
  assumes "crit_wf l"
  shows "crit_wf (list_add l v) \<and> crit_wf (list_remove l v) \<and>
         list_contains (list_add l v) w = (strcaseeq v w \<or> list_contains l w) \<and>
         list_contains (list_remove l v) w = (\<not> strcaseeq v w \<and> list_contains l w) \<and>
         (list_remove l v = None \<longleftrightarrow> (\<forall>x \<in> set (entries l). strcaseeq v x))"
proof -
  have "list_remove l v = None \<longleftrightarrow> folded l - {map to_lower v} = {}"
    using crit_wf_None_iff [OF crit_wf_list_remove] by (simp add: folded_list_remove)
  also have "\<dots> \<longleftrightarrow> (\<forall>x \<in> set (entries l). strcaseeq v x)"
    unfolding folded_def strcaseeq_def by auto
  finally show ?thesis
    using criteria.wf_add [OF assms] criteria.wf_remove [OF assms]
      criteria.has_add [OF assms] criteria.has_remove [OF assms] by blast
qed

theorem criteria_edit_witness:
  "crit_wf (Some [''#Staff'']) \<and> list_remove (Some [''#Staff'']) ''#staff'' = None"
proof -
  have wf: "crit_wf (Some [''#Staff''])" by (simp add: crit_wf_def)
  have "\<forall>x \<in> set (entries (Some [''#Staff''])). strcaseeq ''#staff'' x"
    by code_simp
  with wf show ?thesis using criteria_edit [OF wf, of "''#staff''"] by blast
qed

end
