(* ===== verification/Bot.thy ===== *)
theory Bot
  imports Handlers Hook Plugin Rule
begin

text \<open>
  The bot (\<open>lib/irccd/irccd.c\<close>, \<open>irccd.h\<close>): the registries of servers, plugins, loaders,
  hooks and rules, and the dispatch of an event.

  The singleton is passed explicitly.  What a dispatch does is the list of the programs
  and callbacks it runs, in order, and the bot with the states the plugins left; a callback
  that itself edits the registries is outside of the model.
\<close>

section \<open>State\<close>

record 's irccd =
  bt_servers :: "irc_server list"
  bt_plugins :: "'s irc_plugin list"
  bt_plugin_loaders :: "'s irc_plugin_loader list"
  bt_rules :: "irc_rule list"
  bt_hooks :: "irc_hook list"
  bt_observer :: bool

definition bot_empty :: "'s irccd" where
  "bot_empty = \<lparr>bt_servers = [], bt_plugins = [], bt_plugin_loaders = [], bt_rules = [],
     bt_hooks = [], bt_observer = False\<rparr>"

definition irc_bot_observe :: "'s irccd \<Rightarrow> bool \<Rightarrow> 's irccd" where
  "irc_bot_observe irccd observer = irccd\<lparr>bt_observer := observer\<rparr>"

section \<open>Rules\<close>

text \<open>
  \<open>append_elem i x xs\<close> is \<open>DL_APPEND_ELEM\<close> behind the node reached after \<open>i\<close> steps from the
  first; behind the end of the list it appends.
\<close>

definition append_elem :: "nat \<Rightarrow> 'a \<Rightarrow> 'a list \<Rightarrow> 'a list" where
  "append_elem i x xs = take (Suc i) xs @ x # drop (Suc i) xs"

definition irc_bot_rule_size :: "'s irccd \<Rightarrow> nat" where
  "irc_bot_rule_size irccd = length (bt_rules irccd)"

definition irc_bot_rule_insert :: "'s irccd \<Rightarrow> irc_rule \<Rightarrow> nat \<Rightarrow> 's irccd" where
  "irc_bot_rule_insert irccd rule index =
     irccd\<lparr>bt_rules :=
       (if index = 0 then rule # bt_rules irccd
        else if irc_bot_rule_size irccd \<le> index then bt_rules irccd @ [rule]
        else append_elem (index - 1) rule (bt_rules irccd))\<rparr>"

definition irc_bot_rule_get :: "'s irccd \<Rightarrow> nat \<Rightarrow> irc_rule option" where
  "irc_bot_rule_get irccd index =
     (if index < irc_bot_rule_size irccd then Some (bt_rules irccd ! index) else None)"

definition remove_nth :: "nat \<Rightarrow> 'a list \<Rightarrow> 'a list" where
  "remove_nth i xs = take i xs @ drop (Suc i) xs"

text \<open>
  The walk to the destination starts from the node that was first before the removal.
  When that is the moved node itself, it still points to its successor, so after \<open>to\<close> steps
  the walk is at the node number \<open>to - 1\<close> of what is left, otherwise at number \<open>to\<close>.
\<close>

definition irc_bot_rule_move :: "'s irccd \<Rightarrow> nat \<Rightarrow> nat \<Rightarrow> 's irccd option" where
  "irc_bot_rule_move irccd from_idx to_idx =
     (if irc_bot_rule_size irccd \<le> from_idx then None
      else if from_idx = to_idx then Some irccd
      else let f = bt_rules irccd ! from_idx; rest = remove_nth from_idx (bt_rules irccd) in
        Some (irccd\<lparr>bt_rules :=
          (if to_idx = 0 then f # rest
           else if from_idx = 0 then append_elem (to_idx - 1) f rest
           else append_elem to_idx f rest)\<rparr>))"

definition irc_bot_rule_remove :: "'s irccd \<Rightarrow> nat \<Rightarrow> 's irccd option" where
  "irc_bot_rule_remove irccd index =
     (if index < irc_bot_rule_size irccd then Some (irccd\<lparr>bt_rules := remove_nth index (bt_rules irccd)\<rparr>)
      else None)"

definition irc_bot_rule_clear :: "'s irccd \<Rightarrow> 's irccd" where
  "irc_bot_rule_clear irccd = irccd\<lparr>bt_rules := []\<rparr>"

section \<open>Hooks\<close>

text \<open>The results 0 and -1 are \<open>Some\<close> the new bot and \<open>None\<close>: nothing changes on refusal.\<close>

definition irc_bot_hook_get :: "'s irccd \<Rightarrow> string \<Rightarrow> irc_hook option" where
  "irc_bot_hook_get irccd name = find_key hk_name (bt_hooks irccd) name"

definition irc_bot_hook_add :: "'s irccd \<Rightarrow> irc_hook \<Rightarrow> 's irccd option" where
  "irc_bot_hook_add irccd h =
     (if irc_bot_hook_get irccd (hk_name h) \<noteq> None then None
      else Some (irccd\<lparr>bt_hooks := h # bt_hooks irccd\<rparr>))"

definition irc_bot_hook_remove :: "'s irccd \<Rightarrow> string \<Rightarrow> 's irccd" where
  "irc_bot_hook_remove irccd name = irccd\<lparr>bt_hooks := delete_key hk_name (bt_hooks irccd) name\<rparr>"

definition irc_bot_hook_clear :: "'s irccd \<Rightarrow> 's irccd" where
  "irc_bot_hook_clear irccd = irccd\<lparr>bt_hooks := []\<rparr>"

section \<open>Dispatch\<close>

text \<open>
  A message is a command of a plugin when it starts with the prefix of the server and the
  name of the plugin.  A server without a prefix is a NULL dereference.
\<close>

definition is_command :: "irc_server \<Rightarrow> 's irc_plugin \<Rightarrow> irc_event \<Rightarrow> bool option" where
  "is_command server p ev =
     (case ev_type ev of
        IRC_EVENT_MESSAGE e \<Rightarrow>
          map_option (\<lambda>cc. strneq (message_message e) cc (length cc) \<and>
              strneq (drop (length cc) (message_message e)) (pl_name p) (length (pl_name p)))
            (sv_prefix server)
      | _ \<Rightarrow> Some False)"

definition to_command :: "irc_server \<Rightarrow> 's irc_plugin \<Rightarrow> irc_event \<Rightarrow> irc_event" where
  "to_command server p ev =
     (case (ev_type ev, sv_prefix server) of
        (IRC_EVENT_MESSAGE e, Some cc) \<Rightarrow>
          ev\<lparr>ev_type := IRC_EVENT_COMMAND (e\<lparr>message_message :=
            dropWhile is_space (drop (length cc + length (pl_name p)) (message_message e))\<rparr>)\<rparr>
      | _ \<Rightarrow> ev)"

definition invokable :: "irc_rule list \<Rightarrow> 's irc_plugin \<Rightarrow> irc_event \<Rightarrow> bool option" where
  "invokable rules p ev =
     (let match = (\<lambda>channel origin event.
            irc_rule_matchlist rules (ev_server ev) channel origin (pl_name p) event) in
      case ev_type ev of
        IRC_EVENT_COMMAND e \<Rightarrow> match (Some (message_channel e)) (Some (message_origin e)) ''onCommand''
      | IRC_EVENT_CONNECT \<Rightarrow> match None None ''onConnect''
      | IRC_EVENT_DISCONNECT \<Rightarrow> match None None ''onDisconnect''
      | IRC_EVENT_INVITE e \<Rightarrow> match (Some (invite_channel e)) (Some (invite_origin e)) ''onInvite''
      | IRC_EVENT_JOIN e \<Rightarrow> match (Some (join_channel e)) (Some (join_origin e)) ''onJoin''
      | IRC_EVENT_KICK e \<Rightarrow> match (Some (kick_channel e)) (Some (kick_origin e)) ''onKick''
      | IRC_EVENT_ME e \<Rightarrow> match (Some (message_channel e)) (Some (message_origin e)) ''onMe''
      | IRC_EVENT_MESSAGE e \<Rightarrow> match (Some (message_channel e)) (Some (message_origin e)) ''onMessage''
      | IRC_EVENT_MODE e \<Rightarrow> match (Some (mode_channel e)) (Some (mode_origin e)) ''onMode''
      | IRC_EVENT_NAMES e \<Rightarrow> match (Some (names_channel e)) None ''onNames''
      | IRC_EVENT_NICK e \<Rightarrow> match None (Some (nick_origin e)) ''onNick''
      | IRC_EVENT_NOTICE e \<Rightarrow> match (Some (notice_channel e)) (Some (notice_origin e)) ''onNotice''
      | IRC_EVENT_PART e \<Rightarrow> match (Some (part_channel e)) (Some (part_origin e)) ''onPart''
      | IRC_EVENT_TOPIC e \<Rightarrow> match (Some (topic_channel e)) (Some (topic_origin e)) ''onTopic''
      | IRC_EVENT_WHOIS e \<Rightarrow> match None None ''onWhois''
      | IRC_EVENT_UNKNOWN \<Rightarrow> Some True)"

datatype act = Run_hook "string list" | Handle_plugin string irc_event | Observe irc_event

fun plugins_loop ::
  "irc_rule list \<Rightarrow> irc_server \<Rightarrow> irc_event \<Rightarrow> 's irc_plugin list \<Rightarrow> string option \<Rightarrow>
     (act list \<times> 's irc_plugin list \<times> string option) option" where
  "plugins_loop rules server ev [] plgcmd = Some ([], [], plgcmd)"
| "plugins_loop rules server ev (p # ps) plgcmd =
     do {
       command \<leftarrow> is_command server p ev;
       if command then
         map_option (\<lambda>(as, qs, c). (as, p # qs, c))
           (plugins_loop rules server ev ps (Some (pl_name p)))
       else do {
         allowed \<leftarrow> invokable rules p ev;
         if allowed then
           map_option (\<lambda>(as, qs, c). (Handle_plugin (pl_name p) ev # as, irc_plugin_handle p ev # qs, c))
             (plugins_loop rules server ev ps plgcmd)
         else map_option (\<lambda>(as, qs, c). (as, p # qs, c)) (plugins_loop rules server ev ps plgcmd)
       }
     }"

text \<open>The command is checked against the rules with the event as it came, a message.\<close>

definition command_call ::
  "irc_rule list \<Rightarrow> irc_server \<Rightarrow> irc_event \<Rightarrow> 's irc_plugin list \<Rightarrow> string option \<Rightarrow>
     (act list \<times> 's irc_plugin list) option" where
  "command_call rules server ev ps plgcmd =
     (case plgcmd \<bind> find_key pl_name ps of
        None \<Rightarrow> Some ([], ps)
      | Some p \<Rightarrow>
          map_option (\<lambda>allowed.
            if allowed
            then ([Handle_plugin (pl_name p) (to_command server p ev)],
                  update_first (\<lambda>q. pl_name q = pl_name p)
                    (\<lambda>q. irc_plugin_handle q (to_command server p ev)) ps)
            else ([], ps)) (invokable rules p ev))"

definition hooks_run :: "irc_hook list \<Rightarrow> irc_event \<Rightarrow> act list" where
  "hooks_run hooks ev =
     concat (map (\<lambda>h. case irc_hook_invoke h ev of None \<Rightarrow> [] | Some argv \<Rightarrow> [Run_hook argv]) hooks)"

definition irc_bot_dispatch :: "'s irccd \<Rightarrow> irc_server \<Rightarrow> irc_event \<Rightarrow> (act list \<times> 's irccd) option" where
  "irc_bot_dispatch irccd server ev =
     do {
       (as1, ps1, plgcmd) \<leftarrow> plugins_loop (bt_rules irccd) server ev (bt_plugins irccd) None;
       (as2, ps2) \<leftarrow> command_call (bt_rules irccd) server ev ps1 plgcmd;
       Some (hooks_run (bt_hooks irccd) ev @ as1 @ as2 @ (if bt_observer irccd then [Observe ev] else []),
             irccd\<lparr>bt_plugins := ps2\<rparr>)
     }"

section \<open>Servers\<close>

definition irc_bot_server_get :: "'s irccd \<Rightarrow> string \<Rightarrow> irc_server option" where
  "irc_bot_server_get irccd name = find_key sv_name (bt_servers irccd) name"

text \<open>A refused server is \<open>Some (-1, bot)\<close>; \<open>None\<close> is a failed assertion of the connection.\<close>

definition irc_bot_server_add :: "bool \<Rightarrow> 's irccd \<Rightarrow> irc_server \<Rightarrow> (int \<times> 's irccd) option" where
  "irc_bot_server_add with_ssl irccd s =
     (if irc_bot_server_get irccd (sv_name s) \<noteq> None then Some (-1, irccd)
      else map_option (\<lambda>s'. (0, irccd\<lparr>bt_servers := bt_servers irccd @ [s']\<rparr>))
             (irc_server_connect with_ssl (irc_server_incref s)))"

definition irc_bot_server_remove :: "'s irccd \<Rightarrow> string \<Rightarrow> (act list \<times> 's irccd) option" where
  "irc_bot_server_remove irccd name =
     (case irc_bot_server_get irccd name of
        None \<Rightarrow> Some ([], irccd)
      | Some s \<Rightarrow>
          let s' = irc_server_disconnect s in
          map_option (\<lambda>(as, b). (as, b\<lparr>bt_servers := delete_key sv_name (bt_servers b) name\<rparr>))
            (irc_bot_dispatch
               (irccd\<lparr>bt_servers := update_first (\<lambda>x. sv_name x = name) (\<lambda>_. s') (bt_servers irccd)\<rparr>)
               s' \<lparr>ev_type = IRC_EVENT_DISCONNECT, ev_server = sv_name s'\<rparr>))"

fun server_clear_loop :: "'s irccd \<Rightarrow> string list \<Rightarrow> (act list \<times> 's irccd) option" where
  "server_clear_loop irccd [] = Some ([], irccd\<lparr>bt_servers := []\<rparr>)"
| "server_clear_loop irccd (n # ns) =
     do {
       (as, b) \<leftarrow> irc_bot_server_remove irccd n;
       (as', b') \<leftarrow> server_clear_loop b ns;
       Some (as @ as', b')
     }"

definition irc_bot_server_clear :: "'s irccd \<Rightarrow> (act list \<times> 's irccd) option" where
  "irc_bot_server_clear irccd = server_clear_loop irccd (map sv_name (bt_servers irccd))"

section \<open>Plugins\<close>

definition irc_bot_plugin_get :: "'s irccd \<Rightarrow> string \<Rightarrow> 's irc_plugin option" where
  "irc_bot_plugin_get irccd name = find_key pl_name (bt_plugins irccd) name"

definition irc_bot_plugin_add :: "'s irccd \<Rightarrow> 's irc_plugin \<Rightarrow> int \<times> 's irccd" where
  "irc_bot_plugin_add irccd p =
     (if irc_bot_plugin_get irccd (pl_name p) \<noteq> None then (-1, irccd)
      else case irc_plugin_load p of
             (rc, q) \<Rightarrow> (rc, if rc = 0 then irccd\<lparr>bt_plugins := q # bt_plugins irccd\<rparr> else irccd))"

text \<open>The removed plugin is unloaded and finished; its state is not used any more.\<close>

definition irc_bot_plugin_remove :: "'s irccd \<Rightarrow> string \<Rightarrow> 's irccd" where
  "irc_bot_plugin_remove irccd name = irccd\<lparr>bt_plugins := delete_key pl_name (bt_plugins irccd) name\<rparr>"

definition irc_bot_plugin_clear :: "'s irccd \<Rightarrow> 's irccd" where
  "irc_bot_plugin_clear irccd =
     (foldl irc_bot_plugin_remove irccd (map pl_name (bt_plugins irccd)))\<lparr>bt_plugins := []\<rparr>"

definition irc_bot_plugin_loader_add :: "'s irccd \<Rightarrow> 's irc_plugin_loader \<Rightarrow> 's irccd" where
  "irc_bot_plugin_loader_add irccd ldr = irccd\<lparr>bt_plugin_loaders := ldr # bt_plugin_loaders irccd\<rparr>"

definition try_plugin ::
  "'s irc_plugin_loader \<Rightarrow> string \<Rightarrow> string \<Rightarrow> string option \<Rightarrow> 's irc_plugin option" where
  "try_plugin ldr base name ext =
     irc_plugin_loader_open ldr name
       (fit PATH_MAX (case ext of
          Some e \<Rightarrow> base @ ''/'' @ name @ ''.'' @ e | None \<Rightarrow> base @ ''/'' @ name))"

fun first_some :: "('a \<Rightarrow> 'b option) \<Rightarrow> 'a list \<Rightarrow> 'b option" where
  "first_some f [] = None"
| "first_some f (x # xs) = (case f x of Some y \<Rightarrow> Some y | None \<Rightarrow> first_some f xs)"

text \<open>
  The result pointer is not initialised: with extensions of which none is left after
  splitting at the colons, what is returned is undefined.
\<close>

definition find_plugin ::
  "'s irc_plugin_loader \<Rightarrow> string \<Rightarrow> string \<Rightarrow> 's irc_plugin option option" where
  "find_plugin ldr base name =
     (case ld_extensions ldr of
        None \<Rightarrow> Some (try_plugin ldr base name None)
      | Some exts \<Rightarrow>
          if tokens CHR '':'' exts = [] then None
          else Some (first_some (\<lambda>e. try_plugin ldr base name (Some e)) (tokens CHR '':'' exts)))"

definition open_plugin :: "'s irc_plugin_loader \<Rightarrow> string \<Rightarrow> string \<Rightarrow> 's irc_plugin option" where
  "open_plugin ldr name path = irc_plugin_loader_open ldr name path"

text \<open>\<open>strrchr (path, '.')\<close>: what follows the last dot of the whole path.\<close>

definition path_ext :: "string \<Rightarrow> string option" where
  "path_ext path =
     (if CHR ''.'' \<in> set path then Some (rev (takeWhile (\<lambda>c. c \<noteq> CHR ''.'') (rev path))) else None)"

definition is_extension_valid :: "'s irc_plugin_loader \<Rightarrow> string \<Rightarrow> bool option" where
  "is_extension_valid ldr path =
     (case path_ext path of
        None \<Rightarrow> Some True
      | Some ext \<Rightarrow> map_option (\<lambda>exts. ext \<in> set (tokens CHR '':'' exts)) (ld_extensions ldr))"

fun find_in_paths ::
  "'s irc_plugin_loader \<Rightarrow> string list \<Rightarrow> string \<Rightarrow> 's irc_plugin option option" where
  "find_in_paths ldr [] name = Some None"
| "find_in_paths ldr (d # ds) name =
     (case find_plugin ldr d name of
        None \<Rightarrow> None
      | Some (Some p) \<Rightarrow> Some (Some p)
      | Some None \<Rightarrow> find_in_paths ldr ds name)"

fun search_loop ::
  "'s irc_plugin_loader list \<Rightarrow> string \<Rightarrow> string option \<Rightarrow> 's irc_plugin option option" where
  "search_loop [] name path = Some None"
| "search_loop (ldr # ldrs) name path =
     (case (case path of
              Some f \<Rightarrow> map_option (\<lambda>valid. if valid then open_plugin ldr name f else None)
                         (is_extension_valid ldr f)
            | None \<Rightarrow> (case ld_paths ldr of
                        None \<Rightarrow> Some None
                      | Some paths \<Rightarrow> find_in_paths ldr (tokens CHR '':'' paths) name)) of
        None \<Rightarrow> None
      | Some (Some p) \<Rightarrow> Some (Some p)
      | Some None \<Rightarrow> search_loop ldrs name path)"

text \<open>The three directories are options of the build.\<close>

record build_dirs =
  cachedir :: string
  datadir :: string
  sysconfdir :: string

definition irc_bot_plugin_search ::
  "build_dirs \<Rightarrow> 's irccd \<Rightarrow> string \<Rightarrow> string option \<Rightarrow> 's irc_plugin option option" where
  "irc_bot_plugin_search dirs irccd name path =
     map_option (map_option (\<lambda>p.
        irc_plugin_set_path
          (irc_plugin_set_path
            (irc_plugin_set_path p ''cache'' (fit PATH_MAX (cachedir dirs @ ''/plugin/'' @ pl_name p)))
            ''data'' (fit PATH_MAX (datadir dirs @ ''/plugin/'' @ pl_name p)))
          ''config'' (fit PATH_MAX (sysconfdir dirs @ ''/irccd/plugin/'' @ pl_name p))))
       (search_loop (bt_plugin_loaders irccd) name path)"

definition irc_bot_finish :: "'s irccd \<Rightarrow> (act list \<times> 's irccd) option" where
  "irc_bot_finish irccd =
     map_option (\<lambda>(as, b). (as, irc_bot_rule_clear (irc_bot_hook_clear (irc_bot_plugin_clear b))))
       (irc_bot_server_clear (irccd\<lparr>bt_plugin_loaders := []\<rparr>))"

section \<open>Registries\<close>

definition bot_wf :: "'s irccd \<Rightarrow> bool" where
  "bot_wf irccd =
     (distinct (map sv_name (bt_servers irccd)) \<and> distinct (map pl_name (bt_plugins irccd)) \<and>
      distinct (map hk_name (bt_hooks irccd)))"

interpretation hooks: registry bot_wf hk_name irc_bot_hook_get irc_bot_hook_add "\<lambda>h. h"
  irc_bot_hook_remove
proof unfold_locales
  fix r :: "'s irccd" and x r' k n
  show "bot_wf r \<Longrightarrow> irc_bot_hook_add r x = Some r' \<Longrightarrow> bot_wf r'"
    by (auto simp: irc_bot_hook_add_def irc_bot_hook_get_def bot_wf_def find_key_None split: if_splits)
  show "bot_wf r \<Longrightarrow> irc_bot_hook_get (irc_bot_hook_remove r n) k =
      (if k = n then None else irc_bot_hook_get r k)"
    by (simp add: irc_bot_hook_get_def irc_bot_hook_remove_def bot_wf_def find_delete_key)
  show "bot_wf r \<Longrightarrow> bot_wf (irc_bot_hook_remove r n)"
    by (simp add: irc_bot_hook_remove_def bot_wf_def distinct_delete_key)
qed (auto simp: irc_bot_hook_add_def irc_bot_hook_get_def split: if_splits)

text \<open>The plugin as it is after its load callback, if that succeeds.\<close>

definition plugin_add :: "'s irccd \<Rightarrow> 's irc_plugin \<Rightarrow> 's irccd option" where
  "plugin_add irccd p = (case irc_bot_plugin_add irccd p of (rc, b) \<Rightarrow> if rc = 0 then Some b else None)"

lemma plugin_add_eq:
  "plugin_add irccd p = (if irc_bot_plugin_get irccd (pl_name p) \<noteq> None then None
     else if fst (irc_plugin_load p) = 0
       then Some (irccd\<lparr>bt_plugins := snd (irc_plugin_load p) # bt_plugins irccd\<rparr>) else None)"
  by (simp add: plugin_add_def irc_bot_plugin_add_def split: prod.splits)

interpretation plugins: registry bot_wf pl_name irc_bot_plugin_get plugin_add
  "\<lambda>p. snd (irc_plugin_load p)" irc_bot_plugin_remove
proof unfold_locales
  fix r :: "'s irccd" and x r' k n
  show "bot_wf r \<Longrightarrow> plugin_add r x = Some r' \<Longrightarrow> bot_wf r'"
    by (auto simp: plugin_add_eq irc_bot_plugin_get_def bot_wf_def find_key_None split: if_splits)
  show "bot_wf r \<Longrightarrow> irc_bot_plugin_get (irc_bot_plugin_remove r n) k =
      (if k = n then None else irc_bot_plugin_get r k)"
    by (simp add: irc_bot_plugin_get_def irc_bot_plugin_remove_def bot_wf_def find_delete_key)
  show "bot_wf r \<Longrightarrow> bot_wf (irc_bot_plugin_remove r n)"
    by (simp add: irc_bot_plugin_remove_def bot_wf_def distinct_delete_key)
qed (auto simp: plugin_add_eq irc_bot_plugin_get_def split: if_splits)

section \<open>Facts on the dispatch\<close>

lemma plugins_loop_names:
  "plugins_loop rules sv ev ps c = Some (as, qs, c') \<Longrightarrow> map pl_name qs = map pl_name ps"
proof (induction rules sv ev ps c arbitrary: as qs c' rule: plugins_loop.induct)
  case (2 rules sv ev p ps c)
  then show ?case
    by (auto simp: bind_eq_Some_conv split: if_splits)
qed simp

lemma command_call_names:
  "command_call rules sv ev ps c = Some (as, qs) \<Longrightarrow> map pl_name qs = map pl_name ps"
proof -
  have keep: "map pl_name (update_first P (\<lambda>q. irc_plugin_handle q e) ps) = map pl_name ps" for P e
    by (rule map_update_first) simp
  show "command_call rules sv ev ps c = Some (as, qs) \<Longrightarrow> map pl_name qs = map pl_name ps"
    by (auto simp: command_call_def keep split: option.splits if_splits)
qed

lemma dispatch_frame:
  assumes "irc_bot_dispatch b sv ev = Some (as, b')"
  shows "bt_servers b' = bt_servers b \<and> bt_hooks b' = bt_hooks b \<and> bt_rules b' = bt_rules b \<and>
    map pl_name (bt_plugins b') = map pl_name (bt_plugins b)"
  using assms plugins_loop_names command_call_names
  by (fastforce simp: irc_bot_dispatch_def bind_eq_Some_conv)

text \<open>Rules without channel and origin criteria can be asked about every event.\<close>

definition rules_total :: "irc_rule list \<Rightarrow> bool" where
  "rules_total rules = (\<forall>r \<in> set rules. r_channels r = None \<and> r_origins r = None)"

lemma match_defined:
  assumes "r_channels r = None \<and> r_origins r = None"
  shows "irc_rule_match r sv ch og pl e \<noteq> None"
  using assms by (auto simp: irc_rule_match_def and_then_Some)

lemma matchlist_defined: "rules_total rules \<Longrightarrow> irc_rule_matchlist rules sv ch og pl e \<noteq> None"
proof -
  have "rules_total rules \<Longrightarrow> matchlist_loop res rules sv ch og pl e \<noteq> None" for res
  proof (induction rules arbitrary: res)
    case (Cons r rs)
    then obtain m where "irc_rule_match r sv ch og pl e = Some m"
      using match_defined [of r] by (force simp: rules_total_def)
    with Cons show ?case by (simp add: rules_total_def)
  qed simp
  then show "rules_total rules \<Longrightarrow> irc_rule_matchlist rules sv ch og pl e \<noteq> None"
    by (simp add: irc_rule_matchlist_def)
qed

lemma dispatch_disconnect:
  assumes "rules_total (bt_rules b)"
  shows "irc_bot_dispatch b sv \<lparr>ev_type = IRC_EVENT_DISCONNECT, ev_server = n\<rparr> \<noteq> None"
proof -
  let ?e = "\<lparr>ev_type = IRC_EVENT_DISCONNECT, ev_server = n\<rparr>"
  have loop: "\<exists>as qs. plugins_loop (bt_rules b) sv ?e ps None = Some (as, qs, None)" for ps :: "'a irc_plugin list"
  proof (induction ps)
    case (Cons p ps)
    obtain m where "invokable (bt_rules b) p ?e = Some m"
      using matchlist_defined [OF assms] by (fastforce simp: invokable_def)
    with Cons show ?case by (auto simp: is_command_def)
  qed simp
  then obtain as qs where "plugins_loop (bt_rules b) sv ?e (bt_plugins b) None = Some (as, qs, None)"
    by blast
  then show ?thesis by (simp add: irc_bot_dispatch_def command_call_def)
qed

text \<open>The servers: adding connects, removing disconnects and tells the plugins.\<close>

definition servers_wf :: "'s irccd \<Rightarrow> bool" where
  "servers_wf b = (bot_wf b \<and> rules_total (bt_rules b))"

definition server_add :: "bool \<Rightarrow> 's irccd \<Rightarrow> irc_server \<Rightarrow> 's irccd option" where
  "server_add with_ssl b s =
     (case irc_bot_server_add with_ssl b s of
        None \<Rightarrow> None | Some (rc, b') \<Rightarrow> if rc = 0 then Some b' else None)"

definition server_remove :: "'s irccd \<Rightarrow> string \<Rightarrow> 's irccd" where
  "server_remove b name = (case irc_bot_server_remove b name of None \<Rightarrow> b | Some (_, b') \<Rightarrow> b')"

lemma connect_name: "irc_server_connect ssl (irc_server_incref s) = Some s' \<Longrightarrow> sv_name s' = sv_name s"
  by (auto simp: irc_server_connect_def irc_server_incref_def split: if_splits)

lemma server_add_eq:
  "server_add ssl b s = Some b' \<longleftrightarrow>
     irc_bot_server_get b (sv_name s) = None \<and>
     (\<exists>s'. irc_server_connect ssl (irc_server_incref s) = Some s' \<and>
        b' = b\<lparr>bt_servers := bt_servers b @ [s']\<rparr>)"
  by (auto simp: server_add_def irc_bot_server_add_def split: option.splits)

lemma server_remove_eq:
  assumes "rules_total (bt_rules b)"
  shows "\<exists>ps. server_remove b name = b\<lparr>bt_servers := delete_key sv_name (bt_servers b) name, bt_plugins := ps\<rparr> \<and>
     map pl_name ps = map pl_name (bt_plugins b)"
proof (cases "irc_bot_server_get b name")
  case None
  then have "delete_key sv_name (bt_servers b) name = bt_servers b"
    by (auto simp: irc_bot_server_get_def find_key_None delete_key_def intro!: delete_first_id)
  with None show ?thesis
    by (intro exI [of _ "bt_plugins b"]) (simp add: server_remove_def irc_bot_server_remove_def)
next
  case (Some s)
  let ?s = "irc_server_disconnect s"
  let ?b = "b\<lparr>bt_servers := update_first (\<lambda>x. sv_name x = name) (\<lambda>_. ?s) (bt_servers b)\<rparr>"
  have name: "sv_name ?s = name"
    using Some find_key_Some by (fastforce simp: irc_bot_server_get_def irc_server_disconnect_def
        irc_server_clear_def irc_server_channels_clear_def)
  obtain as b1 where d: "irc_bot_dispatch ?b ?s \<lparr>ev_type = IRC_EVENT_DISCONNECT, ev_server = sv_name ?s\<rparr> = Some (as, b1)"
    using dispatch_disconnect [of ?b ?s "sv_name ?s"] assms by auto
  then obtain ps where b1: "b1 = ?b\<lparr>bt_plugins := ps\<rparr>"
    by (auto simp: irc_bot_dispatch_def bind_eq_Some_conv)
  have del: "delete_first (\<lambda>x. sv_name x = name) (update_first (\<lambda>x. sv_name x = name) (\<lambda>_. ?s) xs) =
      delete_first (\<lambda>x. sv_name x = name) xs" for xs
    using name by (induction xs) auto
  have "map pl_name ps = map pl_name (bt_plugins b)"
    using dispatch_frame [OF d] by (simp add: b1)
  moreover have "server_remove b name = b\<lparr>bt_servers := delete_key sv_name (bt_servers b) name, bt_plugins := ps\<rparr>"
    using Some d unfolding b1
    by (simp add: server_remove_def irc_bot_server_remove_def Let_def delete_key_def del)
  ultimately show ?thesis by blast
qed

lemma remove_servers:
  assumes "rules_total (bt_rules b)"
  shows "bt_servers (server_remove b n) = delete_key sv_name (bt_servers b) n"
    and "map pl_name (bt_plugins (server_remove b n)) = map pl_name (bt_plugins b)"
    and "bt_hooks (server_remove b n) = bt_hooks b" and "bt_rules (server_remove b n) = bt_rules b"
  using server_remove_eq [OF assms, of n] by auto

interpretation servers: registry servers_wf sv_name irc_bot_server_get "server_add ssl"
  "\<lambda>s. the (irc_server_connect ssl (irc_server_incref s))" server_remove for ssl
proof unfold_locales
  fix r :: "'s irccd" and x r' k n
  show "servers_wf r \<Longrightarrow> irc_bot_server_get r (sv_name x) \<noteq> None \<Longrightarrow> server_add ssl r x = None"
    by (simp add: server_add_def irc_bot_server_add_def)
  show "servers_wf r \<Longrightarrow> server_add ssl r x = Some r' \<Longrightarrow> irc_bot_server_get r' k =
      (if k = sv_name x then Some (the (irc_server_connect ssl (irc_server_incref x)))
       else irc_bot_server_get r k)"
    by (auto simp: server_add_eq irc_bot_server_get_def find_key_append dest: connect_name
        split: option.splits)
  show "servers_wf r \<Longrightarrow> server_add ssl r x = Some r' \<Longrightarrow> servers_wf r'"
    by (auto simp: server_add_eq servers_wf_def bot_wf_def irc_bot_server_get_def find_key_None
        dest!: connect_name)
  show "servers_wf r \<Longrightarrow> irc_bot_server_get (server_remove r n) k =
      (if k = n then None else irc_bot_server_get r k)"
    by (simp add: irc_bot_server_get_def remove_servers servers_wf_def bot_wf_def find_delete_key)
  show "servers_wf r \<Longrightarrow> servers_wf (server_remove r n)"
    by (simp add: remove_servers servers_wf_def bot_wf_def distinct_delete_key)
qed

text \<open>
  C24. Hooks, plugins and servers are registries: a name is held at most once, a second
  object of that name is refused, what was added is found (the plugin as its load callback
  left it, the server connected), and after a removal the name is free and every other
  object is untouched.
\<close>
theorem bot_registries:
  assumes "bot_wf b"
  shows "(irc_bot_hook_add b h = Some b1 \<longrightarrow> irc_bot_hook_get b (hk_name h) = None \<and>
      irc_bot_hook_get b1 k = (if k = hk_name h then Some h else irc_bot_hook_get b k) \<and>
      irc_bot_hook_get (irc_bot_hook_remove b1 (hk_name h)) k = irc_bot_hook_get b k) \<and>
    (irc_bot_plugin_add b p = (0, b2) \<longrightarrow> irc_bot_plugin_get b (pl_name p) = None \<and>
      irc_bot_plugin_get b2 k =
        (if k = pl_name p then Some (snd (irc_plugin_load p)) else irc_bot_plugin_get b k) \<and>
      irc_bot_plugin_get (irc_bot_plugin_remove b2 (pl_name p)) k = irc_bot_plugin_get b k) \<and>
    (rules_total (bt_rules b) \<and> irc_bot_server_add ssl b s = Some (0, b3) \<longrightarrow>
      irc_bot_server_get b (sv_name s) = None \<and>
      irc_bot_server_get b3 k = (if k = sv_name s then irc_server_connect ssl (irc_server_incref s)
        else irc_bot_server_get b k) \<and>
      (\<exists>as b4. irc_bot_server_remove b3 (sv_name s) = Some (as, b4) \<and>
        irc_bot_server_get b4 k = irc_bot_server_get b k))"
proof (intro conjI impI; (elim conjE)?)
  assume h: "irc_bot_hook_add b h = Some b1"
  show "irc_bot_hook_get b (hk_name h) = None" by (rule hooks.add_new [OF assms h])
  show "irc_bot_hook_get b1 k = (if k = hk_name h then Some h else irc_bot_hook_get b k)"
    by (rule hooks.get_add [OF assms h])
  show "irc_bot_hook_get (irc_bot_hook_remove b1 (hk_name h)) k = irc_bot_hook_get b k"
    by (rule hooks.remove_added [OF assms h])
next
  assume "irc_bot_plugin_add b p = (0, b2)"
  then have p: "plugin_add b p = Some b2" by (simp add: plugin_add_def)
  show "irc_bot_plugin_get b (pl_name p) = None" by (rule plugins.add_new [OF assms p])
  show "irc_bot_plugin_get b2 k =
      (if k = pl_name p then Some (snd (irc_plugin_load p)) else irc_bot_plugin_get b k)"
    by (rule plugins.get_add [OF assms p])
  show "irc_bot_plugin_get (irc_bot_plugin_remove b2 (pl_name p)) k = irc_bot_plugin_get b k"
    by (rule plugins.remove_added [OF assms p])
next
  assume t: "rules_total (bt_rules b)" and s: "irc_bot_server_add ssl b s = Some (0, b3)"
  then have wf: "servers_wf b" and a: "server_add ssl b s = Some b3"
    using assms by (simp_all add: servers_wf_def server_add_def)
  show "irc_bot_server_get b (sv_name s) = None" by (rule servers.add_new [OF wf a])
  from a have "irc_server_connect ssl (irc_server_incref s) \<noteq> None" by (auto simp: server_add_eq)
  with servers.get_add [OF wf a, of k] show "irc_bot_server_get b3 k =
      (if k = sv_name s then irc_server_connect ssl (irc_server_incref s) else irc_bot_server_get b k)"
    by auto
  have wf3: "servers_wf b3" by (rule servers.wf_add [OF wf a])
  have run: "irc_bot_dispatch (b3\<lparr>bt_servers := svs\<rparr>) sv
      \<lparr>ev_type = IRC_EVENT_DISCONNECT, ev_server = n\<rparr> \<noteq> None" for svs sv n
    using wf3 by (intro dispatch_disconnect) (simp add: servers_wf_def)
  have d: "irc_bot_server_remove b3 (sv_name s) \<noteq> None"
    using run by (auto simp: irc_bot_server_remove_def Let_def split: option.splits)
  with servers.remove_added [OF wf a, of k] show "\<exists>as b4. irc_bot_server_remove b3 (sv_name s) = Some (as, b4) \<and>
        irc_bot_server_get b4 k = irc_bot_server_get b k"
    by (auto simp: server_remove_def)
qed

lemma bot_wf_empty: "bot_wf bot_empty"
  by (simp add: bot_wf_def bot_empty_def)

theorem bot_registries_witness:
  "irc_bot_hook_get ((bot_empty :: unit irccd)\<lparr>bt_hooks := [irc_hook_new ''mail'' ''/bin/m'']\<rparr>) ''mail'' =
     Some (irc_hook_new ''mail'' ''/bin/m'') \<and>
   irc_bot_hook_get (irc_bot_hook_remove ((bot_empty :: unit irccd)\<lparr>bt_hooks := [irc_hook_new ''mail'' ''/bin/m'']\<rparr>) ''mail'') ''mail'' = None"
proof -
  let ?h = "irc_hook_new ''mail'' ''/bin/m''"
  let ?p = "irc_plugin_init [] () ''ask''"
  have add: "irc_bot_hook_add (bot_empty :: unit irccd) ?h = Some (bot_empty\<lparr>bt_hooks := [?h]\<rparr>)"
    and get: "irc_bot_hook_get (bot_empty :: unit irccd) ''mail'' = None"
    by (simp_all add: irc_bot_hook_add_def irc_bot_hook_get_def find_key_def bot_empty_def)
  from bot_registries [OF bot_wf_empty, of ?h "bot_empty\<lparr>bt_hooks := [?h]\<rparr>" "''mail''" ?p bot_empty True "irc_server_new []" bot_empty]
    add get show ?thesis by (simp add: irc_hook_new_def)
qed

section \<open>Dispatching an event\<close>

lemma plugins_loop_acts:
  assumes "\<And>p. p \<in> set ps \<Longrightarrow> is_command sv p ev = Some (cmd p)"
    and "\<And>p. p \<in> set ps \<Longrightarrow> \<not> cmd p \<Longrightarrow> invokable rules p ev = Some (ok p)"
  shows "plugins_loop rules sv ev ps c =
    Some (map (\<lambda>p. Handle_plugin (pl_name p) ev) (filter (\<lambda>p. \<not> cmd p \<and> ok p) ps),
          map (\<lambda>p. if \<not> cmd p \<and> ok p then irc_plugin_handle p ev else p) ps,
          (case filter cmd ps of [] \<Rightarrow> c | qs \<Rightarrow> Some (pl_name (last qs))))"
  using assms
proof (induction ps arbitrary: c)
  case (Cons p ps)
  show ?case
  proof (cases "cmd p")
    case True
    with Cons show ?thesis by (simp split: list.splits)
  next
    case False
    with Cons show ?thesis by simp
  qed
qed simp

lemma find_key_map_keep:
  assumes "distinct (map key xs)" and "q \<in> set xs" and "f q = q" and "\<And>x. key (f x) = key x"
  shows "find_key key (map f xs) (key q) = Some q"
  using assms(1,2)
proof (induction xs)
  case (Cons x xs)
  then show ?case using assms(3,4) by (cases "x = q") (auto simp: image_iff)
qed simp

text \<open>
  C2. What a dispatch runs: every hook, in order; then every plugin the message is not a
  command of and that the rules allow, once and in order, with the event as it came; then
  the last plugin the message is a command of, if the rules allow it the MESSAGE (rules
  on the event onCommand are never asked), with the command event; then the observer.
\<close>
theorem dispatch_acts:
  assumes "\<forall>p \<in> set (bt_plugins b). is_command sv p ev = Some (cmd p)"
    and "\<forall>p \<in> set (bt_plugins b). invokable (bt_rules b) p ev = Some (ok p)"
    and "bot_wf b"
  shows "\<exists>b'. irc_bot_dispatch b sv ev =
    Some (hooks_run (bt_hooks b) ev @
      map (\<lambda>p. Handle_plugin (pl_name p) ev) (filter (\<lambda>p. \<not> cmd p \<and> ok p) (bt_plugins b)) @
      (case filter cmd (bt_plugins b) of
         [] \<Rightarrow> []
       | qs \<Rightarrow> if ok (last qs) then [Handle_plugin (pl_name (last qs)) (to_command sv (last qs) ev)] else []) @
      (if bt_observer b then [Observe ev] else []), b')"
proof -
  let ?ps = "map (\<lambda>p. if \<not> cmd p \<and> ok p then irc_plugin_handle p ev else p) (bt_plugins b)"
  let ?c = "case filter cmd (bt_plugins b) of [] \<Rightarrow> None | qs \<Rightarrow> Some (pl_name (last qs))"
  have loop: "plugins_loop (bt_rules b) sv ev (bt_plugins b) None =
     Some (map (\<lambda>p. Handle_plugin (pl_name p) ev) (filter (\<lambda>p. \<not> cmd p \<and> ok p) (bt_plugins b)), ?ps, ?c)"
    using assms(1,2) by (intro plugins_loop_acts) blast+
  show ?thesis
  proof (cases "filter cmd (bt_plugins b)")
    case Nil
    with loop show ?thesis by (simp add: irc_bot_dispatch_def command_call_def)
  next
    case (Cons q0 qs)
    let ?q = "last (q0 # qs)"
    have q: "?q \<in> set (bt_plugins b)" "cmd ?q"
    proof -
      have "?q \<in> set (filter cmd (bt_plugins b))" unfolding Cons by (rule last_in_set) simp
      then show "?q \<in> set (bt_plugins b)" "cmd ?q" by simp_all
    qed
    have "find_key pl_name ?ps (pl_name ?q) = Some ?q"
      using assms(3) q by (intro find_key_map_keep) (simp_all add: bot_wf_def)
    moreover have "invokable (bt_rules b) ?q ev = Some (ok ?q)" using assms(2) q(1) by blast
    ultimately show ?thesis
      using loop Cons by (simp add: irc_bot_dispatch_def command_call_def del: last.simps)
  qed
qed

definition ask_bot :: "unit irccd" where
  "ask_bot = bot_empty\<lparr>bt_plugins := [irc_plugin_init [] () ''ask'', irc_plugin_init [] () ''logger''],
     bt_observer := True\<rparr>"

definition ask_event :: irc_event where
  "ask_event = \<lparr>ev_type = IRC_EVENT_MESSAGE \<lparr>message_origin = ''jean'', message_channel = ''#a'',
     message_message = ''!ask  me''\<rparr>, ev_server = ''s''\<rparr>"

theorem dispatch_acts_witness:
  "\<exists>b'. irc_bot_dispatch ask_bot (irc_server_new ''s'') ask_event =
     Some ([Handle_plugin ''logger'' ask_event,
       Handle_plugin ''ask'' \<lparr>ev_type = IRC_EVENT_COMMAND \<lparr>message_origin = ''jean'', message_channel = ''#a'',
         message_message = ''me''\<rparr>, ev_server = ''s''\<rparr>,
       Observe ask_event], b')"
proof -
  let ?sv = "irc_server_new ''s''"
  let ?cmd = "\<lambda>p :: unit irc_plugin. pl_name p = ''ask''"
  have sv: "sv_prefix ?sv = Some ''!''" by (simp add: irc_server_new_def)
  have names: "pl_name (irc_plugin_init [] () n) = n" for n by (simp add: irc_plugin_init_def)
  have cmd: "\<forall>p \<in> set (bt_plugins ask_bot). is_command ?sv p ask_event = Some (?cmd p)"
    using sv by (simp add: ask_bot_def bot_empty_def is_command_def ask_event_def names strneq_def)
  have ok: "\<forall>p \<in> set (bt_plugins ask_bot). invokable (bt_rules ask_bot) p ask_event = Some True"
    by (simp add: ask_bot_def bot_empty_def invokable_def ask_event_def irc_rule_matchlist_def)
  have wf: "bot_wf ask_bot" by (simp add: bot_wf_def ask_bot_def bot_empty_def names)
  have filt: "filter ?cmd (bt_plugins ask_bot) = [irc_plugin_init [] () ''ask'']"
    "filter (\<lambda>p. \<not> ?cmd p \<and> True) (bt_plugins ask_bot) = [irc_plugin_init [] () ''logger'']"
    by (simp_all add: ask_bot_def bot_empty_def names)
  have sp: "is_space CHR '' ''" "\<not> is_space CHR ''m''" by code_simp+
  have tc: "to_command ?sv (irc_plugin_init [] () ''ask'') ask_event =
      \<lparr>ev_type = IRC_EVENT_COMMAND \<lparr>message_origin = ''jean'', message_channel = ''#a'',
         message_message = ''me''\<rparr>, ev_server = ''s''\<rparr>"
    using sv sp by (simp add: to_command_def ask_event_def names)
  from dispatch_acts [OF cmd ok wf] filt tc show ?thesis
    by (simp add: names hooks_run_def ask_bot_def bot_empty_def)
qed

text \<open>
  A message is taken for a command as soon as the name of the plugin is a prefix of
  its first word: whatever follows the name, blank or not, is the text of the command.
\<close>
theorem command_prefix:
  assumes "sv_prefix sv = Some pfx"
    and "ev_type ev = IRC_EVENT_MESSAGE e" and "message_message e = pfx @ pl_name p @ rest"
  shows "is_command sv p ev = Some True \<and>
    to_command sv p ev = ev\<lparr>ev_type := IRC_EVENT_COMMAND (e\<lparr>message_message := dropWhile is_space rest\<rparr>)\<rparr>"
  using assms by (simp add: is_command_def to_command_def strneq_def)

theorem command_prefix_witness:
  "is_command (irc_server_new ''s'') (irc_plugin_init [] () ''ask'')
     (ask_event\<lparr>ev_type := IRC_EVENT_MESSAGE \<lparr>message_origin = ''j'', message_channel = ''#a'',
        message_message = ''!asking for it''\<rparr>\<rparr>) = Some True"
  using command_prefix [of "irc_server_new ''s''" "''!''" "ask_event\<lparr>ev_type := IRC_EVENT_MESSAGE
      \<lparr>message_origin = ''j'', message_channel = ''#a'', message_message = ''!asking for it''\<rparr>\<rparr>" _
      "irc_plugin_init [] () ''ask''" "''ing for it''"]
  by (simp add: irc_server_new_def irc_plugin_init_def)

section \<open>The list of rules\<close>

lemma length_remove_nth [simp]: "i < length xs \<Longrightarrow> length (remove_nth i xs) = length xs - 1"
  by (simp add: remove_nth_def)

text \<open>
  A rule inserted at an index is found there (or last, when the index is behind the
  end), the rules before it keep their place and the others move by one; removing it
  again restores the list.
\<close>
theorem rule_insert_at:
  "irc_bot_rule_get (irc_bot_rule_insert b r i) j =
     (let k = min i (irc_bot_rule_size b) in
      if j < k then irc_bot_rule_get b j
      else if j = k then Some r else irc_bot_rule_get b (j - 1)) \<and>
   irc_bot_rule_remove (irc_bot_rule_insert b r i) (min i (irc_bot_rule_size b)) = Some b"
proof -
  have rules: "bt_rules (irc_bot_rule_insert b r i) =
      take (min i (length (bt_rules b))) (bt_rules b) @ r # drop (min i (length (bt_rules b))) (bt_rules b)"
    by (auto simp: irc_bot_rule_insert_def irc_bot_rule_size_def append_elem_def min_def)
  have "remove_nth (min i (length (bt_rules b))) (bt_rules (irc_bot_rule_insert b r i)) = bt_rules b"
    unfolding rules remove_nth_def by simp
  moreover have "(irc_bot_rule_insert b r i)\<lparr>bt_rules := bt_rules b\<rparr> = b"
    by (simp add: irc_bot_rule_insert_def)
  ultimately have "irc_bot_rule_remove (irc_bot_rule_insert b r i) (min i (irc_bot_rule_size b)) = Some b"
    by (simp add: irc_bot_rule_remove_def irc_bot_rule_size_def rules)
  then show ?thesis
    by (auto simp: irc_bot_rule_get_def irc_bot_rule_size_def rules Let_def nth_append nth_Cons')
qed

lemma remove_inserted:
  assumes "d \<le> length xs"
  shows "remove_nth d (take d xs @ x # drop d xs) = xs" and "(take d xs @ x # drop d xs) ! d = x"
  using assms by (simp_all add: remove_nth_def nth_append)

text \<open>Where the rule lands.\<close>

definition move_dest :: "'s irccd \<Rightarrow> nat \<Rightarrow> nat \<Rightarrow> nat" where
  "move_dest b from_idx to_idx =
     (if to_idx = 0 \<or> from_idx = 0 then to_idx else min (Suc to_idx) (irc_bot_rule_size b - 1))"

lemma rule_move_eq:
  assumes "from_idx < irc_bot_rule_size b" and "to_idx < irc_bot_rule_size b" and "from_idx \<noteq> to_idx"
    and rest: "rest = remove_nth from_idx (bt_rules b)"
  shows "irc_bot_rule_move b from_idx to_idx =
    Some (b\<lparr>bt_rules := take (move_dest b from_idx to_idx) rest @ bt_rules b ! from_idx #
       drop (move_dest b from_idx to_idx) rest\<rparr>)"
proof -
  have len: "length rest = irc_bot_rule_size b - 1"
    using assms(1) by (simp add: irc_bot_rule_size_def rest)
  consider "to_idx = 0" | "to_idx \<noteq> 0" "from_idx = 0"
    | "to_idx \<noteq> 0" "from_idx \<noteq> 0" "Suc to_idx \<le> length rest"
    | "to_idx \<noteq> 0" "from_idx \<noteq> 0" "length rest < Suc to_idx" by linarith
  then show ?thesis
    by cases (use assms(1-3) len in \<open>simp_all add: irc_bot_rule_move_def append_elem_def Let_def
      move_dest_def min_def rest\<close>)
qed

text \<open>
  Moving a rule keeps all the others in their order, but the destination is only what
  was asked for when it is the front or when the first rule is moved: from any other place
  the rule lands one position behind the one asked for (or at the end), so that a rule
  cannot be moved one place towards the front.
\<close>
theorem rule_move_position:
  assumes "from_idx < irc_bot_rule_size b" and "to_idx < irc_bot_rule_size b" and "from_idx \<noteq> to_idx"
  shows "\<exists>b'. irc_bot_rule_move b from_idx to_idx = Some b' \<and>
    irc_bot_rule_get b' (move_dest b from_idx to_idx) = irc_bot_rule_get b from_idx \<and>
    irc_bot_rule_remove b' (move_dest b from_idx to_idx) = irc_bot_rule_remove b from_idx \<and>
    (from_idx = Suc to_idx \<and> to_idx \<noteq> 0 \<longrightarrow> b' = b)"
proof -
  define rest where "rest = remove_nth from_idx (bt_rules b)"
  define d where "d = move_dest b from_idx to_idx"
  have len: "length rest = irc_bot_rule_size b - 1"
    using assms(1) by (simp add: irc_bot_rule_size_def rest_def)
  have d: "d \<le> length rest" "d < irc_bot_rule_size b"
    using assms len by (auto simp: d_def move_dest_def)
  have move: "irc_bot_rule_move b from_idx to_idx =
      Some (b\<lparr>bt_rules := take d rest @ bt_rules b ! from_idx # drop d rest\<rparr>)"
    unfolding d_def by (rule rule_move_eq [OF assms rest_def])
  have same: "take d rest @ bt_rules b ! from_idx # drop d rest = bt_rules b"
    if "from_idx = Suc to_idx" "to_idx \<noteq> 0"
  proof -
    have "d = from_idx" using that assms(1) by (simp add: d_def move_dest_def)
    then show ?thesis using assms(1)
      by (simp add: rest_def remove_nth_def irc_bot_rule_size_def id_take_nth_drop [symmetric])
  qed
  have size: "length (take d rest @ bt_rules b ! from_idx # drop d rest) = irc_bot_rule_size b"
    using d len by simp
  show ?thesis
    unfolding move
    using assms d same remove_inserted [OF d(1), of "bt_rules b ! from_idx"] size
    by (auto simp: irc_bot_rule_get_def irc_bot_rule_remove_def irc_bot_rule_size_def rest_def simp flip: d_def)
qed

theorem rule_move_position_witness:
  "\<exists>b'. irc_bot_rule_move ((bot_empty :: unit irccd)\<lparr>bt_rules := [irc_rule_new Rule_Accept, irc_rule_new Rule_Drop, irc_rule_new Rule_Accept]\<rparr>) 2 1 = Some b' \<and>
     b' = (bot_empty :: unit irccd)\<lparr>bt_rules := [irc_rule_new Rule_Accept, irc_rule_new Rule_Drop, irc_rule_new Rule_Accept]\<rparr>"
  using rule_move_position [of 2 "(bot_empty :: unit irccd)\<lparr>bt_rules := [irc_rule_new Rule_Accept, irc_rule_new Rule_Drop, irc_rule_new Rule_Accept]\<rparr>" 1]
  by (auto simp: irc_bot_rule_size_def)

section \<open>Looking for a plugin\<close>

lemma first_some_append:
  "first_some f (xs @ ys) = (case first_some f xs of Some y \<Rightarrow> Some y | None \<Rightarrow> first_some f ys)"
  by (induction xs) (auto split: option.splits)

lemma first_some_None: "first_some f xs = None \<longleftrightarrow> (\<forall>x \<in> set xs. f x = None)"
  by (induction xs) (auto split: option.splits)

text \<open>The files a loader tries, in order.\<close>

definition candidates :: "'s irc_plugin_loader \<Rightarrow> string \<Rightarrow> string list" where
  "candidates ldr name =
     (case (ld_paths ldr, ld_extensions ldr) of
        (None, _) \<Rightarrow> []
      | (Some ps, None) \<Rightarrow> map (\<lambda>d. fit PATH_MAX (d @ ''/'' @ name)) (tokens CHR '':'' ps)
      | (Some ps, Some es) \<Rightarrow>
          concat (map (\<lambda>d. map (\<lambda>e. fit PATH_MAX (d @ ''/'' @ name @ ''.'' @ e)) (tokens CHR '':'' es))
            (tokens CHR '':'' ps)))"

lemma first_some_map: "first_some f (map g xs) = first_some (f \<circ> g) xs"
  by (induction xs) (auto split: option.splits)

lemma find_in_paths_eq:
  assumes "\<forall>es. ld_extensions ldr = Some es \<longrightarrow> tokens CHR '':'' es \<noteq> []"
  shows "find_in_paths ldr ds name = Some (first_some (ld_open ldr name)
    (concat (map (\<lambda>d. case ld_extensions ldr of
        None \<Rightarrow> [fit PATH_MAX (d @ ''/'' @ name)]
      | Some es \<Rightarrow> map (\<lambda>e. fit PATH_MAX (d @ ''/'' @ name @ ''.'' @ e)) (tokens CHR '':'' es)) ds)))"
proof (induction ds)
  case (Cons d ds)
  show ?case
  proof (cases "ld_extensions ldr")
    case None
    with Cons show ?thesis
      by (simp add: find_plugin_def try_plugin_def irc_plugin_loader_open_def split: option.splits)
  next
    case (Some es)
    with assms have "tokens CHR '':'' es \<noteq> []" by simp
    with Some Cons show ?thesis
      by (simp add: find_plugin_def try_plugin_def irc_plugin_loader_open_def first_some_append
          first_some_map comp_def split: option.splits)
  qed
qed simp

lemma search_loop_eq:
  assumes "\<forall>ldr \<in> set ldrs. \<forall>es. ld_extensions ldr = Some es \<longrightarrow> tokens CHR '':'' es \<noteq> []"
  shows "search_loop ldrs name None =
    Some (first_some (\<lambda>ldr. first_some (ld_open ldr name) (candidates ldr name)) ldrs)"
  using assms
proof (induction ldrs)
  case (Cons l ls)
  have single: "concat (map (\<lambda>d. [g d]) ds) = map g ds" for g :: "string \<Rightarrow> string" and ds
    by (induction ds) simp_all
  have "\<forall>es. ld_extensions l = Some es \<longrightarrow> tokens CHR '':'' es \<noteq> []" using Cons.prems by simp
  from find_in_paths_eq [OF this] Cons show ?case
    by (cases "ld_paths l"; cases "ld_extensions l") (simp_all add: candidates_def single split: option.splits)
qed simp

text \<open>
  A plugin without an explicit path is searched loader by loader (the last one added
  first), directory by directory and extension by extension, and the first file that opens
  is taken; it keeps its name and is given its three default directories.
\<close>
theorem plugin_search_order:
  assumes "\<forall>ldr \<in> set (bt_plugin_loaders b). \<forall>es. ld_extensions ldr = Some es \<longrightarrow> tokens CHR '':'' es \<noteq> []"
  shows "\<exists>r. irc_bot_plugin_search dirs b name None = Some r \<and>
    map_option pl_name r =
      map_option pl_name (first_some (\<lambda>ldr. first_some (ld_open ldr name) (candidates ldr name)) (bt_plugin_loaders b)) \<and>
    (r = None \<longleftrightarrow> (\<forall>ldr \<in> set (bt_plugin_loaders b). \<forall>f \<in> set (candidates ldr name). ld_open ldr name f = None))"
  using search_loop_eq [OF assms, of name]
  by (simp add: irc_bot_plugin_search_def option.map_comp comp_def first_some_None)

definition demo_loader :: "unit irc_plugin_loader" where
  "demo_loader = \<lparr>ld_paths = Some ''/a:/b'', ld_extensions = Some ''js'',
     ld_open = (\<lambda>name path. if path = ''/b/ask.js'' then Some (irc_plugin_init [] () name) else None)\<rparr>"

theorem plugin_search_order_witness:
  "\<forall>dirs. \<exists>r. irc_bot_plugin_search dirs (bot_empty\<lparr>bt_plugin_loaders := [demo_loader]\<rparr>) ''ask'' None = Some r \<and>
     map_option pl_name r = Some ''ask''"
proof
  fix dirs
  have t: "tokens CHR '':'' ''js'' = [''js'']" "tokens CHR '':'' ''/a:/b'' = [''/a'', ''/b'']" by code_simp+
  have f: "first_some (\<lambda>ldr. first_some (ld_open ldr ''ask'') (candidates ldr ''ask'')) [demo_loader] =
      Some (irc_plugin_init [] () ''ask'')"
    by (simp add: demo_loader_def candidates_def t fit_def PATH_MAX_def)
  have "\<forall>ldr \<in> set (bt_plugin_loaders (bot_empty\<lparr>bt_plugin_loaders := [demo_loader]\<rparr>)).
      \<forall>es. ld_extensions ldr = Some es \<longrightarrow> tokens CHR '':'' es \<noteq> []"
    by (simp add: demo_loader_def t)
  from plugin_search_order [OF this, of dirs "''ask''"] f
  show "\<exists>r. irc_bot_plugin_search dirs (bot_empty\<lparr>bt_plugin_loaders := [demo_loader]\<rparr>) ''ask'' None = Some r \<and>
     map_option pl_name r = Some ''ask''"
    by (auto simp: irc_plugin_init_def)
qed

end
