(* ===== verification/Peer.thy ===== *)
theory Peer
  imports Bot
begin

text \<open>
  The control protocol of the daemon (\<open>irccd/peer.c\<close>, \<open>peer.h\<close>): a client sends lines, each
  the name of a command and its arguments, and reads the replies.

  A command gets the bot, which is global in the code, with the client.  What it does is
  recorded in order: the texts given to \<open>peer_push\<close>, each sent with a newline, and the
  actions of the events it dispatched.  The result of a command is the error it returns,
  \<open>None\<close> for 0; an execution that is undefined in C has no result.
\<close>

section \<open>State\<close>

datatype effect = Reply string | Act act

record 's peer =
  pr_irccd :: "'s irccd"
  pr_is_watching :: bool
  pr_log :: "effect list"

text \<open>
  The C library and the build: the texts of \<open>strerror\<close>, the value \<open>errno\<close> has after a
  failed search of a plugin, whether a stream over a buffer of \<open>n\<close> bytes reports an error
  for a text before it is closed, the directories and \<open>IRCCD_WITH_SSL\<close>.
\<close>

record peer_env =
  strerror :: "errno \<Rightarrow> string"
  search_errno :: errno
  stream_error :: "nat \<Rightarrow> string \<Rightarrow> bool"
  dirs :: build_dirs
  with_ssl :: bool

type_synonym 's outcome = "(errno option \<times> 's peer) option"

definition IRC_BUF_LEN :: nat where "IRC_BUF_LEN = 512"

definition peer_new :: "'s irccd \<Rightarrow> 's peer" where
  "peer_new irccd = \<lparr>pr_irccd = irccd, pr_is_watching = False, pr_log = []\<rparr>"

definition peer_push :: "'s peer \<Rightarrow> string \<Rightarrow> 's peer" where
  "peer_push p s = p\<lparr>pr_log := pr_log p @ [Reply s]\<rparr>"

definition ran :: "'s peer \<Rightarrow> act list \<Rightarrow> 's irccd \<Rightarrow> 's peer" where
  "ran p as irccd = p\<lparr>pr_log := pr_log p @ map Act as, pr_irccd := irccd\<rparr>"

section \<open>Arguments and replies\<close>

text \<open>The command is everything up to the first blank.\<close>

definition after_word :: "string \<Rightarrow> string" where
  "after_word line = (case dropWhile (\<lambda>c. \<not> is_space c) line of [] \<Rightarrow> [] | _ # r \<Rightarrow> r)"

definition parse :: "string \<Rightarrow> nat \<Rightarrow> string list" where
  "parse line mx = irc_util_split (after_word line) mx CHR '' ''"

definition returns :: "errno \<Rightarrow> 's peer \<Rightarrow> 's outcome" where
  "returns er p = Some (Some er, p)"

definition replies :: "string \<Rightarrow> 's peer \<Rightarrow> 's outcome" where
  "replies s p = Some (None, peer_push p s)"

definition reply_ok :: "'s peer \<Rightarrow> 's outcome" where
  "reply_ok p = replies ''OK'' p"

definition reply_error :: "string \<Rightarrow> 's peer \<Rightarrow> 's outcome" where
  "reply_error s p =
     (if fit IRC_BUF_LEN s \<noteq> [] then replies (''ERROR '' @ fit IRC_BUF_LEN s) p else Some (None, p))"

definition require_server ::
  "'s peer \<Rightarrow> string \<Rightarrow> (irc_server \<Rightarrow> 's outcome) \<Rightarrow> 's outcome" where
  "require_server p name f =
     (case irc_bot_server_get (pr_irccd p) name of
        None \<Rightarrow> replies (''server '' @ name @ '' not found'') p
      | Some s \<Rightarrow> f s)"

definition require_plugin ::
  "'s peer \<Rightarrow> string \<Rightarrow> ('s irc_plugin \<Rightarrow> 's outcome) \<Rightarrow> 's outcome" where
  "require_plugin p name f =
     (case irc_bot_plugin_get (pr_irccd p) name of
        None \<Rightarrow> replies (''plugin '' @ name @ '' not found'') p
      | Some plg \<Rightarrow> f plg)"

text \<open>The object a search returned is changed in place.\<close>

definition on_server :: "'s peer \<Rightarrow> string \<Rightarrow> irc_server \<Rightarrow> 's peer" where
  "on_server p name s =
     p\<lparr>pr_irccd := (pr_irccd p)\<lparr>bt_servers :=
       update_first (\<lambda>x. sv_name x = name) (\<lambda>_. s) (bt_servers (pr_irccd p))\<rparr>\<rparr>"

definition on_plugin :: "'s peer \<Rightarrow> string \<Rightarrow> 's irc_plugin \<Rightarrow> 's peer" where
  "on_plugin p name plg =
     p\<lparr>pr_irccd := (pr_irccd p)\<lparr>bt_plugins :=
       update_first (\<lambda>x. pl_name x = name) (\<lambda>_. plg) (bt_plugins (pr_irccd p))\<rparr>\<rparr>"

text \<open>
  A text written through \<open>fmemopen\<close> on \<open>n\<close> bytes: closing the stream puts the terminator
  behind the text or on the last byte.
\<close>

definition fmem :: "nat \<Rightarrow> string \<Rightarrow> string" where
  "fmem n s = fit n s"

section \<open>Hooks\<close>

definition cmd_hook_add :: "'s peer \<Rightarrow> string \<Rightarrow> 's outcome" where
  "cmd_hook_add p line =
     (case parse line 2 of
        [name, path] \<Rightarrow>
          if irc_bot_hook_get (pr_irccd p) name \<noteq> None then returns EEXIST p
          else reply_ok (case irc_bot_hook_add (pr_irccd p) (irc_hook_new name path) of
                           Some b \<Rightarrow> p\<lparr>pr_irccd := b\<rparr> | None \<Rightarrow> p)
      | _ \<Rightarrow> returns EINVAL p)"

definition cmd_hook_list :: "'s peer \<Rightarrow> string \<Rightarrow> 's outcome" where
  "cmd_hook_list p line =
     replies (fmem (IRC_BUF_LEN - 1)
       (''OK '' @ join_with CHR '' '' (map hk_name (bt_hooks (pr_irccd p))))) p"

definition cmd_hook_remove :: "'s peer \<Rightarrow> string \<Rightarrow> 's outcome" where
  "cmd_hook_remove p line =
     (case parse line 1 of
        [name] \<Rightarrow> reply_ok (p\<lparr>pr_irccd := irc_bot_hook_remove (pr_irccd p) name\<rparr>)
      | _ \<Rightarrow> returns EINVAL p)"

section \<open>Plugins\<close>

definition plugin_list_set ::
  "('s irc_plugin \<Rightarrow> string \<Rightarrow> string \<Rightarrow> 's irc_plugin) \<Rightarrow> ('s irc_plugin \<Rightarrow> string \<Rightarrow> string option) \<Rightarrow>
     ('s irc_plugin \<Rightarrow> string list option) \<Rightarrow> 's peer \<Rightarrow> string \<Rightarrow> 's outcome" where
  "plugin_list_set set_fn get_fn list_fn p line =
     (case parse line 3 of
        [] \<Rightarrow> returns EINVAL p
      | name # rest \<Rightarrow>
          require_plugin p name (\<lambda>plg.
            case rest of
              key # value # _ \<Rightarrow> replies ''OK'' (on_plugin p name (set_fn plg key value))
            | [key] \<Rightarrow>
                replies (fmem (IRC_BUF_LEN - 1)
                  (case get_fn plg key of
                     Some value \<Rightarrow> ''OK 1'' @ [LF] @ value | None \<Rightarrow> ''ERROR key not found'')) p
            | [] \<Rightarrow>
                let keys = (case list_fn plg of None \<Rightarrow> [] | Some ks \<Rightarrow> ks) in
                replies (fmem (IRC_BUF_LEN - 1)
                  (''OK '' @ show_nat (length keys) @ [LF] @
                   concat (map (\<lambda>k. k @ ''='' @ (case get_fn plg k of None \<Rightarrow> [] | Some v \<Rightarrow> v) @ [LF]) keys))) p))"

definition cmd_plugin_config :: "'s peer \<Rightarrow> string \<Rightarrow> 's outcome" where
  "cmd_plugin_config = plugin_list_set irc_plugin_set_option irc_plugin_get_option irc_plugin_get_options"

definition cmd_plugin_path :: "'s peer \<Rightarrow> string \<Rightarrow> 's outcome" where
  "cmd_plugin_path = plugin_list_set irc_plugin_set_path irc_plugin_get_path irc_plugin_get_paths"

definition cmd_plugin_template :: "'s peer \<Rightarrow> string \<Rightarrow> 's outcome" where
  "cmd_plugin_template =
     plugin_list_set irc_plugin_set_template irc_plugin_get_template irc_plugin_get_templates"

definition cmd_plugin_info :: "'s peer \<Rightarrow> string \<Rightarrow> 's outcome" where
  "cmd_plugin_info p line =
     (case parse line 1 of
        [name] \<Rightarrow> require_plugin p name (\<lambda>plg.
          replies (''OK '' @ pl_name plg @ [LF] @ pl_description plg @ [LF] @ pl_version plg @ [LF] @
            pl_license plg @ [LF] @ pl_author plg) p)
      | _ \<Rightarrow> returns EINVAL p)"

text \<open>A plugin that cannot be found is reported, and the command succeeds all the same.\<close>

definition cmd_plugin_load :: "peer_env \<Rightarrow> 's peer \<Rightarrow> string \<Rightarrow> 's outcome" where
  "cmd_plugin_load env p line =
     (case parse line 1 of
        [name] \<Rightarrow>
          irc_bot_plugin_search (dirs env) (pr_irccd p) name None \<bind> (\<lambda>found.
            reply_ok (case found of
              None \<Rightarrow> peer_push p (''could not load plugin: '' @ strerror env (search_errno env))
            | Some plg \<Rightarrow> p\<lparr>pr_irccd := snd (irc_bot_plugin_add (pr_irccd p) plg)\<rparr>))
      | _ \<Rightarrow> returns EINVAL p)"

definition cmd_plugin_list :: "'s peer \<Rightarrow> string \<Rightarrow> 's outcome" where
  "cmd_plugin_list p line =
     replies (fmem (IRC_BUF_LEN - 1)
       (''OK '' @ join_with CHR '' '' (map pl_name (bt_plugins (pr_irccd p))))) p"

definition cmd_plugin_reload :: "peer_env \<Rightarrow> 's peer \<Rightarrow> string \<Rightarrow> 's outcome" where
  "cmd_plugin_reload env p line =
     (case parse line 1 of
        [name] \<Rightarrow>
          (case irc_bot_plugin_get (pr_irccd p) name of
             None \<Rightarrow> replies (''could not reload plugin: '' @ strerror env ENOENT) p
           | Some plg \<Rightarrow> reply_ok (on_plugin p name (irc_plugin_reload plg)))
      | _ \<Rightarrow> reply_ok (p\<lparr>pr_irccd := (pr_irccd p)\<lparr>bt_plugins :=
               map irc_plugin_reload (bt_plugins (pr_irccd p))\<rparr>\<rparr>))"

definition cmd_plugin_unload :: "'s peer \<Rightarrow> string \<Rightarrow> 's outcome" where
  "cmd_plugin_unload p line =
     reply_ok (p\<lparr>pr_irccd :=
       (case parse line 1 of
          name # _ \<Rightarrow> irc_bot_plugin_remove (pr_irccd p) name
        | [] \<Rightarrow> irc_bot_plugin_clear (pr_irccd p))\<rparr>)"

section \<open>Rules\<close>

text \<open>
  The pieces that \<open>strtok_r\<close> returns, each with the text that follows its delimiter; there
  is none after a piece that ends with the line.
\<close>

lemma split_at_rest_less: "split_at d (dropWhile P s) = (a, Some r) \<Longrightarrow> length r < length s"
  by (metis split_at_length length_dropWhile_le less_le_trans)

function pieces :: "string \<Rightarrow> (string \<times> string option) list" where
  "pieces s =
     (let t = dropWhile (\<lambda>c. c = CHR '' '') s
      in if t = [] then []
         else case split_at CHR '' '' t of
                (a, Some r) \<Rightarrow> (a, Some r) # pieces r
              | (a, None) \<Rightarrow> [(a, None)])"
  by pat_completeness auto
termination
  by (relation "measure length") (simp, metis in_measure split_at_rest_less)

declare pieces.simps [simp del]

text \<open>
  \<open>token + 2\<close>: behind the terminator of a token of one byte, that is, in the rest of the
  line, or outside of the line for the last token.
\<close>

definition token_value :: "string \<times> string option \<Rightarrow> string option" where
  "token_value t = (case fst t of _ # _ # v \<Rightarrow> Some v | [_] \<Rightarrow> snd t | [] \<Rightarrow> None)"

definition skip_word :: "string \<Rightarrow> string" where
  "skip_word s = dropWhile is_space (dropWhile (\<lambda>c. \<not> is_space c) s)"

definition parse_action :: "string \<Rightarrow> rule_action option" where
  "parse_action s =
     (if strneq s ''accept'' 6 then Some Rule_Accept
      else if strneq s ''drop'' 4 then Some Rule_Drop else None)"

definition rule_adders :: "(char \<times> (irc_rule \<Rightarrow> string \<Rightarrow> irc_rule)) list" where
  "rule_adders = [(CHR ''c'', irc_rule_add_channel), (CHR ''e'', irc_rule_add_event),
     (CHR ''o'', irc_rule_add_origin), (CHR ''p'', irc_rule_add_plugin), (CHR ''s'', irc_rule_add_server)]"

definition rule_removers :: "(char \<times> (irc_rule \<Rightarrow> string \<Rightarrow> irc_rule)) list" where
  "rule_removers = [(CHR ''c'', irc_rule_remove_channel), (CHR ''e'', irc_rule_remove_event),
     (CHR ''o'', irc_rule_remove_origin), (CHR ''p'', irc_rule_remove_plugin), (CHR ''s'', irc_rule_remove_server)]"

text \<open>
  The loop of \<open>RULE-ADD\<close>.  The pointer \<open>add\<close> is not initialised (\<open>None\<close>) and is not reset
  for an index, which is then also added to the criterion before it.
\<close>

type_synonym adder = "(irc_rule \<Rightarrow> string \<Rightarrow> irc_rule) option"

fun rule_add_loop ::
  "irc_rule \<Rightarrow> int \<Rightarrow> adder option \<Rightarrow> (string \<times> string option) list \<Rightarrow> (errno + irc_rule \<times> int) option" where
  "rule_add_loop rule index add [] = Some (Inr (rule, index))"
| "rule_add_loop rule index add (t # ts) =
     (let proceed = (\<lambda>index add.
            case add of
              None \<Rightarrow> None
            | Some None \<Rightarrow> rule_add_loop rule index add ts
            | Some (Some f) \<Rightarrow> token_value t \<bind> (\<lambda>v. rule_add_loop (f rule v) index add ts))
      in if hd (fst t) = CHR ''i''
         then token_value t \<bind> (\<lambda>v.
                case irc_util_stoi v of Inl e \<Rightarrow> Some (Inl e) | Inr i \<Rightarrow> proceed i add)
         else proceed index (Some (map_of rule_adders (hd (fst t)))))"

definition size_of_llong :: "int \<Rightarrow> nat" where
  "size_of_llong i = nat (i mod 2 ^ 64)"

text \<open>\<open>sscanf (line, "RULE-ADD %*s") == EOF\<close>: the line ends before the word.\<close>

definition rule_add_eof :: "string \<Rightarrow> bool" where
  "rule_add_eof line =
     (if take 8 line = ''RULE-ADD'' then dropWhile is_space (drop 8 line) = []
      else line = take (length line) ''RULE-ADD'')"

definition cmd_rule_add :: "peer_env \<Rightarrow> 's peer \<Rightarrow> string \<Rightarrow> 's outcome" where
  "cmd_rule_add env p line =
     (if rule_add_eof line then returns EINVAL p
      else if length line < 9 then None
      else case parse_action (drop 9 line) of
             None \<Rightarrow> reply_error ''invalid action'' p
           | Some a \<Rightarrow>
               rule_add_loop (irc_rule_new a) (-1) None (pieces (skip_word (drop 9 line))) \<bind> (\<lambda>res.
                 case res of
                   Inl e \<Rightarrow> reply_error (strerror env e) p
                 | Inr (rule, index) \<Rightarrow>
                     reply_ok (p\<lparr>pr_irccd := irc_bot_rule_insert (pr_irccd p) rule (size_of_llong index)\<rparr>)))"

text \<open>
  \<open>%zu\<close> reads a number as \<open>strtoul\<close> does, a sign included; a value that does not fit is
  undefined.
\<close>

definition sscanf_size :: "string \<Rightarrow> string \<Rightarrow> nat option option" where
  "sscanf_size word line =
     (if take (length word) line = word
      then case read_int (drop (length word) line) of
             None \<Rightarrow> Some None
           | Some (v, _) \<Rightarrow> if \<bar>v\<bar> < 2 ^ 64 then Some (Some (nat (v mod 2 ^ 64))) else None
      else Some None)"

text \<open>What ends the loop of \<open>RULE-EDIT\<close>; the rule is edited in place, token by token.\<close>

datatype edit_end = Edit_done | Edit_errno errno | Edit_action

fun rule_edit_loop :: "irc_rule \<Rightarrow> string list \<Rightarrow> irc_rule \<times> edit_end" where
  "rule_edit_loop rule [] = (rule, Edit_done)"
| "rule_edit_loop rule (t # ts) =
     (case t of
        key # attr # v \<Rightarrow>
          if key = CHR ''a'' then
            if attr \<noteq> CHR ''='' then (rule, Edit_errno EINVAL)
            else (case parse_action v of
                    None \<Rightarrow> (rule, Edit_action)
                  | Some a \<Rightarrow> rule_edit_loop (rule\<lparr>r_action := a\<rparr>) ts)
          else (case (map_of rule_adders key, map_of rule_removers key) of
                  (Some add, Some remove) \<Rightarrow>
                    if attr = CHR ''+'' then rule_edit_loop (add rule v) ts
                    else if attr = CHR ''-'' then rule_edit_loop (remove rule v) ts
                    else (rule, Edit_errno EINVAL)
                | _ \<Rightarrow> (rule, Edit_errno EINVAL))
      | _ \<Rightarrow> (rule, Edit_errno EINVAL))"

definition cmd_rule_edit :: "'s peer \<Rightarrow> string \<Rightarrow> 's outcome" where
  "cmd_rule_edit p line =
     sscanf_size ''RULE-EDIT'' line \<bind> (\<lambda>scanned.
       case scanned of
         None \<Rightarrow> returns EINVAL p
       | Some index \<Rightarrow>
           if irc_bot_rule_size (pr_irccd p) \<le> index then returns ERANGE p
           else if length line < 10 then None
           else irc_bot_rule_get (pr_irccd p) index \<bind> (\<lambda>rule.
             case rule_edit_loop rule (tokens CHR '' '' (skip_word (drop 10 line))) of
               (rule', fin) \<Rightarrow>
                 let p' = p\<lparr>pr_irccd := (pr_irccd p)\<lparr>bt_rules := (bt_rules (pr_irccd p))[index := rule']\<rparr>\<rparr> in
                 (case fin of
                    Edit_done \<Rightarrow> reply_ok p'
                  | Edit_errno e \<Rightarrow> returns e p'
                  | Edit_action \<Rightarrow> reply_error ''invalid action'' p')))"

definition rule_list_to_string :: "string list option \<Rightarrow> string" where
  "rule_list_to_string values =
     (case values of None \<Rightarrow> [] | Some vs \<Rightarrow> join_with CHR '' '' vs) @ [LF]"

definition rule_text :: "irc_rule \<Rightarrow> string" where
  "rule_text r =
     (if r_action r = Rule_Accept then ''accept'' else ''drop'') @ [LF] @
     rule_list_to_string (r_servers r) @ rule_list_to_string (r_channels r) @
     rule_list_to_string (r_origins r) @ rule_list_to_string (r_plugins r) @
     rule_list_to_string (r_events r)"

definition cmd_rule_list :: "peer_env \<Rightarrow> 's peer \<Rightarrow> string \<Rightarrow> 's outcome" where
  "cmd_rule_list env p line =
     (let out = ''OK '' @ show_nat (length (bt_rules (pr_irccd p))) @ [LF] @
            concat (map rule_text (bt_rules (pr_irccd p)))
      in if stream_error env IRC_BUF_LEN out then returns EMSGSIZE p
         else replies (fmem IRC_BUF_LEN out) p)"

text \<open>An index that is not a number, or is negative.\<close>

definition read_index :: "string \<Rightarrow> nat option" where
  "read_index s = (case irc_util_stoi s of Inl _ \<Rightarrow> None | Inr i \<Rightarrow> if i < 0 then None else Some (nat i))"

definition cmd_rule_move :: "'s peer \<Rightarrow> string \<Rightarrow> 's outcome" where
  "cmd_rule_move p line =
     (case parse line 2 of
        [a, b] \<Rightarrow>
          (case (read_index a, read_index b) of
             (Some i, Some j) \<Rightarrow>
               if irc_bot_rule_size (pr_irccd p) \<le> i then returns ERANGE p
               else irc_bot_rule_move (pr_irccd p) i j \<bind> (\<lambda>bot. reply_ok (p\<lparr>pr_irccd := bot\<rparr>))
           | _ \<Rightarrow> returns ERANGE p)
      | _ \<Rightarrow> returns EINVAL p)"

definition cmd_rule_remove :: "'s peer \<Rightarrow> string \<Rightarrow> 's outcome" where
  "cmd_rule_remove p line =
     (case parse line 1 of
        [a] \<Rightarrow>
          (case read_index a of
             None \<Rightarrow> returns ERANGE p
           | Some i \<Rightarrow>
               if irc_bot_rule_size (pr_irccd p) \<le> i then returns ERANGE p
               else irc_bot_rule_remove (pr_irccd p) i \<bind> (\<lambda>bot. reply_ok (p\<lparr>pr_irccd := bot\<rparr>)))
      | _ \<Rightarrow> returns EINVAL p)"

section \<open>Servers\<close>

definition cmd_server_connect :: "peer_env \<Rightarrow> 's peer \<Rightarrow> string \<Rightarrow> 's outcome" where
  "cmd_server_connect env p line =
     (case parse line 6 of
        [name, addr, port, nick, user, rname] \<Rightarrow>
          if irc_bot_server_get (pr_irccd p) name \<noteq> None then returns EEXIST p
          else do {
            s1 \<leftarrow> irc_server_set_hostname (irc_server_new name) (Some addr);
            n \<leftarrow> atoi port;
            s2 \<leftarrow> irc_server_set_port s1 (word_of_int n);
            s3 \<leftarrow> irc_server_set_username (irc_server_set_nickname s2 nick) user;
            s4 \<leftarrow> irc_server_set_realname s3 rname;
            (_, bot) \<leftarrow> irc_bot_server_add (with_ssl env) (pr_irccd p)
               (if port \<noteq> [] \<and> hd port = CHR ''+''
                then irc_server_set_flags s4 (sv_flags s4 OR IRC_SERVER_FLAGS_SSL) else s4);
            reply_ok (p\<lparr>pr_irccd := bot\<rparr>)
          }
      | _ \<Rightarrow> returns EINVAL p)"

definition cmd_server_disconnect :: "'s peer \<Rightarrow> string \<Rightarrow> 's outcome" where
  "cmd_server_disconnect p line =
     (case parse line 1 of
        [name] \<Rightarrow> require_server p name (\<lambda>s. reply_ok (on_server p name (irc_server_disconnect s)))
      | _ \<Rightarrow> irc_bot_server_clear (pr_irccd p) \<bind> (\<lambda>(as, bot). reply_ok (ran p as bot)))"

text \<open>
  The commands that send something: \<open>f\<close> is the function of the server and its result is
  ignored.
\<close>

definition server_command :: "'s peer \<Rightarrow> string \<Rightarrow> (irc_server \<Rightarrow> sent \<times> irc_server) \<Rightarrow> 's outcome" where
  "server_command p name f = require_server p name (\<lambda>s. reply_ok (on_server p name (snd (f s))))"

definition cmd_server_message :: "'s peer \<Rightarrow> string \<Rightarrow> 's outcome" where
  "cmd_server_message p line =
     (case parse line 3 of
        [name, ch, msg] \<Rightarrow> server_command p name (\<lambda>s. irc_server_message s ch msg)
      | _ \<Rightarrow> returns EINVAL p)"

definition cmd_server_me :: "'s peer \<Rightarrow> string \<Rightarrow> 's outcome" where
  "cmd_server_me p line =
     (case parse line 3 of
        [name, ch, msg] \<Rightarrow> server_command p name (\<lambda>s. irc_server_me s ch msg)
      | _ \<Rightarrow> returns EINVAL p)"

definition cmd_server_mode :: "'s peer \<Rightarrow> string \<Rightarrow> 's outcome" where
  "cmd_server_mode p line =
     (case parse line 4 of
        name # ch # mode # args \<Rightarrow>
          server_command p name (\<lambda>s. irc_server_mode s ch mode (case args of [] \<Rightarrow> None | a # _ \<Rightarrow> Some a))
      | _ \<Rightarrow> returns EINVAL p)"

definition cmd_server_notice :: "'s peer \<Rightarrow> string \<Rightarrow> 's outcome" where
  "cmd_server_notice p line =
     (case parse line 3 of
        [name, ch, msg] \<Rightarrow> server_command p name (\<lambda>s. irc_server_notice s ch msg)
      | _ \<Rightarrow> returns EINVAL p)"

definition cmd_server_invite :: "'s peer \<Rightarrow> string \<Rightarrow> 's outcome" where
  "cmd_server_invite p line =
     (case parse line 3 of
        [name, ch, target] \<Rightarrow> server_command p name (\<lambda>s. irc_server_invite s ch target)
      | _ \<Rightarrow> returns EINVAL p)"

definition cmd_server_join :: "'s peer \<Rightarrow> string \<Rightarrow> 's outcome" where
  "cmd_server_join p line =
     (case parse line 3 of
        name # ch # args \<Rightarrow>
          server_command p name (\<lambda>s. irc_server_join s ch (case args of [] \<Rightarrow> None | a # _ \<Rightarrow> Some a))
      | _ \<Rightarrow> returns EINVAL p)"

text \<open>A missing reason is read through a NULL pointer, after the server has been found.\<close>

definition nonempty :: "string \<Rightarrow> string option" where
  "nonempty s = (if s = [] then None else Some s)"

definition cmd_server_kick :: "'s peer \<Rightarrow> string \<Rightarrow> 's outcome" where
  "cmd_server_kick p line =
     (case parse line 4 of
        name # ch # target # args \<Rightarrow>
          require_server p name (\<lambda>_. case args of
             [] \<Rightarrow> None
           | reason # _ \<Rightarrow> server_command p name (\<lambda>s. irc_server_kick s ch target (nonempty reason)))
      | _ \<Rightarrow> returns EINVAL p)"

definition cmd_server_part :: "'s peer \<Rightarrow> string \<Rightarrow> 's outcome" where
  "cmd_server_part p line =
     (case parse line 3 of
        name # ch # args \<Rightarrow>
          require_server p name (\<lambda>_. case args of
             [] \<Rightarrow> None
           | reason # _ \<Rightarrow> server_command p name (\<lambda>s. irc_server_part s ch (nonempty reason)))
      | _ \<Rightarrow> returns EINVAL p)"

definition cmd_server_topic :: "'s peer \<Rightarrow> string \<Rightarrow> 's outcome" where
  "cmd_server_topic p line =
     (case parse line 3 of
        [name, ch, topic] \<Rightarrow> server_command p name (\<lambda>s. irc_server_topic s ch topic)
      | _ \<Rightarrow> returns EINVAL p)"

text \<open>The modes of the bot on the channel are shown as their symbols.\<close>

fun own_symbols :: "irc_server_umode list \<Rightarrow> nat \<Rightarrow> c_int \<Rightarrow> string" where
  "own_symbols [] i modes = []"
| "own_symbols (p # ps) i modes =
     (if modes AND push_bit i 1 \<noteq> 0 then um_symbol p # own_symbols ps (Suc i) modes
      else own_symbols ps (Suc i) modes)"

definition channel_text :: "irc_server \<Rightarrow> string \<Rightarrow> irc_channel \<Rightarrow> string" where
  "channel_text s nick c =
     (case irc_channel_get c nick of None \<Rightarrow> [] | Some u \<Rightarrow> own_symbols (sv_prefixes s) 0 (u_modes u)) @
     (if ch_flags c AND IRC_CHANNEL_FLAGS_JOINED \<noteq> 0 then ch_name c else ''('' @ ch_name c @ '')'')"

text \<open>Printing a name that is NULL is undefined.\<close>

definition cmd_server_info :: "'s peer \<Rightarrow> string \<Rightarrow> 's outcome" where
  "cmd_server_info p line =
     (case parse line 1 of
        [name] \<Rightarrow> require_server p name (\<lambda>s. do {
          hname \<leftarrow> sv_hostname s;
          nick \<leftarrow> sv_nickname s;
          user \<leftarrow> sv_username s;
          rname \<leftarrow> sv_realname s;
          replies (fmem (IRC_BUF_LEN - 1)
            (''OK '' @ sv_name s @ [LF] @
             hname @ '' '' @ show_nat (unat (sv_port s)) @
             (if sv_flags s AND IRC_SERVER_FLAGS_SSL \<noteq> 0 then '' ssl'' else []) @ [LF] @
             nick @ '' '' @ user @ '' '' @ rname @ [LF] @
             join_with CHR '' '' (map (channel_text s nick) (sv_channels s)))) p
        })
      | _ \<Rightarrow> returns EINVAL p)"

definition cmd_server_list :: "'s peer \<Rightarrow> string \<Rightarrow> 's outcome" where
  "cmd_server_list p line =
     replies (fmem IRC_BUF_LEN
       (''OK '' @ join_with CHR '' '' (map sv_name (bt_servers (pr_irccd p))))) p"

fun reconnect_all :: "bool \<Rightarrow> irc_server list \<Rightarrow> irc_server list option" where
  "reconnect_all ssl [] = Some []"
| "reconnect_all ssl (s # ss) =
     do { s' \<leftarrow> irc_server_reconnect ssl s; ss' \<leftarrow> reconnect_all ssl ss; Some (s' # ss') }"

definition cmd_server_reconnect :: "peer_env \<Rightarrow> 's peer \<Rightarrow> string \<Rightarrow> 's outcome" where
  "cmd_server_reconnect env p line =
     (case parse line 1 of
        [name] \<Rightarrow> require_server p name (\<lambda>s.
          irc_server_reconnect (with_ssl env) s \<bind> (\<lambda>s'. reply_ok (on_server p name s')))
      | _ \<Rightarrow> reconnect_all (with_ssl env) (bt_servers (pr_irccd p)) \<bind> (\<lambda>ss.
          reply_ok (p\<lparr>pr_irccd := (pr_irccd p)\<lparr>bt_servers := ss\<rparr>\<rparr>)))"

definition cmd_watch :: "'s peer \<Rightarrow> string \<Rightarrow> 's outcome" where
  "cmd_watch p line = reply_ok (p\<lparr>pr_is_watching := True\<rparr>)"

section \<open>Dispatch of a line\<close>

definition cmds :: "peer_env \<Rightarrow> (string \<times> ('s peer \<Rightarrow> string \<Rightarrow> 's outcome)) list" where
  "cmds env =
     [(''HOOK-ADD'', cmd_hook_add),
      (''HOOK-LIST'', cmd_hook_list),
      (''HOOK-REMOVE'', cmd_hook_remove),
      (''PLUGIN-CONFIG'', cmd_plugin_config),
      (''PLUGIN-INFO'', cmd_plugin_info),
      (''PLUGIN-LIST'', cmd_plugin_list),
      (''PLUGIN-LOAD'', cmd_plugin_load env),
      (''PLUGIN-PATH'', cmd_plugin_path),
      (''PLUGIN-RELOAD'', cmd_plugin_reload env),
      (''PLUGIN-TEMPLATE'', cmd_plugin_template),
      (''PLUGIN-UNLOAD'', cmd_plugin_unload),
      (''RULE-ADD'', cmd_rule_add env),
      (''RULE-EDIT'', cmd_rule_edit),
      (''RULE-LIST'', cmd_rule_list env),
      (''RULE-MOVE'', cmd_rule_move),
      (''RULE-REMOVE'', cmd_rule_remove),
      (''SERVER-CONNECT'', cmd_server_connect env),
      (''SERVER-DISCONNECT'', cmd_server_disconnect),
      (''SERVER-INFO'', cmd_server_info),
      (''SERVER-INVITE'', cmd_server_invite),
      (''SERVER-JOIN'', cmd_server_join),
      (''SERVER-KICK'', cmd_server_kick),
      (''SERVER-LIST'', cmd_server_list),
      (''SERVER-ME'', cmd_server_me),
      (''SERVER-MESSAGE'', cmd_server_message),
      (''SERVER-MODE'', cmd_server_mode),
      (''SERVER-NOTICE'', cmd_server_notice),
      (''SERVER-PART'', cmd_server_part),
      (''SERVER-RECONNECT'', cmd_server_reconnect env),
      (''SERVER-TOPIC'', cmd_server_topic),
      (''WATCH'', cmd_watch)]"

text \<open>The first word of the line, of at most 31 bytes.\<close>

definition first_word :: "string \<Rightarrow> string" where
  "first_word line = (case scan_word 31 line of None \<Rightarrow> [] | Some (w, _) \<Rightarrow> w)"

definition find_cmd :: "peer_env \<Rightarrow> string \<Rightarrow> ('s peer \<Rightarrow> string \<Rightarrow> 's outcome) option" where
  "find_cmd env line = bsearch (first_word line) (cmds env) 0 (length (cmds env :: (string \<times> ('s peer \<Rightarrow> string \<Rightarrow> 's outcome)) list))"

definition invoke :: "peer_env \<Rightarrow> 's peer \<Rightarrow> string \<Rightarrow> 's peer option" where
  "invoke env p line =
     (case find_cmd env line of
        None \<Rightarrow> Some (peer_push p ''command not found'')
      | Some c \<Rightarrow>
          map_option (\<lambda>(rc, p'). case rc of None \<Rightarrow> p' | Some er \<Rightarrow> peer_push p' (strerror env er)) (c p line))"

text \<open>
  The lines that are complete in the input are served and drained, the rest is kept.  A
  line is a C string: it ends at its first NUL.
\<close>

function serve :: "peer_env \<Rightarrow> 's peer \<Rightarrow> string \<Rightarrow> ('s peer \<times> string) option" where
  "serve env p input =
     (case split_at LF input of
        (_, None) \<Rightarrow> Some (p, input)
      | (line, Some rest) \<Rightarrow>
          if line = [] then serve env p rest
          else invoke env p (takeWhile (\<lambda>c. c \<noteq> NUL) line) \<bind> (\<lambda>p'. serve env p' rest))"
  by pat_completeness auto
termination
  by (relation "measure (\<lambda>(_, _, input). length input)") (simp_all, (metis split_at_length)+)

declare serve.simps [simp del]

text \<open>The greeting of a new client, then its input as it arrives.\<close>

definition peer_hello :: "nat \<Rightarrow> nat \<Rightarrow> nat \<Rightarrow> 's peer \<Rightarrow> 's peer" where
  "peer_hello major minor patch p =
     peer_push p (''IRCCD '' @ show_nat major @ ''.'' @ show_nat minor @ ''.'' @ show_nat patch)"

fun serve_all :: "peer_env \<Rightarrow> 's peer \<Rightarrow> string \<Rightarrow> string list \<Rightarrow> ('s peer \<times> string) option" where
  "serve_all env p input [] = Some (p, input)"
| "serve_all env p input (c # cs) =
     serve env p (input @ c) \<bind> (\<lambda>(p', rest). serve_all env p' rest cs)"

end
