(* ===== verification/Peer_Facts.thy ===== *)
theory Peer_Facts
  imports Peer
begin

text \<open>
  What the control protocol guarantees: every line is answered, the invariant of the bot
  is kept, packets do not matter, and what the commands on rules, plugins and servers do.
\<close>

section \<open>Reasoning on outcomes\<close>

text \<open>
  \<open>outcome P out\<close>: when the command has a result, the code it returns and the client
  satisfy \<open>P\<close>.  The rules are a weakest precondition calculus for the commands.
\<close>

definition outcome :: "(errno option \<Rightarrow> 's peer \<Rightarrow> bool) \<Rightarrow> 's outcome \<Rightarrow> bool" where
  "outcome P out = (\<forall>rc p. out = Some (rc, p) \<longrightarrow> P rc p)"

named_theorems wp \<open>weakest preconditions of the replies\<close>

lemma outcome_None [wp]: "outcome P None"
  by (simp add: outcome_def)

lemma outcome_Some [wp]: "outcome P (Some (rc, p)) = P rc p"
  by (simp add: outcome_def)

lemma outcome_returns [wp]: "outcome P (returns e p) = P (Some e) p"
  by (simp add: outcome_def returns_def)

lemma outcome_replies [wp]: "outcome P (replies s p) = P None (peer_push p s)"
  by (simp add: outcome_def replies_def)

lemma outcome_ok [wp]: "outcome P (reply_ok p) = P None (peer_push p ''OK'')"
  by (simp add: outcome_def replies_def reply_ok_def)

lemma outcome_bind [wp]: "outcome P (m \<bind> f) = (\<forall>x. m = Some x \<longrightarrow> outcome P (f x))"
  by (cases m) (simp_all add: outcome_def)

lemma outcome_server [wp]:
  "outcome P (require_server p name f) =
     (case irc_bot_server_get (pr_irccd p) name of
        None \<Rightarrow> P None (peer_push p (''server '' @ name @ '' not found''))
      | Some s \<Rightarrow> outcome P (f s))"
  by (simp add: require_server_def wp split: option.split)

lemma outcome_plugin [wp]:
  "outcome P (require_plugin p name f) =
     (case irc_bot_plugin_get (pr_irccd p) name of
        None \<Rightarrow> P None (peer_push p (''plugin '' @ name @ '' not found''))
      | Some plg \<Rightarrow> outcome P (f plg))"
  by (simp add: require_plugin_def wp split: option.split)

lemma outcomeD: "outcome P out \<Longrightarrow> out = Some (rc, p) \<Longrightarrow> P rc p"
  by (simp add: outcome_def)

lemma peer_push_simps [simp]:
  "pr_irccd (peer_push p s) = pr_irccd p" "pr_is_watching (peer_push p s) = pr_is_watching p"
  "pr_log (peer_push p s) = pr_log p @ [Reply s]"
  by (simp_all add: peer_push_def)

section \<open>Every command answers once\<close>

text \<open>
  \<open>logged p n rc p'\<close>: since \<open>p\<close> the actions of events were recorded, and then \<open>n\<close> replies
  when the command returned 0 and none otherwise.
\<close>

definition logged :: "'s peer \<Rightarrow> nat set \<Rightarrow> errno option \<Rightarrow> 's peer \<Rightarrow> bool" where
  "logged p n rc p' = (\<exists>as rs. pr_log p' = pr_log p @ map Act as @ map Reply rs \<and>
     (case rc of None \<Rightarrow> length rs \<in> n | Some _ \<Rightarrow> rs = []))"

lemma loggedI0: "pr_log p' = pr_log p \<Longrightarrow> logged p n (Some e) p'"
  unfolding logged_def by (intro exI [of _ "[]"]) simp

lemma loggedI1: "pr_log p' = pr_log p \<Longrightarrow> Suc 0 \<in> n \<Longrightarrow> logged p n None (peer_push p' s)"
  unfolding logged_def by (intro exI [of _ "[]"] exI [of _ "[s]"]) simp

lemma logged_ran: "Suc 0 \<in> n \<Longrightarrow> logged p n None (peer_push (ran p as b) s)"
  unfolding logged_def by (intro exI [of _ as] exI [of _ "[s]"]) (simp add: ran_def)

lemma logged_twice: "Suc (Suc 0) \<in> n \<Longrightarrow> logged p n None (peer_push (peer_push p s) t)"
  unfolding logged_def by (intro exI [of _ "[]"] exI [of _ "[s, t]"]) simp

lemma update_log [simp]:
  "pr_log (on_server p name s) = pr_log p" "pr_log (on_plugin p name plg) = pr_log p"
  by (simp_all add: on_server_def on_plugin_def)

lemma logged_error: "strs \<noteq> [] \<Longrightarrow> pr_log p' = pr_log p \<Longrightarrow> Suc 0 \<in> n \<Longrightarrow> outcome (logged p n) (reply_error strs p')"
  by (cases strs) (simp_all add: reply_error_def wp loggedI1 fit_def IRC_BUF_LEN_def)

lemmas logged_intros = loggedI0 loggedI1 logged_ran logged_twice logged_error

lemma logged_hooks:
  "outcome (logged p {Suc 0}) (cmd_hook_add p line)" "outcome (logged p {Suc 0}) (cmd_hook_list p line)"
  "outcome (logged p {Suc 0}) (cmd_hook_remove p line)"
  by (auto simp: cmd_hook_add_def cmd_hook_list_def cmd_hook_remove_def wp
      intro!: logged_intros split: list.split option.split)

lemma logged_list_set: "outcome (logged p {Suc 0}) (plugin_list_set f g h p line)"
  by (auto simp: plugin_list_set_def wp Let_def intro!: logged_intros split: list.split option.split)

lemma logged_plugins:
  "outcome (logged p {Suc 0}) (cmd_plugin_config p line)" "outcome (logged p {Suc 0}) (cmd_plugin_path p line)"
  "outcome (logged p {Suc 0}) (cmd_plugin_template p line)" "outcome (logged p {Suc 0}) (cmd_plugin_info p line)"
  "outcome (logged p {Suc 0}) (cmd_plugin_list p line)" "outcome (logged p {Suc 0}) (cmd_plugin_reload env p line)"
  "outcome (logged p {Suc 0}) (cmd_plugin_unload p line)" "outcome (logged p {Suc 0, Suc (Suc 0)}) (cmd_plugin_load env p line)"
  by (auto simp: cmd_plugin_config_def cmd_plugin_path_def cmd_plugin_template_def logged_list_set
      cmd_plugin_info_def cmd_plugin_list_def cmd_plugin_reload_def cmd_plugin_unload_def
      cmd_plugin_load_def wp intro!: logged_intros split: list.split option.split)

lemma logged_rules:
  assumes "\<forall>e. strerror env e \<noteq> []"
  shows "outcome (logged p {Suc 0}) (cmd_rule_add env p line)" "outcome (logged p {Suc 0}) (cmd_rule_edit p line)"
    "outcome (logged p {Suc 0}) (cmd_rule_list env p line)" "outcome (logged p {Suc 0}) (cmd_rule_move p line)"
    "outcome (logged p {Suc 0}) (cmd_rule_remove p line)"
  using assms
  by (auto simp: cmd_rule_add_def cmd_rule_edit_def cmd_rule_list_def cmd_rule_move_def
      cmd_rule_remove_def Let_def wp intro!: logged_intros
      split: list.split option.split prod.split edit_end.split sum.split)

lemma logged_command [simp]: "Suc 0 \<in> n \<Longrightarrow> outcome (logged p n) (server_command p name f)"
  by (auto simp: server_command_def wp intro!: logged_intros split: option.split)

lemma logged_servers:
  "outcome (logged p {Suc 0}) (cmd_server_connect env p line)" "outcome (logged p {Suc 0}) (cmd_server_disconnect p line)"
  "outcome (logged p {Suc 0}) (cmd_server_info p line)" "outcome (logged p {Suc 0}) (cmd_server_list p line)"
  "outcome (logged p {Suc 0}) (cmd_server_reconnect env p line)"
  by (auto simp: cmd_server_connect_def cmd_server_disconnect_def cmd_server_info_def
      cmd_server_list_def cmd_server_reconnect_def wp intro!: logged_intros
      split: list.split option.split)

lemma logged_sends:
  "outcome (logged p {Suc 0}) (cmd_server_message p line)" "outcome (logged p {Suc 0}) (cmd_server_me p line)"
  "outcome (logged p {Suc 0}) (cmd_server_mode p line)" "outcome (logged p {Suc 0}) (cmd_server_notice p line)"
  "outcome (logged p {Suc 0}) (cmd_server_invite p line)" "outcome (logged p {Suc 0}) (cmd_server_join p line)"
  "outcome (logged p {Suc 0}) (cmd_server_kick p line)" "outcome (logged p {Suc 0}) (cmd_server_part p line)"
  "outcome (logged p {Suc 0}) (cmd_server_topic p line)" "outcome (logged p {Suc 0}) (cmd_watch p line)"
  by (auto simp: cmd_server_message_def cmd_server_me_def cmd_server_mode_def cmd_server_notice_def
      cmd_server_invite_def cmd_server_join_def cmd_server_kick_def cmd_server_part_def
      cmd_server_topic_def cmd_watch_def wp intro!: logged_intros split: list.split option.split)

section \<open>The invariant of the bot\<close>

text \<open>
  Names are unique in each registry, the channels of every server and the entries of every
  criterion have no duplicates, and the buffers of every connection are within their size.
\<close>

definition server_ok :: "irc_server \<Rightarrow> bool" where
  "server_ok s = (sv_wf s \<and> (\<forall>c. sv_coroutine s = Some c \<longrightarrow> conn_ok c))"

definition rule_ok :: "irc_rule \<Rightarrow> bool" where
  "rule_ok r = (crit_wf (r_servers r) \<and> crit_wf (r_channels r) \<and> crit_wf (r_origins r) \<and>
     crit_wf (r_plugins r) \<and> crit_wf (r_events r))"

definition bot_ok :: "'s irccd \<Rightarrow> bool" where
  "bot_ok b = (bot_wf b \<and> (\<forall>s \<in> set (bt_servers b). server_ok s) \<and> (\<forall>r \<in> set (bt_rules b). rule_ok r))"

lemma server_ok_send [simp]: "server_ok s \<Longrightarrow> server_ok (snd (irc_server_send s t))"
proof -
  assume ok: "server_ok s"
  have "conn_ok c" if "sv_coroutine (snd (irc_server_send s t)) = Some c" for c
    using that ok push_ok
    by (fastforce simp: irc_server_send_def irc_server_send_va_def server_ok_def split: option.splits sum.splits if_splits)
  with ok show ?thesis by (simp add: server_ok_def)
qed

lemma add_frame [simp]:
  "sv_coroutine (irc_server_channels_add s n p f) = sv_coroutine s"
  "sv_name (irc_server_channels_add s n p f) = sv_name s"
  by (simp_all add: irc_server_channels_add_def on_channel_def split: option.split)

lemma server_ok_add [simp]: "server_ok s \<Longrightarrow> server_ok (irc_server_channels_add s n p f)"
  by (simp add: server_ok_def sv_wf_add)

lemma server_ok_join [simp]: "server_ok s \<Longrightarrow> server_ok (snd (irc_server_join s n p))"
  by (simp add: irc_server_join_def Let_def split: option.split)

lemma server_ok_disconnect [simp]: "server_ok s \<Longrightarrow> server_ok (irc_server_disconnect s)"
proof -
  assume "server_ok s"
  then have "sv_wf (irc_server_channels_clear (s\<lparr>sv_coroutine := None\<rparr>))"
    by (intro sv_wf_clear) (simp add: server_ok_def)
  then show ?thesis
    by (simp add: server_ok_def irc_server_disconnect_def irc_server_clear_def sv_wf_def
        irc_server_channels_clear_def)
qed

lemma server_ok_connect: "irc_server_connect ssl s = Some s' \<Longrightarrow> server_ok s \<Longrightarrow> server_ok s'"
  by (auto simp: irc_server_connect_def server_ok_def conn_ok_def conn_new_def CONN_OUT_SIZE_def
      split: if_splits)

lemma server_names [simp]:
  "sv_name (irc_server_disconnect s) = sv_name s"
  "sv_name (snd (irc_server_join s n p)) = sv_name s"
  "irc_server_connect ssl s = Some s' \<Longrightarrow> sv_name s' = sv_name s"
  by (auto simp: irc_server_disconnect_def irc_server_clear_def irc_server_channels_clear_def
      irc_server_join_def Let_def irc_server_connect_def split: option.splits if_splits)

text \<open>The commands of a server keep its name and its invariant.\<close>

definition server_keeps :: "(irc_server \<Rightarrow> sent \<times> irc_server) \<Rightarrow> bool" where
  "server_keeps f = (\<forall>s. sv_name (snd (f s)) = sv_name s \<and> (server_ok s \<longrightarrow> server_ok (snd (f s))))"

lemma server_keeps [simp]:
  "server_keeps (\<lambda>s. irc_server_message s a b)" "server_keeps (\<lambda>s. irc_server_me s a b)"
  "server_keeps (\<lambda>s. irc_server_mode s a b r)" "server_keeps (\<lambda>s. irc_server_notice s a b)"
  "server_keeps (\<lambda>s. irc_server_invite s a b)" "server_keeps (\<lambda>s. irc_server_join s a r)"
  "server_keeps (\<lambda>s. irc_server_kick s a b r)" "server_keeps (\<lambda>s. irc_server_part s a r)"
  "server_keeps (\<lambda>s. irc_server_topic s a b)"
  by (simp_all add: server_keeps_def irc_server_message_def irc_server_me_def irc_server_mode_def
      irc_server_notice_def irc_server_invite_def irc_server_kick_def irc_server_part_def irc_server_topic_def)

lemma bot_ok_frame:
  assumes "bot_ok b" and "bt_rules b' = bt_rules b \<and> bt_hooks b' = bt_hooks b \<and>
    bt_servers b' = bt_servers b \<and> map pl_name (bt_plugins b') = map pl_name (bt_plugins b)"
  shows "bot_ok b'"
  using assms by (simp add: bot_ok_def bot_wf_def)

lemma set_update_first: "set (update_first P f xs) \<subseteq> set xs \<union> f ` {x \<in> set xs. P x}"
  by (induction xs) auto

lemma map_update_name: "key y = n \<Longrightarrow> map key (update_first (\<lambda>x. key x = n) (\<lambda>_. y) xs) = map key xs"
  by (induction xs) auto

lemma bot_ok_on_server:
  assumes "bot_ok (pr_irccd p)" and "irc_bot_server_get (pr_irccd p) name = Some s"
    and "sv_name s' = sv_name s" and "server_ok s \<Longrightarrow> server_ok s'"
  shows "bot_ok (pr_irccd (on_server p name s'))"
proof -
  let ?xs = "update_first (\<lambda>x. sv_name x = name) (\<lambda>_. s') (bt_servers (pr_irccd p))"
  have s: "sv_name s = name" "s \<in> set (bt_servers (pr_irccd p))"
    using find_key_Some assms(2) by (fastforce simp: irc_bot_server_get_def)+
  have "map sv_name ?xs = map sv_name (bt_servers (pr_irccd p))"
    using s(1) assms(3) by (simp add: map_update_name)
  moreover have "\<forall>x \<in> set ?xs. server_ok x"
    using set_update_first assms(1,4) s(2) by (fastforce simp: bot_ok_def)
  ultimately show ?thesis using assms(1) by (simp add: bot_ok_def bot_wf_def on_server_def)
qed

lemma bot_ok_on_plugin:
  assumes "bot_ok (pr_irccd p)" and "irc_bot_plugin_get (pr_irccd p) name = Some plg"
    and "pl_name plg' = pl_name plg"
  shows "bot_ok (pr_irccd (on_plugin p name plg'))"
proof -
  have "pl_name plg = name"
    using find_key_Some assms(2) by (fastforce simp: irc_bot_plugin_get_def)
  then show ?thesis
    using assms(1,3) by (intro bot_ok_frame [OF assms(1)]) (simp add: on_plugin_def map_update_name)
qed

lemma bot_ok_hooks:
  "bot_ok b \<Longrightarrow> irc_bot_hook_add b h = Some b' \<Longrightarrow> bot_ok b'"
  "bot_ok b \<Longrightarrow> bot_ok (irc_bot_hook_remove b n)"
proof -
  assume b: "bot_ok b" and h: "irc_bot_hook_add b h = Some b'"
  then have "bot_wf b'" using hooks.wf_add [OF _ h] by (simp add: bot_ok_def)
  moreover from h have "bt_servers b' = bt_servers b" "bt_rules b' = bt_rules b"
    by (auto simp: irc_bot_hook_add_def split: if_splits)
  ultimately show "bot_ok b'" using b by (simp add: bot_ok_def)
next
  show "bot_ok b \<Longrightarrow> bot_ok (irc_bot_hook_remove b n)"
    using hooks.wf_remove by (fastforce simp: bot_ok_def irc_bot_hook_remove_def)
qed

lemma plugin_remove_frame [simp]:
  "bt_servers (irc_bot_plugin_remove b n) = bt_servers b" "bt_rules (irc_bot_plugin_remove b n) = bt_rules b"
  by (simp_all add: irc_bot_plugin_remove_def)

lemma bot_ok_plugins:
  "bot_ok b \<Longrightarrow> bot_ok (snd (irc_bot_plugin_add b plg))"
  "bot_ok b \<Longrightarrow> bot_ok (irc_bot_plugin_remove b n)"
  "bot_ok b \<Longrightarrow> bot_ok (irc_bot_plugin_clear b)"
proof -
  show "bot_ok b \<Longrightarrow> bot_ok (snd (irc_bot_plugin_add b plg))"
  proof (cases "plugin_add b plg")
    case None
    then show "bot_ok b \<Longrightarrow> bot_ok (snd (irc_bot_plugin_add b plg))"
      by (simp add: plugin_add_def irc_bot_plugin_add_def split: prod.splits if_splits)
  next
    case (Some b')
    then have b': "b' = snd (irc_bot_plugin_add b plg)"
      by (simp add: plugin_add_def split: prod.splits if_splits)
    have "bt_servers b' = bt_servers b" "bt_rules b' = bt_rules b"
      using Some by (auto simp: plugin_add_eq split: if_splits)
    then show "bot_ok b \<Longrightarrow> bot_ok (snd (irc_bot_plugin_add b plg))"
      using plugins.wf_add [OF _ Some] by (simp add: bot_ok_def b' [symmetric])
  qed
  show rm: "bot_ok b \<Longrightarrow> bot_ok (irc_bot_plugin_remove b n)" for b :: "'a irccd" and n
    using plugins.wf_remove by (auto simp: bot_ok_def)
  have "bot_ok b \<Longrightarrow> bot_ok (foldl irc_bot_plugin_remove b ns)" for b :: "'a irccd" and ns
    by (induction ns arbitrary: b) (simp_all add: rm)
  moreover have "bot_ok b \<Longrightarrow> bot_ok (b\<lparr>bt_plugins := []\<rparr>)" for b :: "'a irccd"
    by (simp add: bot_ok_def bot_wf_def)
  ultimately show "bot_ok b \<Longrightarrow> bot_ok (irc_bot_plugin_clear b)"
    by (simp add: irc_bot_plugin_clear_def)
qed

lemma bot_ok_rules:
  assumes "bot_ok b" and "\<forall>r \<in> set rs. r \<in> set (bt_rules b) \<or> rule_ok r"
  shows "bot_ok (b\<lparr>bt_rules := rs\<rparr>)"
  using assms by (auto simp: bot_ok_def bot_wf_def)

lemma set_append_elem: "set (append_elem i x xs) \<subseteq> insert x (set xs)"
  unfolding append_elem_def using set_take_subset [of "Suc i" xs] set_drop_subset [of "Suc i" xs] by auto

lemma set_remove_nth: "set (remove_nth i xs) \<subseteq> set xs"
  unfolding remove_nth_def using set_take_subset [of i xs] set_drop_subset [of "Suc i" xs] by auto

lemma bot_ok_rule_insert: "bot_ok b \<Longrightarrow> rule_ok r \<Longrightarrow> bot_ok (irc_bot_rule_insert b r i)"
  unfolding irc_bot_rule_insert_def using set_append_elem [of "i - 1" r "bt_rules b"]
  by (intro bot_ok_rules) auto

lemma bot_ok_rule_remove: "bot_ok b \<Longrightarrow> irc_bot_rule_remove b i = Some b' \<Longrightarrow> bot_ok b'"
  using set_remove_nth [of i "bt_rules b"]
  by (auto simp: irc_bot_rule_remove_def intro!: bot_ok_rules split: if_splits)

lemma bot_ok_rule_move:
  assumes "bot_ok b" and "irc_bot_rule_move b i j = Some b'"
  shows "bot_ok b'"
proof (cases "i = j")
  case False
  let ?f = "bt_rules b ! i" and ?rest = "remove_nth i (bt_rules b)"
  have i: "i < length (bt_rules b)" using assms(2) by (simp add: irc_bot_rule_move_def irc_bot_rule_size_def split: if_splits)
  have sub: "set (append_elem k ?f ?rest) \<subseteq> set (bt_rules b)" for k
    using set_append_elem [of k ?f ?rest] set_remove_nth [of i "bt_rules b"] nth_mem [OF i] by auto
  have "set (?f # ?rest) \<subseteq> set (bt_rules b)"
    using set_remove_nth [of i "bt_rules b"] nth_mem [OF i] by auto
  with sub assms False show ?thesis
    by (auto simp: irc_bot_rule_move_def Let_def intro!: bot_ok_rules split: if_splits)
qed (use assms in \<open>simp add: irc_bot_rule_move_def split: if_splits\<close>)

text \<open>The functions that edit a rule keep its criteria well-formed.\<close>

lemma rule_ok_new: "rule_ok (irc_rule_new a)"
  by (simp add: rule_ok_def irc_rule_new_def crit_wf_def)

lemma rule_ok_edit:
  "map_of rule_adders k = Some f \<Longrightarrow> rule_ok r \<Longrightarrow> rule_ok (f r v)"
  "map_of rule_removers k = Some f \<Longrightarrow> rule_ok r \<Longrightarrow> rule_ok (f r v)"
  "rule_ok (r\<lparr>r_action := a\<rparr>) = rule_ok r"
  by (auto simp: rule_ok_def rule_adders_def rule_removers_def irc_rule_add_channel_def
      irc_rule_add_event_def irc_rule_add_origin_def irc_rule_add_plugin_def irc_rule_add_server_def
      irc_rule_remove_channel_def irc_rule_remove_event_def irc_rule_remove_origin_def
      irc_rule_remove_plugin_def irc_rule_remove_server_def crit_wf_list_add crit_wf_list_remove
      split: if_splits)

lemma rule_ok_add_loop:
  assumes "rule_add_loop r i add ts = Some (Inr (r', j))" and "rule_ok r"
    and "\<And>f r v. add = Some (Some f) \<Longrightarrow> rule_ok r \<Longrightarrow> rule_ok (f r v)"
  shows "rule_ok r'"
  using assms
proof (induction ts arbitrary: r i add)
  case (Cons t ts)
  show ?case
  proof (cases "hd (fst t) = CHR ''i''")
    case True
    with Cons.prems obtain v where "token_value t = Some v" by (auto simp: Let_def bind_eq_Some_conv)
    moreover from this Cons.prems True obtain k where "irc_util_stoi v = Inr k"
      by (cases "irc_util_stoi v") (auto simp: Let_def)
    ultimately have v: "token_value t = Some v" "irc_util_stoi v = Inr k" by simp_all
    with Cons.prems True obtain a where a: "add = Some a" by (cases add) (auto simp: Let_def)
    show ?thesis
    proof (cases a)
      case None
      with Cons.prems True v a show ?thesis by (intro Cons.IH [of r k add]) (simp_all add: Let_def)
    next
      case (Some f)
      with Cons.prems True v a show ?thesis by (intro Cons.IH [of "f r v" k add]) (simp_all add: Let_def)
    qed
  next
    case False
    show ?thesis
    proof (cases "map_of rule_adders (hd (fst t))")
      case None
      with Cons.prems False show ?thesis
        by (intro Cons.IH [of r i "Some None"]) (simp_all add: Let_def)
    next
      case (Some f)
      with Cons.prems False obtain v where "token_value t = Some v" by (auto simp: Let_def bind_eq_Some_conv)
      with Cons.prems False Some show ?thesis
        by (intro Cons.IH [of "f r v" i "Some (Some f)"]) (simp_all add: Let_def rule_ok_edit(1))
    qed
  qed
qed simp

lemma rule_ok_edit_loop: "rule_ok r \<Longrightarrow> rule_ok (fst (rule_edit_loop r ts))"
  by (induction r ts rule: rule_edit_loop.induct)
     (simp_all add: rule_ok_edit split: list.split option.split)

lemma server_remove_frame:
  assumes "irc_bot_server_remove b n = Some (as, b')"
  shows "bt_rules b' = bt_rules b \<and> bt_hooks b' = bt_hooks b \<and>
    map pl_name (bt_plugins b') = map pl_name (bt_plugins b)"
proof (cases "irc_bot_server_get b n")
  case None
  with assms show ?thesis by (simp add: irc_bot_server_remove_def)
next
  case (Some s)
  with assms obtain b1 where "irc_bot_dispatch (b\<lparr>bt_servers := update_first (\<lambda>x. sv_name x = n)
      (\<lambda>_. irc_server_disconnect s) (bt_servers b)\<rparr>) (irc_server_disconnect s)
      \<lparr>ev_type = IRC_EVENT_DISCONNECT, ev_server = sv_name (irc_server_disconnect s)\<rparr> = Some (as, b1)"
    and "b' = b1\<lparr>bt_servers := delete_key sv_name (bt_servers b1) n\<rparr>"
    by (auto simp: irc_bot_server_remove_def Let_def)
  with dispatch_frame show ?thesis by fastforce
qed

lemma server_clear_frame:
  "server_clear_loop b ns = Some (as, b') \<Longrightarrow> bt_servers b' = [] \<and> bt_rules b' = bt_rules b \<and>
    bt_hooks b' = bt_hooks b \<and> map pl_name (bt_plugins b') = map pl_name (bt_plugins b)"
proof (induction ns arbitrary: b as)
  case (Cons n ns)
  then obtain as1 b1 as2 where "irc_bot_server_remove b n = Some (as1, b1)"
    and "server_clear_loop b1 ns = Some (as2, b')"
    by (auto simp: bind_eq_Some_conv)
  with Cons.IH [of b1 as2] server_remove_frame [of b n as1 b1] show ?case by simp
qed auto

lemma bot_ok_server_clear: "bot_ok b \<Longrightarrow> irc_bot_server_clear b = Some (as, b') \<Longrightarrow> bot_ok b'"
  using server_clear_frame [of b "map sv_name (bt_servers b)" as b']
  by (simp add: bot_ok_def bot_wf_def irc_bot_server_clear_def)

lemma bot_ok_server_add:
  assumes "bot_ok b" and "server_ok s" and "irc_bot_server_add ssl b s = Some (rc, b')"
  shows "bot_ok b'"
proof (cases "irc_bot_server_get b (sv_name s)")
  case None
  with assms(3) obtain s' where c: "irc_server_connect ssl (irc_server_incref s) = Some s'"
    and b': "b' = b\<lparr>bt_servers := bt_servers b @ [s']\<rparr>"
    by (auto simp: irc_bot_server_add_def)
  have "server_ok (irc_server_incref s)"
    using assms(2) by (simp add: server_ok_def sv_wf_def irc_server_incref_def)
  with c have "server_ok s'" by (rule server_ok_connect)
  with assms(1) None connect_name [OF c] b' show ?thesis
    by (auto simp: bot_ok_def bot_wf_def irc_bot_server_get_def find_key_None)
qed (use assms in \<open>simp add: irc_bot_server_add_def\<close>)

lemma bot_ok_reconnect_all:
  "reconnect_all ssl ss = Some ss' \<Longrightarrow> map sv_name ss' = map sv_name ss \<and>
     ((\<forall>s \<in> set ss. server_ok s) \<longrightarrow> (\<forall>s \<in> set ss'. server_ok s))"
proof (induction ss arbitrary: ss')
  case (Cons s ss)
  then obtain s1 ss1 where c: "irc_server_connect ssl (irc_server_disconnect s) = Some s1"
    and r: "reconnect_all ssl ss = Some ss1" and ss': "ss' = s1 # ss1"
    by (auto simp: bind_eq_Some_conv irc_server_reconnect_def)
  with Cons.IH [OF r] server_ok_connect [OF c] show ?case by simp
qed simp

section \<open>Every command keeps the invariant\<close>

definition keeps :: "'s peer \<Rightarrow> errno option \<Rightarrow> 's peer \<Rightarrow> bool" where
  "keeps p rc q = (bot_ok (pr_irccd p) \<longrightarrow> bot_ok (pr_irccd q))"

lemma keeps_push [simp]: "keeps p rc (peer_push q s) = keeps p rc q"
  by (simp add: keeps_def)

lemma keeps_same [simp]: "keeps p rc p"
  by (simp add: keeps_def)

lemma keeps_error [simp]: "keeps p None q \<Longrightarrow> outcome (keeps p) (reply_error s q)"
  by (simp add: reply_error_def wp)

lemma keeps_update [intro]:
  "irc_bot_server_get (pr_irccd p) name = Some s \<Longrightarrow> sv_name s' = sv_name s \<Longrightarrow>
     (server_ok s \<Longrightarrow> server_ok s') \<Longrightarrow> keeps p rc (on_server p name s')"
  "irc_bot_plugin_get (pr_irccd p) name = Some plg \<Longrightarrow> pl_name plg' = pl_name plg \<Longrightarrow>
     keeps p rc (on_plugin p name plg')"
  by (simp_all add: keeps_def bot_ok_on_server bot_ok_on_plugin)

lemma keeps_hooks:
  "outcome (keeps p) (cmd_hook_add p line)" "outcome (keeps p) (cmd_hook_list p line)"
  "outcome (keeps p) (cmd_hook_remove p line)"
  by (auto simp: cmd_hook_add_def cmd_hook_list_def cmd_hook_remove_def wp keeps_def bot_ok_hooks
      split: list.split option.split)

lemma keeps_list_set:
  assumes "\<And>plg k v. pl_name (f plg k v) = pl_name plg"
  shows "outcome (keeps p) (plugin_list_set f g h p line)"
  using assms by (auto simp: plugin_list_set_def wp Let_def split: list.split option.split)

lemma keeps_plugins:
  "outcome (keeps p) (cmd_plugin_config p line)" "outcome (keeps p) (cmd_plugin_path p line)"
  "outcome (keeps p) (cmd_plugin_template p line)" "outcome (keeps p) (cmd_plugin_info p line)"
  "outcome (keeps p) (cmd_plugin_list p line)" "outcome (keeps p) (cmd_plugin_reload env p line)"
  "outcome (keeps p) (cmd_plugin_unload p line)" "outcome (keeps p) (cmd_plugin_load env p line)"
proof -
  have "bot_ok b \<Longrightarrow> bot_ok (b\<lparr>bt_plugins := map irc_plugin_reload (bt_plugins b)\<rparr>)" for b :: "'a irccd"
    by (erule bot_ok_frame) simp
  then have "keeps p None (p\<lparr>pr_irccd := (pr_irccd p)\<lparr>bt_plugins := map irc_plugin_reload (bt_plugins (pr_irccd p))\<rparr>\<rparr>)"
    by (simp add: keeps_def)
  then show "outcome (keeps p) (cmd_plugin_reload env p line)"
    by (auto simp: cmd_plugin_reload_def wp split: list.split option.split)
qed (auto simp: cmd_plugin_config_def cmd_plugin_path_def cmd_plugin_template_def keeps_list_set
      cmd_plugin_info_def cmd_plugin_list_def cmd_plugin_unload_def cmd_plugin_load_def wp
      keeps_def bot_ok_plugins split: list.split option.split)

lemma keeps_rule_edit: "outcome (keeps p) (cmd_rule_edit p line)"
proof -
  have "keeps p rc (p\<lparr>pr_irccd := (pr_irccd p)\<lparr>bt_rules := (bt_rules (pr_irccd p))[i := r']\<rparr>\<rparr>)"
    if "irc_bot_rule_get (pr_irccd p) i = Some r" "rule_edit_loop r ts = (r', e)" for rc i r ts r' e
  proof -
    have "bot_ok (pr_irccd p) \<Longrightarrow> rule_ok r'"
      using that rule_ok_edit_loop [of r ts] by (auto simp: irc_bot_rule_get_def irc_bot_rule_size_def bot_ok_def split: if_splits)
    then show ?thesis
      using set_update_subset_insert [of "bt_rules (pr_irccd p)" i r']
      by (auto simp: keeps_def intro!: bot_ok_rules)
  qed
  then show ?thesis
    by (auto simp: cmd_rule_edit_def wp Let_def split: option.split prod.split edit_end.split)
qed

lemma keeps_rules:
  "outcome (keeps p) (cmd_rule_add env p line)" "outcome (keeps p) (cmd_rule_list env p line)"
  "outcome (keeps p) (cmd_rule_move p line)" "outcome (keeps p) (cmd_rule_remove p line)"
proof -
  have "keeps p None (p\<lparr>pr_irccd := irc_bot_rule_insert (pr_irccd p) r i\<rparr>)"
    if "rule_add_loop (irc_rule_new a) k None ts = Some (Inr (r, j))" for a k ts r i j
    using rule_ok_add_loop [OF that rule_ok_new] by (simp add: keeps_def bot_ok_rule_insert)
  then show "outcome (keeps p) (cmd_rule_add env p line)"
    by (auto simp: cmd_rule_add_def wp split: option.split sum.split)
qed (auto simp: cmd_rule_list_def cmd_rule_move_def cmd_rule_remove_def Let_def wp keeps_def
      dest: bot_ok_rule_move bot_ok_rule_remove split: list.split option.split)

lemma keeps_command [simp]: "server_keeps f \<Longrightarrow> outcome (keeps p) (server_command p name f)"
  by (auto simp: server_command_def wp server_keeps_def split: option.split)

lemma keeps_sends:
  "outcome (keeps p) (cmd_server_message p line)" "outcome (keeps p) (cmd_server_me p line)"
  "outcome (keeps p) (cmd_server_mode p line)" "outcome (keeps p) (cmd_server_notice p line)"
  "outcome (keeps p) (cmd_server_invite p line)" "outcome (keeps p) (cmd_server_join p line)"
  "outcome (keeps p) (cmd_server_kick p line)" "outcome (keeps p) (cmd_server_part p line)"
  "outcome (keeps p) (cmd_server_topic p line)" "outcome (keeps p) (cmd_watch p line)"
  by (auto simp: cmd_server_message_def cmd_server_me_def cmd_server_mode_def cmd_server_notice_def
      cmd_server_invite_def cmd_server_join_def cmd_server_kick_def cmd_server_part_def
      cmd_server_topic_def cmd_watch_def wp keeps_def [of p _ "p\<lparr>pr_is_watching := _\<rparr>"]
      split: list.split option.split)

lemma keeps_servers:
  "outcome (keeps p) (cmd_server_disconnect p line)" "outcome (keeps p) (cmd_server_info p line)"
  "outcome (keeps p) (cmd_server_list p line)" "outcome (keeps p) (cmd_server_reconnect env p line)"
proof -
  have all: "keeps p None (p\<lparr>pr_irccd := (pr_irccd p)\<lparr>bt_servers := ss\<rparr>\<rparr>)"
    if "reconnect_all ssl (bt_servers (pr_irccd p)) = Some ss" for ss ssl
    using bot_ok_reconnect_all [OF that] by (simp add: keeps_def bot_ok_def bot_wf_def)
  have clear: "keeps p None (ran p as b)" if "irc_bot_server_clear (pr_irccd p) = Some (as, b)" for as b
    using bot_ok_server_clear [OF _ that] by (simp add: keeps_def ran_def)
  show "outcome (keeps p) (cmd_server_disconnect p line)"
    by (auto simp: cmd_server_disconnect_def wp clear split: list.split option.split)
  show "outcome (keeps p) (cmd_server_reconnect env p line)"
    by (auto simp: cmd_server_reconnect_def irc_server_reconnect_def wp all intro!: keeps_update
        dest: server_ok_connect split: list.split option.split)
qed (auto simp: cmd_server_info_def cmd_server_list_def wp split: list.split option.split)

lemma keeps_connect: "outcome (keeps p) (cmd_server_connect env p line)"
proof -
  have ok: "server_ok s'" if "s' = irc_server_set_flags s fl \<or> s' = s" "server_ok s" for s s' fl
    using that by (auto simp: server_ok_def sv_wf_def irc_server_set_flags_def)
  have new: "server_ok s4"
    if "irc_server_set_hostname (irc_server_new n) h = Some s1" "irc_server_set_port s1 po = Some s2"
      "irc_server_set_username (irc_server_set_nickname s2 ni) us = Some s3"
      "irc_server_set_realname s3 re = Some s4" for n h s1 po s2 ni us s3 re s4
    using that
    by (auto simp: server_ok_def sv_wf_def irc_server_set_hostname_def irc_server_set_port_def
        irc_server_set_username_def irc_server_set_realname_def irc_server_set_nickname_def
        irc_server_new_def server_ready_def irc__conn_ready_def split: if_splits)
  show ?thesis
    by (auto simp: cmd_server_connect_def wp keeps_def split: list.split if_splits
        dest!: bot_ok_server_add [rotated 2] intro: ok new)
qed

section \<open>A line of the client\<close>

lemma cmds_sorted: "sorted_wrt (<) (map fst (cmds env))"
proof -
  have "sorted_wrt (<)
    [''HOOK-ADD'', ''HOOK-LIST'', ''HOOK-REMOVE'', ''PLUGIN-CONFIG'', ''PLUGIN-INFO'', ''PLUGIN-LIST'',
     ''PLUGIN-LOAD'', ''PLUGIN-PATH'', ''PLUGIN-RELOAD'', ''PLUGIN-TEMPLATE'', ''PLUGIN-UNLOAD'',
     ''RULE-ADD'', ''RULE-EDIT'', ''RULE-LIST'', ''RULE-MOVE'', ''RULE-REMOVE'', ''SERVER-CONNECT'',
     ''SERVER-DISCONNECT'', ''SERVER-INFO'', ''SERVER-INVITE'', ''SERVER-JOIN'', ''SERVER-KICK'',
     ''SERVER-LIST'', ''SERVER-ME'', ''SERVER-MESSAGE'', ''SERVER-MODE'', ''SERVER-NOTICE'',
     ''SERVER-PART'', ''SERVER-RECONNECT'', ''SERVER-TOPIC'', ''WATCH'']"
    by code_simp
  then show ?thesis by (simp only: cmds_def list.map fst_conv)
qed

lemma find_cmd_eq: "find_cmd env line = map_of (cmds env) (first_word line)"
  unfolding find_cmd_def by (rule bsearch_map_of [OF cmds_sorted le_refl]) simp

lemma cmds_wp:
  assumes "\<And>c. c \<in> snd ` set (cmds env) \<Longrightarrow> outcome (P p) (c p line)" and "find_cmd env line = Some c"
  shows "outcome (P p) (c p line)"
  using assms map_of_SomeD by (fastforce simp: find_cmd_eq)

lemmas logged_all = logged_hooks logged_plugins logged_servers logged_sends

lemmas keeps_all = keeps_hooks keeps_plugins keeps_rules keeps_rule_edit keeps_servers keeps_sends keeps_connect

lemma cmds_keep:
  assumes "find_cmd env line = Some c"
  shows "outcome (keeps p) (c p line)"
proof -
  have "\<forall>(n, c) \<in> set (cmds env). outcome (keeps p) (c p line)"
    by (simp add: cmds_def keeps_all)
  with map_of_SomeD [OF assms [unfolded find_cmd_eq]] show ?thesis by auto
qed

lemma cmds_log:
  assumes "find_cmd env line = Some c" and "\<forall>e. strerror env e \<noteq> []"
  shows "outcome (logged p (if first_word line = ''PLUGIN-LOAD'' then {Suc 0, Suc (Suc 0)} else {Suc 0})) (c p line)"
proof -
  have "\<forall>(n, c) \<in> set (cmds env).
      outcome (logged p (if n = ''PLUGIN-LOAD'' then {Suc 0, Suc (Suc 0)} else {Suc 0})) (c p line)"
    by (simp add: cmds_def logged_all logged_rules [OF assms(2)])
  with map_of_SomeD [OF assms(1) [unfolded find_cmd_eq]] show ?thesis by auto
qed




lemma bot_ok_empty: "bot_ok bot_empty"
  by (simp add: bot_ok_def bot_wf_def bot_empty_def)


section \<open>Lines and packets\<close>

text \<open>Serving what was kept again and then more is serving it all at once.\<close>

lemma serve_append:
  "serve env p (x @ y) = serve env p x \<bind> (\<lambda>(q, rest). serve env q (rest @ y))"
proof (induction env p x rule: serve.induct)
  case (1 env p x)
  obtain line r where sp: "split_at LF x = (line, r)" by fastforce
  show ?case
  proof (cases r)
    case None
    with sp show ?thesis by (simp add: serve.simps [of env p x])
  next
    case (Some rest)
    with sp have x: "x = line @ LF # rest" "LF \<notin> set line" by (simp_all add: split_at_Some)
    then have sp': "split_at LF (x @ y) = (line, Some (rest @ y))" by (simp add: split_at_append)
    show ?thesis
    proof (cases "line = []")
      case True
      with 1 sp sp' Some show ?thesis
        by (subst serve.simps, subst (2) serve.simps) simp
    next
      case False
      have "serve env q (rest @ y) = serve env q rest \<bind> (\<lambda>(q, rest). serve env q (rest @ y))"
        if "invoke env p (takeWhile (\<lambda>c. c \<noteq> NUL) line) = Some q" for q
        using "1.IH"(2) [OF sp [symmetric] Some False that] .
      with False sp sp' Some show ?thesis
        by (subst serve.simps, subst (2) serve.simps)
           (cases "invoke env p (takeWhile (\<lambda>c. c \<noteq> NUL) line)", simp_all)
    qed
  qed
qed

lemma serve_rest: "serve env p x = Some (q, rest) \<Longrightarrow> LF \<notin> set rest"
proof (induction env p x rule: serve.induct)
  case (1 env p x)
  obtain line r where sp: "split_at LF x = (line, r)" by fastforce
  show ?case
  proof (cases r)
    case None
    with 1 sp show ?thesis by (simp add: serve.simps [of env p x] split_at_None)
  next
    case (Some rest')
    with 1 sp show ?thesis
      by (subst (asm) (3) serve.simps) (cases "line = []", auto simp: bind_eq_Some_conv)
  qed
qed



section \<open>Adding and editing rules\<close>

lemma tokens_blank: "dropWhile (\<lambda>c. c = d) s = [] \<Longrightarrow> tokens d s = []"
  by (subst tokens.simps) (simp only: Let_def if_True simp_thms)

lemma tokens_step:
  assumes "dropWhile (\<lambda>c. c = d) s = t" and "t \<noteq> []" and "split_at d t = (a, r)"
  shows "tokens d s = a # (case r of None \<Rightarrow> [] | Some x \<Rightarrow> tokens d x)"
proof -
  have "tokens d s = a # tokens d (dropWhile (\<lambda>c. c \<noteq> d) t)"
    using assms by (subst tokens.simps) (simp add: Let_def split_at_eq)
  moreover have "tokens d (dropWhile (\<lambda>c. c \<noteq> d) t) = (case r of None \<Rightarrow> [] | Some x \<Rightarrow> tokens d x)"
  proof (cases r)
    case None
    with assms(3) have "\<forall>c \<in> set t. c \<noteq> d" by (auto simp: split_at_None)
    then have eq: "dropWhile (\<lambda>c. c \<noteq> d) t = []" by (simp add: dropWhile_eq_Nil_conv)
    show ?thesis unfolding eq None by (simp add: tokens_blank)
  next
    case (Some x)
    with assms(3) have "t = a @ d # x" "\<forall>c \<in> set a. c \<noteq> d" by (auto simp: split_at_Some)
    then have "dropWhile (\<lambda>c. c \<noteq> d) t = d # x" by (simp add: dropWhile_append)
    moreover have "tokens d (d # x) = tokens d x"
      by (subst tokens.simps, subst (2) tokens.simps) simp
    ultimately show ?thesis using Some by simp
  qed
  ultimately show ?thesis by simp
qed

lemma pieces_tokens: "map fst (pieces s) = tokens CHR '' '' s"
proof (induction s rule: pieces.induct)
  case (1 s)
  let ?t = "dropWhile (\<lambda>c. c = CHR '' '') s"
  obtain a r where sp: "split_at CHR '' '' ?t = (a, r)" by fastforce
  show ?case
  proof (cases "?t = []")
    case True
    then have "pieces s = []" by (subst pieces.simps) (simp only: Let_def if_True simp_thms)
    with tokens_blank [OF True] show ?thesis by simp
  next
    case False
    have "map fst (pieces x) = tokens CHR '' '' x" if "r = Some x" for x
      using "1.IH" [OF refl False sp [symmetric] that] .
    moreover have "pieces s = (case r of None \<Rightarrow> [(a, None)] | Some x \<Rightarrow> (a, Some x) # pieces x)"
      using False sp by (subst pieces.simps) (simp add: Let_def split: option.split)
    ultimately show ?thesis
      using tokens_step [OF refl False sp] by (simp split: option.split)
  qed
qed

lemma tokens_spaced:
  assumes "\<forall>t \<in> set ts. t \<noteq> [] \<and> d \<notin> set t"
  shows "tokens d (concat (map ((#) d) ts)) = ts"
  using assms
proof (induction ts)
  case Nil
  show ?case by (simp add: tokens.simps)
next
  case (Cons t ts)
  let ?r = "concat (map ((#) d) ts)"
  have t: "dropWhile (\<lambda>c. c = d) (t @ ?r) = t @ ?r" using Cons.prems by (cases t) auto
  have r: "takeWhile (\<lambda>c. c \<noteq> d) ?r = []" "dropWhile (\<lambda>c. c \<noteq> d) ?r = ?r" by (cases ts; simp)+
  have "\<forall>c \<in> set t. c \<noteq> d" using Cons.prems by auto
  then have "takeWhile (\<lambda>c. c \<noteq> d) (t @ ?r) = t" "dropWhile (\<lambda>c. c \<noteq> d) (t @ ?r) = ?r"
    using r by (simp_all add: takeWhile_append dropWhile_append3)
  with Cons t show ?case by (simp add: tokens.simps [of d "d # _"] Let_def)
qed

text \<open>What one token does to the rule, when it is not an index.\<close>

definition add_token :: "irc_rule \<Rightarrow> string \<Rightarrow> irc_rule" where
  "add_token r t = (case map_of rule_adders (hd t) of None \<Rightarrow> r | Some f \<Rightarrow> f r (drop 2 t))"

definition plain_token :: "string \<Rightarrow> bool" where
  "plain_token t = (2 \<le> length t \<and> hd t \<noteq> CHR ''i'' \<and> \<not> is_space (hd t) \<and> CHR '' '' \<notin> set t)"

lemma add_loop_plain:
  "\<forall>t \<in> set ps. plain_token (fst t) \<Longrightarrow> rule_add_loop r i add ps = Some (Inr (foldl add_token r (map fst ps), i))"
proof (induction ps arbitrary: r add)
  case (Cons t ts)
  then have "token_value t = Some (drop 2 (fst t))"
    by (auto simp: token_value_def plain_token_def numeral_2_eq_2 split: list.split)
  with Cons show ?case
    by (cases "map_of rule_adders (hd (fst t))") (simp_all add: Let_def add_token_def plain_token_def)
qed simp

definition action_text :: "rule_action \<Rightarrow> string" where
  "action_text a = (case a of Rule_Accept \<Rightarrow> ''accept'' | Rule_Drop \<Rightarrow> ''drop'')"

definition rule_add_line :: "rule_action \<Rightarrow> string list \<Rightarrow> string" where
  "rule_add_line a ts = ''RULE-ADD '' @ action_text a @ concat (map ((#) CHR '' '') ts)"

lemma is_space_blank [simp]: "is_space CHR '' ''"
  by code_simp

lemma skip_word_action: "skip_word (action_text a @ concat (map ((#) CHR '' '') ts)) =
    dropWhile is_space (concat (map ((#) CHR '' '') ts))"
proof -
  have "\<forall>c \<in> set (action_text a). \<not> is_space c"
    by (cases a) (simp_all add: action_text_def is_space_def)
  then have "dropWhile (\<lambda>c. \<not> is_space c) (action_text a @ y) = dropWhile (\<lambda>c. \<not> is_space c) y" for y
    by (simp add: dropWhile_append)
  moreover have "dropWhile (\<lambda>c. \<not> is_space c) (concat (map ((#) CHR '' '') ts)) = concat (map ((#) CHR '' '') ts)"
    by (cases ts) simp_all
  ultimately show ?thesis by (simp add: skip_word_def)
qed

lemma first_word_line:
  assumes "w \<noteq> []" and "\<forall>c \<in> set w. \<not> is_space c" and "length w \<le> 31"
  shows "first_word (w @ CHR '' '' # r) = w" and "first_word w = w"
proof -
  have "dropWhile is_space (w @ x) = w @ x" for x using assms(1,2) by (cases w) simp_all
  moreover have "takeWhile (\<lambda>c. \<not> is_space c) w = w" "takeWhile (\<lambda>c. \<not> is_space c) (w @ CHR '' '' # r) = w"
    using assms(2) by (simp_all add: takeWhile_eq_all_conv takeWhile_append2)
  moreover have "dropWhile is_space w = w" using assms(1,2) by (cases w) simp_all
  moreover have "take 31 w = w" using assms(3) by simp
  ultimately show "first_word (w @ CHR '' '' # r) = w" "first_word w = w"
    using assms(1) by (simp_all only: first_word_def scan_word_def scan_set_def Let_def if_False
        option.case prod.case simp_thms)
qed

lemma invoke_command:
  assumes "map_of (cmds env) (first_word line) = Some c" and "c p line = Some (None, q)"
  shows "invoke env p line = Some q"
  using assms by (simp add: invoke_def find_cmd_eq)

lemma rule_insert_end:
  "irc_bot_rule_size b \<le> i \<Longrightarrow> irc_bot_rule_insert b r i = b\<lparr>bt_rules := bt_rules b @ [r]\<rparr>"
  by (cases "bt_rules b") (simp_all add: irc_bot_rule_insert_def irc_bot_rule_size_def)

text \<open>The line of \<open>RULE-ADD\<close> and what the command makes of it.\<close>

lemma rule_add_pieces:
  assumes "\<forall>t \<in> set ts. t \<noteq> [] \<and> \<not> is_space (hd t) \<and> CHR '' '' \<notin> set t"
  shows "map fst (pieces (skip_word (drop 9 (rule_add_line a ts)))) = ts"
proof -
  let ?text = "concat (map ((#) CHR '' '') ts)"
  have "dropWhile is_space ?text = (case ts of [] \<Rightarrow> [] | t # us \<Rightarrow> t @ concat (map ((#) CHR '' '') us))"
    using assms by (cases ts) (auto simp: neq_Nil_conv)
  moreover have "tokens CHR '' '' (t @ x) = tokens CHR '' '' (CHR '' '' # t @ x)" for t x
    by (subst tokens.simps, subst (2) tokens.simps) simp
  ultimately have "tokens CHR '' '' (dropWhile is_space ?text) = tokens CHR '' '' ?text"
    by (cases ts) simp_all
  also have "\<dots> = ts" using assms by (intro tokens_spaced) auto
  finally show ?thesis by (simp add: pieces_tokens rule_add_line_def skip_word_action)
qed

lemma invoke_rule_add:
  fixes p :: "'s peer"
  shows "invoke env p (rule_add_line a ts) =
     rule_add_loop (irc_rule_new a) (-1) None (pieces (skip_word (drop 9 (rule_add_line a ts)))) \<bind>
       (\<lambda>res. case res of
          Inl e \<Rightarrow> map_option snd (reply_error (strerror env e) p)
        | Inr (rule, index) \<Rightarrow>
            Some (peer_push (p\<lparr>pr_irccd := irc_bot_rule_insert (pr_irccd p) rule (size_of_llong index)\<rparr>) ''OK''))"
proof -
  let ?text = "concat (map ((#) CHR '' '') ts)" and ?line = "rule_add_line a ts"
  have line: "?line = ''RULE-ADD'' @ CHR '' '' # action_text a @ ?text" by (simp add: rule_add_line_def)
  have word: "first_word ?line = ''RULE-ADD''"
    unfolding line by (rule first_word_line) (simp_all add: is_space_def)
  have "\<not> is_space (hd (action_text a))" "action_text a \<noteq> []"
    by (cases a; simp add: action_text_def is_space_def)+
  then have eof: "\<not> rule_add_eof ?line"
    by (cases "action_text a") (simp_all add: rule_add_eof_def line)
  have action: "parse_action (drop 9 ?line) = Some a"
    unfolding line by (cases a) (simp_all add: parse_action_def strneq_def action_text_def)
  have len: "\<not> length ?line < 9" by (simp add: line)
  have "find_cmd env ?line = Some (cmd_rule_add env :: 's peer \<Rightarrow> string \<Rightarrow> 's outcome)"
    by (simp add: find_cmd_eq word cmds_def)
  then show ?thesis
    using eof action len
    by (cases "rule_add_loop (irc_rule_new a) (-1) None (pieces (skip_word (drop 9 ?line)))")
       (auto simp: invoke_def cmd_rule_add_def reply_ok_def replies_def reply_error_def split: sum.split)
qed

text \<open>
  A \<open>RULE-ADD\<close> line without an index appends one rule, with the action and all the
  criteria of the line added in their order; options it does not know are ignored.
\<close>
lemma rule_add_appends:
  assumes "\<forall>t \<in> set ts. plain_token t" and "irc_bot_rule_size (pr_irccd p) < 2 ^ 64"
  shows "invoke env p (rule_add_line a ts) =
    Some (peer_push (p\<lparr>pr_irccd := (pr_irccd p)\<lparr>bt_rules := bt_rules (pr_irccd p) @
      [foldl add_token (irc_rule_new a) ts]\<rparr>\<rparr>) ''OK'')"
proof -
  let ?ps = "pieces (skip_word (drop 9 (rule_add_line a ts)))"
  have tok: "map fst ?ps = ts"
    using assms(1) by (intro rule_add_pieces) (auto simp: plain_token_def)
  then have "\<forall>t \<in> set ?ps. plain_token (fst t)"
    using assms(1) by (metis image_eqI list.set_map)
  from add_loop_plain [OF this] tok
  have "rule_add_loop (irc_rule_new a) (-1) None ?ps = Some (Inr (foldl add_token (irc_rule_new a) ts, -1))"
    by simp
  moreover have "irc_bot_rule_size (pr_irccd p) \<le> size_of_llong (-1)"
    using assms(2) by (simp add: size_of_llong_def)
  ultimately show ?thesis by (simp add: invoke_rule_add rule_insert_end)
qed

text \<open>The tokens that describe the criteria of a rule.\<close>

definition tokens_of :: "char \<Rightarrow> string list option \<Rightarrow> string list" where
  "tokens_of k l = map (\<lambda>v. k # CHR ''='' # v) (entries l)"

definition rule_tokens :: "irc_rule \<Rightarrow> string list" where
  "rule_tokens r = tokens_of CHR ''c'' (r_channels r) @ tokens_of CHR ''e'' (r_events r) @
     tokens_of CHR ''o'' (r_origins r) @ tokens_of CHR ''p'' (r_plugins r) @ tokens_of CHR ''s'' (r_servers r)"

lemma foldl_list_add:
  "distinct (map (map to_lower) (entries l @ vs)) \<Longrightarrow>
     foldl list_add l vs = (if vs = [] then l else Some (entries l @ vs))"
proof (induction vs arbitrary: l)
  case (Cons v vs)
  then have "\<not> list_contains l v"
    by (auto simp: list_contains_folded folded_def)
  then have "list_add l v = Some (entries l @ [v])" by (simp add: list_add_def)
  with Cons show ?case by simp
qed simp

lemma foldl_add_tokens:
  "foldl add_token r (tokens_of CHR ''c'' l) = r\<lparr>r_channels := foldl list_add (r_channels r) (entries l)\<rparr>"
  "foldl add_token r (tokens_of CHR ''e'' l) = r\<lparr>r_events := foldl list_add (r_events r) (entries l)\<rparr>"
  "foldl add_token r (tokens_of CHR ''o'' l) = r\<lparr>r_origins := foldl list_add (r_origins r) (entries l)\<rparr>"
  "foldl add_token r (tokens_of CHR ''p'' l) = r\<lparr>r_plugins := foldl list_add (r_plugins r) (entries l)\<rparr>"
  "foldl add_token r (tokens_of CHR ''s'' l) = r\<lparr>r_servers := foldl list_add (r_servers r) (entries l)\<rparr>"
proof -
  have step: "add_token r (CHR ''c'' # CHR ''='' # v) = irc_rule_add_channel r v"
    "add_token r (CHR ''e'' # CHR ''='' # v) = irc_rule_add_event r v"
    "add_token r (CHR ''o'' # CHR ''='' # v) = irc_rule_add_origin r v"
    "add_token r (CHR ''p'' # CHR ''='' # v) = irc_rule_add_plugin r v"
    "add_token r (CHR ''s'' # CHR ''='' # v) = irc_rule_add_server r v" for r v
    by (simp_all add: add_token_def rule_adders_def)
  have fold: "foldl add_token r (map (\<lambda>v. k # CHR ''='' # v) vs) = foldl f r vs"
    if "\<And>r v. add_token r (k # CHR ''='' # v) = f r v" for k f vs
    using that by (induction vs arbitrary: r) simp_all
  have "foldl irc_rule_add_channel r vs = r\<lparr>r_channels := foldl list_add (r_channels r) vs\<rparr>"
    "foldl irc_rule_add_event r vs = r\<lparr>r_events := foldl list_add (r_events r) vs\<rparr>"
    "foldl irc_rule_add_origin r vs = r\<lparr>r_origins := foldl list_add (r_origins r) vs\<rparr>"
    "foldl irc_rule_add_plugin r vs = r\<lparr>r_plugins := foldl list_add (r_plugins r) vs\<rparr>"
    "foldl irc_rule_add_server r vs = r\<lparr>r_servers := foldl list_add (r_servers r) vs\<rparr>" for vs
    by (induction vs arbitrary: r)
       (simp_all add: irc_rule_add_channel_def irc_rule_add_event_def irc_rule_add_origin_def
         irc_rule_add_plugin_def irc_rule_add_server_def)
  with fold [OF step(1)] fold [OF step(2)] fold [OF step(3)] fold [OF step(4)] fold [OF step(5)]
  show "foldl add_token r (tokens_of CHR ''c'' l) = r\<lparr>r_channels := foldl list_add (r_channels r) (entries l)\<rparr>"
    "foldl add_token r (tokens_of CHR ''e'' l) = r\<lparr>r_events := foldl list_add (r_events r) (entries l)\<rparr>"
    "foldl add_token r (tokens_of CHR ''o'' l) = r\<lparr>r_origins := foldl list_add (r_origins r) (entries l)\<rparr>"
    "foldl add_token r (tokens_of CHR ''p'' l) = r\<lparr>r_plugins := foldl list_add (r_plugins r) (entries l)\<rparr>"
    "foldl add_token r (tokens_of CHR ''s'' l) = r\<lparr>r_servers := foldl list_add (r_servers r) (entries l)\<rparr>"
    by (simp_all add: tokens_of_def)
qed

lemma rule_of_tokens: "rule_ok r \<Longrightarrow> foldl add_token (irc_rule_new (r_action r)) (rule_tokens r) = r"
proof -
  have "crit_wf l \<Longrightarrow> foldl list_add None (entries l) = l" for l
    using foldl_list_add [of None "entries l"] by (cases l) (auto simp: crit_wf_def)
  then show "rule_ok r \<Longrightarrow> foldl add_token (irc_rule_new (r_action r)) (rule_tokens r) = r"
    by (simp add: rule_tokens_def foldl_add_tokens rule_ok_def irc_rule_new_def)
qed

lemma rule_tokens_plain:
  "(\<forall>l \<in> {r_channels r, r_events r, r_origins r, r_plugins r, r_servers r}.
     \<forall>v \<in> set (entries l). CHR '' '' \<notin> set v) \<Longrightarrow> \<forall>t \<in> set (rule_tokens r). plain_token t"
  by (auto simp: rule_tokens_def tokens_of_def plain_token_def is_space_def)

text \<open>
  A rule sent as a \<open>RULE-ADD\<close> line, one option for each entry of its criteria, is
  appended exactly as it was, whatever its criteria are, as long as no entry holds a blank.
\<close>
theorem rule_add_roundtrip:
  assumes "rule_ok r" and "\<forall>l \<in> {r_channels r, r_events r, r_origins r, r_plugins r, r_servers r}.
      \<forall>v \<in> set (entries l). CHR '' '' \<notin> set v"
    and "irc_bot_rule_size (pr_irccd p) < 2 ^ 64"
  shows "invoke env p (rule_add_line (r_action r) (rule_tokens r)) =
    Some (peer_push (p\<lparr>pr_irccd := (pr_irccd p)\<lparr>bt_rules := bt_rules (pr_irccd p) @ [r]\<rparr>\<rparr>) ''OK'')"
  using rule_add_appends [OF rule_tokens_plain [OF assms(2)] assms(3)] rule_of_tokens [OF assms(1)] by simp

definition staff_rule :: irc_rule where
  "staff_rule = \<lparr>r_action = Rule_Drop, r_servers = None, r_channels = Some [''#staff'', ''#ops''],
     r_origins = None, r_plugins = Some [''ask''], r_events = None\<rparr>"

theorem rule_add_roundtrip_witness:
  "\<forall>env. invoke env (peer_new (bot_empty :: unit irccd)) ''RULE-ADD drop c=#staff c=#ops p=ask'' =
     Some (peer_push (peer_new ((bot_empty :: unit irccd)\<lparr>bt_rules := [staff_rule]\<rparr>)) ''OK'')"
proof
  fix env
  have line: "rule_add_line (r_action staff_rule) (rule_tokens staff_rule) = ''RULE-ADD drop c=#staff c=#ops p=ask''"
    by (simp add: rule_add_line_def rule_tokens_def tokens_of_def staff_rule_def action_text_def)
  have "map to_lower ''#staff'' \<noteq> map to_lower ''#ops''" by code_simp
  then have "rule_ok staff_rule" by (simp add: rule_ok_def staff_rule_def crit_wf_def)
  from rule_add_roundtrip [OF this, of "peer_new (bot_empty :: unit irccd)" env]
  show "invoke env (peer_new (bot_empty :: unit irccd)) ''RULE-ADD drop c=#staff c=#ops p=ask'' =
     Some (peer_push (peer_new ((bot_empty :: unit irccd)\<lparr>bt_rules := [staff_rule]\<rparr>)) ''OK'')"
    unfolding line by (simp add: staff_rule_def peer_new_def bot_empty_def irc_bot_rule_size_def)
qed

text \<open>
  The index of a new rule cannot be relied on: given first, the code reads a pointer
  that was never set; given behind a criterion, the rule is inserted at the index but the
  number also becomes an entry of that criterion, so that the rule is not the one asked for.
\<close>
theorem rule_add_index:
  assumes "irc_util_stoi n = Inr i" and "CHR '' '' \<notin> set n" and "CHR '' '' \<notin> set ch"
  shows "invoke env p (rule_add_line a [''i='' @ n]) = None \<and>
    invoke env p (rule_add_line a [''c='' @ ch, ''i='' @ n]) =
      Some (peer_push (p\<lparr>pr_irccd := irc_bot_rule_insert (pr_irccd p)
        (irc_rule_add_channel (irc_rule_add_channel (irc_rule_new a) ch) n) (size_of_llong i)\<rparr>) ''OK'')"
proof -
  have plain: "map fst (pieces (skip_word (drop 9 (rule_add_line a ts)))) = ts"
    if "set ts \<subseteq> {''i='' @ n, ''c='' @ ch}" for ts
    using that assms(2,3) by (intro rule_add_pieces) (auto simp: is_space_def)
  obtain r where one: "pieces (skip_word (drop 9 (rule_add_line a [''i='' @ n]))) = [(''i='' @ n, r)]"
    using plain [of "[''i='' @ n]"] by auto
  obtain r1 r2 where two: "pieces (skip_word (drop 9 (rule_add_line a [''c='' @ ch, ''i='' @ n]))) =
      [(''c='' @ ch, r1), (''i='' @ n, r2)]"
    using plain [of "[''c='' @ ch, ''i='' @ n]"] by (auto simp: map_eq_Cons_conv)
  show ?thesis
    unfolding invoke_rule_add one two
    using assms(1) by (simp add: token_value_def rule_adders_def Let_def)
qed

theorem rule_add_index_witness:
  "\<forall>env. invoke env (peer_new (bot_empty :: unit irccd)) ''RULE-ADD accept i=0'' = None"
proof
  fix env
  have "irc_util_stoi ''0'' = Inr 0" by code_simp
  from rule_add_index [OF this, of "''#a''" env "peer_new (bot_empty :: unit irccd)" Rule_Accept]
  show "invoke env (peer_new (bot_empty :: unit irccd)) ''RULE-ADD accept i=0'' = None"
    by (simp add: rule_add_line_def action_text_def)
qed

section \<open>Arguments of a line\<close>

lemma split_loop_join:
  assumes "args \<noteq> []" and "length args \<le> mx" and "\<forall>a \<in> set (butlast args). d \<notin> set a"
    and "length args < mx \<Longrightarrow> d \<notin> set (last args)"
  shows "split_loop mx d (join_with d args) = args"
  using assms
proof (induction d args arbitrary: mx rule: join_with.induct)
  case (2 d x)
  then obtain n where mx: "mx = Suc n" by (cases mx) auto
  show ?case
  proof (cases n)
    case 0
    then show ?thesis using mx by (auto split: prod.split option.split)
  next
    case (Suc m)
    with 2 mx have "split_at d x = (x, None)" by (simp add: split_at_None)
    with mx show ?thesis by simp
  qed
next
  case (3 d x y ys)
  then obtain n where mx: "mx = Suc (Suc n)" by (cases mx; cases "mx - 1") auto
  from 3 have "split_at d (join_with d (x # y # ys)) = (x, Some (join_with d (y # ys)))"
    by (simp add: split_at_append)
  moreover have "split_loop (Suc n) d (join_with d (y # ys)) = y # ys"
    using "3.IH" [of "Suc n"] "3.prems" mx by simp
  ultimately show ?case by (simp only: mx split_loop.simps prod.case option.case nat.simps if_False)
qed simp

lemma parse_args:
  assumes "\<forall>c \<in> set w. \<not> is_space c" and "args \<noteq> []" and "length args \<le> mx"
    and "\<forall>a \<in> set (butlast args). CHR '' '' \<notin> set a"
    and "length args < mx \<Longrightarrow> CHR '' '' \<notin> set (last args)" and "join_with CHR '' '' args \<noteq> []"
  shows "parse (w @ CHR '' '' # join_with CHR '' '' args) mx = args"
proof -
  have "dropWhile (\<lambda>c. \<not> is_space c) (w @ CHR '' '' # r) = CHR '' '' # r" for r
    using assms(1) by (simp add: dropWhile_append2)
  then show ?thesis
    using split_loop_join [OF assms(2-5)] assms(6)
    by (simp add: parse_def after_word_def irc_util_split_def)
qed

section \<open>Messages\<close>

lemma update_first_found: "find P xs = Some s \<Longrightarrow> update_first P (\<lambda>_. s) xs = xs"
  by (induction xs) (auto split: if_splits)

lemma on_server_same:
  "irc_bot_server_get (pr_irccd p) name = Some s \<Longrightarrow> on_server p name s = p"
  by (simp add: irc_bot_server_get_def find_key_def on_server_def update_first_found)

text \<open>What a server sends, or not, for a line of text.\<close>

definition after_send :: "irc_server \<Rightarrow> string \<Rightarrow> irc_server" where
  "after_send s line =
     (case sv_coroutine s of
        None \<Rightarrow> s
      | Some c \<Rightarrow>
          if STATE_IDENT \<le> c_state c \<and> length (c_out c) + min 511 (length line) + 2 < CONN_OUT_SIZE
          then s\<lparr>sv_coroutine := Some (c\<lparr>c_out := c_out c @ wire (take 511 line), c_events := 3\<rparr>)\<rparr>
          else s)"

lemma snd_send: "snd (irc_server_send s line) = after_send s line"
proof (cases "sv_coroutine s")
  case (Some c)
  show ?thesis
    by (cases "c_state c < STATE_IDENT"; cases "length (c_out c) + min 511 (length line) + 2 < CONN_OUT_SIZE")
       (simp_all only: send_outcome after_send_def Some option.case if_True if_False snd_conv
          linorder_not_less [symmetric] simp_thms)
qed (simp add: send_outcome after_send_def)

text \<open>
  \<open>SERVER-MESSAGE\<close> puts one PRIVMSG line at the end of the output of that server, and
  nothing else changes.  The answer is OK in every case: when the server is not connected,
  or its output is full, the message is lost and the client is not told.
\<close>
theorem peer_message:
  assumes "irc_bot_server_get (pr_irccd p) name = Some s"
    and "CHR '' '' \<notin> set name" and "CHR '' '' \<notin> set ch"
  shows "invoke env p (''SERVER-MESSAGE '' @ name @ '' '' @ ch @ '' '' @ msg) =
      Some (peer_push (on_server p name (after_send s (''PRIVMSG '' @ ch @ '' :'' @ msg))) ''OK'') \<and>
    (\<not> server_ready s \<longrightarrow> on_server p name (after_send s (''PRIVMSG '' @ ch @ '' :'' @ msg)) = p)"
proof -
  let ?line = "''SERVER-MESSAGE'' @ CHR '' '' # join_with CHR '' '' [name, ch, msg]"
  have "parse ?line 3 = [name, ch, msg]"
    using assms(2,3) by (intro parse_args) (auto simp: is_space_def)
  moreover have "first_word ?line = ''SERVER-MESSAGE''"
    by (rule first_word_line) (simp_all add: is_space_def)
  moreover have "map_of (cmds env) ''SERVER-MESSAGE'' = Some (cmd_server_message :: 'a peer \<Rightarrow> string \<Rightarrow> 'a outcome)"
    by (simp add: cmds_def)
  ultimately have "invoke env p ?line =
      Some (peer_push (on_server p name (after_send s (''PRIVMSG '' @ ch @ '' :'' @ msg))) ''OK'')"
    using assms(1)
    by (intro invoke_command [where c = cmd_server_message])
       (simp_all add: cmd_server_message_def server_command_def require_server_def reply_ok_def
         replies_def irc_server_message_def snd_send)
  moreover have "after_send s line = s" if "\<not> server_ready s" for line
    using that by (auto simp: after_send_def server_ready_iff split: option.split)
  ultimately show ?thesis using on_server_same [OF assms(1)] by simp
qed

theorem peer_message_witness:
  "\<forall>env. invoke env (peer_new ((bot_empty :: unit irccd)\<lparr>bt_servers := [irc_server_new ''libera'']\<rparr>))
       ''SERVER-MESSAGE libera #a hello all'' =
     Some (peer_push (peer_new ((bot_empty :: unit irccd)\<lparr>bt_servers := [irc_server_new ''libera'']\<rparr>)) ''OK'')"
proof
  fix env
  let ?p = "peer_new ((bot_empty :: unit irccd)\<lparr>bt_servers := [irc_server_new ''libera'']\<rparr>)"
  have "irc_bot_server_get (pr_irccd ?p) ''libera'' = Some (irc_server_new ''libera'')"
    by (simp add: peer_new_def irc_bot_server_get_def irc_server_new_def)
  moreover have "\<not> server_ready (irc_server_new ''libera'')"
    by (simp add: server_ready_def irc__conn_ready_def irc_server_new_def)
  ultimately show "invoke env ?p ''SERVER-MESSAGE libera #a hello all'' = Some (peer_push ?p ''OK'')"
    using peer_message [of ?p "''libera''" "irc_server_new ''libera''" "''#a''" env "''hello all''"] by simp
qed

section \<open>Editing a rule in place\<close>

lemma skip_word_spaced:
  assumes "\<forall>c \<in> set w. \<not> is_space c" and "\<forall>t \<in> set ts. t \<noteq> [] \<and> \<not> is_space (hd t) \<and> CHR '' '' \<notin> set t"
  shows "tokens CHR '' '' (skip_word (w @ concat (map ((#) CHR '' '') ts))) = ts"
proof -
  let ?text = "concat (map ((#) CHR '' '') ts)"
  have word: "dropWhile (\<lambda>c. \<not> is_space c) (w @ ?text) = ?text"
    using assms(1) by (cases ts) (simp_all add: dropWhile_append2)
  have "dropWhile is_space ?text = (case ts of [] \<Rightarrow> [] | t # us \<Rightarrow> t @ concat (map ((#) CHR '' '') us))"
    using assms(2) by (cases ts) (auto simp: neq_Nil_conv)
  moreover have "tokens CHR '' '' (t @ x) = tokens CHR '' '' (CHR '' '' # t @ x)" for t x
    by (subst tokens.simps, subst (2) tokens.simps) simp
  ultimately have "tokens CHR '' '' (skip_word (w @ ?text)) = tokens CHR '' '' ?text"
    unfolding skip_word_def word by (cases ts) simp_all
  also have "\<dots> = ts" using assms(2) by (intro tokens_spaced) auto
  finally show ?thesis .
qed

definition rule_edit_line :: "nat \<Rightarrow> string list \<Rightarrow> string" where
  "rule_edit_line i ts = ''RULE-EDIT '' @ show_nat i @ concat (map ((#) CHR '' '') ts)"

lemma invoke_rule_edit:
  fixes p :: "'s peer"
  assumes "i < irc_bot_rule_size (pr_irccd p)" and "i < 2 ^ 64"
    and "\<forall>t \<in> set ts. t \<noteq> [] \<and> \<not> is_space (hd t) \<and> CHR '' '' \<notin> set t"
    and "rule_edit_loop (bt_rules (pr_irccd p) ! i) ts = (r', fin)"
  shows "invoke env p (rule_edit_line i ts) =
    Some (peer_push (p\<lparr>pr_irccd := (pr_irccd p)\<lparr>bt_rules := (bt_rules (pr_irccd p))[i := r']\<rparr>\<rparr>)
      (case fin of Edit_done \<Rightarrow> ''OK'' | Edit_errno e \<Rightarrow> strerror env e | Edit_action \<Rightarrow> ''ERROR invalid action''))"
proof -
  let ?text = "concat (map ((#) CHR '' '') ts)"
  have line: "rule_edit_line i ts = ''RULE-EDIT'' @ CHR '' '' # show_nat i @ ?text"
    by (simp add: rule_edit_line_def)
  have "first_word (rule_edit_line i ts) = ''RULE-EDIT''"
    unfolding line by (rule first_word_line) (simp_all add: is_space_def)
  then have cmd: "find_cmd env (rule_edit_line i ts) = Some (cmd_rule_edit :: 's peer \<Rightarrow> string \<Rightarrow> 's outcome)"
    by (simp add: find_cmd_eq cmds_def)
  have nodigit: "?text = [] \<or> \<not> is_digit (hd ?text)" by (cases ts) (simp_all add: is_digit_def)
  have "read_int (CHR '' '' # show_nat i @ ?text) = read_int (show_nat i @ ?text)"
    by (simp add: read_int_def)
  with read_int_show [OF nodigit] have "read_int (CHR '' '' # show_nat i @ ?text) = Some (int i, ?text)"
    by simp
  moreover have "\<bar>int i\<bar> < 2 ^ 64" "nat (int i mod 2 ^ 64) = i"
    using assms(2) by simp_all
  ultimately have scan: "sscanf_size ''RULE-EDIT'' (rule_edit_line i ts) = Some (Some i)"
    unfolding line by (simp add: sscanf_size_def)
  have "\<forall>c \<in> set (show_nat i). \<not> is_space c"
    using show_nat_digits [of i] by (auto simp: is_digit_def is_space_def Let_def)
  from skip_word_spaced [OF this assms(3)]
  have tok: "tokens CHR '' '' (skip_word (drop 10 (rule_edit_line i ts))) = ts" by (simp add: line)
  have "irc_bot_rule_get (pr_irccd p) i = Some (bt_rules (pr_irccd p) ! i)"
    using assms(1) by (simp add: irc_bot_rule_get_def)
  moreover have "\<not> length (rule_edit_line i ts) < 10" by (simp add: line)
  ultimately show ?thesis
    using cmd scan tok assms(1,4)
    by (cases fin) (simp_all add: invoke_def cmd_rule_edit_def reply_ok_def replies_def returns_def
        reply_error_def fit_def IRC_BUF_LEN_def)
qed

text \<open>
  \<open>RULE-EDIT\<close> edits the rule of that index and no other: "k+v" adds the value to the
  criterion k and "k-v" takes it out.  The edits are made one by one, so an invalid one is
  reported but those before it stay.
\<close>
theorem peer_rule_edit:
  assumes "i < irc_bot_rule_size (pr_irccd p)" and "irc_bot_rule_size (pr_irccd p) \<le> 2 ^ 64"
    and "map_of rule_adders k = Some add" and "map_of rule_removers k = Some remove"
    and "CHR '' '' \<notin> set v" and "CHR '' '' \<notin> set w"
  shows "\<forall>tail \<in> {[], [''?'']}.
    invoke env p (rule_edit_line i ([k # CHR ''+'' # v, k # CHR ''-'' # w] @ tail)) =
      Some (peer_push (p\<lparr>pr_irccd := (pr_irccd p)\<lparr>bt_rules :=
          (bt_rules (pr_irccd p))[i := remove (add (bt_rules (pr_irccd p) ! i) v) w]\<rparr>\<rparr>)
        (if tail = [] then ''OK'' else strerror env EINVAL))"
proof
  fix tail :: "string list"
  assume tail: "tail \<in> {[], [''?'']}"
  have k: "k \<noteq> CHR ''a''" "\<not> is_space k" "k \<noteq> CHR '' ''"
    using assms(3) by (auto simp: rule_adders_def is_space_def split: if_splits)
  then have "\<forall>t \<in> set ([k # CHR ''+'' # v, k # CHR ''-'' # w] @ tail).
      t \<noteq> [] \<and> \<not> is_space (hd t) \<and> CHR '' '' \<notin> set t"
    using assms(5,6) tail by (auto simp: is_space_def)
  moreover have "rule_edit_loop r ([k # CHR ''+'' # v, k # CHR ''-'' # w] @ tail) =
      (remove (add r v) w, if tail = [] then Edit_done else Edit_errno EINVAL)" for r
    using assms(3,4) k(1) tail by auto
  ultimately show "invoke env p (rule_edit_line i ([k # CHR ''+'' # v, k # CHR ''-'' # w] @ tail)) =
      Some (peer_push (p\<lparr>pr_irccd := (pr_irccd p)\<lparr>bt_rules :=
          (bt_rules (pr_irccd p))[i := remove (add (bt_rules (pr_irccd p) ! i) v) w]\<rparr>\<rparr>)
        (if tail = [] then ''OK'' else strerror env EINVAL))"
    using assms(1,2) by (subst invoke_rule_edit) auto
qed

theorem peer_rule_edit_witness:
  "\<forall>env. invoke env (peer_new ((bot_empty :: unit irccd)\<lparr>bt_rules := [irc_rule_new Rule_Drop]\<rparr>))
       ''RULE-EDIT 0 c+#a c-#b ?'' =
     Some (peer_push (peer_new ((bot_empty :: unit irccd)\<lparr>bt_rules :=
       [(irc_rule_new Rule_Drop)\<lparr>r_channels := Some [''#a'']\<rparr>]\<rparr>)) (strerror env EINVAL))"
proof
  fix env
  let ?p = "peer_new ((bot_empty :: unit irccd)\<lparr>bt_rules := [irc_rule_new Rule_Drop]\<rparr>)"
  have ab: "strcaseeq ''#a'' ''#b'' = False" by code_simp
  have r: "irc_rule_remove_channel (irc_rule_add_channel (irc_rule_new Rule_Drop) ''#a'') ''#b'' =
      (irc_rule_new Rule_Drop)\<lparr>r_channels := Some [''#a'']\<rparr>"
    by (simp add: irc_rule_remove_channel_def irc_rule_add_channel_def irc_rule_new_def list_add_def
        list_remove_def ab)
  have "\<forall>tail \<in> {[], [''?'']}.
    invoke env ?p (rule_edit_line 0 ([CHR ''c'' # CHR ''+'' # ''#a'', CHR ''c'' # CHR ''-'' # ''#b''] @ tail)) =
      Some (peer_push (?p\<lparr>pr_irccd := (pr_irccd ?p)\<lparr>bt_rules :=
          (bt_rules (pr_irccd ?p))[0 := irc_rule_remove_channel (irc_rule_add_channel (bt_rules (pr_irccd ?p) ! 0) ''#a'') ''#b'']\<rparr>\<rparr>)
        (if tail = [] then ''OK'' else strerror env EINVAL))"
    by (rule peer_rule_edit)
       (simp_all add: irc_bot_rule_size_def peer_new_def rule_adders_def rule_removers_def)
  moreover have "show_nat 0 = ''0''" by code_simp
  ultimately show "invoke env ?p ''RULE-EDIT 0 c+#a c-#b ?'' =
     Some (peer_push (peer_new ((bot_empty :: unit irccd)\<lparr>bt_rules :=
       [(irc_rule_new Rule_Drop)\<lparr>r_channels := Some [''#a'']\<rparr>]\<rparr>)) (strerror env EINVAL))"
    by (simp add: rule_edit_line_def peer_new_def r)
qed

section \<open>Missing arguments\<close>

text \<open>
  The reason of \<open>SERVER-KICK\<close> and \<open>SERVER-PART\<close> is optional in the protocol but not in
  the code: without it a NULL pointer is read as soon as the server exists.
\<close>
theorem peer_missing_reason:
  assumes "irc_bot_server_get (pr_irccd p) name = Some s" and "CHR '' '' \<notin> set name"
    and "CHR '' '' \<notin> set ch" and "CHR '' '' \<notin> set target" and "ch \<noteq> []"
  shows "invoke env p (''SERVER-KICK '' @ name @ '' '' @ ch @ '' '' @ target) = None \<and>
    invoke env p (''SERVER-PART '' @ name @ '' '' @ ch) = None"
proof -
  let ?k = "''SERVER-KICK'' @ CHR '' '' # join_with CHR '' '' [name, ch, target]"
  let ?l = "''SERVER-PART'' @ CHR '' '' # join_with CHR '' '' [name, ch]"
  have "parse ?k 4 = [name, ch, target]" "parse ?l 3 = [name, ch]"
    using assms(2-4) by (intro parse_args; auto simp: is_space_def)+
  moreover have "first_word ?k = ''SERVER-KICK''" "first_word ?l = ''SERVER-PART''"
    by (intro first_word_line; simp add: is_space_def)+
  ultimately show ?thesis
    using assms(1)
    by (simp add: invoke_def find_cmd_eq cmds_def cmd_server_kick_def cmd_server_part_def require_server_def)
qed

theorem peer_missing_reason_witness:
  "\<forall>env. invoke env (peer_new ((bot_empty :: unit irccd)\<lparr>bt_servers := [irc_server_new ''libera'']\<rparr>))
     ''SERVER-PART libera #a'' = None"
proof
  fix env
  let ?p = "peer_new ((bot_empty :: unit irccd)\<lparr>bt_servers := [irc_server_new ''libera'']\<rparr>)"
  have "irc_bot_server_get (pr_irccd ?p) ''libera'' = Some (irc_server_new ''libera'')"
    by (simp add: peer_new_def irc_bot_server_get_def irc_server_new_def)
  from peer_missing_reason [OF this, of "''#a''" "''jean''" env]
  show "invoke env ?p ''SERVER-PART libera #a'' = None" by simp
qed

end
