(* ===== verification/Transport.thy ===== *)
theory Transport
  imports Peer_Facts
begin

text \<open>
  The control socket (\<open>irccd/transport.c\<close>), its clients, and the broadcast of events
  (\<open>irccd/irccd.c\<close>): the clients are a list in the order of their connection, the bot is
  shared by all of them.
\<close>

section \<open>Listening\<close>

text \<open>
  The results of the system calls made by \<open>transport_start\<close>; \<open>None\<close> is success.  The state
  is that of the process: the descriptor, the umask, whether the socket listens.
\<close>

record listen_calls =
  lc_socket :: "errno + nat"
  lc_bind :: "errno option"
  lc_chown :: "errno option"
  lc_listen :: "errno option"

record transport =
  tp_fd :: "nat option"
  tp_umask :: nat
  tp_listening :: bool

definition SUN_PATH :: nat where "SUN_PATH = 108"

definition transport_umask :: nat where "transport_umask = 79"

definition transport_start ::
  "listen_calls \<Rightarrow> string \<Rightarrow> int \<Rightarrow> int \<Rightarrow> transport \<Rightarrow> bool \<times> transport" where
  "transport_start calls path uid gid t =
     (if SUN_PATH \<le> fst (irc_util_strlcpy path SUN_PATH) then (False, t\<lparr>tp_fd := None\<rparr>)
      else case lc_socket calls of
             Inl _ \<Rightarrow> (False, t\<lparr>tp_fd := None\<rparr>)
           | Inr fd \<Rightarrow>
               let t1 = t\<lparr>tp_umask := transport_umask\<rparr> in
               if lc_bind calls \<noteq> None then (False, t1\<lparr>tp_fd := None\<rparr>)
               else if uid \<noteq> -1 \<and> gid \<noteq> -1 \<and> lc_chown calls \<noteq> None then (False, t1\<lparr>tp_fd := None\<rparr>)
               else if lc_listen calls \<noteq> None then (False, t\<lparr>tp_fd := None\<rparr>)
               else (True, t\<lparr>tp_fd := Some fd, tp_listening := True\<rparr>))"

text \<open>
  The socket is open exactly when it could be set up entirely, and is closed again
  otherwise.  The umask of the process is put back on success and when listening fails, but
  not when binding or the change of owner fails: the daemon then goes on with the mask
  meant for the socket.
\<close>
theorem transport_start_outcome:
  assumes "tp_fd t = None"
  shows "case transport_start calls path uid gid t of (good, t') \<Rightarrow>
    good = (tp_fd t' \<noteq> None) \<and>
    good = (length path < 108 \<and> (\<exists>fd. lc_socket calls = Inr fd) \<and> lc_bind calls = None \<and>
      (uid = -1 \<or> gid = -1 \<or> lc_chown calls = None) \<and> lc_listen calls = None) \<and>
    tp_umask t' = (if length path < 108 \<and> (\<exists>fd. lc_socket calls = Inr fd) \<and>
        (lc_bind calls \<noteq> None \<or> uid \<noteq> -1 \<and> gid \<noteq> -1 \<and> lc_chown calls \<noteq> None)
      then transport_umask else tp_umask t)"
  using assms
  by (auto simp: transport_start_def irc_util_strlcpy_def SUN_PATH_def Let_def split: sum.split)

theorem transport_start_outcome_witness:
  "tp_umask (snd (transport_start \<lparr>lc_socket = Inr 3, lc_bind = Some EEXIST, lc_chown = None, lc_listen = None\<rparr>
     ''/tmp/irccd.sock'' (-1) (-1) \<lparr>tp_fd = None, tp_umask = 18, tp_listening = False\<rparr>)) = transport_umask"
  using transport_start_outcome [where t = "\<lparr>tp_fd = None, tp_umask = 18, tp_listening = False\<rparr>"
      and calls = "\<lparr>lc_socket = Inr 3, lc_bind = Some EEXIST, lc_chown = None, lc_listen = None\<rparr>"
      and path = "''/tmp/irccd.sock''" and uid = "-1" and gid = "-1"]
  by (simp split: prod.splits)

section \<open>Clients\<close>

record client =
  cl_active :: bool
  cl_watching :: bool
  cl_in :: string
  cl_out :: "string list"

definition client_new :: client where
  "client_new = \<lparr>cl_active = True, cl_watching = False, cl_in = [], cl_out = []\<rparr>"

definition client_push :: "client \<Rightarrow> string \<Rightarrow> client" where
  "client_push c s = c\<lparr>cl_out := cl_out c @ [s]\<rparr>"

text \<open>One connection request: the new client is appended, then the dead ones are reaped.\<close>

definition transport_entry :: "bool \<Rightarrow> client list \<Rightarrow> client list" where
  "transport_entry accepted peers =
     filter cl_active (if accepted then peers @ [client_new] else peers)"

definition transport_broadcast :: "client list \<Rightarrow> string \<Rightarrow> client list" where
  "transport_broadcast peers txt = map (\<lambda>c. if cl_watching c then client_push c txt else c) peers"

definition broadcaster :: "client list \<Rightarrow> irc_event \<Rightarrow> client list" where
  "broadcaster peers ev =
     (case irc_event_str ev [] IRC_BUF_LEN of
        (rep, txt) \<Rightarrow> if rep then transport_broadcast peers txt else peers)"

definition transport_stop :: "transport \<times> client list \<Rightarrow> transport \<times> client list" where
  "transport_stop = (\<lambda>(t, peers). (t\<lparr>tp_listening := False\<rparr>, []))"

section \<open>The daemon\<close>

record 's daemon =
  dm_irccd :: "'s irccd"
  dm_peers :: "client list"

text \<open>
  What the actions recorded by a command mean for the clients: a reply goes to the client
  \<open>i\<close> that sent the line, an observed event to those who watch.
\<close>

fun deliver :: "nat \<Rightarrow> client list \<Rightarrow> effect list \<Rightarrow> client list" where
  "deliver i peers [] = peers"
| "deliver i peers (Reply s # es) = deliver i (peers[i := client_push (peers ! i) s]) es"
| "deliver i peers (Act a # es) =
     deliver i (case a of Observe ev \<Rightarrow> broadcaster peers ev | _ \<Rightarrow> peers) es"

text \<open>The client \<open>i\<close> sends one line, then bytes in which lines may be complete.\<close>

definition daemon_line :: "peer_env \<Rightarrow> nat \<Rightarrow> string \<Rightarrow> 's daemon \<Rightarrow> 's daemon option" where
  "daemon_line env i line d =
     map_option (\<lambda>p. \<lparr>dm_irccd = pr_irccd p,
         dm_peers = (let peers = deliver i (dm_peers d) (pr_log p)
                     in peers[i := (peers ! i)\<lparr>cl_watching := pr_is_watching p\<rparr>])\<rparr>)
       (invoke env \<lparr>pr_irccd = dm_irccd d, pr_is_watching = cl_watching (dm_peers d ! i), pr_log = []\<rparr> line)"

function daemon_lines :: "peer_env \<Rightarrow> nat \<Rightarrow> string \<Rightarrow> 's daemon \<Rightarrow> ('s daemon \<times> string) option" where
  "daemon_lines env i input d =
     (case split_at LF input of
        (_, None) \<Rightarrow> Some (d, input)
      | (line, Some rest) \<Rightarrow>
          if line = [] then daemon_lines env i rest d
          else daemon_line env i (takeWhile (\<lambda>c. c \<noteq> NUL) line) d \<bind> daemon_lines env i rest)"
  by pat_completeness auto
termination
  by (relation "measure (\<lambda>(_, _, input, _). length input)") (simp_all, (metis split_at_length)+)

declare daemon_lines.simps [simp del]

definition daemon_recv :: "peer_env \<Rightarrow> nat \<Rightarrow> string \<Rightarrow> 's daemon \<Rightarrow> 's daemon option" where
  "daemon_recv env i chunk d =
     map_option (\<lambda>(d', rest). d'\<lparr>dm_peers := (dm_peers d')[i := (dm_peers d' ! i)\<lparr>cl_in := rest\<rparr>]\<rparr>)
       (daemon_lines env i (cl_in (dm_peers d ! i) @ chunk) d)"

text \<open>An event from a server, dispatched by the bot.\<close>

definition daemon_event :: "irc_server \<Rightarrow> irc_event \<Rightarrow> 's daemon \<Rightarrow> 's daemon option" where
  "daemon_event server ev d =
     map_option (\<lambda>(as, b). \<lparr>dm_irccd = b, dm_peers = deliver 0 (dm_peers d) (map Act as)\<rparr>)
       (irc_bot_dispatch (dm_irccd d) server ev)"

section \<open>Who is told what\<close>

text \<open>The lines that the effects of a command send to a client.\<close>

definition event_text :: "irc_event \<Rightarrow> string list" where
  "event_text ev = (case irc_event_str ev [] IRC_BUF_LEN of (rep, txt) \<Rightarrow> if rep then [txt] else [])"

fun sees :: "bool \<Rightarrow> bool \<Rightarrow> effect \<Rightarrow> string list" where
  "sees own watching (Reply s) = (if own then [s] else [])"
| "sees own watching (Act (Observe ev)) = (if watching then event_text ev else [])"
| "sees own watching (Act _) = []"

lemma length_deliver [simp]: "length (deliver i peers es) = length peers"
  by (induction i peers es rule: deliver.induct)
     (simp_all add: broadcaster_def transport_broadcast_def split: act.split prod.split)

lemma broadcaster_nth:
  "j < length peers \<Longrightarrow> broadcaster peers ev ! j =
     (peers ! j)\<lparr>cl_out := cl_out (peers ! j) @ (if cl_watching (peers ! j) then event_text ev else [])\<rparr>"
  by (simp add: broadcaster_def transport_broadcast_def client_push_def event_text_def split: prod.split)

lemma length_broadcaster [simp]: "length (broadcaster peers ev) = length peers"
  by (simp add: broadcaster_def transport_broadcast_def split: prod.split)

lemma deliver_nth:
  "j < length peers \<Longrightarrow> deliver i peers es ! j =
     (peers ! j)\<lparr>cl_out := cl_out (peers ! j) @ concat (map (sees (j = i) (cl_watching (peers ! j))) es)\<rparr>"
proof (induction i peers es rule: deliver.induct)
  case (2 i peers s es)
  then show ?case by (cases "j = i") (simp_all add: client_push_def)
next
  case (3 i peers a es)
  then show ?case by (cases a) (simp_all add: broadcaster_nth)
qed simp



lemma plugins_loop_unobserved:
  "plugins_loop rules sv ev ps c = Some (as, qs, c') \<Longrightarrow> concat (map (sees own w) (map Act as)) = []"
  by (induction rules sv ev ps c arbitrary: as qs c' rule: plugins_loop.induct)
     (auto simp: bind_eq_Some_conv split: if_splits)

lemma command_call_unobserved:
  "command_call rules sv ev ps c = Some (as, qs) \<Longrightarrow> concat (map (sees own w) (map Act as)) = []"
  by (auto simp: command_call_def split: option.splits if_splits)

lemma hooks_unobserved: "concat (map (sees own w) (map Act (hooks_run hooks ev))) = []"
  by (induction hooks) (auto simp: hooks_run_def split: option.split)



end
