(* ===== verification/Ctl.thy ===== *)
theory Ctl
  imports Transport
begin

text \<open>
  The control client (\<open>irccdctl/irccdctl.c\<close>): it connects to the daemon, sends one request
  and prints the answer, or watches the events.

  The state is what the process keeps and what it did: the input buffer, the results that
  \<open>recv\<close> and \<open>send\<close> are going to have, the bytes sent, the lines printed.  A run ends with
  a value, dies with a message, or is undefined (a NULL argument printed, for instance).
\<close>

section \<open>State and runs\<close>

datatype abort = Die string | Die_errno string errno | Undefined

record ctl =
  ct_in :: string
  ct_recv :: "(errno + string) list"
  ct_send :: "(errno + nat) list"
  ct_sent :: string
  ct_stdout :: "string list"

type_synonym 'a run = "abort \<times> ctl + 'a \<times> ctl"

definition chain :: "'a run \<Rightarrow> ('a \<Rightarrow> ctl \<Rightarrow> 'b run) \<Rightarrow> 'b run" where
  "chain m f = (case m of Inl e \<Rightarrow> Inl e | Inr (x, w) \<Rightarrow> f x w)"

definition print_line :: "string \<Rightarrow> ctl \<Rightarrow> ctl" where
  "print_line s w = w\<lparr>ct_stdout := ct_stdout w @ [s]\<rparr>"

definition print_lines :: "string list \<Rightarrow> ctl \<Rightarrow> ctl" where
  "print_lines ls w = w\<lparr>ct_stdout := ct_stdout w @ ls\<rparr>"

text \<open>\<open>printf ("%-16s%s\n", label, value)\<close>.\<close>

definition field :: "string \<Rightarrow> string \<Rightarrow> string" where
  "field label value = label @ replicate (16 - length label) CHR '' '' @ value"

section \<open>Reading and writing\<close>

text \<open>
  The loop of \<open>poll\<close>: the buffer is a C string of 512 bytes, each \<open>recv\<close> reads up to 511
  bytes, and nothing more to receive is a closed connection.
\<close>

fun poll_loop :: "string \<Rightarrow> (errno + string) list \<Rightarrow> abort + string \<times> string \<times> (errno + string) list" where
  "poll_loop inp rs =
     (case split_at LF inp of
        (line, Some rest) \<Rightarrow> Inr (line, rest, rs)
      | (_, None) \<Rightarrow>
          (case rs of
             [] \<Rightarrow> Inl (Die_errno ''abort: recv: '' ECONNRESET)
           | Inl e # _ \<Rightarrow> Inl (Die_errno ''abort: recv: '' e)
           | Inr data # rs' \<Rightarrow>
               if data = [] then Inl (Die_errno ''abort: recv: '' ECONNRESET)
               else (case irc_util_strlcat inp (takeWhile (\<lambda>c. c \<noteq> NUL) (take (IRC_BUF_LEN - 1) data)) IRC_BUF_LEN of
                       (len, inp') \<Rightarrow>
                         if IRC_BUF_LEN \<le> len then Inl (Die_errno ''abort: recv: '' EMSGSIZE)
                         else poll_loop inp' rs')))"

declare poll_loop.simps [simp del]

definition poll :: "ctl \<Rightarrow> string run" where
  "poll w = (case poll_loop (ct_in w) (ct_recv w) of
      Inl e \<Rightarrow> Inl (e, w)
    | Inr (line, rest, rs) \<Rightarrow> Inr (line, w\<lparr>ct_in := rest, ct_recv := rs\<rparr>))"

text \<open>
  The loop of \<open>req\<close> until the output is empty: \<open>Inl e\<close> is a \<open>send\<close> that failed, \<open>Inr n\<close>
  one that took \<open>n + 1\<close> bytes; behind the given results the kernel takes everything.
\<close>

fun send_loop :: "string \<Rightarrow> (errno + nat) list \<Rightarrow> abort + string \<times> (errno + nat) list" where
  "send_loop out [] = Inr (out, [])"
| "send_loop out (Inl e # ss) = Inl (Die_errno ''abort: send: '' e)"
| "send_loop out (Inr ns # ss) =
     (if length out \<le> Suc ns then Inr (out, ss)
      else (case send_loop (drop (Suc ns) out) ss of
              Inl e \<Rightarrow> Inl e | Inr (sent, ss') \<Rightarrow> Inr (take (Suc ns) out @ sent, ss')))"

definition req :: "string \<Rightarrow> ctl \<Rightarrow> unit run" where
  "req txt w =
     (let buf = takeWhile (\<lambda>c. c \<noteq> NUL) (fit IRC_BUF_LEN txt) in
      if IRC_BUF_LEN \<le> length buf + 1 then Inl (Die_errno ''abort: '' EMSGSIZE, w)
      else (case send_loop (buf @ [LF]) (ct_send w) of
              Inl e \<Rightarrow> Inl (e, w)
            | Inr (sent, ss) \<Rightarrow> Inr ((), w\<lparr>ct_sent := ct_sent w @ sent, ct_send := ss\<rparr>)))"

text \<open>\<open>sscanf (line, "IRCCD %d.%d.%d", ...)\<close> with all three numbers.\<close>

definition sscanf_hello :: "string \<Rightarrow> (int \<times> int \<times> int) option" where
  "sscanf_hello line =
     (if take 5 line \<noteq> ''IRCCD'' then None
      else do {
        (a, r1) \<leftarrow> read_int (drop 5 line);
        r2 \<leftarrow> scan_char CHR ''.'' r1;
        (b, r3) \<leftarrow> read_int r2;
        r4 \<leftarrow> scan_char CHR ''.'' r3;
        (c, _) \<leftarrow> read_int r4;
        Some (a, b, c)
      })"

definition check :: "bool \<Rightarrow> ctl \<Rightarrow> unit run" where
  "check verbose w = chain (poll w) (\<lambda>line w.
     case sscanf_hello line of
       None \<Rightarrow> Inl (Die ''abort: not irccd instance'', w)
     | Some (a, b, c) \<Rightarrow>
         Inr ((), if verbose
                  then print_line (''connected to irccd '' @ show_int a @ ''.'' @ show_int b @ ''.'' @ show_int c) w
                  else w))"

text \<open>\<open>ok\<close>: the answer must start with OK; what follows is returned without its blanks.\<close>

definition get_ok :: "ctl \<Rightarrow> string run" where
  "get_ok w = chain (poll w) (\<lambda>response w.
     if \<not> strneq response ''OK'' 2 then Inl (Die (''abort: '' @ response), w)
     else Inr (dropWhile is_space (drop 2 response), w))"

definition simple :: "string \<Rightarrow> ctl \<Rightarrow> unit run" where
  "simple txt w = chain (req txt w) (\<lambda>_ w. chain (get_ok w) (\<lambda>_ w. Inr ((), w)))"

section \<open>Showing events\<close>

text \<open>Each gives the lines it prints; a NULL that is printed is undefined.\<close>

definition labelled :: "(string \<times> string) list \<Rightarrow> (abort + string list)" where
  "labelled ps = Inr (map (\<lambda>(l, v). field l v) ps)"

definition show_connect :: "string \<Rightarrow> abort + string list" where
  "show_connect line =
     (case irc_util_split line 2 CHR '' '' of
        [a, b] \<Rightarrow> labelled [(''event:'', ''onConnect''), (''server:'', a)]
      | _ \<Rightarrow> Inr [])"

definition show_disconnect :: "string \<Rightarrow> abort + string list" where
  "show_disconnect line =
     (case irc_util_split line 2 CHR '' '' of
        [a, b] \<Rightarrow> labelled [(''event:'', ''onDisonnect''), (''server:'', a)]
      | _ \<Rightarrow> Inr [])"

definition show_invite :: "string \<Rightarrow> abort + string list" where
  "show_invite line =
     (case irc_util_split line 5 CHR '' '' of
        [_, a, b, c, d] \<Rightarrow> labelled [(''event:'', ''onInvite''), (''server:'', a), (''origin:'', b),
          (''channel:'', c), (''nickname:'', d)]
      | _ \<Rightarrow> Inr [])"

definition show_join :: "string \<Rightarrow> abort + string list" where
  "show_join line =
     (case irc_util_split line 4 CHR '' '' of
        [_, a, b, c] \<Rightarrow> labelled [(''event:'', ''onJoin''), (''server:'', a), (''origin:'', b), (''channel:'', c)]
      | _ \<Rightarrow> Inr [])"

definition show_kick :: "string \<Rightarrow> abort + string list" where
  "show_kick line =
     (case irc_util_split line 6 CHR '' '' of
        _ # a # b # c # d # rest \<Rightarrow> labelled [(''event:'', ''onKick''), (''server:'', a), (''origin:'', b),
          (''channel:'', c), (''target:'', d), (''reason:'', case rest of [] \<Rightarrow> [] | r # _ \<Rightarrow> r)]
      | _ \<Rightarrow> Inr [])"

definition show_text :: "string \<Rightarrow> string \<Rightarrow> abort + string list" where
  "show_text event line =
     (case irc_util_split line 5 CHR '' '' of
        [_, a, b, c, d] \<Rightarrow> labelled [(''event:'', event), (''server:'', a), (''origin:'', b),
          (''channel:'', c), (''message:'', d)]
      | _ \<Rightarrow> Inr [])"

definition show_me :: "string \<Rightarrow> abort + string list" where
  "show_me = show_text ''onMe''"

definition show_message :: "string \<Rightarrow> abort + string list" where
  "show_message = show_text ''onMessage''"

definition show_notice :: "string \<Rightarrow> abort + string list" where
  "show_notice = show_text ''onNotice''"

definition show_mode :: "string \<Rightarrow> abort + string list" where
  "show_mode line =
     (case irc_util_split line 8 CHR '' '' of
        _ # a # b # c # d # rest \<Rightarrow> Inr [field ''event:'' ''onMode'', field ''server:'' a, field ''origin:'' b,
          field ''channel:'' c,
          ''mode: '' @ replicate 10 CHR '' '' @ concat (map (\<lambda>m. m @ '' '') (d # rest))]
      | _ \<Rightarrow> Inr [])"

definition show_nick :: "string \<Rightarrow> abort + string list" where
  "show_nick line =
     (case irc_util_split line 4 CHR '' '' of
        [_, a, b, c] \<Rightarrow> labelled [(''event:'', ''onNick''), (''server:'', a), (''origin:'', b), (''nickname:'', c)]
      | _ \<Rightarrow> Inr [])"

definition show_part :: "string \<Rightarrow> abort + string list" where
  "show_part line =
     (case irc_util_split line 5 CHR '' '' of
        _ # a # b # c # rest \<Rightarrow> labelled [(''event:'', ''onPart''), (''server:'', a), (''origin:'', b),
          (''channel:'', c), (''reason:'', case rest of [] \<Rightarrow> [] | r # _ \<Rightarrow> r)]
      | _ \<Rightarrow> Inr [])"

definition show_topic :: "string \<Rightarrow> abort + string list" where
  "show_topic line =
     (case irc_util_split line 5 CHR '' '' of
        [_, a, b, c, d] \<Rightarrow> labelled [(''event:'', ''onTopic''), (''server:'', a), (''origin:'', b),
          (''channel:'', c), (''topic:'', d)]
      | [_, a, b, c] \<Rightarrow> Inl Undefined
      | _ \<Rightarrow> Inr [])"

definition show_whois :: "string \<Rightarrow> abort + string list" where
  "show_whois line =
     (case irc_util_split line 6 CHR '' '' of
        [_, a, b, c, d, e] \<Rightarrow> labelled [(''event:'', ''onWhois''), (''server:'', a), (''nickname:'', b),
          (''username:'', c), (''hostname:'', d), (''username:'', e)]
      | _ # _ # _ # _ # _ \<Rightarrow> Inl Undefined
      | _ \<Rightarrow> Inr [])"

definition watchtable :: "(string \<times> (string \<Rightarrow> abort + string list)) list" where
  "watchtable =
     [(''EVENT-CONNECT'', show_connect), (''EVENT-DISCONNECT'', show_disconnect),
      (''EVENT-INVITE'', show_invite), (''EVENT-JOIN'', show_join), (''EVENT-KICK'', show_kick),
      (''EVENT-MESSAGE'', show_message), (''EVENT-ME'', show_me), (''EVENT-MODE'', show_mode),
      (''EVENT-NICK'', show_nick), (''EVENT-NOTICE'', show_notice), (''EVENT-PART'', show_part),
      (''EVENT-TOPIC'', show_topic), (''EVENT-WHOIS'', show_whois)]"

text \<open>The first entry whose name starts the line; an empty line ends what it prints.\<close>

definition show_event :: "string \<Rightarrow> abort + string list" where
  "show_event ev =
     (case find (\<lambda>(name, _). strneq name ev (length name)) watchtable of
        None \<Rightarrow> Inr []
      | Some (_, f) \<Rightarrow> (case f ev of Inl e \<Rightarrow> Inl e | Inr ls \<Rightarrow> Inr (ls @ [[]])))"

section \<open>Options\<close>

text \<open>
  POSIX \<open>getopt\<close> on the arguments behind the name of the command (the program sets
  \<open>POSIXLY_CORRECT\<close>): the options with their values, \<open>?\<close> for one that is unknown or whose
  value is missing, and the arguments that are left.
\<close>

definition opt_kind :: "string \<Rightarrow> char \<Rightarrow> bool option" where
  "opt_kind spec c =
     (if c = CHR '':'' \<or> c \<notin> set spec then None
      else Some (take 1 (tl (dropWhile (\<lambda>x. x \<noteq> c) spec)) = '':''))"

type_synonym opt = "char \<times> string option"

text \<open>The letters of one argument: the options, and whether the last one takes the next argument.\<close>

fun cluster :: "string \<Rightarrow> string \<Rightarrow> opt list \<times> char option" where
  "cluster spec [] = ([], None)"
| "cluster spec (c # cs) =
     (case opt_kind spec c of
        None \<Rightarrow> (case cluster spec cs of (os, r) \<Rightarrow> ((CHR ''?'', None) # os, r))
      | Some False \<Rightarrow> (case cluster spec cs of (os, r) \<Rightarrow> ((c, None) # os, r))
      | Some True \<Rightarrow> if cs = [] then ([], Some c) else ([(c, Some cs)], None))"

fun getopt :: "string \<Rightarrow> string list \<Rightarrow> opt list \<times> string list" where
  "getopt spec [] = ([], [])"
| "getopt spec (a # as) =
     (if a = ''--'' then ([], as)
      else if a = ''-'' \<or> a = [] \<or> hd a \<noteq> CHR ''-'' then ([], a # as)
      else case cluster spec (tl a) of
             (os, None) \<Rightarrow> (case getopt spec as of (os', rest) \<Rightarrow> (os @ os', rest))
           | (os, Some c) \<Rightarrow>
               (case as of
                  [] \<Rightarrow> (os @ [(CHR ''?'', None)], [])
                | v # as' \<Rightarrow> (case getopt spec as' of (os', rest) \<Rightarrow> (os @ (c, Some v) # os', rest))))"

section \<open>Commands\<close>

text \<open>
  The arguments behind the name of the command; reading behind the last one is a NULL,
  undefined when it is printed.
\<close>

definition unwords :: "string list \<Rightarrow> string" where
  "unwords = join_with CHR '' ''"

definition args1 :: "(string \<Rightarrow> ctl \<Rightarrow> unit run) \<Rightarrow> string list \<Rightarrow> ctl \<Rightarrow> unit run" where
  "args1 f args w = (case args of a # _ \<Rightarrow> f a w | _ \<Rightarrow> Inl (Undefined, w))"

definition args2 :: "(string \<Rightarrow> string \<Rightarrow> ctl \<Rightarrow> unit run) \<Rightarrow> string list \<Rightarrow> ctl \<Rightarrow> unit run" where
  "args2 f args w = (case args of a # b # _ \<Rightarrow> f a b w | _ \<Rightarrow> Inl (Undefined, w))"

definition args3 :: "(string \<Rightarrow> string \<Rightarrow> string \<Rightarrow> ctl \<Rightarrow> unit run) \<Rightarrow> string list \<Rightarrow> ctl \<Rightarrow> unit run" where
  "args3 f args w = (case args of a # b # c # _ \<Rightarrow> f a b c w | _ \<Rightarrow> Inl (Undefined, w))"

definition ctl_hook_add :: "string list \<Rightarrow> ctl \<Rightarrow> unit run" where
  "ctl_hook_add = args2 (\<lambda>a b. simple (''HOOK-ADD '' @ a @ '' '' @ b))"

definition response_list :: "string \<Rightarrow> ctl \<Rightarrow> unit run" where
  "response_list cmd w = chain (req cmd w) (\<lambda>_ w. chain (poll w) (\<lambda>line w.
     if \<not> strneq line ''OK '' 3 then Inl (Die ''abort: failed to retrieve list'', w)
     else let list = map (\<lambda>c. if c = CHR '' '' then LF else c) (drop 3 line)
          in Inr ((), if list = [] then w else print_line list w)))"

definition ctl_hook_list :: "string list \<Rightarrow> ctl \<Rightarrow> unit run" where
  "ctl_hook_list args = response_list ''HOOK-LIST''"

definition ctl_hook_remove :: "string list \<Rightarrow> ctl \<Rightarrow> unit run" where
  "ctl_hook_remove = args1 (\<lambda>a. simple (''HOOK-REMOVE '' @ a))"

text \<open>\<open>sscanf (line, "%zu", &num)\<close>, with the message when there is no number.\<close>

definition scan_count :: "string \<Rightarrow> string \<Rightarrow> abort + nat" where
  "scan_count failure line =
     (case read_int line of
        None \<Rightarrow> Inl (Die failure)
      | Some (v, _) \<Rightarrow> if \<bar>v\<bar> < 2 ^ 64 then Inr (nat (v mod 2 ^ 64)) else Inl Undefined)"

text \<open>The name that \<open>snprintf\<close> puts into 16 bytes is cut, with its colon.\<close>

fun print_list :: "nat \<Rightarrow> ctl \<Rightarrow> unit run" where
  "print_list 0 w = Inr ((), w)"
| "print_list (Suc n) w = chain (poll w) (\<lambda>line w.
     print_list n (case split_at CHR ''='' line of
        (_, None) \<Rightarrow> w
      | (key, Some value) \<Rightarrow> print_line (field (fit 16 (key @ '':'')) value) w))"

definition ctl_plugin_list_set :: "string \<Rightarrow> string list \<Rightarrow> ctl \<Rightarrow> unit run" where
  "ctl_plugin_list_set cmd args w =
     (case args of
        [a, b, c] \<Rightarrow> simple (unwords [cmd, a, b, c]) w
      | [] \<Rightarrow> Inl (Undefined, w)
      | a # rest \<Rightarrow>
          chain (req (unwords (cmd # a # (if length args = 2 then rest else []))) w) (\<lambda>_ w.
          chain (get_ok w) (\<lambda>line w.
            case scan_count ''abort: could not retrieve list'' line of
              Inl e \<Rightarrow> Inl (e, w)
            | Inr num \<Rightarrow>
                if length args = 2 then chain (poll w) (\<lambda>value w. Inr ((), print_line value w))
                else print_list num w)))"

definition ctl_plugin_info :: "string list \<Rightarrow> ctl \<Rightarrow> unit run" where
  "ctl_plugin_info = args1 (\<lambda>a w. chain (req (''PLUGIN-INFO '' @ a) w) (\<lambda>_ w. chain (poll w) (\<lambda>response w.
     if \<not> strneq response ''OK '' 3 then Inl (Die ''abort: failed to retrieve plugin information'', w)
     else chain (poll (print_line (field ''name:'' (drop 3 response)) w)) (\<lambda>summary w.
          chain (poll (print_line (field ''summary:'' summary) w)) (\<lambda>version w.
          chain (poll (print_line (field ''version:'' version) w)) (\<lambda>license w.
          chain (poll (print_line (field ''license:'' license) w)) (\<lambda>author w.
            Inr ((), print_line (field ''author:'' author) w))))))))"

definition ctl_plugin_list :: "string list \<Rightarrow> ctl \<Rightarrow> unit run" where
  "ctl_plugin_list args = response_list ''PLUGIN-LIST''"

definition ctl_plugin_load :: "string list \<Rightarrow> ctl \<Rightarrow> unit run" where
  "ctl_plugin_load = args1 (\<lambda>a. simple (''PLUGIN-LOAD '' @ a))"

text \<open>The commands with one optional argument.\<close>

definition optional1 :: "string \<Rightarrow> string list \<Rightarrow> ctl \<Rightarrow> unit run" where
  "optional1 cmd args = simple (case args of [a] \<Rightarrow> cmd @ '' '' @ a | _ \<Rightarrow> cmd)"

definition ctl_plugin_reload :: "string list \<Rightarrow> ctl \<Rightarrow> unit run" where
  "ctl_plugin_reload = optional1 ''PLUGIN-RELOAD''"

definition ctl_plugin_unload :: "string list \<Rightarrow> ctl \<Rightarrow> unit run" where
  "ctl_plugin_unload = optional1 ''PLUGIN-UNLOAD''"

text \<open>
  The criteria are written before the action, which ends the text again although it was
  put in front of the request already.  The value of an unknown option is NULL.
\<close>

fun opt_texts :: "(char \<Rightarrow> string \<Rightarrow> string) \<Rightarrow> opt list \<Rightarrow> string option" where
  "opt_texts f [] = Some []"
| "opt_texts f ((c, None) # os) = None"
| "opt_texts f ((c, Some v) # os) = map_option ((@) (f c v)) (opt_texts f os)"

definition ctl_rule_add :: "string list \<Rightarrow> ctl \<Rightarrow> unit run" where
  "ctl_rule_add args w =
     (case getopt ''c:e:i:o:p:s:'' args of (os, rest) \<Rightarrow>
        (case opt_texts (\<lambda>c v. [c, CHR ''=''] @ v @ '' '') os of
           None \<Rightarrow> Inl (Undefined, w)
         | Some txt \<Rightarrow>
             (case rest of
                [] \<Rightarrow> Inl (Die ''abort: missing accept or drop rule action'', w)
              | action # _ \<Rightarrow>
                  simple (''RULE-ADD '' @ action @ '' '' @ fmem (IRC_BUF_LEN - 1) (txt @ action)) w)))"

definition edit_text :: "char \<Rightarrow> string \<Rightarrow> string" where
  "edit_text c v =
     (if c = CHR ''a'' then ''a='' @ v @ '' ''
      else [to_lower c, if to_lower c \<noteq> c then CHR ''-'' else CHR ''+''] @ v @ '' '')"

definition ctl_rule_edit :: "string list \<Rightarrow> ctl \<Rightarrow> unit run" where
  "ctl_rule_edit args w =
     (case getopt ''a:C:c:E:e:O:o:P:p:S:s:'' args of (os, rest) \<Rightarrow>
        (case opt_texts edit_text os of
           None \<Rightarrow> Inl (Undefined, w)
         | Some txt \<Rightarrow>
             (case rest of
                [] \<Rightarrow> Inl (Die ''abort: missing rule index'', w)
              | index # _ \<Rightarrow>
                  simple (''RULE-EDIT '' @ index @ '' '' @ fmem (IRC_BUF_LEN - 1) txt) w)))"

fun rule_list_loop :: "nat \<Rightarrow> nat \<Rightarrow> ctl \<Rightarrow> unit run" where
  "rule_list_loop i 0 w = Inr ((), w)"
| "rule_list_loop i (Suc n) w =
     chain (poll (print_line (field ''index:'' (show_nat i)) w)) (\<lambda>action w.
     chain (poll (print_line (field ''action:'' action) w)) (\<lambda>servers w.
     chain (poll (print_line (field ''servers:'' servers) w)) (\<lambda>channels w.
     chain (poll (print_line (field ''channels:'' channels) w)) (\<lambda>origins w.
     chain (poll (print_line (field ''origins:'' origins) w)) (\<lambda>plugins w.
     chain (poll (print_line (field ''plugins:'' plugins) w)) (\<lambda>events w.
       let w = print_line (field ''events:'' events) w
       in rule_list_loop (Suc i) n (if n = 0 then w else print_line [] w)))))))"

definition ctl_rule_list :: "string list \<Rightarrow> ctl \<Rightarrow> unit run" where
  "ctl_rule_list args w = chain (req ''RULE-LIST'' w) (\<lambda>_ w. chain (get_ok w) (\<lambda>line w.
     case scan_count ''abort: could not retrieve rule list'' line of
       Inl e \<Rightarrow> Inl (e, w)
     | Inr num \<Rightarrow> rule_list_loop 0 num w))"

definition ctl_rule_move :: "string list \<Rightarrow> ctl \<Rightarrow> unit run" where
  "ctl_rule_move = args2 (\<lambda>a b w.
     case irc_util_stoi a of
       Inl e \<Rightarrow> Inl (Die_errno (''abort: '' @ a @ '': '') e, w)
     | Inr i \<Rightarrow>
         (case irc_util_stoi b of
            Inl e \<Rightarrow> Inl (Die_errno (''abort: '' @ b @ '': '') e, w)
          | Inr j \<Rightarrow> simple (unwords [''RULE-MOVE'', show_int i, show_int j]) w))"

definition ctl_rule_remove :: "string list \<Rightarrow> ctl \<Rightarrow> unit run" where
  "ctl_rule_remove = args1 (\<lambda>a. simple (''RULE-REMOVE '' @ a))"

text \<open>The last value given for an option counts; unknown options are ignored.\<close>

definition opt_value :: "opt list \<Rightarrow> char \<Rightarrow> string \<Rightarrow> string" where
  "opt_value os c d = (case find (\<lambda>(k, v). k = c) (rev os) of Some (_, Some v) \<Rightarrow> v | _ \<Rightarrow> d)"

definition ctl_server_connect :: "string list \<Rightarrow> ctl \<Rightarrow> unit run" where
  "ctl_server_connect args w =
     (case getopt ''sn:r:u:p:'' args of (os, rest) \<Rightarrow>
        (case rest of
           name # addr # _ \<Rightarrow>
             simple (unwords [''SERVER-CONNECT'', name, addr,
               (if (CHR ''s'', None) \<in> set os then ''+'' else []) @ opt_value os CHR ''p'' ''6667'',
               opt_value os CHR ''n'' ''irccd'', opt_value os CHR ''u'' ''irccd'',
               opt_value os CHR ''r'' ''IRC Client Daemon'']) w
         | _ \<Rightarrow> Inl (Die ''abort: missing id and/or host'', w)))"

definition ctl_server_disconnect :: "string list \<Rightarrow> ctl \<Rightarrow> unit run" where
  "ctl_server_disconnect = optional1 ''SERVER-DISCONNECT''"

text \<open>
  \<open>SERVER-INFO\<close> is asked for with the name of the command, and the nickname is printed
  three times.
\<close>

definition ctl_server_info :: "string \<Rightarrow> string list \<Rightarrow> ctl \<Rightarrow> unit run" where
  "ctl_server_info argv0 args w = chain (req (''SERVER-INFO '' @ argv0) w) (\<lambda>_ w. chain (poll w) (\<lambda>list w.
     if \<not> strneq list ''OK '' 3 then Inl (Die ''abort: failed to retrieve server information'', w)
     else chain (poll (print_line (field ''name:'' (drop 3 list)) w)) (\<lambda>conn w.
       case irc_util_split conn 3 CHR '' '' of
         addr # port # ssl \<Rightarrow>
           chain (poll (print_lines ([field ''hostname:'' addr, field ''port:'' port] @
               (if ssl = [] then [] else [field ''ssl:'' ''true''])) w)) (\<lambda>ident w.
             case irc_util_split ident 3 CHR '' '' of
               [nick, _, _] \<Rightarrow>
                 chain (poll (print_lines [field ''nickname:'' nick, field ''username:'' nick,
                     field ''realname:'' nick] w)) (\<lambda>chans w. Inr ((), print_line (field ''channels:'' chans) w))
             | _ \<Rightarrow> Inl (Die ''abort: malformed server ident'', w))
       | _ \<Rightarrow> Inl (Die ''abort: malformed server connection'', w))))"

definition ctl_server_join :: "string list \<Rightarrow> ctl \<Rightarrow> unit run" where
  "ctl_server_join = (\<lambda>args. args2 (\<lambda>a b. simple (unwords ([''SERVER-JOIN'', a, b] @ take 1 (drop 2 args)))) args)"

definition ctl_server_list :: "string list \<Rightarrow> ctl \<Rightarrow> unit run" where
  "ctl_server_list args = response_list ''SERVER-LIST''"

definition ctl_server_message :: "string list \<Rightarrow> ctl \<Rightarrow> unit run" where
  "ctl_server_message = args3 (\<lambda>a b c. simple (unwords [''SERVER-MESSAGE'', a, b, c]))"

definition ctl_server_me :: "string list \<Rightarrow> ctl \<Rightarrow> unit run" where
  "ctl_server_me = args3 (\<lambda>a b c. simple (unwords [''SERVER-ME'', a, b, c]))"

text \<open>Without arguments of the mode, the format writes a NUL that ends the request.\<close>

definition ctl_server_mode :: "string list \<Rightarrow> ctl \<Rightarrow> unit run" where
  "ctl_server_mode = (\<lambda>args. args3 (\<lambda>a b c. simple (unwords [''SERVER-MODE'', a, b, c] @
     (case drop 3 args of m # _ \<Rightarrow> CHR '' '' # m | [] \<Rightarrow> [NUL]))) args)"

definition ctl_server_nick :: "string list \<Rightarrow> ctl \<Rightarrow> unit run" where
  "ctl_server_nick = args2 (\<lambda>a b. simple (unwords [''SERVER-NICK'', a, b]))"

definition ctl_server_notice :: "string list \<Rightarrow> ctl \<Rightarrow> unit run" where
  "ctl_server_notice = args3 (\<lambda>a b c. simple (unwords [''SERVER-NOTICE'', a, b, c]))"

definition ctl_server_part :: "string list \<Rightarrow> ctl \<Rightarrow> unit run" where
  "ctl_server_part = (\<lambda>args. args2 (\<lambda>a b. simple (unwords [''SERVER-PART'', a, b,
     case drop 2 args of r # _ \<Rightarrow> r | [] \<Rightarrow> ''irccd is shutting down''])) args)"

definition ctl_server_reconnect :: "string list \<Rightarrow> ctl \<Rightarrow> unit run" where
  "ctl_server_reconnect = optional1 ''SERVER-RECONNECT''"

definition ctl_server_topic :: "string list \<Rightarrow> ctl \<Rightarrow> unit run" where
  "ctl_server_topic = args3 (\<lambda>a b c. simple (unwords [''SERVER-TOPIC'', a, b, c]))"

section \<open>Watching\<close>

text \<open>
  The loop never ends by itself: it shows events until the connection is gone.  Each round
  takes at least one byte of what is received.
\<close>

fun unread :: "(errno + string) list \<Rightarrow> nat" where
  "unread [] = 0"
| "unread (Inl e # rs) = unread rs"
| "unread (Inr data # rs) = length data + unread rs"

lemma poll_loop_takes:
  "poll_loop inp rs = Inr (line, rest, rs') \<Longrightarrow> length line + length rest + unread rs' < length inp + unread rs"
proof (induction inp rs rule: poll_loop.induct)
  case (1 inp rs)
  obtain a r where sp: "split_at LF inp = (a, r)" by fastforce
  show ?case
  proof (cases r)
    case (Some x)
    with sp "1.prems" have "line = a" "rest = x" "rs' = rs" by (simp_all add: poll_loop.simps [of inp])
    with sp Some show ?thesis by (simp add: split_at_Some)
  next
    case None
    show ?thesis
    proof (cases rs)
      case Nil
      with sp None "1.prems" show ?thesis by (simp add: poll_loop.simps [of inp])
    next
      case (Cons d rs1)
      show ?thesis
      proof (cases d)
        case (Inl e)
        with sp None Cons "1.prems" show ?thesis by (simp add: poll_loop.simps [of inp])
      next
        case (Inr data)
        let ?new = "takeWhile (\<lambda>c. c \<noteq> NUL) (take (IRC_BUF_LEN - 1) data)"
        obtain n inp' where cat: "irc_util_strlcat inp ?new IRC_BUF_LEN = (n, inp')" by fastforce
        from sp None Cons Inr cat "1.prems" have ne: "data \<noteq> []" "\<not> IRC_BUF_LEN \<le> n"
          and rec: "poll_loop inp' rs1 = Inr (line, rest, rs')"
          by (auto simp: poll_loop.simps [of inp] split: if_splits)
        have "length ?new \<le> length data"
          using length_takeWhile_le [of "\<lambda>c. c \<noteq> NUL" "take (IRC_BUF_LEN - 1) data"]
          by (auto simp: min_def split: if_splits)
        then have "length inp' \<le> length inp + length data"
          using cat by (auto simp: irc_util_strlcat_def split: if_splits)
        moreover have "length line + length rest + unread rs' < length inp' + unread rs1"
          using "1.IH" [OF sp [symmetric] None Cons Inr ne(1) cat [symmetric] ne(2) rec] .
        ultimately show ?thesis using Cons Inr by simp
      qed
    qed
  qed
qed

lemma poll_takes:
  "poll w = Inr (line, w') \<Longrightarrow> length (ct_in w') + unread (ct_recv w') < length (ct_in w) + unread (ct_recv w)"
  by (auto simp: poll_def dest!: poll_loop_takes split: sum.splits prod.splits)

function watch_loop :: "ctl \<Rightarrow> unit run" where
  "watch_loop w =
     (case poll w of
        Inl e \<Rightarrow> Inl e
      | Inr (ev, w') \<Rightarrow>
          (case show_event ev of
             Inl e \<Rightarrow> Inl (e, w')
           | Inr ls \<Rightarrow> watch_loop (print_lines ls w')))"
  by pat_completeness auto
termination
  by (relation "measure (\<lambda>w. length (ct_in w) + unread (ct_recv w))")
     (auto simp: print_lines_def intro: poll_takes)

declare watch_loop.simps [simp del]

definition ctl_watch :: "string list \<Rightarrow> ctl \<Rightarrow> unit run" where
  "ctl_watch args w = chain (simple ''WATCH'' w) (\<lambda>_ w. watch_loop w)"

section \<open>The program\<close>

text \<open>The table: the least and the most arguments, or any number of them.\<close>

type_synonym entry = "(nat \<times> nat) option \<times> (string \<Rightarrow> string list \<Rightarrow> ctl \<Rightarrow> unit run)"

definition ctl_cmds :: "(string \<times> entry) list" where
  "ctl_cmds =
     [(''hook-add'', (Some (2, 2), \<lambda>_. ctl_hook_add)),
      (''hook-list'', (Some (0, 0), \<lambda>_. ctl_hook_list)),
      (''hook-remove'', (Some (1, 1), \<lambda>_. ctl_hook_remove)),
      (''plugin-config'', (Some (1, 3), \<lambda>_. ctl_plugin_list_set ''PLUGIN-CONFIG'')),
      (''plugin-info'', (Some (1, 1), \<lambda>_. ctl_plugin_info)),
      (''plugin-list'', (Some (0, 0), \<lambda>_. ctl_plugin_list)),
      (''plugin-load'', (Some (1, 1), \<lambda>_. ctl_plugin_load)),
      (''plugin-path'', (Some (0, 3), \<lambda>_. ctl_plugin_list_set ''PLUGIN-PATH'')),
      (''plugin-reload'', (Some (0, 1), \<lambda>_. ctl_plugin_reload)),
      (''plugin-template'', (Some (1, 3), \<lambda>_. ctl_plugin_list_set ''PLUGIN-TEMPLATE'')),
      (''plugin-unload'', (Some (0, 1), \<lambda>_. ctl_plugin_unload)),
      (''rule-add'', (None, \<lambda>_. ctl_rule_add)),
      (''rule-edit'', (None, \<lambda>_. ctl_rule_edit)),
      (''rule-list'', (Some (0, 0), \<lambda>_. ctl_rule_list)),
      (''rule-move'', (Some (2, 2), \<lambda>_. ctl_rule_move)),
      (''rule-remove'', (Some (1, 1), \<lambda>_. ctl_rule_remove)),
      (''server-connect'', (None, \<lambda>_. ctl_server_connect)),
      (''server-disconnect'', (Some (0, 1), \<lambda>_. ctl_server_disconnect)),
      (''server-info'', (Some (1, 1), ctl_server_info)),
      (''server-join'', (Some (2, 3), \<lambda>_. ctl_server_join)),
      (''server-list'', (Some (0, 0), \<lambda>_. ctl_server_list)),
      (''server-me'', (Some (3, 3), \<lambda>_. ctl_server_me)),
      (''server-message'', (Some (3, 3), \<lambda>_. ctl_server_message)),
      (''server-mode'', (Some (3, 4), \<lambda>_. ctl_server_mode)),
      (''server-nick'', (Some (2, 2), \<lambda>_. ctl_server_nick)),
      (''server-notice'', (Some (3, 3), \<lambda>_. ctl_server_notice)),
      (''server-part'', (Some (2, 3), \<lambda>_. ctl_server_part)),
      (''server-reconnect'', (Some (0, 1), \<lambda>_. ctl_server_reconnect)),
      (''server-topic'', (Some (3, 3), \<lambda>_. ctl_server_topic)),
      (''watch'', (Some (0, 0), \<lambda>_. ctl_watch))]"

definition ctl_run :: "string list \<Rightarrow> ctl \<Rightarrow> unit run" where
  "ctl_run argv w =
     (case argv of
        [] \<Rightarrow> Inl (Undefined, w)
      | name # args \<Rightarrow>
          (case bsearch name ctl_cmds 0 (length ctl_cmds) of
             None \<Rightarrow> Inl (Die ''abort: command not found'', w)
           | Some (Some (mn, mx), exec) \<Rightarrow>
               if length args < mn \<or> mx < length args
               then Inl (Die ''abort: invalid number of arguments'', w)
               else exec name args w
           | Some (None, exec) \<Rightarrow> exec name args w))"

text \<open>
  What \<open>main\<close> does with a socket that is connected; its own options are \<open>-s\<close> and \<open>-v\<close>.
\<close>

definition ctl_main :: "string list \<Rightarrow> ctl \<Rightarrow> unit run" where
  "ctl_main argv w =
     (case getopt ''s:v'' argv of (os, rest) \<Rightarrow>
        if (CHR ''?'', None) \<in> set os \<or> rest = [] \<or> hd rest = ''help'' then Inl (Die ''usage'', w)
        else chain (check ((CHR ''v'', None) \<in> set os) w) (\<lambda>_ w. ctl_run rest w))"

end
