(* ===== verification/Ctl_Facts.thy ===== *)
theory Ctl_Facts
  imports Ctl
begin

text \<open>
  The control client and the daemon together: requests reach the daemon whole, options of
  the command line become the rule that was asked for, and what a watching client prints
  of an event.
\<close>

section \<open>Requests\<close>

lemma cstr_id [simp]: "NUL \<notin> set xs \<Longrightarrow> takeWhile (\<lambda>c. c \<noteq> NUL) xs = xs"
  by (induction xs) auto

lemma NUL_take [simp]: "NUL \<notin> set xs \<Longrightarrow> NUL \<notin> set (take n xs)"
  by (meson in_set_takeD)

lemma send_loop_all: "send_loop out ss = Inr (sent, ss') \<Longrightarrow> sent = out"
proof (induction out ss arbitrary: sent rule: send_loop.induct)
  case (3 out ns ss)
  show ?case
  proof (cases "length out \<le> Suc ns")
    case False
    with "3.prems" obtain s1 where "send_loop (drop (Suc ns) out) ss = Inr (s1, ss')"
      and sent: "sent = take (Suc ns) out @ s1"
      by (auto split: sum.splits)
    with "3.IH" [OF False] have "s1 = drop (Suc ns) out" by blast
    with sent show ?thesis by simp
  qed (use "3.prems" in simp)
qed auto

lemma req_cases:
  assumes "NUL \<notin> set txt" and "length txt < 511"
  shows "req txt w = (case send_loop (txt @ [LF]) (ct_send w) of
      Inl e \<Rightarrow> Inl (e, w)
    | Inr (sent, ss) \<Rightarrow> Inr ((), w\<lparr>ct_sent := ct_sent w @ sent, ct_send := ss\<rparr>))"
proof -
  have "fit IRC_BUF_LEN txt = txt" using assms(2) by (simp add: fit_def IRC_BUF_LEN_def)
  with assms show ?thesis by (simp only: req_def) (simp add: Let_def IRC_BUF_LEN_def)
qed

text \<open>
  A request is sent whole or the client dies: however \<open>send\<close> splits it, the bytes on
  the socket are the line and its newline.  A line of more than 510 bytes is refused.
\<close>
theorem ctl_request:
  assumes "NUL \<notin> set txt"
  shows "case req txt w of
      Inl (e, w') \<Rightarrow> w' = w \<and> (e = Die_errno ''abort: '' EMSGSIZE \<longleftrightarrow> 511 \<le> length txt)
    | Inr (_, w') \<Rightarrow> length txt < 511 \<and> ct_sent w' = ct_sent w @ txt @ [LF] \<and>
        ct_in w' = ct_in w \<and> ct_recv w' = ct_recv w \<and> ct_stdout w' = ct_stdout w"
proof (cases "length txt < 511")
  case True
  have "e \<noteq> Die_errno ''abort: '' EMSGSIZE" if "send_loop out ss = Inl e" for out ss e
    using that by (induction out ss rule: send_loop.induct) (auto split: if_splits sum.splits)
  with True assms send_loop_all [of "txt @ [LF]" "ct_send w"] show ?thesis
    by (auto simp: req_cases split: sum.split)
next
  case False
  with assms show ?thesis by (simp add: req_def Let_def fit_def IRC_BUF_LEN_def)
qed

theorem ctl_request_witness:
  "\<exists>w'. req ''WATCH'' \<lparr>ct_in = [], ct_recv = [], ct_send = [Inr 1], ct_sent = [], ct_stdout = []\<rparr> = Inr ((), w') \<and>
     ct_sent w' = ''WATCH'' @ [LF]"
proof -
  let ?w = "\<lparr>ct_in = [], ct_recv = [], ct_send = [Inr 1], ct_sent = [], ct_stdout = []\<rparr>"
  have "isl (req ''WATCH'' ?w) = False" by code_simp
  then obtain w' where w': "req ''WATCH'' ?w = Inr ((), w')" by (cases "req ''WATCH'' ?w") auto
  with ctl_request [of "''WATCH''" ?w] show ?thesis by simp
qed

section \<open>Answers\<close>

text \<open>
  The client cannot read answers that are longer than its buffer: when a part of a
  line is left and \<open>recv\<close> fills its buffer, the client dies although every line is short.
\<close>
theorem ctl_poll_overflow:
  assumes "LF \<notin> set (ct_in w)" and "ct_in w \<noteq> []" and "ct_recv w = Inr data # rs"
    and "511 \<le> length data" and "NUL \<notin> set data"
  shows "poll w = Inl (Die_errno ''abort: recv: '' EMSGSIZE, w)"
proof -
  have "data \<noteq> []" using assms(4) by auto
  moreover have "split_at LF (ct_in w) = (ct_in w, None)" using assms(1) by (simp add: split_at_None)
  moreover have "Suc 0 \<le> length (ct_in w)" using assms(2) by (cases "ct_in w") simp_all
  ultimately show ?thesis
    using assms(3-5)
    by (simp add: poll_def poll_loop.simps [of "ct_in w"] irc_util_strlcat_def IRC_BUF_LEN_def
        split: prod.split)
qed

theorem ctl_poll_overflow_witness:
  "poll \<lparr>ct_in = ''a'', ct_recv = [Inr (replicate 510 CHR ''b'' @ [LF])], ct_send = [], ct_sent = [], ct_stdout = []\<rparr> =
     Inl (Die_errno ''abort: recv: '' EMSGSIZE,
       \<lparr>ct_in = ''a'', ct_recv = [Inr (replicate 510 CHR ''b'' @ [LF])], ct_send = [], ct_sent = [], ct_stdout = []\<rparr>)"
proof -
  have "511 \<le> length (replicate 510 c @ [LF])" "NUL \<notin> set (replicate 510 CHR ''b'' @ [LF])" for c :: char
    by (simp_all only: length_append length_replicate set_append set_replicate_conv_if) simp_all
  then show ?thesis by (intro ctl_poll_overflow [where rs = "[]" and data = "replicate 510 CHR ''b'' @ [LF]"]) simp_all
qed

section \<open>Watching\<close>

lemma poll_loop_dies: "poll_loop inp rs = Inl e \<Longrightarrow> \<exists>er. e = Die_errno ''abort: recv: '' er"
  by (induction inp rs rule: poll_loop.induct)
     (subst (asm) poll_loop.simps, auto split: prod.splits option.splits list.splits sum.splits if_splits)

text \<open>
  Watching ends: whatever the daemon sends, the loop prints and finally stops because
  nothing can be received any more (or at a topic or WHOIS line it cannot print); it never
  returns as a success.
\<close>
theorem ctl_watch_ends:
  "\<exists>e w'. watch_loop w = Inl (e, w') \<and> ((\<exists>er. e = Die_errno ''abort: recv: '' er) \<or> e = Undefined)"
proof (induction w rule: watch_loop.induct)
  case (1 w)
  show ?case
  proof (cases "poll w")
    case (Inl ew)
    then have "watch_loop w = Inl ew" by (simp add: watch_loop.simps)
    moreover obtain er where "fst ew = Die_errno ''abort: recv: '' er"
      using Inl poll_loop_dies by (fastforce simp: poll_def split: sum.splits prod.splits)
    ultimately show ?thesis by (cases ew) simp
  next
    case (Inr r)
    obtain ev w1 where r: "r = (ev, w1)" by fastforce
    have "e = Undefined" if "show_event ev = Inl e" for e
      using that
      by (auto simp: show_event_def watchtable_def labelled_def show_connect_def show_disconnect_def
          show_invite_def show_join_def show_kick_def show_text_def show_me_def show_message_def
          show_notice_def show_mode_def show_nick_def show_part_def show_topic_def show_whois_def
          split: option.splits sum.splits if_splits list.splits)
    with 1 Inr r show ?thesis
      by (cases "show_event ev") (auto simp: watch_loop.simps [of w])
  qed
qed

section \<open>What is shown of an event\<close>

lemma split_at_blank: "CHR '' '' \<notin> set a \<Longrightarrow> split_at CHR '' '' (a @ CHR '' '' # r) = (a, Some r)"
  by (rule split_at_append)

lemma split_fields:
  assumes "\<forall>x \<in> set (butlast xs). CHR '' '' \<notin> set x" and "xs \<noteq> []" and "length xs \<le> n"
    and "length xs < n \<Longrightarrow> CHR '' '' \<notin> set (last xs)" and "hd xs \<noteq> []"
  shows "irc_util_split (Event.fields xs) n CHR '' '' = xs"
proof -
  have "Event.fields xs = join_with CHR '' '' xs" by (induction xs rule: Event.fields.induct) simp_all
  moreover have "join_with CHR '' '' xs \<noteq> []" using assms(2,5) by (cases xs; cases "tl xs") auto
  ultimately show ?thesis
    using split_loop_join [OF assms(2,3,1,4)] by (simp add: irc_util_split_def)
qed

text \<open>
  What \<open>irccdctl watch\<close> prints of the events the daemon sends: messages are shown with
  all their fields, whatever the text holds.  Invitations are never shown, as the daemon
  sends one field less than the client expects, and the events about connections are shown
  with the name of the event in the place of the server.
\<close>
theorem ctl_shows_events:
  assumes "\<forall>x \<in> {sv, origin, channel}. CHR '' '' \<notin> set x" and "length sv + length origin + length channel + length txt < 490"
  shows "concat (map (\<lambda>l. case show_event l of Inr ls \<Rightarrow> ls | Inl _ \<Rightarrow> [])
      (event_text \<lparr>ev_type = IRC_EVENT_MESSAGE \<lparr>message_origin = origin, message_channel = channel,
         message_message = txt\<rparr>, ev_server = sv\<rparr>)) =
    [field ''event:'' ''onMessage'', field ''server:'' sv, field ''origin:'' origin,
     field ''channel:'' channel, field ''message:'' txt, []] \<and>
    map show_event (event_text \<lparr>ev_type = IRC_EVENT_INVITE \<lparr>invite_origin = origin, invite_channel = channel\<rparr>,
       ev_server = sv\<rparr>) = [Inr [[]]] \<and>
    map show_event (event_text \<lparr>ev_type = IRC_EVENT_CONNECT, ev_server = sv\<rparr>) =
      [Inr [field ''event:'' ''onConnect'', field ''server:'' ''EVENT-CONNECT'', []]]"
proof -
  let ?msg = "Event.fields [''EVENT-MESSAGE'', sv, origin, channel, txt]"
  let ?inv = "Event.fields [''EVENT-INVITE'', sv, origin, channel]"
  let ?con = "Event.fields [''EVENT-CONNECT'', sv]"
  have lines: "event_text \<lparr>ev_type = IRC_EVENT_MESSAGE \<lparr>message_origin = origin, message_channel = channel,
         message_message = txt\<rparr>, ev_server = sv\<rparr> = [?msg]"
    "event_text \<lparr>ev_type = IRC_EVENT_INVITE \<lparr>invite_origin = origin, invite_channel = channel\<rparr>, ev_server = sv\<rparr> = [?inv]"
    "event_text \<lparr>ev_type = IRC_EVENT_CONNECT, ev_server = sv\<rparr> = [?con]"
    using assms(2)
    by (simp_all add: event_text_def irc_event_str_def irc_event_str_body_def snprintf_def fit_id IRC_BUF_LEN_def)
  have split: "irc_util_split ?msg 5 CHR '' '' = [''EVENT-MESSAGE'', sv, origin, channel, txt]"
    "irc_util_split ?inv 5 CHR '' '' = [''EVENT-INVITE'', sv, origin, channel]"
    "irc_util_split ?con 2 CHR '' '' = [''EVENT-CONNECT'', sv]"
    using assms(1) by (intro split_fields; simp)+
  have "find (\<lambda>(name, _). strneq name ?msg (length name)) watchtable = Some (''EVENT-MESSAGE'', show_message)"
    "find (\<lambda>(name, _). strneq name ?inv (length name)) watchtable = Some (''EVENT-INVITE'', show_invite)"
    "find (\<lambda>(name, _). strneq name ?con (length name)) watchtable = Some (''EVENT-CONNECT'', show_connect)"
    by (simp_all add: watchtable_def strneq_def)
  then have "show_event ?msg = Inr [field ''event:'' ''onMessage'', field ''server:'' sv, field ''origin:'' origin,
      field ''channel:'' channel, field ''message:'' txt, []]"
    "show_event ?inv = Inr [[]]"
    "show_event ?con = Inr [field ''event:'' ''onConnect'', field ''server:'' ''EVENT-CONNECT'', []]"
    unfolding show_event_def
    by (simp_all only: option.case prod.case show_message_def show_text_def show_invite_def show_connect_def
        split list.case labelled_def list.map sum.case append.simps)
  then show ?thesis unfolding lines by (simp only: list.map sum.case concat.simps append_Nil2 simp_thms)
qed

theorem ctl_shows_events_witness:
  "map show_event (event_text \<lparr>ev_type = IRC_EVENT_INVITE \<lparr>invite_origin = ''jean'', invite_channel = ''#a''\<rparr>,
     ev_server = ''libera''\<rparr>) = [Inr [[]]]"
  using ctl_shows_events [of "''libera''" "''jean''" "''#a''" "[]"] by simp

section \<open>The table of the client\<close>

lemma ctl_cmds_sorted: "sorted_wrt (<) (map fst ctl_cmds)"
proof -
  have "sorted_wrt (<)
    [''hook-add'', ''hook-list'', ''hook-remove'', ''plugin-config'', ''plugin-info'', ''plugin-list'',
     ''plugin-load'', ''plugin-path'', ''plugin-reload'', ''plugin-template'', ''plugin-unload'',
     ''rule-add'', ''rule-edit'', ''rule-list'', ''rule-move'', ''rule-remove'', ''server-connect'',
     ''server-disconnect'', ''server-info'', ''server-join'', ''server-list'', ''server-me'',
     ''server-message'', ''server-mode'', ''server-nick'', ''server-notice'', ''server-part'',
     ''server-reconnect'', ''server-topic'', ''watch'']"
    by code_simp
  then show ?thesis by (simp only: ctl_cmds_def list.map fst_conv)
qed

lemma bsearch_ctl: "bsearch name ctl_cmds 0 (length ctl_cmds) = map_of ctl_cmds name"
  by (rule bsearch_map_of [OF ctl_cmds_sorted le_refl]) simp

lemma ctl_run_entry:
  "ctl_run (name # args) w =
     (case map_of ctl_cmds name of
        None \<Rightarrow> Inl (Die ''abort: command not found'', w)
      | Some (Some (mn, mx), exec) \<Rightarrow>
          if length args < mn \<or> mx < length args
          then Inl (Die ''abort: invalid number of arguments'', w)
          else exec name args w
      | Some (None, exec) \<Rightarrow> exec name args w)"
  by (simp only: ctl_run_def list.case bsearch_ctl)

section \<open>From the command line to the rule\<close>

lemma getopt_pairs:
  assumes "\<forall>(c, v) \<in> set os. opt_kind spec c = Some True \<and> c \<noteq> CHR ''-''" and "a \<noteq> []" and "hd a \<noteq> CHR ''-''"
  shows "getopt spec (concat (map (\<lambda>(c, v). [[CHR ''-'', c], v]) os) @ a # rest) =
    (map (\<lambda>(c, v). (c, Some v)) os, a # rest)"
  using assms(1)
proof (induction os)
  case Nil
  then show ?case using assms(2,3) by auto
next
  case (Cons x xs)
  then show ?case by (cases x) auto
qed

lemma opt_texts_pairs:
  "opt_texts f (map (\<lambda>(c, v). (c, Some v)) os) = Some (concat (map (\<lambda>(c, v). f c v) os))"
  by (induction os) auto

text \<open>The criteria of the command line, as tokens.\<close>

definition opt_tokens :: "(char \<times> string) list \<Rightarrow> string list" where
  "opt_tokens os = map (\<lambda>(c, v). c # CHR ''='' # v) os"

lemma serve_line:
  assumes "line \<noteq> []" and "LF \<notin> set line" and "NUL \<notin> set line" and "invoke env p line = Some q"
  shows "serve env p (line @ [LF]) = Some (q, [])"
proof -
  have "split_at LF (line @ LF # []) = (line, Some [])" using assms(2) by (rule split_at_append)
  then show ?thesis
    using assms(1,3,4) by (subst serve.simps) (simp add: serve.simps [of env q "[]"])
qed

text \<open>
  C6. From one end to the other: the options of \<open>irccdctl rule-add\<close> become one request, and
  the daemon that receives it appends exactly the rule that the options describe, and
  answers OK.  That the client sends the action twice does no harm.
\<close>
theorem ctl_rule_add_end_to_end:
  assumes "\<forall>(c, v) \<in> set os. c \<in> set ''ceops'' \<and> set v \<inter> {CHR '' '', LF, NUL} = {}"
    and "length (concat (opt_tokens os)) + length os < 480" and "irc_bot_rule_size (pr_irccd p) < 2 ^ 64"
  shows "\<exists>line. ctl_run (''rule-add'' # concat (map (\<lambda>(c, v). [[CHR ''-'', c], v]) os) @ [action_text a]) w = simple line w \<and>
    (\<forall>w'. req line w = Inr ((), w') \<longrightarrow> ct_sent w' = ct_sent w @ line @ [LF]) \<and>
    serve env p (line @ [LF]) = Some (peer_push (p\<lparr>pr_irccd := (pr_irccd p)\<lparr>bt_rules := bt_rules (pr_irccd p) @
      [foldl add_token (irc_rule_new a) (opt_tokens os)]\<rparr>\<rparr>) ''OK'', [])"
proof -
  let ?ts = "opt_tokens os @ [action_text a]"
  let ?line = "rule_add_line a ?ts"
  let ?args = "concat (map (\<lambda>(c, v). [[CHR ''-'', c], v]) os) @ [action_text a]"
  have act: "action_text a \<noteq> []" "hd (action_text a) \<noteq> CHR ''-''" "length (action_text a) \<le> 6"
    "plain_token (action_text a)" "set (action_text a) \<inter> {CHR '' '', LF, NUL} = {}"
    "add_token r (action_text a) = r" for r
    by (cases a; simp add: action_text_def plain_token_def is_space_def add_token_def rule_adders_def)+
  have kind: "opt_kind ''c:e:i:o:p:s:'' c = Some True \<and> c \<noteq> CHR ''-''" if "c \<in> set ''ceops''" for c
    using that by (auto simp: opt_kind_def)
  have "\<forall>(c, v) \<in> set os. opt_kind ''c:e:i:o:p:s:'' c = Some True \<and> c \<noteq> CHR ''-''"
  proof (rule ballI, clarify)
    fix c v assume "(c, v) \<in> set os"
    with assms(1) have "c \<in> set ''ceops''" by blast
    then show "opt_kind ''c:e:i:o:p:s:'' c = Some True \<and> c \<noteq> CHR ''-''" by (rule kind)
  qed
  from getopt_pairs [OF this act(1,2), of "[]"]
  have getopt: "getopt ''c:e:i:o:p:s:'' ?args = (map (\<lambda>(c, v). (c, Some v)) os, [action_text a])" .
  let ?txt = "concat (map (\<lambda>(c, v). [c, CHR ''=''] @ v @ '' '') os)"
  have len: "length ?txt = length (concat (opt_tokens os)) + length os"
    by (induction os) (auto simp: opt_tokens_def)
  then have "length (?txt @ action_text a) < 510" using assms(2) act(3) by simp
  then have fit: "fmem (IRC_BUF_LEN - 1) (?txt @ action_text a) = ?txt @ action_text a"
    by (simp add: fmem_def fit_def IRC_BUF_LEN_def)
  have "CHR '' '' # ?txt @ action_text a = concat (map ((#) CHR '' '') ?ts)"
    by (induction os) (auto simp: opt_tokens_def)
  then have line: "''RULE-ADD '' @ action_text a @ '' '' @ ?txt @ action_text a = ?line"
    by (simp add: rule_add_line_def)
  have run: "ctl_run (''rule-add'' # ?args) w = simple ?line w"
    using line fit by (simp add: ctl_run_entry ctl_cmds_def ctl_rule_add_def getopt opt_texts_pairs)
  have "set ?line \<inter> {LF, NUL} = {}"
    using assms(1) act(5) unfolding line [symmetric] by auto
  then have clean: "LF \<notin> set ?line" "NUL \<notin> set ?line" by blast+
  have "length ?line < 511" using len assms(2) act(3) unfolding line [symmetric] by simp
  then have sent: "ct_sent w' = ct_sent w @ ?line @ [LF]" if "req ?line w = Inr ((), w')" for w'
    using that send_loop_all clean(2) by (auto simp: req_cases split: sum.splits)
  have "\<forall>t \<in> set ?ts. plain_token t"
    using assms(1) act(4) by (auto simp: opt_tokens_def plain_token_def is_space_def)
  from rule_add_appends [OF this assms(3)]
  have "invoke env p ?line = Some (peer_push (p\<lparr>pr_irccd := (pr_irccd p)\<lparr>bt_rules := bt_rules (pr_irccd p) @
      [foldl add_token (irc_rule_new a) (opt_tokens os)]\<rparr>\<rparr>) ''OK'')"
    by (simp add: act(6))
  then have "serve env p (?line @ [LF]) = Some (peer_push (p\<lparr>pr_irccd := (pr_irccd p)\<lparr>bt_rules := bt_rules (pr_irccd p) @
      [foldl add_token (irc_rule_new a) (opt_tokens os)]\<rparr>\<rparr>) ''OK'', [])"
    using clean by (intro serve_line) (simp_all add: rule_add_line_def)
  with run sent show ?thesis by blast
qed

theorem ctl_rule_add_end_to_end_witness:
  "\<forall>env. \<exists>line. serve env (peer_new (bot_empty :: unit irccd)) (line @ [LF]) =
     Some (peer_push (peer_new ((bot_empty :: unit irccd)\<lparr>bt_rules :=
       [irc_rule_add_plugin (irc_rule_add_channel (irc_rule_new Rule_Drop) ''#staff'') ''ask'']\<rparr>)) ''OK'', [])"
proof
  fix env
  let ?os = "[(CHR ''c'', ''#staff''), (CHR ''p'', ''ask'')]"
  have "foldl add_token (irc_rule_new Rule_Drop) (opt_tokens ?os) =
      irc_rule_add_plugin (irc_rule_add_channel (irc_rule_new Rule_Drop) ''#staff'') ''ask''"
    by (simp add: opt_tokens_def add_token_def rule_adders_def)
  with ctl_rule_add_end_to_end [of ?os "peer_new (bot_empty :: unit irccd)" Rule_Drop undefined env]
  show "\<exists>line. serve env (peer_new (bot_empty :: unit irccd)) (line @ [LF]) =
     Some (peer_push (peer_new ((bot_empty :: unit irccd)\<lparr>bt_rules :=
       [irc_rule_add_plugin (irc_rule_add_channel (irc_rule_new Rule_Drop) ''#staff'') ''ask'']\<rparr>)) ''OK'', [])"
    by (auto simp: opt_tokens_def irc_bot_rule_size_def peer_new_def bot_empty_def)
qed

section \<open>Requests that cannot work\<close>

text \<open>
  Three commands of the client never work as documented: \<open>server-info\<close> asks for a
  server called "server-info" whatever its argument, \<open>server-nick\<close> sends a request that the
  daemon does not know, and \<open>plugin-path\<close> without argument prints a NULL.
\<close>
theorem ctl_broken_commands:
  "ctl_run [''server-info'', name] w = ctl_run [''server-info'', ''anything''] w \<and>
   (\<exists>f. ctl_run [''server-info'', name] w = chain (req ''SERVER-INFO server-info'' w) f) \<and>
   ctl_run [''server-nick'', name, nick] w = simple (''SERVER-NICK '' @ name @ '' '' @ nick) w \<and>
   invoke env p (''SERVER-NICK '' @ name @ '' '' @ nick) = Some (peer_push p ''command not found'') \<and>
   ctl_run [''plugin-path''] w = Inl (Undefined, w)"
proof -
  have "ctl_run [''server-info'', n] w = ctl_server_info ''server-info'' [n] w" for n
    by (simp add: ctl_run_entry ctl_cmds_def)
  moreover have "ctl_server_info a xs = ctl_server_info a ys" for a xs ys
    by (rule ext) (simp add: ctl_server_info_def)
  moreover have "\<exists>f. ctl_server_info ''server-info'' [n] w = chain (req ''SERVER-INFO server-info'' w) f" for n
    by (simp only: ctl_server_info_def append.simps) blast
  moreover have "ctl_run [''server-nick'', name, nick] w = simple (''SERVER-NICK '' @ name @ '' '' @ nick) w"
    by (simp add: ctl_run_entry ctl_cmds_def ctl_server_nick_def args2_def unwords_def)
  moreover have "first_word (''SERVER-NICK'' @ CHR '' '' # name @ '' '' @ nick) = ''SERVER-NICK''"
    by (rule first_word_line) (simp_all add: is_space_def)
  then have "invoke env p (''SERVER-NICK '' @ name @ '' '' @ nick) = Some (peer_push p ''command not found'')"
    by (simp add: invoke_def find_cmd_eq cmds_def)
  moreover have "ctl_run [''plugin-path''] w = Inl (Undefined, w)"
    by (simp add: ctl_run_entry ctl_cmds_def ctl_plugin_list_set_def)
  ultimately show ?thesis by metis
qed

end
