(* ===== verification/Subst.thy ===== *)
theory Subst
  imports Util
begin

text \<open>
  Template expansion (\<open>lib/irccd/subst.c\<close>, \<open>subst.h\<close>): date, keyword, environment, shell
  and attribute substitutions into a buffer of bounded size.

  The buffer is the text written so far and the number of bytes left.  Errors are values;
  \<open>None\<close> is undefined behaviour (the array of four attributes written past its end).  What
  the operating system answers is given by the record \<open>subst_os\<close>: the environment, the
  output of a command (\<open>None\<close> when it cannot be started) and the text \<open>strftime\<close> makes of a
  format at the time of the substitution.
\<close>

section \<open>Data\<close>

definition IRC_SUBST_DATE :: c_uint where "IRC_SUBST_DATE = 1"
definition IRC_SUBST_KEYWORDS :: c_uint where "IRC_SUBST_KEYWORDS = 2"
definition IRC_SUBST_ENV :: c_uint where "IRC_SUBST_ENV = 4"
definition IRC_SUBST_SHELL :: c_uint where "IRC_SUBST_SHELL = 8"
definition IRC_SUBST_IRC_ATTRS :: c_uint where "IRC_SUBST_IRC_ATTRS = 16"
definition IRC_SUBST_SHELL_ATTRS :: c_uint where "IRC_SUBST_SHELL_ATTRS = 32"

record irc_subst_keyword =
  kw_key :: string
  kw_value :: "string option"

record irc_subst_t =
  su_flags :: c_uint
  su_keywords :: "irc_subst_keyword list"

record subst_os =
  os_getenv :: "string \<Rightarrow> string option"
  os_popen :: "string \<Rightarrow> string option"
  os_strftime :: "string \<Rightarrow> string"

record attributes =
  at_fg :: string
  at_bg :: string
  at_attrs :: "string list"

definition flagged :: "irc_subst_t \<Rightarrow> c_uint \<Rightarrow> bool" where
  "flagged subst f = (su_flags subst AND f \<noteq> 0)"

type_synonym pairs = "(string \<times> string) list"

definition irc_colors :: pairs where
  "irc_colors = [(''white'', ''0''), (''black'', ''1''), (''blue'', ''2''), (''green'', ''3''),
     (''red'', ''4''), (''brown'', ''5''), (''purple'', ''6''), (''orange'', ''7''),
     (''yellow'', ''8''), (''lightgreen'', ''9''), (''cyan'', ''10''), (''lightcyan'', ''11''),
     (''lightblue'', ''12''), (''pink'', ''13''), (''grey'', ''14''), (''lightgrey'', ''15'')]"

definition irc_attrs :: pairs where
  "irc_attrs = [(''bold'', [CHR 0x02]), (''italic'', [CHR 0x09]), (''reverse'', [CHR 0x16]),
     (''strike'', [CHR 0x13]), (''underline'', [CHR 0x15]), (''underline2'', [CHR 0x1F])]"

definition shell_fg :: pairs where
  "shell_fg = [(''black'', ''30''), (''red'', ''31''), (''green'', ''32''), (''orange'', ''33''),
     (''blue'', ''34''), (''purple'', ''35''), (''cyan'', ''36''), (''white'', ''37''),
     (''default'', ''39'')]"

definition shell_bg :: pairs where
  "shell_bg = [(''black'', ''40''), (''red'', ''41''), (''green'', ''42''), (''orange'', ''43''),
     (''blue'', ''44''), (''purple'', ''45''), (''cyan'', ''46''), (''white'', ''47''),
     (''default'', ''49'')]"

definition shell_attrs :: pairs where
  "shell_attrs = [(''bold'', ''1''), (''dim'', ''2''), (''underline'', ''4''), (''blink'', ''5''),
     (''reverse'', ''7''), (''hidden'', ''8'')]"

definition is_reserved :: "char \<Rightarrow> bool" where
  "is_reserved token = (token = CHR ''#'' \<or> token = CHR ''@'' \<or> token = CHR ''$'' \<or> token = CHR ''!'')"

section \<open>The output buffer\<close>

type_synonym out_buf = "string \<times> nat"

fun scat :: "out_buf \<Rightarrow> string \<Rightarrow> errno + out_buf" where
  "scat (out, outsz) value =
     (let written = fst (irc_util_strlcpy value outsz)
      in if outsz \<le> written then Inl ENOMEM else Inr (out @ value, outsz - written))"

fun ccat :: "out_buf \<Rightarrow> char \<Rightarrow> errno + out_buf" where
  "ccat (out, outsz) c = (if outsz = 0 then Inl ENOMEM else Inr (out @ [c], outsz - 1))"

interpretation scat: bounded_append fst snd scat "\<lambda>value. value"
  by unfold_locales (auto simp: Let_def irc_util_strlcpy_def split: if_splits)

interpretation ccat: bounded_append fst snd ccat "\<lambda>c. [c]"
  by unfold_locales (auto split: if_splits)

text \<open>Sequencing: the next action runs unless an error occurred.\<close>

definition andthen :: "errno + out_buf \<Rightarrow> (out_buf \<Rightarrow> errno + out_buf) \<Rightarrow> errno + out_buf" where
  "andthen r f = (case r of Inl e \<Rightarrow> Inl e | Inr b \<Rightarrow> f b)"

text \<open>\<open>(value = find (...)) && (rc = scat (...)) < 0\<close>\<close>

definition scat_found :: "pairs \<Rightarrow> string \<Rightarrow> out_buf \<Rightarrow> errno + out_buf" where
  "scat_found pairs key b = (case map_of pairs key of None \<Rightarrow> Inr b | Some value \<Rightarrow> scat b value)"

section \<open>Attributes\<close>

text \<open>
  \<open>sscanf\<close> with \<open>"%15[^,],%15[^,],%63s"\<close>: each conversion needs the ones before it, and a
  field of 15 bytes must be followed by the comma.
\<close>

definition scan_field :: "string \<Rightarrow> (string \<times> string) option" where
  "scan_field s =
     (let a = take 15 (takeWhile (\<lambda>c. c \<noteq> CHR '','') s)
      in if a = [] then None else Some (a, drop (length a) s))"

definition scan_comma :: "string \<Rightarrow> string option" where
  "scan_comma s = (case s of c # r \<Rightarrow> if c = CHR '','' then Some r else None | [] \<Rightarrow> None)"

definition scan_rest :: "string \<Rightarrow> string" where
  "scan_rest s = take 63 (takeWhile (\<lambda>c. \<not> is_space c) (dropWhile is_space s))"

definition scan_attributes :: "string \<Rightarrow> string \<times> string \<times> string" where
  "scan_attributes key =
     (case scan_field key of
        None \<Rightarrow> ([], [], [])
      | Some (fg, r1) \<Rightarrow>
          (case scan_comma r1 \<bind> scan_field of
             None \<Rightarrow> (fg, [], [])
           | Some (bg, r2) \<Rightarrow>
               (fg, bg, (case scan_comma r2 of None \<Rightarrow> [] | Some r3 \<Rightarrow> scan_rest r3))))"

function attr_pieces :: "string \<Rightarrow> string list" where
  "attr_pieces attr =
     (if attr = [] then []
      else case split_at CHR '','' attr of
             (a, None) \<Rightarrow> [fit 16 a]
           | (a, Some r) \<Rightarrow> fit 16 a # attr_pieces r)"
  by pat_completeness auto
termination
  by (relation "measure length") (auto dest: split_at_length [OF sym])

declare attr_pieces.simps [simp del]

definition attributes_parse :: "string \<Rightarrow> attributes option" where
  "attributes_parse key =
     (case scan_attributes key of
        (fg, bg, rest) \<Rightarrow>
          if 4 < length (attr_pieces rest) then None
          else Some \<lparr>at_fg = fg, at_bg = bg, at_attrs = attr_pieces rest\<rparr>)"

section \<open>Substitutions\<close>

definition subst_date :: "subst_os \<Rightarrow> nat \<Rightarrow> string \<Rightarrow> errno + string" where
  "subst_date os outsz input =
     (let t = os_strftime os input in if t = [] \<or> outsz \<le> length t then Inl ENOMEM else Inr t)"

definition subst_keyword :: "string \<Rightarrow> out_buf \<Rightarrow> irc_subst_t \<Rightarrow> errno + out_buf" where
  "subst_keyword key b subst =
     (case find (\<lambda>k. kw_key k = key) (su_keywords subst) of
        None \<Rightarrow> Inr b
      | Some k \<Rightarrow> (case kw_value k of None \<Rightarrow> Inr b | Some value \<Rightarrow> scat b value))"

definition subst_env :: "subst_os \<Rightarrow> string \<Rightarrow> out_buf \<Rightarrow> errno + out_buf" where
  "subst_env os key b = (case os_getenv os key of None \<Rightarrow> Inr b | Some value \<Rightarrow> scat b value)"

text \<open>
  At most all bytes but one are read, and the output is cut at its first carriage return
  or else at its first newline.
\<close>

fun subst_shell :: "subst_os \<Rightarrow> string \<Rightarrow> out_buf \<Rightarrow> out_buf" where
  "subst_shell os key (out, outsz) =
     (case os_popen os key of
        None \<Rightarrow> (out, outsz)
      | Some output \<Rightarrow>
          let got = take (outsz - 1) output;
              line = (if CR \<in> set got then takeWhile (\<lambda>c. c \<noteq> CR) got
                      else takeWhile (\<lambda>c. c \<noteq> LF) got)
          in (out @ line, outsz - length line))"

definition subst_irc_attrs :: "string \<Rightarrow> out_buf \<Rightarrow> (errno + out_buf) option" where
  "subst_irc_attrs key b =
     (if key = [] then Some (ccat b CHR 0x03)
      else map_option (\<lambda>a.
        if at_fg a \<noteq> [] \<or> (at_attrs a \<noteq> [] \<and> hd (at_attrs a) \<noteq> [])
        then andthen (andthen (andthen (ccat b CHR 0x03)
               (scat_found irc_colors (at_fg a)))
               (\<lambda>b. if at_bg a \<noteq> [] then andthen (ccat b CHR '','') (scat_found irc_colors (at_bg a)) else Inr b))
               (\<lambda>b. foldl (\<lambda>r t. andthen r (scat_found irc_attrs t)) (Inr b) (at_attrs a))
        else Inr b) (attributes_parse key))"

text \<open>
  The guard of the semicolon behind an attribute compares the index with the number of
  attributes without adding one, so it always holds.
\<close>

definition subst_shell_attrs :: "string \<Rightarrow> out_buf \<Rightarrow> (errno + out_buf) option" where
  "subst_shell_attrs key b =
     (if key = [] then Some (scat b (CHR 0x1B # ''[0m''))
      else map_option (\<lambda>a.
        andthen (andthen (andthen (andthen (scat b (CHR 0x1B # ''[''))
          (\<lambda>b. foldl (\<lambda>r t. andthen (andthen r (scat_found shell_attrs t)) (\<lambda>b. ccat b CHR '';''))
                 (Inr b) (at_attrs a)))
          (\<lambda>b. if at_fg a \<noteq> []
               then andthen (scat_found shell_fg (at_fg a) b)
                      (\<lambda>b. if at_bg a \<noteq> [] then ccat b CHR '';'' else Inr b)
               else Inr b))
          (\<lambda>b. if at_bg a \<noteq> [] then scat_found shell_bg (at_bg a) b else Inr b))
          (\<lambda>b. ccat b CHR ''m'')) (attributes_parse key))"

definition subst_default :: "char \<Rightarrow> string \<Rightarrow> out_buf \<Rightarrow> errno + out_buf" where
  "subst_default token key b =
     andthen (andthen (andthen (ccat b token) (\<lambda>b. ccat b CHR ''{'')) (\<lambda>b. scat b key))
       (\<lambda>b. ccat b CHR ''}'')"

text \<open>
  \<open>substitute\<close> is given the reserved character and the input behind the brace; it gives
  the input that is left.
\<close>

definition subst_construct ::
  "subst_os \<Rightarrow> irc_subst_t \<Rightarrow> char \<Rightarrow> string \<Rightarrow> out_buf \<Rightarrow> (errno + out_buf) option" where
  "subst_construct os subst token key b =
     (if token = CHR ''@'' then
        if flagged subst IRC_SUBST_IRC_ATTRS then subst_irc_attrs key b
        else if flagged subst IRC_SUBST_SHELL_ATTRS then subst_shell_attrs key b
        else Some (subst_default token key b)
      else if token = CHR ''#'' then
        if flagged subst IRC_SUBST_KEYWORDS then Some (subst_keyword key b subst)
        else Some (subst_default token key b)
      else if token = CHR ''$'' then
        if flagged subst IRC_SUBST_ENV then Some (subst_env os key b)
        else Some (subst_default token key b)
      else if token = CHR ''!'' then
        if flagged subst IRC_SUBST_SHELL then Some (Inr (subst_shell os key b))
        else Some (subst_default token key b)
      else Some (Inr b))"

definition carry :: "string \<Rightarrow> errno + out_buf \<Rightarrow> errno + string \<times> out_buf" where
  "carry rest r = (case r of Inl e \<Rightarrow> Inl e | Inr b \<Rightarrow> Inr (rest, b))"

lemma carry_Inr [simp]: "carry rest r = Inr (x, b) \<longleftrightarrow> x = rest \<and> r = Inr b"
  by (auto simp: carry_def split: sum.splits)

lemma carry_Inl [simp]: "carry rest r = Inl e \<longleftrightarrow> r = Inl e"
  by (auto simp: carry_def split: sum.splits)

definition substitute ::
  "subst_os \<Rightarrow> irc_subst_t \<Rightarrow> char \<Rightarrow> string \<Rightarrow> out_buf \<Rightarrow> (errno + string \<times> out_buf) option" where
  "substitute os subst token p b =
     (if p = [] then Some (Inr (p, b))
      else case split_at CHR ''}'' p of
             (_, None) \<Rightarrow> Some (Inl EINVAL)
           | (key, Some rest) \<Rightarrow>
               if 64 \<le> length key then Some (Inl ENOMEM)
               else map_option (carry rest) (subst_construct os subst token key b))"

lemma substitute_shorter:
  "substitute os subst token p b = Some (Inr (rest, b')) \<Longrightarrow> length rest \<le> length p"
  by (auto simp: substitute_def split_at_Some split: if_splits prod.splits option.splits)

function subst_loop :: "subst_os \<Rightarrow> irc_subst_t \<Rightarrow> string \<Rightarrow> out_buf \<Rightarrow> (errno + out_buf) option" where
  "subst_loop os subst [] b = Some (Inr b)"
| "subst_loop os subst (c # cs) b =
     (if snd b = 0 then Some (Inr b)
      else if \<not> is_reserved c then
        (case ccat b c of Inl e \<Rightarrow> Some (Inl e) | Inr b' \<Rightarrow> subst_loop os subst cs b')
      else if cs \<noteq> [] \<and> hd cs = CHR ''{'' then
        (case substitute os subst c (tl cs) b of
           None \<Rightarrow> None
         | Some (Inl e) \<Rightarrow> Some (Inl e)
         | Some (Inr (rest, b')) \<Rightarrow> subst_loop os subst rest b')
      else
        (case ccat b c of
           Inl e \<Rightarrow> Some (Inl e)
         | Inr b' \<Rightarrow> subst_loop os subst (if cs \<noteq> [] \<and> hd cs = c then tl cs else cs) b'))"
  by pat_completeness auto
termination
proof (relation "measure (\<lambda>(_, _, s, _). length s)", goal_cases)
qed (auto dest!: substitute_shorter simp: less_Suc_eq_le)

declare subst_loop.simps(2) [simp del]

text \<open>
  The result is the text of the buffer, whose length the function returns; on an error the
  buffer is emptied.  Without a single byte of room nothing is written and 0 returned.
\<close>

definition subst_finish :: "errno + out_buf \<Rightarrow> errno + string" where
  "subst_finish r =
     (case r of Inl e \<Rightarrow> Inl e | Inr (out, left) \<Rightarrow> if left < 1 then Inl ENOMEM else Inr out)"

definition irc_subst :: "subst_os \<Rightarrow> nat \<Rightarrow> string \<Rightarrow> irc_subst_t \<Rightarrow> (errno + string) option" where
  "irc_subst os outsz input subst =
     (if outsz = 0 then Some (Inr [])
      else case (if flagged subst IRC_SUBST_DATE then subst_date os outsz input else Inr input) of
             Inl e \<Rightarrow> Some (Inl e)
           | Inr i \<Rightarrow>
               map_option subst_finish (subst_loop os subst i ([], outsz)))"

section \<open>The size of the output\<close>

abbreviation capacity :: "out_buf \<Rightarrow> nat" where
  "capacity b \<equiv> length (fst b) + snd b"

text \<open>\<open>fits b r\<close>: if \<open>r\<close> is a buffer, what was written and what is left add up as in \<open>b\<close>.\<close>

definition fits :: "out_buf \<Rightarrow> errno + out_buf \<Rightarrow> bool" where
  "fits b r = (\<forall>b'. r = Inr b' \<longrightarrow> capacity b' = capacity b)"

lemma fitsD: "fits b (Inr b') \<Longrightarrow> capacity b' = capacity b"
  by (simp add: fits_def)

lemma fits_self [intro!]: "fits b (Inr b)"
  by (simp add: fits_def)

lemma fits_scat [intro!]: "fits b (scat b v)"
  using scat.app_capacity by (auto simp: fits_def simp del: scat.simps)

lemma fits_ccat [intro!]: "fits b (ccat b c)"
  using ccat.app_capacity by (auto simp: fits_def simp del: ccat.simps)

lemma fits_found [intro!]: "fits b (scat_found ps k b)"
  by (auto simp: scat_found_def simp del: scat.simps split: option.splits)

lemma fits_andthen [intro]: "fits b r \<Longrightarrow> (\<And>b1. fits b1 (f b1)) \<Longrightarrow> fits b (andthen r f)"
  by (cases r) (fastforce simp: andthen_def fits_def)+

lemma fits_foldl: "fits b r \<Longrightarrow> (\<And>r t. fits b r \<Longrightarrow> fits b (step r t)) \<Longrightarrow> fits b (foldl step r ts)"
  by (induction ts arbitrary: r) simp_all

declare scat.simps [simp del] ccat.simps [simp del]

lemma fits_irc_attrs: "subst_irc_attrs key b = Some r \<Longrightarrow> fits b r"
  by (auto simp: subst_irc_attrs_def intro!: fits_andthen fits_foldl split: if_splits)

lemma fits_shell_attrs: "subst_shell_attrs key b = Some r \<Longrightarrow> fits b r"
  by (auto simp: subst_shell_attrs_def intro!: fits_andthen fits_foldl split: if_splits)

lemma fits_default: "fits b (subst_default token key b)"
  by (auto simp: subst_default_def intro!: fits_andthen)

lemma fits_keyword: "fits b (subst_keyword key b subst)"
  by (auto simp: subst_keyword_def split: option.splits)

lemma fits_env: "fits b (subst_env os key b)"
  by (auto simp: subst_env_def split: option.splits)

lemma fits_shell: "fits b (Inr (subst_shell os key b))"
proof (cases b)
  case (Pair out n)
  have "length (takeWhile P (take (n - 1) s)) \<le> n" for P and s :: string
    using length_takeWhile_le [of P "take (n - 1) s"] by (simp only: length_take)
  with Pair show ?thesis by (simp add: fits_def Let_def split: option.splits)
qed

lemma fits_construct: "subst_construct os subst token key b = Some r \<Longrightarrow> fits b r"
  by (auto simp: subst_construct_def split: if_splits
      intro: fits_irc_attrs fits_shell_attrs fits_default fits_keyword fits_env fits_shell)

lemma fits_substitute:
  "substitute os subst token p b = Some (Inr (rest, b')) \<Longrightarrow> capacity b' = capacity b"
  by (auto simp: substitute_def split: if_splits prod.splits option.splits dest!: fits_construct fitsD)

lemma ccat_capacity: "ccat b c = Inr b' \<Longrightarrow> capacity b' = capacity b"
  by (rule ccat.app_capacity)

lemma loop_capacity: "subst_loop os subst s b = Some (Inr b') \<Longrightarrow> capacity b' = capacity b"
proof (induction os subst s b rule: subst_loop.induct)
  case (2 os subst c cs b)
  note step = "2.prems" [unfolded subst_loop.simps(2)]
  consider "snd b = 0" | "snd b \<noteq> 0" "\<not> is_reserved c"
    | "snd b \<noteq> 0" "is_reserved c" "cs \<noteq> [] \<and> hd cs = CHR ''{''"
    | "snd b \<noteq> 0" "is_reserved c" "\<not> (cs \<noteq> [] \<and> hd cs = CHR ''{'')" by blast
  then show ?case
  proof cases
    case 1
    with step show ?thesis by simp
  next
    case 2
    with step obtain b1 where "ccat b c = Inr b1" "subst_loop os subst cs b1 = Some (Inr b')"
      by (auto split: sum.splits)
    with "2.IH"(1) 2 ccat_capacity show ?thesis by metis
  next
    case 3
    with step obtain rest b1 where s: "substitute os subst c (tl cs) b = Some (Inr (rest, b1))"
      and l: "subst_loop os subst rest b1 = Some (Inr b')"
      by (auto split: option.splits sum.splits)
    from "2.IH"(2) [OF 3(1) _ 3(3) s refl refl l] 3(2) fits_substitute [OF s] show ?thesis by simp
  next
    case 4
    with step obtain b1 where c: "ccat b c = Inr b1"
      and l: "subst_loop os subst (if cs \<noteq> [] \<and> hd cs = c then tl cs else cs) b1 = Some (Inr b')"
      by (simp split: sum.splits)
    from "2.IH"(3) [OF 4(1) _ 4(3) c l] 4(2) ccat_capacity [OF c] show ?thesis by simp
  qed
qed simp

text \<open>
  C29. An expansion that succeeds always leaves room for the terminator: the text is
  shorter than the buffer, whatever the template, the keywords, the environment and the
  output of commands hold.
\<close>
theorem subst_bounded:
  assumes "irc_subst os outsz input subst = Some (Inr out)" and "outsz \<noteq> 0"
  shows "length out < outsz"
proof -
  from assms obtain i r where "subst_loop os subst i ([], outsz) = Some r" "subst_finish r = Inr out"
    by (auto simp: irc_subst_def split: if_splits sum.splits)
  then obtain left where "subst_loop os subst i ([], outsz) = Some (Inr (out, left))" "left \<ge> 1"
    by (auto simp: subst_finish_def split: sum.splits if_splits)
  from loop_capacity [OF this(1)] this(2) show ?thesis by simp
qed

theorem subst_bounded_witness:
  "\<forall>os. irc_subst os 4 ''abc'' \<lparr>su_flags = 0, su_keywords = []\<rparr> = Some (Inr ''abc'') \<and> length ''abc'' < 4"
proof
  fix os
  have "irc_subst os 4 ''abc'' \<lparr>su_flags = 0, su_keywords = []\<rparr> = Some (Inr ''abc'')"
    by (simp add: irc_subst_def flagged_def subst_loop.simps(2) is_reserved_def ccat.simps subst_finish_def)
  with subst_bounded [OF this] show "irc_subst os 4 ''abc'' \<lparr>su_flags = 0, su_keywords = []\<rparr> =
      Some (Inr ''abc'') \<and> length ''abc'' < 4" by simp
qed

section \<open>Text and substitutions\<close>

text \<open>A text is written in a template by doubling its reserved characters.\<close>

definition escape :: "string \<Rightarrow> string" where
  "escape s = concat (map (\<lambda>c. if is_reserved c then [c, c] else [c]) s)"

lemma brace_not_reserved: "\<not> is_reserved CHR ''{''" "\<not> is_reserved CHR ''}''"
  by (simp_all add: is_reserved_def)

lemma loop_escape:
  "length s \<le> n \<Longrightarrow> subst_loop os su (escape s @ rest) (out, n) = subst_loop os su rest (out @ s, n - length s)"
proof (induction s arbitrary: out n)
  case (Cons c s)
  then have "subst_loop os su (escape (c # s) @ rest) (out, n) = subst_loop os su (escape s @ rest) (out @ [c], n - 1)"
    by (auto simp: escape_def subst_loop.simps(2) ccat.simps is_reserved_def)
  with Cons show ?case by simp
qed (simp add: escape_def)

lemma loop_full: "subst_loop os su s (out, 0) = Some (Inr (out, 0))"
  by (cases s) (simp_all add: subst_loop.simps(2))

text \<open>
  Without the date, every text can be written in a template and comes back as it is,
  whatever it holds and whichever substitutions are enabled; it is refused exactly when it
  leaves no room for the terminator.
\<close>
theorem subst_escape:
  assumes "\<not> flagged su IRC_SUBST_DATE" and "outsz \<noteq> 0"
  shows "irc_subst os outsz (escape s) su =
    Some (if length s < outsz then Inr s else Inl ENOMEM)"
proof (cases "length s < outsz")
  case True
  then have "subst_loop os su (escape s) ([], outsz) = Some (Inr (s, outsz - length s))"
    using loop_escape [of s outsz os su "[]" "[]"] by simp
  with True assms show ?thesis by (simp add: irc_subst_def subst_finish_def)
next
  case False
  have "escape s = escape (take outsz s) @ escape (drop outsz s)"
    by (simp add: escape_def flip: concat_append map_append)
  then have "subst_loop os su (escape s) ([], outsz) = Some (Inr (take outsz s, 0))"
    using loop_escape [of "take outsz s" outsz os su "escape (drop outsz s)" "[]"] False
    by (simp add: loop_full)
  with False assms show ?thesis by (simp add: irc_subst_def subst_finish_def)
qed

theorem subst_escape_witness:
  "\<forall>os. irc_subst os 16 ''a##{b} @@'' \<lparr>su_flags = 62, su_keywords = []\<rparr> = Some (Inr ''a#{b} @'')"
  using subst_escape [of "\<lparr>su_flags = 62, su_keywords = []\<rparr>" 16 _ "''a#{b} @''"]
  by (simp add: flagged_def IRC_SUBST_DATE_def escape_def is_reserved_def)

definition keyword_text :: "irc_subst_t \<Rightarrow> string \<Rightarrow> string" where
  "keyword_text su k =
     (if flagged su IRC_SUBST_KEYWORDS
      then (case find (\<lambda>e. kw_key e = k) (su_keywords su) of
              None \<Rightarrow> [] | Some e \<Rightarrow> (case kw_value e of None \<Rightarrow> [] | Some v \<Rightarrow> v))
      else ''#{'' @ k @ ''}'')"

lemma keyword_loop:
  assumes "CHR ''}'' \<notin> set k" and "length k < 64" and "length (keyword_text su k) < n"
  shows "subst_loop os su (''#{'' @ k @ CHR ''}'' # rest) (out, n) =
    subst_loop os su rest (out @ keyword_text su k, n - length (keyword_text su k))"
proof -
  have split: "split_at CHR ''}'' (k @ CHR ''}'' # rest) = (k, Some rest)"
    using assms(1) by (rule split_at_append)
  have "subst_construct os su CHR ''#'' k (out, n) =
      Some (Inr (out @ keyword_text su k, n - length (keyword_text su k)))"
  proof (cases "flagged su IRC_SUBST_KEYWORDS")
    case True
    with assms(3) show ?thesis
      by (auto simp: subst_construct_def subst_keyword_def keyword_text_def scat.simps
          irc_util_strlcpy_def split: option.splits)
  next
    case False
    with assms(3) show ?thesis
      by (simp add: subst_construct_def subst_default_def keyword_text_def scat.simps ccat.simps
          irc_util_strlcpy_def andthen_def Let_def)
  qed
  with split assms(2,3) show ?thesis
    by (simp add: subst_loop.simps(2) is_reserved_def substitute_def carry_def)
qed

text \<open>
  A keyword construct between two texts is replaced by the value of the first entry of
  the table with that name, by nothing when there is none, and kept as it is when keyword
  substitution is disabled; the texts around it are untouched.
\<close>
theorem subst_keyword_insert:
  assumes "\<not> flagged su IRC_SUBST_DATE" and "CHR ''}'' \<notin> set k" and "length k < 64"
    and "length a + length (keyword_text su k) + length c < outsz"
  shows "irc_subst os outsz (escape a @ ''#{'' @ k @ CHR ''}'' # escape c) su =
    Some (Inr (a @ keyword_text su k @ c))"
proof -
  have "subst_loop os su (escape a @ ''#{'' @ k @ CHR ''}'' # escape c) ([], outsz) =
      subst_loop os su (''#{'' @ k @ CHR ''}'' # escape c) (a, outsz - length a)"
    using loop_escape [of a outsz os su "''#{'' @ k @ CHR ''}'' # escape c" "[]"] assms(4) by simp
  also have "\<dots> = subst_loop os su (escape c @ []) (a @ keyword_text su k,
      outsz - length a - length (keyword_text su k))"
    using keyword_loop [OF assms(2,3), of su "outsz - length a" os "escape c" a] assms(4) by simp
  also have "\<dots> = Some (Inr (a @ keyword_text su k @ c,
      outsz - length a - length (keyword_text su k) - length c))"
    using assms(4) by (subst loop_escape) simp_all
  finally show ?thesis
    using assms(1,4) by (simp add: irc_subst_def subst_finish_def)
qed

theorem subst_keyword_insert_witness:
  "\<forall>os. irc_subst os 64 ''hello #{target}!!'' \<lparr>su_flags = 2, su_keywords =
      [\<lparr>kw_key = ''target'', kw_value = Some ''irccd''\<rparr>]\<rparr> = Some (Inr ''hello irccd!'')"
  using subst_keyword_insert [of "\<lparr>su_flags = 2, su_keywords = [\<lparr>kw_key = ''target'', kw_value = Some ''irccd''\<rparr>]\<rparr>"
      "''target''" "''hello ''" "''!''" 64]
  by (simp add: flagged_def IRC_SUBST_DATE_def IRC_SUBST_KEYWORDS_def keyword_text_def escape_def is_reserved_def)

text \<open>
  The errors and their limits: behind any text, a construct that is not closed is
  invalid, one whose name has 64 bytes or more is refused for lack of memory, and a
  template that ends right behind an opening brace is accepted without a trace of it.
\<close>
theorem subst_broken_construct:
  assumes "\<not> flagged su IRC_SUBST_DATE" and "is_reserved t" and "length a < outsz"
    and "k \<noteq> []" and "CHR ''}'' \<notin> set k" and "64 \<le> length long" and "CHR ''}'' \<notin> set long"
  shows "irc_subst os outsz (escape a @ t # CHR ''{'' # k) su = Some (Inl EINVAL) \<and>
    irc_subst os outsz (escape a @ t # CHR ''{'' # long @ CHR ''}'' # rest) su = Some (Inl ENOMEM) \<and>
    irc_subst os outsz (escape a @ [t, CHR ''{'']) su = Some (Inr a)"
proof -
  have start: "subst_loop os su (escape a @ t # CHR ''{'' # x) ([], outsz) =
      subst_loop os su (t # CHR ''{'' # x) (a, outsz - length a)" for x
    using loop_escape [of a outsz os su "t # CHR ''{'' # x" "[]"] assms(3) by simp
  have "split_at CHR ''}'' k = (k, None)" using assms(5) by (simp only: split_at_None simp_thms)
  moreover have "split_at CHR ''}'' (long @ CHR ''}'' # rest) = (long, Some rest)"
    using assms(7) by (rule split_at_append)
  ultimately show ?thesis
    using assms(1-4,6)
    by (simp add: irc_subst_def start subst_loop.simps(2) substitute_def subst_finish_def)
qed

theorem subst_broken_construct_witness:
  "\<forall>os. irc_subst os 64 ''a #{name'' \<lparr>su_flags = 2, su_keywords = []\<rparr> = Some (Inl EINVAL) \<and>
     irc_subst os 64 ''a #{'' \<lparr>su_flags = 2, su_keywords = []\<rparr> = Some (Inr ''a '')"
  using subst_broken_construct [of "\<lparr>su_flags = 2, su_keywords = []\<rparr>" "CHR ''#''" "''a ''" 64 "''name''"
      "replicate 64 CHR ''x''"]
  by (simp add: flagged_def IRC_SUBST_DATE_def escape_def is_reserved_def)

text \<open>
  A construct with more than four font attributes writes past the end of the array
  that holds them, for both kinds of attributes.
\<close>
theorem subst_attrs_overflow:
  assumes "flagged su IRC_SUBST_IRC_ATTRS \<or> flagged su IRC_SUBST_SHELL_ATTRS"
  shows "subst_construct os su CHR ''@'' ''red,blue,a,b,c,d,e'' b = None"
proof -
  have "attributes_parse ''red,blue,a,b,c,d,e'' = None" by code_simp
  then show ?thesis using assms
    by (auto simp: subst_construct_def subst_irc_attrs_def subst_shell_attrs_def)
qed

theorem subst_attrs_overflow_witness:
  "\<forall>os b. subst_construct os \<lparr>su_flags = 16, su_keywords = []\<rparr> CHR ''@'' ''red,blue,a,b,c,d,e'' b = None"
  using subst_attrs_overflow [of "\<lparr>su_flags = 16, su_keywords = []\<rparr>"]
  by (simp add: flagged_def IRC_SUBST_IRC_ATTRS_def)

end
