(* ===== verification/Log.thy ===== *)
theory Log
  imports Subst
begin

text \<open>
  The loggers (\<open>lib/irccd/log.c\<close>).  The static variables of the file are the record \<open>log\<close>;
  what was written is kept in it, with the stream or the priority it went to.  The text of a
  call is what \<open>vsnprintf\<close> makes of its format.  \<open>None\<close> is a write to a stream that is NULL,
  or an undefined expansion of the template.
\<close>

section \<open>State\<close>

datatype level = LEVEL_INFO | LEVEL_WARN | LEVEL_DEBUG

datatype stream = Stdout | Stderr | Log_file string

datatype priority = LOG_INFO | LOG_WARNING | LOG_DEBUG

datatype log_handler = Handler_files | Handler_syslog

datatype finalizer = Finalizer_files | Finalizer_syslog

datatype written = To_stream stream string | To_syslog priority string

record log =
  lg_out :: "stream option"
  lg_err :: "stream option"
  lg_verbosity :: int
  lg_tmpl :: string
  lg_handler :: "log_handler option"
  lg_finalizer :: "finalizer option"
  lg_written :: "written list"

definition DEFAULT_TEMPLATE :: string where "DEFAULT_TEMPLATE = ''#{message}''"

definition log_init :: log where
  "log_init = \<lparr>lg_out = None, lg_err = None, lg_verbosity = 0, lg_tmpl = DEFAULT_TEMPLATE,
     lg_handler = None, lg_finalizer = None, lg_written = []\<rparr>"

definition levelstr :: "level \<Rightarrow> string" where
  "levelstr level =
     (case level of LEVEL_DEBUG \<Rightarrow> ''debug'' | LEVEL_INFO \<Rightarrow> ''info'' | LEVEL_WARN \<Rightarrow> ''warning'')"

section \<open>Handlers\<close>

definition write_log :: "written \<Rightarrow> log \<Rightarrow> log" where
  "write_log w lg = lg\<lparr>lg_written := lg_written lg @ [w]\<rparr>"

definition handler_files :: "level \<Rightarrow> string \<Rightarrow> log \<Rightarrow> log option" where
  "handler_files level line lg =
     map_option (\<lambda>f. write_log (To_stream f line) lg)
       (case level of LEVEL_WARN \<Rightarrow> lg_err lg | _ \<Rightarrow> lg_out lg)"

definition finalizer_files :: "log \<Rightarrow> log" where
  "finalizer_files lg = lg\<lparr>lg_out := None, lg_err := None\<rparr>"

definition handler_syslog :: "level \<Rightarrow> string \<Rightarrow> log \<Rightarrow> log option" where
  "handler_syslog level line lg = Some (write_log (To_syslog
     (case level of LEVEL_INFO \<Rightarrow> LOG_INFO | LEVEL_WARN \<Rightarrow> LOG_WARNING | LEVEL_DEBUG \<Rightarrow> LOG_DEBUG) line) lg)"

text \<open>Closing the connection to syslog changes nothing of the state.\<close>

definition finalizer_syslog :: "log \<Rightarrow> log" where
  "finalizer_syslog lg = lg"

definition call_handler :: "log_handler \<Rightarrow> level \<Rightarrow> string \<Rightarrow> log \<Rightarrow> log option" where
  "call_handler h = (case h of Handler_files \<Rightarrow> handler_files | Handler_syslog \<Rightarrow> handler_syslog)"

text \<open>
  One line: the message cut to 1023 bytes is expanded into the template; a failed expansion
  leaves an empty line.
\<close>

definition log_subst :: "level \<Rightarrow> string \<Rightarrow> irc_subst_t" where
  "log_subst level line =
     \<lparr>su_flags = IRC_SUBST_DATE OR IRC_SUBST_KEYWORDS OR IRC_SUBST_ENV OR IRC_SUBST_SHELL OR IRC_SUBST_SHELL_ATTRS,
      su_keywords = [\<lparr>kw_key = ''message'', kw_value = Some line\<rparr>,
                     \<lparr>kw_key = ''level'', kw_value = Some (levelstr level)\<rparr>]\<rparr>"

definition log_line :: "subst_os \<Rightarrow> string \<Rightarrow> level \<Rightarrow> string \<Rightarrow> string option" where
  "log_line os tmpl level msg =
     map_option (\<lambda>r. case r of Inl _ \<Rightarrow> [] | Inr s \<Rightarrow> s)
       (irc_subst os 1024 tmpl (log_subst level (fit 1024 msg)))"

definition wrap :: "subst_os \<Rightarrow> log_handler \<Rightarrow> level \<Rightarrow> string \<Rightarrow> log \<Rightarrow> log option" where
  "wrap os h level msg lg =
     (case log_line os (lg_tmpl lg) level msg of
        None \<Rightarrow> None
      | Some formatted \<Rightarrow> call_handler h level formatted lg)"

section \<open>Operations\<close>

definition irc_log_finish :: "log \<Rightarrow> log" where
  "irc_log_finish lg =
     (case lg_finalizer lg of
        None \<Rightarrow> lg
      | Some Finalizer_files \<Rightarrow> finalizer_files lg
      | Some Finalizer_syslog \<Rightarrow> finalizer_syslog lg)\<lparr>lg_handler := None, lg_finalizer := None\<rparr>"

definition irc_log_to_syslog :: "log \<Rightarrow> log" where
  "irc_log_to_syslog lg =
     (irc_log_finish lg)\<lparr>lg_handler := Some Handler_syslog, lg_finalizer := Some Finalizer_syslog\<rparr>"

definition irc_log_to_console :: "log \<Rightarrow> log" where
  "irc_log_to_console lg =
     (irc_log_finish lg)\<lparr>lg_out := Some Stdout, lg_err := Some Stderr,
        lg_handler := Some Handler_files, lg_finalizer := None\<rparr>"

definition irc_log_to_null :: "log \<Rightarrow> log" where
  "irc_log_to_null lg = (irc_log_finish lg)\<lparr>lg_handler := None, lg_finalizer := None\<rparr>"

definition irc_log_set_verbose :: "int \<Rightarrow> log \<Rightarrow> log" where
  "irc_log_set_verbose mode lg = lg\<lparr>lg_verbosity := mode\<rparr>"

definition irc_log_set_template :: "string option \<Rightarrow> log \<Rightarrow> log" where
  "irc_log_set_template fmt lg =
     lg\<lparr>lg_tmpl := snd (irc_util_strlcpy (case fmt of Some f \<Rightarrow> f | None \<Rightarrow> DEFAULT_TEMPLATE) 512)\<rparr>"

definition irc_log_info :: "subst_os \<Rightarrow> string \<Rightarrow> log \<Rightarrow> log option" where
  "irc_log_info os msg lg =
     (case lg_handler lg of
        Some h \<Rightarrow> if lg_verbosity lg \<noteq> 0 then wrap os h LEVEL_INFO msg lg else Some lg
      | None \<Rightarrow> Some lg)"

definition irc_log_warn :: "subst_os \<Rightarrow> string \<Rightarrow> log \<Rightarrow> log option" where
  "irc_log_warn os msg lg =
     (case lg_handler lg of Some h \<Rightarrow> wrap os h LEVEL_WARN msg lg | None \<Rightarrow> Some lg)"

text \<open>Debug messages exist in builds without \<open>NDEBUG\<close> only.\<close>

definition irc_log_debug :: "bool \<Rightarrow> subst_os \<Rightarrow> string \<Rightarrow> log \<Rightarrow> log option" where
  "irc_log_debug ndebug os msg lg =
     (if ndebug then Some lg
      else case lg_handler lg of Some h \<Rightarrow> wrap os h LEVEL_DEBUG msg lg | None \<Rightarrow> Some lg)"

text \<open>
  \<open>opened\<close> tells whether \<open>fopen\<close> gave a stream.  The warning is written while there is no
  handler, the files handler is installed all the same.
\<close>

definition irc_log_to_file :: "subst_os \<Rightarrow> bool \<Rightarrow> string \<Rightarrow> string \<Rightarrow> log \<Rightarrow> log option" where
  "irc_log_to_file os opened failure file lg =
     (let f = (if opened then Some (Log_file file) else None);
          lg1 = (irc_log_finish lg)\<lparr>lg_out := f, lg_err := f\<rparr>
      in map_option (\<lambda>lg2. lg2\<lparr>lg_handler := Some Handler_files, lg_finalizer := Some Finalizer_files\<rparr>)
           (if opened then Some lg1 else irc_log_warn os (file @ '': '' @ failure) lg1))"

section \<open>What is written\<close>

lemma escape_length: "length s \<le> length (escape s)"
  by (induction s) (simp_all add: escape_def)

lemma log_flags:
  "flagged (log_subst level line) IRC_SUBST_DATE" "flagged (log_subst level line) IRC_SUBST_KEYWORDS"
  by (simp_all add: flagged_def log_subst_def IRC_SUBST_DATE_def IRC_SUBST_KEYWORDS_def IRC_SUBST_ENV_def
      IRC_SUBST_SHELL_def IRC_SUBST_SHELL_ATTRS_def)

lemma message_text: "keyword_text (log_subst level line) ''message'' = line"
  using log_flags(2) by (simp add: keyword_text_def) (simp add: log_subst_def)

lemma message_loop:
  assumes "0 < n"
  shows "subst_loop os (log_subst level line) ''#{message}'' (out, n) =
    Some (if length line < n then Inr (out @ line, n - length line) else Inl ENOMEM)"
proof (cases "length line < n")
  case True
  then show ?thesis
    using keyword_loop [of "''message''" "log_subst level line" n os "[]" out]
    by (simp add: message_text)
next
  case False
  have split: "split_at CHR ''}'' ''message}'' = (''message'', Some [])" by code_simp
  have "subst_construct os (log_subst level line) CHR ''#'' ''message'' (out, n) = Some (Inl ENOMEM)"
    using False log_flags(2) by (simp add: subst_construct_def subst_keyword_def)
      (simp add: log_subst_def scat.simps irc_util_strlcpy_def)
  with assms split show ?thesis using False
    by (simp add: subst_loop.simps(2) is_reserved_def substitute_def carry_def)
qed

lemma log_line_template:
  assumes tmpl: "tmpl = escape a @ ''#{message}''" and len: "length tmpl < 1024"
    and date: "os_strftime os tmpl = tmpl"
  shows "log_line os tmpl level m =
    Some (if length a + length (fit 1024 m) < 1024 then a @ fit 1024 m else [])"
proof -
  have a: "length a < 1024" using len escape_length [of a] by (simp add: tmpl)
  have "irc_subst os 1024 tmpl (log_subst level (fit 1024 m)) =
      map_option subst_finish (subst_loop os (log_subst level (fit 1024 m)) tmpl ([], 1024))"
    using len date log_flags(1) tmpl by (simp add: irc_subst_def subst_date_def)
  also have "subst_loop os (log_subst level (fit 1024 m)) tmpl ([], 1024) =
      subst_loop os (log_subst level (fit 1024 m)) ''#{message}'' (a, 1024 - length a)"
    using loop_escape [of a 1024 os "log_subst level (fit 1024 m)" "''#{message}''" "[]"] a
    by (simp add: tmpl)
  also have "\<dots> = Some (if length (fit 1024 m) < 1024 - length a
      then Inr (a @ fit 1024 m, 1024 - length a - length (fit 1024 m)) else Inl ENOMEM)"
    using a by (subst message_loop) simp_all
  finally show ?thesis by (auto simp: log_line_def subst_finish_def)
qed

text \<open>
  C11. With a template that puts a text before the message, a warning is written to the
  error stream and an information, if logging is verbose, to the output stream: the text
  and the message cut to 1023 bytes.  When both together reach 1024 bytes the line that is
  written is empty.
\<close>
theorem log_output:
  assumes "lg_handler lg = Some Handler_files" and "lg_out lg = Some out" and "lg_err lg = Some err"
    and "lg_tmpl lg = escape a @ ''#{message}''" and "length (lg_tmpl lg) < 1024"
    and "os_strftime os (lg_tmpl lg) = lg_tmpl lg"
  shows "let line = (if length a + length (fit 1024 m) < 1024 then a @ fit 1024 m else []) in
    irc_log_warn os m lg = Some (write_log (To_stream err line) lg) \<and>
    irc_log_info os m lg = Some (if lg_verbosity lg = 0 then lg else write_log (To_stream out line) lg)"
  using assms log_line_template [OF assms(4-6)]
  by (simp add: irc_log_warn_def irc_log_info_def wrap_def call_handler_def handler_files_def Let_def)

theorem log_output_witness:
  "irc_log_warn \<lparr>os_getenv = \<lambda>_. None, os_popen = \<lambda>_. None, os_strftime = \<lambda>s. s\<rparr> ''hi'' (irc_log_to_console log_init) =
     Some (write_log (To_stream Stderr ''hi'') (irc_log_to_console log_init)) \<and>
   irc_log_info \<lparr>os_getenv = \<lambda>_. None, os_popen = \<lambda>_. None, os_strftime = \<lambda>s. s\<rparr> ''hi'' (irc_log_to_console log_init) =
     Some (irc_log_to_console log_init)"
  using log_output [of "irc_log_to_console log_init" Stdout Stderr "[]"
      "\<lparr>os_getenv = \<lambda>_. None, os_popen = \<lambda>_. None, os_strftime = \<lambda>s. s\<rparr>" "''hi''"]
  by (simp add: irc_log_to_console_def irc_log_finish_def log_init_def DEFAULT_TEMPLATE_def escape_def fit_def)

text \<open>
  A log file that cannot be opened is not reported, as the handler has been removed
  before the warning, and leaves the file handler over streams that are NULL: the next
  warning, and the next information in verbose mode, write to a NULL stream.
\<close>
theorem log_open_failure:
  "\<exists>lg'. irc_log_to_file os False failure file lg = Some lg' \<and>
     lg_written lg' = lg_written lg \<and>
     irc_log_warn os m lg' = None \<and>
     irc_log_info os m lg' = (if lg_verbosity lg = 0 then Some lg' else None)"
  by (auto simp: irc_log_to_file_def irc_log_finish_def irc_log_warn_def irc_log_info_def wrap_def Let_def
      call_handler_def handler_files_def finalizer_files_def finalizer_syslog_def
      split: option.splits finalizer.splits)

end
