(* ===== verification/Conf.thy ===== *)
theory Conf
  imports Transport Log
begin

unbundle bit_operations_syntax

text \<open>
  The configuration file (\<open>irccd/conf.c\<close>).  The lexer and the parser are coroutines that
  take turns: the lexer waits until the parser has taken its token.  The lexer is therefore
  the list of the tokens it is going to push, each with the position it has reached by then,
  and the parser consumes that list.  The position of an error is the one of the last token
  taken.
\<close>

section \<open>Tokens\<close>

datatype token_type = TOKEN_BLK_BEGIN | TOKEN_BLK_END | TOKEN_COMMA | TOKEN_EOF | TOKEN_STRING

text \<open>A token has a text when it is a string; the NULL of the others is written as \<open>[]\<close>.\<close>

type_synonym token = "token_type \<times> string"

text \<open>Line and column, and what the lexer does next: push a token, die, or fail an assertion.\<close>

type_synonym pos = "nat \<times> nat"

datatype lexed = Lexed token pos | Lex_fatal string pos | Lex_abort

section \<open>The lexer\<close>

text \<open>
  \<open>conf_lex_advance\<close> moves over one byte; the loops of the lexer move as long as the next
  byte is in a class.
\<close>

definition conf_lex_advance :: "char \<Rightarrow> pos \<Rightarrow> pos" where
  "conf_lex_advance c p = (if c = LF then (fst p + 1, 1) else (fst p, snd p + 1))"

fun lex_while :: "(char \<Rightarrow> bool) \<Rightarrow> string \<Rightarrow> pos \<Rightarrow> string \<times> pos" where
  "lex_while P [] p = ([], p)"
| "lex_while P (c # cs) p = (if P c then lex_while P cs (conf_lex_advance c p) else (c # cs, p))"

definition conf_lex_bskip :: "string \<Rightarrow> pos \<Rightarrow> string \<times> pos" where
  "conf_lex_bskip = lex_while is_space"

definition conf_lex_istoken :: "char \<Rightarrow> bool" where
  "conf_lex_istoken c =
     (c = CHR ''{'' \<or> c = CHR ''}'' \<or> c = CHR '','' \<or> c = CHR ''#'' \<or> c = CHR 0x22)"

text \<open>
  Behind the opening quote: the text, the position when it is pushed, and where the lexer
  goes on.  The opening quote is not counted in the column.
\<close>

definition conf_lex_qstring :: "string \<Rightarrow> pos \<Rightarrow> pos + string \<times> pos \<times> string \<times> pos" where
  "conf_lex_qstring off p =
     (case lex_while (\<lambda>c. c \<noteq> CHR 0x22) off p of
        ([], p1) \<Rightarrow> Inl p1
      | (_ # rest, p1) \<Rightarrow>
          let p2 = (fst p1, snd p1 + 1)
          in Inr (takeWhile (\<lambda>c. c \<noteq> CHR 0x22) off, p2, conf_lex_bskip rest p2))"

definition bare :: "char \<Rightarrow> bool" where
  "bare c = (\<not> is_space c \<and> \<not> conf_lex_istoken c)"

definition conf_lex_string :: "string \<Rightarrow> pos \<Rightarrow> string \<times> pos \<times> string \<times> pos" where
  "conf_lex_string off p =
     (case lex_while bare off p of
        (rest, p1) \<Rightarrow> (takeWhile bare off, p1, conf_lex_bskip rest p1))"

definition conf_lex_comment :: "string \<Rightarrow> pos \<Rightarrow> string \<times> pos" where
  "conf_lex_comment off p =
     (case lex_while (\<lambda>c. c \<noteq> LF) (tl off) (conf_lex_advance (hd off) p) of
        (rest, p1) \<Rightarrow> conf_lex_bskip rest p1)"

definition token_of :: "char \<Rightarrow> token_type" where
  "token_of c = (if c = CHR ''{'' then TOKEN_BLK_BEGIN else if c = CHR ''}'' then TOKEN_BLK_END
                 else TOKEN_COMMA)"

lemma lex_while_eq:
  "lex_while P off p = (dropWhile P off, foldl (\<lambda>q c. conf_lex_advance c q) p (takeWhile P off))"
  by (induction P off p rule: lex_while.induct) simp_all

lemma lex_while_length: "length (fst (lex_while P off p)) \<le> length off"
  by (simp add: lex_while_eq length_dropWhile_le)

lemma lex_bskip_length: "length (fst (conf_lex_bskip off p)) \<le> length off"
  by (simp add: conf_lex_bskip_def lex_while_length)

lemma qstring_length:
  assumes "conf_lex_qstring off p = Inr (s, p1, off', p2)"
  shows "length off' < length off"
proof -
  obtain q rest p3 where w: "lex_while (\<lambda>c. c \<noteq> CHR 0x22) off p = (q # rest, p3)"
    using assms by (auto simp: conf_lex_qstring_def split: prod.splits list.splits)
  then have "length rest < length off"
    using lex_while_length [of "\<lambda>c. c \<noteq> CHR 0x22" off p] by simp
  moreover have "length off' \<le> length rest"
    using assms w lex_bskip_length [of rest "(fst p3, snd p3 + 1)"] by (auto simp: conf_lex_qstring_def Let_def)
  ultimately show ?thesis by simp
qed

lemma string_length:
  assumes "conf_lex_string (c # cs) p = (s, p1, off', p2)" and "bare c"
  shows "length off' < length (c # cs)"
proof -
  obtain rest p3 where w: "lex_while bare cs (conf_lex_advance c p) = (rest, p3)"
    by (rule prod.exhaust)
  then have "length rest \<le> length cs" using lex_while_length [of bare cs] by (metis fst_conv)
  moreover have "length off' \<le> length rest"
    using assms w lex_bskip_length [of rest p3] by (auto simp: conf_lex_string_def)
  ultimately show ?thesis by simp
qed

lemma comment_length:
  assumes "conf_lex_comment (c # cs) p = (off', p1)"
  shows "length off' < length (c # cs)"
proof -
  obtain rest p3 where w: "lex_while (\<lambda>c. c \<noteq> LF) cs (conf_lex_advance c p) = (rest, p3)"
    by (rule prod.exhaust)
  then have "length rest \<le> length cs" using lex_while_length [of "\<lambda>c. c \<noteq> LF" cs] by (metis fst_conv)
  moreover have "length off' \<le> length rest"
    using assms w lex_bskip_length [of rest p3] by (auto simp: conf_lex_comment_def)
  ultimately show ?thesis by simp
qed

function conf_lex_entry :: "string \<Rightarrow> pos \<Rightarrow> lexed list" where
  "conf_lex_entry [] p = [Lexed (TOKEN_EOF, []) p]"
| "conf_lex_entry (c # cs) p =
     (if c = CHR ''{'' \<or> c = CHR ''}'' \<or> c = CHR '','' then
        let p1 = conf_lex_advance c p in
        Lexed (token_of c, []) p1 # (case conf_lex_bskip cs p1 of (off, p2) \<Rightarrow> conf_lex_entry off p2)
      else if c = CHR ''#'' then
        (case conf_lex_comment (c # cs) p of (off, p1) \<Rightarrow> conf_lex_entry off p1)
      else if c = CHR 0x22 then
        (case conf_lex_qstring cs p of
           Inl p1 \<Rightarrow> [Lex_fatal ''unterminated string'' p1]
         | Inr (s, p1, off, p2) \<Rightarrow> Lexed (TOKEN_STRING, s) p1 # conf_lex_entry off p2)
      else if is_space c then [Lex_abort]
      else
        (case conf_lex_string (c # cs) p of
           (s, p1, off, p2) \<Rightarrow> Lexed (TOKEN_STRING, s) p1 # conf_lex_entry off p2))"
  by pat_completeness auto
termination
proof (relation "measure (\<lambda>(off, _). length off)", goal_cases)
  case (2 c cs p p1 x y)
  then show ?case using lex_bskip_length [of cs p1] by (auto simp: less_Suc_eq_le split: prod.splits)
next
  case (3 c cs p x y)
  from 3(3) have "length x < length (c # cs)" by (metis comment_length)
  then show ?case by simp
next
  case (4 c cs p r s q p1 q1 off p2)
  then have "conf_lex_qstring cs p = Inr (s, p1, off, p2)" by simp
  then have "length off < length cs" by (rule qstring_length)
  then show ?case by simp
next
  case (5 c cs p s q p1 q1 off p2)
  then have "conf_lex_string (c # cs) p = (s, p1, off, p2)" by simp
  moreover have "bare c" using 5 by (auto simp: bare_def conf_lex_istoken_def)
  ultimately have "length off < length (c # cs)" by (rule string_length)
  then show ?case by simp
qed simp

declare conf_lex_entry.simps(2) [simp del]

section \<open>State of the parser\<close>

datatype log_type = LOG_TYPE_CONSOLE | LOG_TYPE_FILE | LOG_TYPE_SYSLOG

text \<open>
  \<open>cf_toks\<close> is what is left in front of the parser, a token put back included; \<open>cf_pos\<close> is
  line and column; \<open>cf_stderr\<close> collects the notes on the standard error.
\<close>

record 's conf =
  cf_path :: string
  cf_pos :: pos
  cf_toks :: "lexed list"
  cf_servers :: "irc_server list"
  cf_hooks :: "irc_hook list"
  cf_plugins :: "'s irc_plugin list"
  cf_rules :: "irc_rule list"
  cf_tpt_uid :: int
  cf_tpt_gid :: int
  cf_tpt :: "string option"
  cf_log_type :: log_type
  cf_log_level :: int
  cf_log_template :: "string option"
  cf_log_file :: "string option"
  cf_stderr :: "string list"

text \<open>
  How a piece of the parser ends: with a value, by turning the coroutine off at the end of
  the file, with a message and the exit of the process, or undefined.
\<close>

datatype ('a, 's) parsed = Done 'a "'s conf" | Off "'s conf" | Fatal string | Crash

fun conf_then :: "('a, 's) parsed \<Rightarrow> ('a \<Rightarrow> 's conf \<Rightarrow> ('b, 's) parsed) \<Rightarrow> ('b, 's) parsed" where
  "conf_then (Done a conf) f = f a conf"
| "conf_then (Off conf) f = Off conf"
| "conf_then (Fatal msg) f = Fatal msg"
| "conf_then Crash f = Crash"

lemma conf_then_cong [fundef_cong]:
  "m = m' \<Longrightarrow> (\<And>a conf. m' = Done a conf \<Longrightarrow> f a conf = f' a conf) \<Longrightarrow> conf_then m f = conf_then m' f'"
  by (cases m') simp_all

text \<open>A call that may be undefined.\<close>

definition attempt :: "'a option \<Rightarrow> 's conf \<Rightarrow> ('a, 's) parsed" where
  "attempt r conf = (case r of Some a \<Rightarrow> Done a conf | None \<Rightarrow> Crash)"

text \<open>The parameters: the databases of users and groups, the directories of the build, the bot.\<close>

record 's conf_env =
  ce_getpwnam :: "string \<Rightarrow> int option"
  ce_getgrnam :: "string \<Rightarrow> int option"
  ce_dirs :: build_dirs
  ce_irccd :: "'s irccd"

definition quoted :: "string \<Rightarrow> string" where
  "quoted s = CHR 0x27 # s @ [CHR 0x27]"

definition fatal_at :: "string \<Rightarrow> pos \<Rightarrow> string \<Rightarrow> string" where
  "fatal_at path p msg = path @ '':'' @ show_nat (fst p) @ '':'' @ show_nat (snd p) @ '': '' @ msg"

definition conf_fatal :: "'s conf \<Rightarrow> string \<Rightarrow> ('a, 's) parsed" where
  "conf_fatal conf msg = Fatal (fatal_at (cf_path conf) (cf_pos conf) msg)"

definition conf_resolve_uid :: "'s conf_env \<Rightarrow> string \<Rightarrow> 's conf \<Rightarrow> (int, 's) parsed" where
  "conf_resolve_uid env value conf =
     (case irc_util_stoi value of
        Inr uid \<Rightarrow> Done uid conf
      | Inl _ \<Rightarrow> (case ce_getpwnam env value of
                   Some uid \<Rightarrow> Done uid conf
                 | None \<Rightarrow> conf_fatal conf (''invalid uid: '' @ value)))"

definition conf_resolve_gid :: "'s conf_env \<Rightarrow> string \<Rightarrow> 's conf \<Rightarrow> (int, 's) parsed" where
  "conf_resolve_gid env value conf =
     (case irc_util_stoi value of
        Inr gid \<Rightarrow> Done gid conf
      | Inl _ \<Rightarrow> (case ce_getgrnam env value of
                   Some gid \<Rightarrow> Done gid conf
                 | None \<Rightarrow> conf_fatal conf (''invalid gid: '' @ value)))"

section \<open>Taking tokens\<close>

text \<open>\<open>nce_coro_pull\<close>: behind the last token the parser would wait for ever.\<close>

definition conf_pull :: "'s conf \<Rightarrow> (token, 's) parsed" where
  "conf_pull conf =
     (case cf_toks conf of
        [] \<Rightarrow> Off conf
      | Lexed t p # toks \<Rightarrow> Done t (conf\<lparr>cf_toks := toks, cf_pos := p\<rparr>)
      | Lex_fatal msg p # _ \<Rightarrow> Fatal (fatal_at (cf_path conf) p msg)
      | Lex_abort # _ \<Rightarrow> Crash)"

definition conf_queue :: "token \<Rightarrow> 's conf \<Rightarrow> 's conf" where
  "conf_queue t conf = conf\<lparr>cf_toks := Lexed t (cf_pos conf) # cf_toks conf\<rparr>"

definition conf_next :: "'s conf \<Rightarrow> (token, 's) parsed" where
  "conf_next conf = conf_then (conf_pull conf) (\<lambda>t conf.
     if fst t = TOKEN_EOF then Off conf else Done t conf)"

text \<open>The text of the token if it has the type, \<open>None\<close> if it was put back.\<close>

definition conf_next_is :: "token_type \<Rightarrow> 's conf \<Rightarrow> (string option, 's) parsed" where
  "conf_next_is type conf = conf_then (conf_pull conf) (\<lambda>t conf.
     if fst t = type then Done (Some (snd t)) conf else Done None (conf_queue t conf))"

definition conf_string_is :: "string \<Rightarrow> 's conf \<Rightarrow> (bool, 's) parsed" where
  "conf_string_is what conf = conf_then (conf_next_is TOKEN_STRING conf) (\<lambda>data conf.
     case data of
       None \<Rightarrow> Done False conf
     | Some s \<Rightarrow> if s = what then Done True conf
                 else Done False (conf_queue (TOKEN_STRING, s) conf))"

definition conf_string :: "'s conf \<Rightarrow> (string, 's) parsed" where
  "conf_string conf = conf_then (conf_next conf) (\<lambda>t conf.
     if fst t = TOKEN_STRING then Done (snd t) conf else conf_fatal conf ''string expected'')"

definition conf_int :: "'s conf \<Rightarrow> (int, 's) parsed" where
  "conf_int conf = conf_then (conf_string conf) (\<lambda>s conf.
     case irc_util_stoi s of Inr i \<Rightarrow> Done i conf | Inl _ \<Rightarrow> conf_fatal conf ''number expected'')"

definition conf_keyword :: "string \<Rightarrow> 's conf \<Rightarrow> (unit, 's) parsed" where
  "conf_keyword keyword conf = conf_then (conf_string_is keyword conf) (\<lambda>found conf.
     if found then Done () conf else conf_fatal conf (''keyword '' @ quoted keyword @ '' expected''))"

definition conf_begin :: "'s conf \<Rightarrow> (unit, 's) parsed" where
  "conf_begin conf = conf_then (conf_next conf) (\<lambda>t conf.
     if fst t = TOKEN_BLK_BEGIN then Done () conf
     else conf_fatal conf (''expected '' @ quoted ''{'' @ '' block start''))"

definition conf_begin_is :: "'s conf \<Rightarrow> (bool, 's) parsed" where
  "conf_begin_is conf = conf_then (conf_next_is TOKEN_BLK_BEGIN conf) (\<lambda>data conf. Done (data \<noteq> None) conf)"

definition conf_end :: "'s conf \<Rightarrow> (unit, 's) parsed" where
  "conf_end conf = conf_then (conf_next conf) (\<lambda>t conf.
     if fst t = TOKEN_BLK_END then Done () conf
     else conf_fatal conf (''expected '' @ quoted ''}'' @ '' block end''))"

text \<open>
  What taking tokens does to the number of those that are left: never more, and fewer when
  a string was taken.
\<close>

abbreviation left :: "'s conf \<Rightarrow> nat" where
  "left conf \<equiv> length (cf_toks conf)"

definition shrinks :: "'s conf \<Rightarrow> ('a, 's) parsed \<Rightarrow> bool" where
  "shrinks conf r = (\<forall>a conf'. r = Done a conf' \<longrightarrow> left conf' \<le> left conf)"

lemma shrinks_then [intro]:
  "shrinks conf m \<Longrightarrow> (\<And>a conf1. m = Done a conf1 \<Longrightarrow> left conf1 \<le> left conf \<Longrightarrow> shrinks conf (f a conf1)) \<Longrightarrow>
   shrinks conf (conf_then m f)"
  by (cases m) (simp_all add: shrinks_def)

lemma shrinks_simps [simp]:
  "shrinks conf (Done a conf1) = (left conf1 \<le> left conf)" "shrinks conf (Off conf1)"
  "shrinks conf (Fatal msg)" "shrinks conf Crash" "shrinks conf (conf_fatal conf1 msg)"
  by (simp_all add: shrinks_def conf_fatal_def)

lemma shrinks_trans: "shrinks conf1 r \<Longrightarrow> left conf1 \<le> left conf \<Longrightarrow> shrinks conf r"
  by (fastforce simp: shrinks_def)

lemma conf_pull_left: "conf_pull conf = Done t conf1 \<Longrightarrow> Suc (left conf1) = left conf"
  by (auto simp: conf_pull_def split: list.splits lexed.splits)

named_theorems shrink \<open>pieces of the parser never give tokens back that they did not take\<close>

lemma conf_next_left: "conf_next conf = Done t conf1 \<Longrightarrow> left conf1 < left conf"
  unfolding conf_next_def by (cases "conf_pull conf") (auto split: if_splits dest!: conf_pull_left)

lemma conf_string_left: "conf_string conf = Done s conf1 \<Longrightarrow> left conf1 < left conf"
  unfolding conf_string_def
  by (cases "conf_next conf") (auto simp: conf_fatal_def split: if_splits dest!: conf_next_left)

lemma conf_next_is_left:
  "conf_next_is type conf = Done d conf1 \<Longrightarrow> left conf1 \<le> left conf \<and> (d \<noteq> None \<longrightarrow> left conf1 < left conf)"
  unfolding conf_next_is_def
  by (cases "conf_pull conf") (auto simp: conf_queue_def split: if_splits dest!: conf_pull_left)

lemma shrinks_next [shrink]: "left conf1 \<le> left conf \<Longrightarrow> shrinks conf (conf_next conf1)"
  by (auto simp: shrinks_def dest!: conf_next_left)

lemma shrinks_string [shrink]: "left conf1 \<le> left conf \<Longrightarrow> shrinks conf (conf_string conf1)"
  by (auto simp: shrinks_def dest!: conf_string_left)

lemma shrinks_next_is [shrink]: "left conf1 \<le> left conf \<Longrightarrow> shrinks conf (conf_next_is type conf1)"
  by (auto simp: shrinks_def dest!: conf_next_is_left)

lemma shrinks_string_is [shrink]: "left conf1 \<le> left conf \<Longrightarrow> shrinks conf (conf_string_is what conf1)"
proof (rule shrinks_trans)
  show "shrinks conf1 (conf_string_is what conf1)"
    unfolding conf_string_is_def conf_next_is_def
    by (cases "conf_pull conf1")
      (auto simp: shrinks_def conf_queue_def split: if_splits dest!: conf_pull_left)
qed

lemma shrinks_int [shrink]: "left conf1 \<le> left conf \<Longrightarrow> shrinks conf (conf_int conf1)"
  unfolding conf_int_def by (rule shrinks_then) (auto intro: shrink split: sum.splits)

lemma shrinks_keyword [shrink]: "left conf1 \<le> left conf \<Longrightarrow> shrinks conf (conf_keyword k conf1)"
  unfolding conf_keyword_def by (rule shrinks_then) (auto intro: shrink)

lemma shrinks_begin [shrink]: "left conf1 \<le> left conf \<Longrightarrow> shrinks conf (conf_begin conf1)"
  unfolding conf_begin_def by (rule shrinks_then) (auto intro: shrink)

lemma shrinks_begin_is [shrink]: "left conf1 \<le> left conf \<Longrightarrow> shrinks conf (conf_begin_is conf1)"
  unfolding conf_begin_is_def by (rule shrinks_then) (auto intro: shrink)

lemma shrinks_end [shrink]: "left conf1 \<le> left conf \<Longrightarrow> shrinks conf (conf_end conf1)"
  unfolding conf_end_def by (rule shrinks_then) (auto intro: shrink)

lemma shrinks_attempt [shrink]: "left conf1 \<le> left conf \<Longrightarrow> shrinks conf (attempt r conf1)"
  by (simp add: attempt_def split: option.splits)

lemma shrinks_resolve [shrink]:
  "left conf1 \<le> left conf \<Longrightarrow> shrinks conf (conf_resolve_uid env v conf1)"
  "left conf1 \<le> left conf \<Longrightarrow> shrinks conf (conf_resolve_gid env v conf1)"
  by (simp_all add: conf_resolve_uid_def conf_resolve_gid_def split: sum.splits option.splits)

section \<open>Log, transport and hook sections\<close>

definition conf_parse_log_level :: "'s conf \<Rightarrow> (unit, 's) parsed" where
  "conf_parse_log_level conf = conf_then (conf_string_is ''verbose'' conf) (\<lambda>verbose conf.
     if verbose then Done () (conf\<lparr>cf_log_level := 1\<rparr>)
     else conf_then (conf_string_is ''quiet'' conf) (\<lambda>quiet conf.
       Done () (if quiet then conf\<lparr>cf_log_level := 0\<rparr> else conf)))"

definition conf_parse_log_template :: "'s conf \<Rightarrow> (unit, 's) parsed" where
  "conf_parse_log_template conf = conf_then (conf_string_is ''template'' conf) (\<lambda>found conf.
     if found then conf_then (conf_string conf) (\<lambda>s conf. Done () (conf\<lparr>cf_log_template := Some s\<rparr>))
     else Done () conf)"

definition conf_parse_log_sink :: "'s conf \<Rightarrow> (unit, 's) parsed" where
  "conf_parse_log_sink conf =
     conf_then (conf_string_is ''console'' conf) (\<lambda>console conf.
     if console then Done () (conf\<lparr>cf_log_type := LOG_TYPE_CONSOLE\<rparr>)
     else conf_then (conf_string_is ''syslog'' conf) (\<lambda>syslog conf.
     if syslog then Done () (conf\<lparr>cf_log_type := LOG_TYPE_SYSLOG\<rparr>)
     else conf_then (conf_string_is ''file'' conf) (\<lambda>file conf.
     if file then conf_then (conf_string (conf\<lparr>cf_log_type := LOG_TYPE_FILE\<rparr>)) (\<lambda>s conf.
       Done () (conf\<lparr>cf_log_file := Some s\<rparr>))
     else conf_fatal conf ''invalid log sink'')))"

definition conf_parse_log :: "'s conf \<Rightarrow> (unit, 's) parsed" where
  "conf_parse_log conf =
     conf_then (conf_parse_log_level conf) (\<lambda>_ conf.
     conf_then (conf_parse_log_template conf) (\<lambda>_ conf.
     conf_then (conf_keyword ''to'' conf) (\<lambda>_ conf.
     conf_parse_log_sink conf)))"

definition conf_parse_transport_owner :: "'s conf_env \<Rightarrow> 's conf \<Rightarrow> (unit, 's) parsed" where
  "conf_parse_transport_owner env conf = conf_then (conf_string_is ''with'' conf) (\<lambda>owner conf.
     if owner then
       conf_then (conf_keyword ''uid'' conf) (\<lambda>_ conf.
       conf_then (conf_string conf) (\<lambda>s conf.
       conf_then (conf_resolve_uid env s conf) (\<lambda>uid conf.
       conf_then (conf_keyword ''gid'' (conf\<lparr>cf_tpt_uid := uid\<rparr>)) (\<lambda>_ conf.
       conf_then (conf_string conf) (\<lambda>s conf.
       conf_then (conf_resolve_gid env s conf) (\<lambda>gid conf.
       Done () (conf\<lparr>cf_tpt_gid := gid\<rparr>)))))))
     else Done () (conf\<lparr>cf_tpt_uid := -1, cf_tpt_gid := -1\<rparr>))"

definition conf_parse_transport :: "'s conf_env \<Rightarrow> 's conf \<Rightarrow> (unit, 's) parsed" where
  "conf_parse_transport env conf =
     (if cf_tpt conf \<noteq> None then conf_fatal conf ''transport already defined''
      else conf_then (conf_parse_transport_owner env conf) (\<lambda>_ conf.
           conf_then (conf_keyword ''to'' conf) (\<lambda>_ conf.
           conf_then (conf_string conf) (\<lambda>s conf. Done () (conf\<lparr>cf_tpt := Some s\<rparr>)))))"

definition conf_parse_hook :: "'s conf \<Rightarrow> (unit, 's) parsed" where
  "conf_parse_hook conf = conf_then (conf_string conf) (\<lambda>name conf.
     if \<exists>h \<in> set (cf_hooks conf). hk_name h = name
     then conf_fatal conf (''hook '' @ quoted name @ '' already exists'')
     else conf_then (conf_keyword ''to'' conf) (\<lambda>_ conf.
          conf_then (conf_string conf) (\<lambda>path conf.
          Done () (conf\<lparr>cf_hooks := cf_hooks conf @ [irc_hook_new name path]\<rparr>))))"

lemma shrinks_sections [shrink]:
  fixes conf :: "'s conf"
  assumes "left conf1 \<le> left conf"
  shows "shrinks conf (conf_parse_log conf1)" "shrinks conf (conf_parse_transport env conf1)"
    "shrinks conf (conf_parse_hook conf1)"
  using assms
  unfolding conf_parse_log_def conf_parse_log_level_def conf_parse_log_template_def conf_parse_log_sink_def
    conf_parse_transport_def conf_parse_transport_owner_def conf_parse_hook_def
  by (auto intro!: shrinks_then shrink)

section \<open>Server sections\<close>

definition conf_parse_server_hostname :: "irc_server \<Rightarrow> 's conf \<Rightarrow> (irc_server, 's) parsed" where
  "conf_parse_server_hostname server conf = conf_then (conf_string conf) (\<lambda>s conf.
     attempt (irc_server_set_hostname server (Some s)) conf)"

definition conf_parse_server_port :: "irc_server \<Rightarrow> 's conf \<Rightarrow> (irc_server, 's) parsed" where
  "conf_parse_server_port server conf = conf_then (conf_int conf) (\<lambda>port conf.
     if port \<le> 0 \<or> 65535 \<le> port
     then conf_fatal conf (''invalid port range '' @ quoted (show_int port))
     else attempt (irc_server_set_port server (word_of_int port)) conf)"

definition conf_parse_server_prefix :: "irc_server \<Rightarrow> 's conf \<Rightarrow> (irc_server, 's) parsed" where
  "conf_parse_server_prefix server conf = conf_then (conf_string conf) (\<lambda>s conf.
     Done (irc_server_set_prefix server s) conf)"

definition conf_parse_server_ident :: "irc_server \<Rightarrow> 's conf \<Rightarrow> (irc_server, 's) parsed" where
  "conf_parse_server_ident server conf =
     conf_then (conf_string conf) (\<lambda>nick conf.
     conf_then (conf_string conf) (\<lambda>user conf.
     conf_then (attempt (irc_server_set_username (irc_server_set_nickname server nick) user) conf)
       (\<lambda>server conf.
     conf_then (conf_string conf) (\<lambda>real conf.
     attempt (irc_server_set_realname server real) conf))))"

definition conf_parse_server_password :: "irc_server \<Rightarrow> 's conf \<Rightarrow> (irc_server, 's) parsed" where
  "conf_parse_server_password server conf = conf_then (conf_string conf) (\<lambda>s conf.
     attempt (irc_server_set_password server (Some s)) conf)"

definition conf_parse_server_join :: "irc_server \<Rightarrow> 's conf \<Rightarrow> (irc_server, 's) parsed" where
  "conf_parse_server_join server conf =
     conf_then (conf_string_is ''with'' conf) (\<lambda>protected conf.
     if protected then
       conf_then (conf_keyword ''password'' conf) (\<lambda>_ conf.
       conf_then (conf_string conf) (\<lambda>channel conf.
       conf_then (conf_string conf) (\<lambda>password conf.
       Done (snd (irc_server_join server channel (Some password))) conf)))
     else
       conf_then (conf_string conf) (\<lambda>channel conf.
       Done (snd (irc_server_join server channel None)) conf))"

text \<open>\<open>while (conf_next_is (conf, &token, TOKEN_STRING))\<close> with two strings in each round.\<close>

function key_value_loop :: "('x \<Rightarrow> string \<Rightarrow> string \<Rightarrow> 'x) \<Rightarrow> 'x \<Rightarrow> 's conf \<Rightarrow> ('x, 's) parsed" where
  "key_value_loop setter x conf =
     conf_then (conf_next_is TOKEN_STRING conf) (\<lambda>data conf1.
       case data of
         None \<Rightarrow> Done x conf1
       | Some key \<Rightarrow> conf_then (conf_string conf1) (\<lambda>val conf2.
           key_value_loop setter (setter x key val) conf2))"
  by pat_completeness auto
termination
  by (relation "measure (\<lambda>(_, _, conf). left conf)")
    (auto dest!: conf_next_is_left conf_string_left)

declare key_value_loop.simps [simp del]

definition key_values :: "('x \<Rightarrow> string \<Rightarrow> string \<Rightarrow> 'x) \<Rightarrow> 'x \<Rightarrow> 's conf \<Rightarrow> ('x, 's) parsed" where
  "key_values setter x conf =
     conf_then (conf_begin conf) (\<lambda>_ conf.
     conf_then (key_value_loop setter x conf) (\<lambda>x conf.
     conf_then (conf_end conf) (\<lambda>_ conf. Done x conf)))"

definition conf_parse_server_ctcp :: "irc_server \<Rightarrow> 's conf \<Rightarrow> (irc_server, 's) parsed" where
  "conf_parse_server_ctcp server conf = key_values irc_server_set_ctcp server conf"

definition conf_parse_server_ssl :: "irc_server \<Rightarrow> 's conf \<Rightarrow> (irc_server, 's) parsed" where
  "conf_parse_server_ssl server conf =
     Done (irc_server_set_flags server (sv_flags server OR IRC_SERVER_FLAGS_SSL)) conf"

text \<open>The list of options has no opening brace of its own, and its end is the closing brace.\<close>

function server_options_loop :: "irc_server \<Rightarrow> 's conf \<Rightarrow> (irc_server \<times> token_type, 's) parsed" where
  "server_options_loop server conf =
     conf_then (conf_next conf) (\<lambda>t conf1.
       if fst t \<noteq> TOKEN_STRING then Done (server, fst t) conf1
       else if snd t = ''AUTO-REJOIN'' then
         server_options_loop
           (irc_server_set_flags server (sv_flags server OR IRC_SERVER_FLAGS_AUTO_REJOIN)) conf1
       else if snd t = ''JOIN-INVITE'' then
         server_options_loop
           (irc_server_set_flags server (sv_flags server OR IRC_SERVER_FLAGS_JOIN_INVITE)) conf1
       else conf_fatal conf1 (''invalid server option '' @ quoted (snd t)))"
  by pat_completeness auto
termination
  by (relation "measure (\<lambda>(_, conf). left conf)") (auto dest!: conf_next_left)

declare server_options_loop.simps [simp del]

definition conf_parse_server_options :: "irc_server \<Rightarrow> 's conf \<Rightarrow> (irc_server, 's) parsed" where
  "conf_parse_server_options server conf =
     conf_then (server_options_loop server conf) (\<lambda>(server, ty) conf.
       if ty \<noteq> TOKEN_BLK_END then conf_fatal conf ''unterminated server options list''
       else Done server conf)"

lemma shrinks_key_value_loop [shrink]:
  "left conf1 \<le> left conf \<Longrightarrow> shrinks conf (key_value_loop setter x conf1)"
proof (induction setter x conf1 rule: key_value_loop.induct)
  case (1 setter x conf1)
  then show ?case
    by (subst key_value_loop.simps) (auto intro!: shrinks_then shrink split: option.split)
qed

lemma shrinks_server_options_loop [shrink]:
  "left conf1 \<le> left conf \<Longrightarrow> shrinks conf (server_options_loop server conf1)"
proof (induction server conf1 rule: server_options_loop.induct)
  case (1 server conf1)
  then show ?case
    by (subst server_options_loop.simps) (auto intro!: shrinks_then shrink)
qed

lemma shrinks_key_values [shrink]: "left conf1 \<le> left conf \<Longrightarrow> shrinks conf (key_values setter x conf1)"
  unfolding key_values_def by (auto intro!: shrinks_then shrink)

lemma shrinks_server [shrink]:
  assumes "left conf1 \<le> left conf"
  shows "shrinks conf (conf_parse_server_hostname server conf1)"
    "shrinks conf (conf_parse_server_port server conf1)"
    "shrinks conf (conf_parse_server_prefix server conf1)"
    "shrinks conf (conf_parse_server_ident server conf1)"
    "shrinks conf (conf_parse_server_password server conf1)"
    "shrinks conf (conf_parse_server_join server conf1)"
    "shrinks conf (conf_parse_server_ctcp server conf1)"
    "shrinks conf (conf_parse_server_ssl server conf1)"
    "shrinks conf (conf_parse_server_options server conf1)"
  using assms
  unfolding conf_parse_server_hostname_def conf_parse_server_port_def conf_parse_server_prefix_def
    conf_parse_server_ident_def conf_parse_server_password_def conf_parse_server_join_def
    conf_parse_server_ctcp_def conf_parse_server_ssl_def conf_parse_server_options_def
  by (auto intro!: shrinks_then shrink)

text \<open>One directive of a server block; a word that is none of them is skipped.\<close>

definition conf_parse_server_item :: "string \<Rightarrow> irc_server \<Rightarrow> 's conf \<Rightarrow> (irc_server, 's) parsed" where
  "conf_parse_server_item word server conf =
     (if word = ''hostname'' then conf_parse_server_hostname server conf
      else if word = ''port'' then conf_parse_server_port server conf
      else if word = ''prefix'' then conf_parse_server_prefix server conf
      else if word = ''ident'' then conf_parse_server_ident server conf
      else if word = ''password'' then conf_parse_server_password server conf
      else if word = ''join'' then conf_parse_server_join server conf
      else if word = ''ctcp'' then conf_parse_server_ctcp server conf
      else if word = ''ssl'' then conf_parse_server_ssl server conf
      else if word = ''options'' then conf_parse_server_options server conf
      else Done server conf)"

lemma shrinks_server_item [shrink]:
  "left conf1 \<le> left conf \<Longrightarrow> shrinks conf (conf_parse_server_item word server conf1)"
  by (simp add: conf_parse_server_item_def shrink)

lemma shrinksD: "r = Done a conf1 \<Longrightarrow> shrinks conf r \<Longrightarrow> left conf1 \<le> left conf"
  by (simp add: shrinks_def)

function server_loop :: "irc_server \<Rightarrow> 's conf \<Rightarrow> (irc_server, 's) parsed" where
  "server_loop server conf =
     conf_then (conf_next_is TOKEN_STRING conf) (\<lambda>data conf1.
       case data of
         None \<Rightarrow> Done server conf1
       | Some word \<Rightarrow> conf_then (conf_parse_server_item word server conf1) (\<lambda>server conf2.
           server_loop server conf2))"
  by pat_completeness auto
termination
  by (relation "measure (\<lambda>(_, conf). left conf)")
    (auto dest!: conf_next_is_left dest: shrinksD [OF _ shrinks_server_item [OF order_refl]])

declare server_loop.simps [simp del]

definition conf_parse_server :: "'s conf \<Rightarrow> (unit, 's) parsed" where
  "conf_parse_server conf = conf_then (conf_string conf) (\<lambda>name conf.
     if \<exists>s \<in> set (cf_servers conf). sv_name s = name
     then conf_fatal conf (''server '' @ quoted name @ '' already exists'')
     else conf_then (conf_begin conf) (\<lambda>_ conf.
          conf_then (server_loop (irc_server_new name) conf) (\<lambda>server conf.
          conf_then (conf_end conf) (\<lambda>_ conf.
          if sv_hostname server = None then conf_fatal conf ''no hostname set''
          else if sv_port server = 0 then conf_fatal conf ''no port set''
          else if sv_nickname server = None \<or> sv_username server = None \<or> sv_realname server = None
          then conf_fatal conf ''no ident set''
          else Done () (conf\<lparr>cf_servers := cf_servers conf @ [server]\<rparr>)))))"

lemma shrinks_server_loop [shrink]:
  "left conf1 \<le> left conf \<Longrightarrow> shrinks conf (server_loop server conf1)"
proof (induction server conf1 rule: server_loop.induct)
  case (1 server conf1)
  then show ?case
    by (subst server_loop.simps) (auto intro!: shrinks_then shrink split: option.split)
qed

lemma shrinks_parse_server [shrink]: "left conf1 \<le> left conf \<Longrightarrow> shrinks conf (conf_parse_server conf1)"
  unfolding conf_parse_server_def by (auto intro!: shrinks_then shrink)

section \<open>Rule sections\<close>

definition criteria_adder :: "string \<Rightarrow> (irc_rule \<Rightarrow> string \<Rightarrow> irc_rule) option" where
  "criteria_adder criteria =
     (if criteria = ''servers'' then Some irc_rule_add_server
      else if criteria = ''channels'' then Some irc_rule_add_channel
      else if criteria = ''origins'' then Some irc_rule_add_origin
      else if criteria = ''plugins'' then Some irc_rule_add_plugin
      else if criteria = ''events'' then Some irc_rule_add_event
      else None)"

function criteria_loop ::
  "(irc_rule \<Rightarrow> string \<Rightarrow> irc_rule) \<Rightarrow> irc_rule \<Rightarrow> 's conf \<Rightarrow> (irc_rule, 's) parsed" where
  "criteria_loop adder rule conf =
     conf_then (conf_next_is TOKEN_STRING conf) (\<lambda>data conf1.
       case data of
         None \<Rightarrow> Done rule conf1
       | Some s \<Rightarrow> conf_then (conf_next_is TOKEN_COMMA conf1) (\<lambda>comma conf2.
           if comma = None then Done (adder rule s) conf2
           else criteria_loop adder (adder rule s) conf2))"
  by pat_completeness auto
termination
  by (relation "measure (\<lambda>(_, _, conf). left conf)") (auto dest!: conf_next_is_left)

declare criteria_loop.simps [simp del]

definition conf_parse_rule_criteria :: "string \<Rightarrow> irc_rule \<Rightarrow> 's conf \<Rightarrow> (irc_rule, 's) parsed" where
  "conf_parse_rule_criteria criteria rule conf =
     (case criteria_adder criteria of
        None \<Rightarrow> conf_fatal conf (''invalid rule criteria '' @ quoted criteria)
      | Some adder \<Rightarrow>
          conf_then (conf_begin conf) (\<lambda>_ conf.
          conf_then (criteria_loop adder rule conf) (\<lambda>rule conf.
          conf_then (conf_end conf) (\<lambda>_ conf. Done rule conf))))"

lemma shrinks_criteria_loop [shrink]:
  "left conf1 \<le> left conf \<Longrightarrow> shrinks conf (criteria_loop adder rule conf1)"
proof (induction adder rule conf1 rule: criteria_loop.induct)
  case (1 adder rule conf1)
  then show ?case
    by (subst criteria_loop.simps) (auto intro!: shrinks_then shrink split: option.split)
qed

lemma shrinks_criteria [shrink]:
  "left conf1 \<le> left conf \<Longrightarrow> shrinks conf (conf_parse_rule_criteria criteria rule conf1)"
  unfolding conf_parse_rule_criteria_def by (auto intro!: shrinks_then shrink split: option.split)

function rule_loop :: "irc_rule \<Rightarrow> 's conf \<Rightarrow> (irc_rule \<times> token_type, 's) parsed" where
  "rule_loop rule conf =
     conf_then (conf_next conf) (\<lambda>t conf1.
       if fst t \<noteq> TOKEN_STRING then Done (rule, fst t) conf1
       else conf_then (conf_parse_rule_criteria (snd t) rule conf1) (\<lambda>rule conf2. rule_loop rule conf2))"
  by pat_completeness auto
termination
  by (relation "measure (\<lambda>(_, conf). left conf)")
    (auto dest!: conf_next_left dest: shrinksD [OF _ shrinks_criteria [OF order_refl]])

declare rule_loop.simps [simp del]

lemma shrinks_rule_loop [shrink]: "left conf1 \<le> left conf \<Longrightarrow> shrinks conf (rule_loop rule conf1)"
proof (induction rule conf1 rule: rule_loop.induct)
  case (1 rule conf1)
  then show ?case by (subst rule_loop.simps) (auto intro!: shrinks_then shrink)
qed

definition conf_parse_rule_action :: "'s conf \<Rightarrow> (rule_action, 's) parsed" where
  "conf_parse_rule_action conf = conf_then (conf_string_is ''accept'' conf) (\<lambda>accept conf.
     if accept then Done Rule_Accept conf
     else conf_then (conf_string_is ''drop'' conf) (\<lambda>drop conf.
       if drop then Done Rule_Drop conf else conf_fatal conf ''invalid action''))"

definition conf_parse_rule_block :: "irc_rule \<Rightarrow> 's conf \<Rightarrow> (irc_rule, 's) parsed" where
  "conf_parse_rule_block rule conf = conf_then (conf_next_is TOKEN_BLK_BEGIN conf) (\<lambda>block conf.
     if block = None then Done rule conf
     else conf_then (rule_loop rule conf) (\<lambda>(rule, ty) conf.
       if ty \<noteq> TOKEN_BLK_END then conf_fatal conf ''unterminated rule block'' else Done rule conf))"

definition conf_parse_rule :: "'s conf \<Rightarrow> (unit, 's) parsed" where
  "conf_parse_rule conf =
     conf_then (conf_parse_rule_action conf) (\<lambda>action conf.
     conf_then (conf_parse_rule_block (irc_rule_new action) conf) (\<lambda>rule conf.
     Done () (conf\<lparr>cf_rules := cf_rules conf @ [rule]\<rparr>)))"

lemma shrinks_parse_rule [shrink]: "left conf1 \<le> left conf \<Longrightarrow> shrinks conf (conf_parse_rule conf1)"
  unfolding conf_parse_rule_def conf_parse_rule_action_def conf_parse_rule_block_def
  by (auto intro!: shrinks_then shrink)

section \<open>Plugin sections\<close>

definition plugin_setter :: "string \<Rightarrow> ('s irc_plugin \<Rightarrow> string \<Rightarrow> string \<Rightarrow> 's irc_plugin) option" where
  "plugin_setter what =
     (if what = ''config'' then Some irc_plugin_set_option
      else if what = ''path'' \<or> what = ''paths'' then Some irc_plugin_set_path
      else if what = ''template'' then Some irc_plugin_set_template
      else None)"

definition conf_parse_plugin_options ::
  "string \<Rightarrow> 's irc_plugin \<Rightarrow> 's conf \<Rightarrow> ('s irc_plugin, 's) parsed" where
  "conf_parse_plugin_options what plg conf =
     (case plugin_setter what of
        None \<Rightarrow> conf_fatal conf (''invalid directive '' @ quoted what @ '' in plugin block'')
      | Some setter \<Rightarrow> key_values setter plg conf)"

lemma shrinks_plugin_options [shrink]:
  "left conf1 \<le> left conf \<Longrightarrow> shrinks conf (conf_parse_plugin_options what plg conf1)"
  by (simp add: conf_parse_plugin_options_def shrink split: option.split)

function plugin_block_loop :: "'s irc_plugin \<Rightarrow> 's conf \<Rightarrow> ('s irc_plugin, 's) parsed" where
  "plugin_block_loop plg conf =
     conf_then (conf_next_is TOKEN_STRING conf) (\<lambda>data conf1.
       case data of
         None \<Rightarrow> Done plg conf1
       | Some what \<Rightarrow> conf_then (conf_parse_plugin_options what plg conf1) (\<lambda>plg conf2.
           plugin_block_loop plg conf2))"
  by pat_completeness auto
termination
  by (relation "measure (\<lambda>(_, conf). left conf)")
    (auto dest!: conf_next_is_left dest: shrinksD [OF _ shrinks_plugin_options [OF order_refl]])

declare plugin_block_loop.simps [simp del]

lemma shrinks_plugin_block_loop [shrink]:
  "left conf1 \<le> left conf \<Longrightarrow> shrinks conf (plugin_block_loop plg conf1)"
proof (induction plg conf1 rule: plugin_block_loop.induct)
  case (1 plg conf1)
  then show ?case
    by (subst plugin_block_loop.simps) (auto intro!: shrinks_then shrink split: option.split)
qed

definition conf_parse_plugin_block :: "'s irc_plugin \<Rightarrow> 's conf \<Rightarrow> ('s irc_plugin, 's) parsed" where
  "conf_parse_plugin_block plg conf = conf_then (conf_begin_is conf) (\<lambda>block conf.
     if block then conf_then (plugin_block_loop plg conf) (\<lambda>plg conf.
       conf_then (conf_end conf) (\<lambda>_ conf. Done plg conf))
     else Done plg conf)"

definition conf_parse_plugin_location :: "'s conf \<Rightarrow> (string option, 's) parsed" where
  "conf_parse_plugin_location conf = conf_then (conf_string_is ''to'' conf) (\<lambda>found conf.
     if found then conf_then (conf_string conf) (\<lambda>s conf. Done (Some s) conf) else Done None conf)"

definition conf_parse_plugin :: "'s conf_env \<Rightarrow> 's conf \<Rightarrow> (unit, 's) parsed" where
  "conf_parse_plugin env conf = conf_then (conf_string conf) (\<lambda>name conf.
     if \<exists>p \<in> set (cf_plugins conf). pl_name p = name
     then conf_fatal conf (''plugin '' @ quoted name @ '' already exists'')
     else conf_then (conf_parse_plugin_location conf) (\<lambda>location conf.
          if irc_bot_plugin_get (ce_irccd env) name \<noteq> None
          then conf_fatal conf (''plugin '' @ quoted name @ '' already loaded'')
          else conf_then (attempt (irc_bot_plugin_search (ce_dirs env) (ce_irccd env) name location) conf)
            (\<lambda>found conf.
             case found of
               None \<Rightarrow> conf_fatal conf (''plugin '' @ quoted name @ '' not found'')
             | Some plg \<Rightarrow> conf_then (conf_parse_plugin_block plg conf) (\<lambda>plg conf.
                 Done () (conf\<lparr>cf_plugins := cf_plugins conf @ [plg]\<rparr>)))))"

lemma shrinks_parse_plugin [shrink]: "left conf1 \<le> left conf \<Longrightarrow> shrinks conf (conf_parse_plugin env conf1)"
  unfolding conf_parse_plugin_def conf_parse_plugin_block_def conf_parse_plugin_location_def
  by (auto intro!: shrinks_then shrink split: option.split)

section \<open>The whole file\<close>

text \<open>One section; a word that starts none is skipped.\<close>

definition conf_section :: "'s conf_env \<Rightarrow> string \<Rightarrow> 's conf \<Rightarrow> (unit, 's) parsed" where
  "conf_section env topic conf =
     (if topic = ''logs'' then conf_parse_log
         (conf\<lparr>cf_stderr := cf_stderr conf @
            [''section '' @ quoted ''logs'' @ '' has been renamed to '' @ quoted ''log'']\<rparr>)
      else if topic = ''log'' then conf_parse_log conf
      else if topic = ''transport'' then conf_parse_transport env conf
      else if topic = ''hook'' then conf_parse_hook conf
      else if topic = ''server'' then conf_parse_server conf
      else if topic = ''rule'' then conf_parse_rule conf
      else if topic = ''plugin'' then conf_parse_plugin env conf
      else Done () conf)"

lemma shrinks_section [shrink]: "left conf1 \<le> left conf \<Longrightarrow> shrinks conf (conf_section env topic conf1)"
  by (simp add: conf_section_def shrink)

function conf_parser_entry :: "'s conf_env \<Rightarrow> 's conf \<Rightarrow> (unit, 's) parsed" where
  "conf_parser_entry env conf =
     conf_then (conf_string conf) (\<lambda>topic conf1.
     conf_then (conf_section env topic conf1) (\<lambda>_ conf2. conf_parser_entry env conf2))"
  by pat_completeness auto
termination
  by (relation "measure (\<lambda>(_, conf). left conf)")
    (auto dest!: conf_string_left dest: shrinksD [OF _ shrinks_section [OF order_refl]])

declare conf_parser_entry.simps [simp del]

section \<open>Applying\<close>

text \<open>
  The objects of the process: the bot, the logger and the transport.  \<open>ap_fopen\<close> is the
  error of \<open>fopen\<close>, if any; \<open>ap_strerror1\<close> is the text of the error number 1, which a failed
  \<open>transport_start\<close> returns.
\<close>

record 's world =
  wo_irccd :: "'s irccd"
  wo_log :: log
  wo_transport :: transport

record apply_env =
  ap_os :: subst_os
  ap_fopen :: "string \<Rightarrow> string option"
  ap_with_ssl :: bool
  ap_listen :: listen_calls
  ap_strerror1 :: string

definition conf_apply_log :: "apply_env \<Rightarrow> 's conf \<Rightarrow> log \<Rightarrow> log option" where
  "conf_apply_log env conf lg =
     map_option (\<lambda>lg. irc_log_set_template (cf_log_template conf) (irc_log_set_verbose (cf_log_level conf) lg))
       (case cf_log_type conf of
          LOG_TYPE_CONSOLE \<Rightarrow> Some (irc_log_to_console lg)
        | LOG_TYPE_FILE \<Rightarrow>
            (case cf_log_file conf of
               None \<Rightarrow> None
             | Some file \<Rightarrow> irc_log_to_file (ap_os env) (ap_fopen env file = None)
                 (case ap_fopen env file of None \<Rightarrow> [] | Some e \<Rightarrow> e) file lg)
        | LOG_TYPE_SYSLOG \<Rightarrow> Some (irc_log_to_syslog lg))"

text \<open>The index -1 is the largest \<open>size_t\<close>.\<close>

definition conf_apply_rules :: "'s conf \<Rightarrow> 's irccd \<Rightarrow> 's irccd" where
  "conf_apply_rules conf irccd = foldl (\<lambda>b r. irc_bot_rule_insert b r (2 ^ 64 - 1)) irccd (cf_rules conf)"

fun add_servers :: "bool \<Rightarrow> irc_server list \<Rightarrow> 's irccd \<Rightarrow> 's irccd option" where
  "add_servers ssl [] irccd = Some irccd"
| "add_servers ssl (s # ss) irccd =
     (case irc_bot_server_add ssl irccd s of
        None \<Rightarrow> None
      | Some (_, irccd') \<Rightarrow> add_servers ssl ss irccd')"

definition conf_apply_servers :: "apply_env \<Rightarrow> 's conf \<Rightarrow> 's irccd \<Rightarrow> 's irccd option" where
  "conf_apply_servers env conf = add_servers (ap_with_ssl env) (cf_servers conf)"

definition conf_apply_plugins :: "'s conf \<Rightarrow> 's irccd \<Rightarrow> 's irccd" where
  "conf_apply_plugins conf irccd = foldl (\<lambda>b p. snd (irc_bot_plugin_add b p)) irccd (cf_plugins conf)"

fun add_hooks :: "subst_os \<Rightarrow> irc_hook list \<Rightarrow> log \<times> 's irccd \<Rightarrow> (log \<times> 's irccd) option" where
  "add_hooks os [] w = Some w"
| "add_hooks os (h # hs) (lg, irccd) =
     (case irc_log_info os (''hook '' @ hk_name h @ '': registered'') lg of
        None \<Rightarrow> None
      | Some lg' \<Rightarrow> add_hooks os hs (lg', case irc_bot_hook_add irccd h of Some b \<Rightarrow> b | None \<Rightarrow> irccd))"

definition conf_apply_hooks :: "apply_env \<Rightarrow> 's conf \<Rightarrow> log \<times> 's irccd \<Rightarrow> (log \<times> 's irccd) option" where
  "conf_apply_hooks env conf = add_hooks (ap_os env) (cf_hooks conf)"

text \<open>\<open>Inl\<close> is the message with which the process ends.\<close>

definition conf_apply_transport :: "apply_env \<Rightarrow> 's conf \<Rightarrow> transport \<Rightarrow> string + transport" where
  "conf_apply_transport env conf t =
     (case cf_tpt conf of
        None \<Rightarrow> Inr t
      | Some path \<Rightarrow>
          (case transport_start (ap_listen env) path (cf_tpt_uid conf) (cf_tpt_gid conf) t of
             (good, t') \<Rightarrow>
               if good then Inr t'
               else Inl (''abort: '' @ path @ '': '' @ ap_strerror1 env @ [LF])))"

definition conf_apply :: "apply_env \<Rightarrow> 's conf \<Rightarrow> 's world \<Rightarrow> (string + 's world) option" where
  "conf_apply env conf w =
     (case conf_apply_log env conf (wo_log w) of
        None \<Rightarrow> None
      | Some lg \<Rightarrow>
     (case conf_apply_servers env conf (conf_apply_rules conf (wo_irccd w)) of
        None \<Rightarrow> None
      | Some b1 \<Rightarrow>
     (case conf_apply_hooks env conf (lg, conf_apply_plugins conf b1) of
        None \<Rightarrow> None
      | Some (lg', b2) \<Rightarrow>
     (case conf_apply_transport env conf (wo_transport w) of
        Inl msg \<Rightarrow> Some (Inl msg)
      | Inr t \<Rightarrow> Some (Inr \<lparr>wo_irccd = b2, wo_log = lg', wo_transport = t\<rparr>)))))"

text \<open>The file as \<open>open\<close>, \<open>fstat\<close> and \<open>read\<close> give it, with the message of \<open>err\<close> on a failure.\<close>

datatype conf_file = Unreadable string | Contents string

definition conf_init :: "string \<Rightarrow> string \<Rightarrow> 's conf" where
  "conf_init path txt =
     \<lparr>cf_path = path, cf_pos = (1, 1),
      cf_toks = conf_lex_entry (takeWhile (\<lambda>c. c \<noteq> NUL) txt) (1, 1),
      cf_servers = [], cf_hooks = [], cf_plugins = [], cf_rules = [], cf_tpt_uid = 0, cf_tpt_gid = 0,
      cf_tpt = None, cf_log_type = LOG_TYPE_CONSOLE, cf_log_level = 0, cf_log_template = None,
      cf_log_file = None, cf_stderr = []\<rparr>"

definition conf_parse :: "'s conf_env \<Rightarrow> string \<Rightarrow> string \<Rightarrow> (unit, 's) parsed" where
  "conf_parse env path txt = conf_parser_entry env (conf_init path txt)"

definition conf_open ::
  "'s conf_env \<Rightarrow> apply_env \<Rightarrow> string \<Rightarrow> conf_file \<Rightarrow> 's world \<Rightarrow> (string + 's world) option" where
  "conf_open env aenv path file w =
     (case file of
        Unreadable msg \<Rightarrow> Some (Inl msg)
      | Contents txt \<Rightarrow>
          (case conf_parse env path txt of
             Done _ conf \<Rightarrow> conf_apply aenv conf w
           | Off conf \<Rightarrow> conf_apply aenv conf w
           | Fatal msg \<Rightarrow> Some (Inl msg)
           | Crash \<Rightarrow> None))"

end
