(* ===== verification/Conf_Facts.thy ===== *)
theory Conf_Facts
  imports Conf
begin

text \<open>
  Facts about the configuration file: positions, the sections as an abstract document with a
  meaning, the parser reads back every document that is printed, the invariant of what it
  built, and what goes wrong without an error.
\<close>

section \<open>Positions\<close>

text \<open>The position behind a text: the line after its newlines, the bytes since the last one.\<close>

definition pos_after :: "string \<Rightarrow> pos \<Rightarrow> pos" where
  "pos_after s p = foldl (\<lambda>q c. conf_lex_advance c q) p s"

lemma pos_after_line: "fst (pos_after s p) = fst p + count_list s LF"
  by (induction s arbitrary: p) (auto simp: pos_after_def conf_lex_advance_def)

section \<open>Printing tokens\<close>

fun tok :: "lexed \<Rightarrow> token option" where
  "tok (Lexed t p) = Some t"
| "tok (Lex_fatal msg p) = None"
| "tok Lex_abort = None"

definition print_string :: "string \<Rightarrow> string" where
  "print_string s = (if s \<noteq> [] \<and> list_all bare s then s else CHR 0x22 # s @ [CHR 0x22])"

definition print_token :: "token \<Rightarrow> string" where
  "print_token t = (case fst t of
      TOKEN_BLK_BEGIN \<Rightarrow> ''{'' | TOKEN_BLK_END \<Rightarrow> ''}'' | TOKEN_COMMA \<Rightarrow> '','' | TOKEN_EOF \<Rightarrow> []
    | TOKEN_STRING \<Rightarrow> print_string (snd t)) @ '' ''"

definition print_tokens :: "token list \<Rightarrow> string" where
  "print_tokens ts = concat (map print_token ts)"

definition printable :: "token \<Rightarrow> bool" where
  "printable t = (fst t \<noteq> TOKEN_EOF \<and> (fst t = TOKEN_STRING \<or> snd t = []) \<and>
     CHR 0x22 \<notin> set (snd t) \<and> NUL \<notin> set (snd t))"

lemma not_space: "\<not> is_space CHR ''{''" "\<not> is_space CHR ''}''" "\<not> is_space CHR '',''" "\<not> is_space CHR 0x22"
  "is_space CHR '' ''"
  by (simp_all add: is_space_def)

lemma print_token_hd: "printable t \<Longrightarrow> \<exists>c s. print_token t = c # s \<and> \<not> is_space c"
  by (cases t; cases "fst t"; cases "snd t")
    (auto simp: print_token_def print_string_def printable_def not_space bare_def)

lemma bskip_print:
  assumes "list_all printable ts"
  shows "fst (conf_lex_bskip (CHR '' '' # print_tokens ts) p) = print_tokens ts"
proof (cases ts)
  case (Cons t us)
  with assms obtain c s where "print_token t = c # s" "\<not> is_space c" using print_token_hd by fastforce
  with Cons show ?thesis
    by (simp add: print_tokens_def conf_lex_bskip_def lex_while_eq not_space)
qed (simp add: print_tokens_def conf_lex_bskip_def lex_while_eq not_space)

lemma bare_not: "\<not> bare CHR '' ''" "bare c \<Longrightarrow> \<not> is_space c"
  "bare c \<Longrightarrow> c \<noteq> CHR ''{'' \<and> c \<noteq> CHR ''}'' \<and> c \<noteq> CHR '','' \<and> c \<noteq> CHR ''#'' \<and> c \<noteq> CHR 0x22"
  by (auto simp: bare_def is_space_def conf_lex_istoken_def)

text \<open>One printed token comes back, and the lexer goes on behind its blank.\<close>

lemma lex_print_string:
  assumes "CHR 0x22 \<notin> set s" and "list_all printable ts"
  shows "\<exists>p1 p2. conf_lex_entry (print_string s @ CHR '' '' # print_tokens ts) p =
    Lexed (TOKEN_STRING, s) p1 # conf_lex_entry (print_tokens ts) p2"
proof (cases "s \<noteq> [] \<and> list_all bare s")
  case True
  then obtain c cs where s: "s = c # cs" by (cases s) auto
  with True have c: "bare c" "\<forall>x \<in> set cs. bare x" by (simp_all add: list_all_iff)
  have drop: "dropWhile bare (cs @ CHR '' '' # print_tokens ts) = CHR '' '' # print_tokens ts"
    and take: "takeWhile bare (cs @ CHR '' '' # print_tokens ts) = cs"
    using c(2) bare_not(1) by (simp_all add: dropWhile_append2 takeWhile_append2)
  obtain q where q: "conf_lex_bskip (CHR '' '' # print_tokens ts) (pos_after cs (conf_lex_advance c p)) = (print_tokens ts, q)"
    using bskip_print [OF assms(2)] by (metis prod.collapse)
  have "conf_lex_string (c # cs @ CHR '' '' # print_tokens ts) p =
      (s, pos_after cs (conf_lex_advance c p), print_tokens ts, q)"
    using c(1) drop take q by (simp add: conf_lex_string_def lex_while_eq s pos_after_def)
  then show ?thesis
    using True bare_not(2) [OF c(1)] bare_not(3) [OF c(1)]
    by (intro exI [where x = "pos_after cs (conf_lex_advance c p)"] exI [where x = q]) (simp add: print_string_def s conf_lex_entry.simps(2))
next
  case False
  then have print: "print_string s = CHR 0x22 # s @ [CHR 0x22]" by (auto simp: print_string_def)
  let ?off = "s @ CHR 0x22 # CHR '' '' # print_tokens ts"
  have drop: "dropWhile (\<lambda>c. c \<noteq> CHR 0x22) ?off = CHR 0x22 # CHR '' '' # print_tokens ts"
    and take: "takeWhile (\<lambda>c. c \<noteq> CHR 0x22) ?off = s"
    using assms(1) by (subst dropWhile_append2 takeWhile_append2; auto)+
  let ?p1 = "(fst (pos_after s p), snd (pos_after s p) + 1)"
  obtain q where q: "conf_lex_bskip (CHR '' '' # print_tokens ts) ?p1 = (print_tokens ts, q)"
    using bskip_print [OF assms(2)] by (metis prod.collapse)
  have "conf_lex_qstring ?off p = Inr (s, ?p1, print_tokens ts, q)"
    unfolding conf_lex_qstring_def lex_while_eq drop take using q by (simp add: Let_def pos_after_def)
  then show ?thesis
    by (intro exI [where x = "?p1"] exI [where x = q]) (simp add: print conf_lex_entry.simps(2))
qed

lemma lex_print:
  assumes "list_all printable ts"
  shows "map tok (conf_lex_entry (print_tokens ts) p) = map Some (ts @ [(TOKEN_EOF, [])])"
  using assms
proof (induction ts arbitrary: p)
  case Nil
  then show ?case by (simp add: print_tokens_def)
next
  case (Cons t ts)
  obtain ty s where t: "t = (ty, s)" by (cases t)
  have split: "print_tokens (x # ts) = print_token x @ print_tokens ts" for x by (simp add: print_tokens_def)
  show ?case
  proof (cases "ty = TOKEN_STRING")
    case True
    have "CHR 0x22 \<notin> set s" "list_all printable ts" using Cons.prems by (simp_all add: t) (simp add: printable_def)
    then obtain p1 p2 where "conf_lex_entry (print_string s @ CHR '' '' # print_tokens ts) p =
        Lexed (TOKEN_STRING, s) p1 # conf_lex_entry (print_tokens ts) p2"
      using lex_print_string [of s ts p] by blast
    with Cons True show ?thesis by (simp add: split t print_token_def)
  next
    case False
    then obtain c where c: "c \<in> {CHR ''{'', CHR ''}'', CHR '',''}" "print_token t = [c, CHR '' '']"
        "token_of c = ty" "s = []"
      using Cons.prems by (cases ty) (auto simp: t print_token_def token_of_def printable_def)
    obtain q where "conf_lex_bskip (CHR '' '' # print_tokens ts) (conf_lex_advance c p) = (print_tokens ts, q)"
      using bskip_print [of ts] Cons.prems by (metis list_all_iff list.set_intros(2) prod.collapse)
    with Cons c show ?thesis by (auto simp: split t conf_lex_entry.simps(2) Let_def)
  qed
qed

section \<open>Reading a list of tokens\<close>

text \<open>
  \<open>settings\<close> is what the parser has built, without the tokens and the position.  \<open>parses p ts
  d a ts' d'\<close>: in front of the tokens \<open>ts\<close> and having built \<open>d\<close>, the piece \<open>p\<close> ends with \<open>a\<close>
  in front of \<open>ts'\<close> and having built \<open>d'\<close>.
\<close>

definition settings :: "'s conf \<Rightarrow> 's conf" where
  "settings conf = conf\<lparr>cf_toks := [], cf_pos := (0, 0)\<rparr>"

definition holds :: "token list \<Rightarrow> 's conf \<Rightarrow> 's conf \<Rightarrow> bool" where
  "holds ts d conf \<longleftrightarrow> map tok (cf_toks conf) = map Some ts \<and> settings conf = settings d"

definition parses ::
  "('s conf \<Rightarrow> ('a, 's) parsed) \<Rightarrow> token list \<Rightarrow> 's conf \<Rightarrow> 'a \<Rightarrow> token list \<Rightarrow> 's conf \<Rightarrow> bool" where
  "parses p ts d a ts' d' \<longleftrightarrow>
     (\<forall>conf. holds ts d conf \<longrightarrow> (\<exists>conf'. p conf = Done a conf' \<and> holds ts' d' conf'))"

abbreviation str :: "string \<Rightarrow> token" where "str s \<equiv> (TOKEN_STRING, s)"
abbreviation lbrace :: token where "lbrace \<equiv> (TOKEN_BLK_BEGIN, [])"
abbreviation rbrace :: token where "rbrace \<equiv> (TOKEN_BLK_END, [])"
abbreviation comma :: token where "comma \<equiv> (TOKEN_COMMA, [])"
abbreviation eof :: token where "eof \<equiv> (TOKEN_EOF, [])"

lemma settings_eq:
  fixes c d :: "'s conf"
  shows "settings c = settings d \<longleftrightarrow> cf_path c = cf_path d \<and> cf_servers c = cf_servers d \<and>
     cf_hooks c = cf_hooks d \<and> cf_plugins c = cf_plugins d \<and> cf_rules c = cf_rules d \<and>
     cf_tpt_uid c = cf_tpt_uid d \<and> cf_tpt_gid c = cf_tpt_gid d \<and> cf_tpt c = cf_tpt d \<and>
     cf_log_type c = cf_log_type d \<and> cf_log_level c = cf_log_level d \<and>
     cf_log_template c = cf_log_template d \<and> cf_log_file c = cf_log_file d \<and> cf_stderr c = cf_stderr d"
  by (cases c; cases d) (auto simp: settings_def)

lemma parses_then:
  assumes "parses p ts d a ts1 d1" and "parses (f a) ts1 d1 b ts2 d2"
  shows "parses (\<lambda>conf. conf_then (p conf) (\<lambda>a conf. f a conf)) ts d b ts2 d2"
  using assms unfolding parses_def by fastforce

lemma parses_done:
  assumes "\<And>conf. settings conf = settings d \<Longrightarrow> settings (g conf) = settings d' \<and> cf_toks (g conf) = cf_toks conf"
  shows "parses (\<lambda>conf. Done a (g conf)) ts d a ts d'"
  using assms by (auto simp: parses_def holds_def)

lemma parses_update:
  assumes "\<And>conf. settings conf = settings d \<Longrightarrow> settings (g conf) = settings d1 \<and> cf_toks (g conf) = cf_toks conf"
    and "parses p ts d1 a ts' d'"
  shows "parses (\<lambda>conf. p (g conf)) ts d a ts' d'"
  using assms by (auto simp: parses_def holds_def)

lemma parses_return: "parses (Done a) ts d a ts d"
  by (simp add: parses_def)

lemma parses_if:
  assumes "\<And>conf. settings conf = settings d \<Longrightarrow> P conf = b"
    and "b \<Longrightarrow> parses p ts d a ts' d'" and "\<not> b \<Longrightarrow> parses q ts d a ts' d'"
  shows "parses (\<lambda>conf. if P conf then p conf else q conf) ts d a ts' d'"
  using assms by (cases b) (auto simp: parses_def holds_def)

lemma parses_attempt: "r = Some a \<Longrightarrow> parses (attempt r) ts d a ts d"
  by (simp add: parses_def attempt_def)

lemma pull_holds:
  assumes "holds (t # ts) d conf"
  shows "\<exists>conf'. conf_pull conf = Done t conf' \<and> holds ts d conf' \<and> cf_toks conf = Lexed t (cf_pos conf') # cf_toks conf'"
proof -
  obtain l ls where "cf_toks conf = l # ls" "tok l = Some t" "map tok ls = map Some ts"
    using assms by (auto simp: holds_def)
  with assms show ?thesis
    by (cases l) (auto simp: conf_pull_def holds_def settings_def)
qed

lemma queue_holds: "holds ts d conf \<Longrightarrow> holds (t # ts) d (conf_queue t conf)"
  by (auto simp: holds_def conf_queue_def settings_def)

lemma parses_next: "fst t \<noteq> TOKEN_EOF \<Longrightarrow> parses conf_next (t # ts) d t ts d"
  unfolding parses_def conf_next_def by (auto dest!: pull_holds)

lemma parses_string: "parses conf_string (str s # ts) d s ts d"
  unfolding conf_string_def [abs_def]
  by (rule parses_then [OF parses_next]) (simp_all add: parses_return)

lemma parses_int: "irc_util_stoi s = Inr i \<Longrightarrow> parses conf_int (str s # ts) d i ts d"
  unfolding conf_int_def [abs_def]
  by (rule parses_then [OF parses_string]) (simp add: parses_return)

lemma parses_next_is: "parses (conf_next_is ty) ((ty, s) # ts) d (Some s) ts d"
  unfolding parses_def conf_next_is_def by (auto dest!: pull_holds)

lemma parses_next_is_not: "fst t \<noteq> ty \<Longrightarrow> parses (conf_next_is ty) (t # ts) d None (t # ts) d"
  unfolding parses_def conf_next_is_def by (auto dest!: pull_holds intro: queue_holds)

lemma parses_string_is: "parses (conf_string_is s) (str s # ts) d True ts d"
  unfolding conf_string_is_def [abs_def]
  by (rule parses_then [OF parses_next_is]) (simp add: parses_return)

lemma parses_string_is_not:
  assumes "t \<noteq> str s"
  shows "parses (conf_string_is s) (t # ts) d False (t # ts) d"
proof (cases "fst t = TOKEN_STRING")
  case True
  then obtain w where t: "t = str w" by (cases t) simp
  have "parses (\<lambda>conf. Done False (conf_queue (TOKEN_STRING, w) conf)) ts d False (str w # ts) d"
    by (auto simp: parses_def intro: queue_holds)
  then show ?thesis
    unfolding conf_string_is_def [abs_def] t
    using assms t by (intro parses_then [OF parses_next_is]) simp
next
  case False
  then show ?thesis
    unfolding conf_string_is_def [abs_def]
    by (intro parses_then [OF parses_next_is_not]) (simp_all add: parses_return)
qed

lemma parses_keyword: "parses (conf_keyword s) (str s # ts) d () ts d"
  unfolding conf_keyword_def [abs_def]
  by (rule parses_then [OF parses_string_is]) (simp add: parses_return)

lemma parses_begin: "parses conf_begin (lbrace # ts) d () ts d"
  unfolding conf_begin_def [abs_def]
  by (rule parses_then [OF parses_next]) (simp_all add: parses_return)

lemma parses_begin_is: "parses conf_begin_is (lbrace # ts) d True ts d"
  unfolding conf_begin_is_def [abs_def]
  by (rule parses_then [OF parses_next_is]) (simp add: parses_return)

lemma parses_begin_is_not: "fst t \<noteq> TOKEN_BLK_BEGIN \<Longrightarrow> parses conf_begin_is (t # ts) d False (t # ts) d"
  unfolding conf_begin_is_def [abs_def]
  by (rule parses_then [OF parses_next_is_not]) (simp_all add: parses_return)

lemma parses_end: "parses conf_end (rbrace # ts) d () ts d"
  unfolding conf_end_def [abs_def]
  by (rule parses_then [OF parses_next]) (simp_all add: parses_return)

lemmas parse_rules = parses_string parses_int parses_next_is parses_next_is_not parses_string_is
  parses_string_is_not parses_keyword parses_begin parses_begin_is parses_begin_is_not parses_end
  parses_return

section \<open>Documents\<close>

text \<open>
  What a file can say.  The list of the options of a server is ended by a closing brace that
  belongs to it.
\<close>

datatype server_option = Auto_rejoin | Join_invite

datatype directive = Hostname string | Port nat | Prefix string | Ident string string string
  | Password string | Join string "string option" | Ctcp "(string \<times> string) list" | Ssl
  | Options "server_option list"

datatype criterion = Servers | Channels | Origins | Plugins | Events

datatype block = Config | Paths | Template

datatype sink = To_console | To_syslog | To_file string

datatype conf_entry = Log_entry "bool option" "string option" sink
  | Transport_entry "(nat \<times> nat) option" string
  | Hook_entry string string
  | Server_entry string "directive list"
  | Rule_entry rule_action "(criterion \<times> string list) list"
  | Plugin_entry string "string option" "(block \<times> (string \<times> string) list) list"

subsection \<open>Their tokens\<close>

definition pair_tokens :: "(string \<times> string) list \<Rightarrow> token list" where
  "pair_tokens kvs = concat (map (\<lambda>(k, v). [str k, str v]) kvs)"

fun list_tokens :: "string list \<Rightarrow> token list" where
  "list_tokens [] = []"
| "list_tokens [s] = [str s]"
| "list_tokens (s # u # us) = str s # comma # list_tokens (u # us)"

fun option_word :: "server_option \<Rightarrow> string" where
  "option_word Auto_rejoin = ''AUTO-REJOIN''"
| "option_word Join_invite = ''JOIN-INVITE''"

fun directive_tokens :: "directive \<Rightarrow> token list" where
  "directive_tokens (Hostname h) = [str ''hostname'', str h]"
| "directive_tokens (Port n) = [str ''port'', str (show_nat n)]"
| "directive_tokens (Prefix s) = [str ''prefix'', str s]"
| "directive_tokens (Ident n u r) = [str ''ident'', str n, str u, str r]"
| "directive_tokens (Password s) = [str ''password'', str s]"
| "directive_tokens (Join ch None) = [str ''join'', str ch]"
| "directive_tokens (Join ch (Some pw)) = [str ''join'', str ''with'', str ''password'', str ch, str pw]"
| "directive_tokens (Ctcp kvs) = [str ''ctcp'', lbrace] @ pair_tokens kvs @ [rbrace]"
| "directive_tokens Ssl = [str ''ssl'']"
| "directive_tokens (Options fls) = str ''options'' # map (\<lambda>fl. str (option_word fl)) fls @ [rbrace]"

fun criterion_word :: "criterion \<Rightarrow> string" where
  "criterion_word Servers = ''servers''"
| "criterion_word Channels = ''channels''"
| "criterion_word Origins = ''origins''"
| "criterion_word Plugins = ''plugins''"
| "criterion_word Events = ''events''"

fun block_word :: "block \<Rightarrow> string" where
  "block_word Config = ''config''"
| "block_word Paths = ''paths''"
| "block_word Template = ''template''"

fun sink_tokens :: "sink \<Rightarrow> token list" where
  "sink_tokens To_console = [str ''console'']"
| "sink_tokens To_syslog = [str ''syslog'']"
| "sink_tokens (To_file f) = [str ''file'', str f]"

definition criteria_tokens :: "(criterion \<times> string list) list \<Rightarrow> token list" where
  "criteria_tokens cs =
     concat (map (\<lambda>(c, xs). [str (criterion_word c), lbrace] @ list_tokens xs @ [rbrace]) cs)"

definition block_tokens :: "(block \<times> (string \<times> string) list) list \<Rightarrow> token list" where
  "block_tokens bs =
     concat (map (\<lambda>(b, kvs). [str (block_word b), lbrace] @ pair_tokens kvs @ [rbrace]) bs)"

definition braces :: "token list \<Rightarrow> token list" where
  "braces ts = (if ts = [] then [] else lbrace # ts @ [rbrace])"

definition action_word :: "rule_action \<Rightarrow> string" where
  "action_word a = (case a of Rule_Accept \<Rightarrow> ''accept'' | Rule_Drop \<Rightarrow> ''drop'')"

fun entry_word :: "conf_entry \<Rightarrow> string" where
  "entry_word (Log_entry _ _ _) = ''log''"
| "entry_word (Transport_entry _ _) = ''transport''"
| "entry_word (Hook_entry _ _) = ''hook''"
| "entry_word (Server_entry _ _) = ''server''"
| "entry_word (Rule_entry _ _) = ''rule''"
| "entry_word (Plugin_entry _ _ _) = ''plugin''"

fun entry_tokens :: "conf_entry \<Rightarrow> token list" where
  "entry_tokens (Log_entry verbose tmpl dest) =
     (case verbose of None \<Rightarrow> [] | Some v \<Rightarrow> [str (if v then ''verbose'' else ''quiet'')]) @
     (case tmpl of None \<Rightarrow> [] | Some t \<Rightarrow> [str ''template'', str t]) @ str ''to'' # sink_tokens dest"
| "entry_tokens (Transport_entry owner path) =
     (case owner of None \<Rightarrow> []
      | Some (u, g) \<Rightarrow> [str ''with'', str ''uid'', str (show_nat u), str ''gid'', str (show_nat g)]) @
     [str ''to'', str path]"
| "entry_tokens (Hook_entry name path) = [str name, str ''to'', str path]"
| "entry_tokens (Server_entry name ds) = [str name, lbrace] @ concat (map directive_tokens ds) @ [rbrace]"
| "entry_tokens (Rule_entry a cs) = str (action_word a) # braces (criteria_tokens cs)"
| "entry_tokens (Plugin_entry name location bs) =
     str name # (case location of None \<Rightarrow> [] | Some l \<Rightarrow> [str ''to'', str l]) @ braces (block_tokens bs)"

definition doc_tokens :: "conf_entry list \<Rightarrow> token list" where
  "doc_tokens es = concat (map (\<lambda>e. str (entry_word e) # entry_tokens e) es)"

definition print_doc :: "conf_entry list \<Rightarrow> string" where
  "print_doc es = print_tokens (doc_tokens es)"

subsection \<open>Their meaning\<close>

fun option_flag :: "server_option \<Rightarrow> c_uint" where
  "option_flag Auto_rejoin = IRC_SERVER_FLAGS_AUTO_REJOIN"
| "option_flag Join_invite = IRC_SERVER_FLAGS_JOIN_INVITE"

fun directive_meaning :: "irc_server \<Rightarrow> directive \<Rightarrow> irc_server" where
  "directive_meaning s (Hostname h) = s\<lparr>sv_hostname := Some h\<rparr>"
| "directive_meaning s (Port n) = s\<lparr>sv_port := of_nat n\<rparr>"
| "directive_meaning s (Prefix p) = s\<lparr>sv_prefix := Some p\<rparr>"
| "directive_meaning s (Ident n u r) =
     s\<lparr>sv_nickname := Some n, sv_username := Some u, sv_realname := Some r\<rparr>"
| "directive_meaning s (Password p) = s\<lparr>sv_password := Some p\<rparr>"
| "directive_meaning s (Join ch pw) =
     (if irc_server_channels_find s ch = None
      then s\<lparr>sv_channels := irc_channel_new ch pw IRC_CHANNEL_FLAGS_NONE # sv_channels s\<rparr> else s)"
| "directive_meaning s (Ctcp kvs) = foldl (\<lambda>s (k, v). irc_server_set_ctcp s k v) s kvs"
| "directive_meaning s Ssl = s\<lparr>sv_flags := sv_flags s OR IRC_SERVER_FLAGS_SSL\<rparr>"
| "directive_meaning s (Options fls) = s\<lparr>sv_flags := foldl (\<lambda>f fl. f OR option_flag fl) (sv_flags s) fls\<rparr>"

definition complete :: "irc_server \<Rightarrow> bool" where
  "complete s \<longleftrightarrow> sv_hostname s \<noteq> None \<and> sv_port s \<noteq> 0 \<and> sv_nickname s \<noteq> None \<and>
     sv_username s \<noteq> None \<and> sv_realname s \<noteq> None"

fun criterion_add :: "criterion \<Rightarrow> irc_rule \<Rightarrow> string \<Rightarrow> irc_rule" where
  "criterion_add Servers = irc_rule_add_server"
| "criterion_add Channels = irc_rule_add_channel"
| "criterion_add Origins = irc_rule_add_origin"
| "criterion_add Plugins = irc_rule_add_plugin"
| "criterion_add Events = irc_rule_add_event"

fun block_set :: "block \<Rightarrow> 's irc_plugin \<Rightarrow> string \<Rightarrow> string \<Rightarrow> 's irc_plugin" where
  "block_set Config = irc_plugin_set_option"
| "block_set Paths = irc_plugin_set_path"
| "block_set Template = irc_plugin_set_template"

definition rule_meaning :: "rule_action \<Rightarrow> (criterion \<times> string list) list \<Rightarrow> irc_rule" where
  "rule_meaning a cs = foldl (\<lambda>r (c, xs). foldl (criterion_add c) r xs) (irc_rule_new a) cs"

definition plugin_meaning ::
  "'s irc_plugin \<Rightarrow> (block \<times> (string \<times> string) list) list \<Rightarrow> 's irc_plugin" where
  "plugin_meaning p bs = foldl (\<lambda>p (b, kvs). foldl (\<lambda>p (k, v). block_set b p k v) p kvs) p bs"

text \<open>\<open>None\<close>: the entry is not acceptable behind what was read before.\<close>

fun entry_meaning :: "'s conf_env \<Rightarrow> 's conf \<Rightarrow> conf_entry \<Rightarrow> 's conf option" where
  "entry_meaning env d (Log_entry verbose tmpl dest) =
     (let d1 = (case verbose of None \<Rightarrow> d | Some v \<Rightarrow> d\<lparr>cf_log_level := if v then 1 else 0\<rparr>);
          d2 = (case tmpl of None \<Rightarrow> d1 | Some t \<Rightarrow> d1\<lparr>cf_log_template := Some t\<rparr>)
      in Some (case dest of
           To_console \<Rightarrow> d2\<lparr>cf_log_type := LOG_TYPE_CONSOLE\<rparr>
         | To_syslog \<Rightarrow> d2\<lparr>cf_log_type := LOG_TYPE_SYSLOG\<rparr>
         | To_file f \<Rightarrow> d2\<lparr>cf_log_type := LOG_TYPE_FILE, cf_log_file := Some f\<rparr>))"
| "entry_meaning env d (Transport_entry owner path) =
     (if cf_tpt d \<noteq> None then None
      else Some (case owner of
          None \<Rightarrow> d\<lparr>cf_tpt_uid := -1, cf_tpt_gid := -1, cf_tpt := Some path\<rparr>
        | Some (u, g) \<Rightarrow> d\<lparr>cf_tpt_uid := int u, cf_tpt_gid := int g, cf_tpt := Some path\<rparr>))"
| "entry_meaning env d (Hook_entry name path) =
     (if name \<in> hk_name ` set (cf_hooks d) then None
      else Some (d\<lparr>cf_hooks := cf_hooks d @ [\<lparr>hk_name = name, hk_path = path\<rparr>]\<rparr>))"
| "entry_meaning env d (Server_entry name ds) =
     (let s = foldl directive_meaning (irc_server_new name) ds in
      if name \<in> sv_name ` set (cf_servers d) \<or> \<not> complete s then None
      else Some (d\<lparr>cf_servers := cf_servers d @ [s]\<rparr>))"
| "entry_meaning env d (Rule_entry a cs) = Some (d\<lparr>cf_rules := cf_rules d @ [rule_meaning a cs]\<rparr>)"
| "entry_meaning env d (Plugin_entry name location bs) =
     (if name \<in> pl_name ` set (cf_plugins d) \<or> irc_bot_plugin_get (ce_irccd env) name \<noteq> None then None
      else case irc_bot_plugin_search (ce_dirs env) (ce_irccd env) name location of
             Some (Some p) \<Rightarrow> Some (d\<lparr>cf_plugins := cf_plugins d @ [plugin_meaning p bs]\<rparr>)
           | _ \<Rightarrow> None)"

fun doc_meaning :: "'s conf_env \<Rightarrow> 's conf \<Rightarrow> conf_entry list \<Rightarrow> 's conf option" where
  "doc_meaning env d [] = Some d"
| "doc_meaning env d (e # es) =
     (case entry_meaning env d e of None \<Rightarrow> None | Some d1 \<Rightarrow> doc_meaning env d1 es)"

subsection \<open>Which texts can be written\<close>

fun directive_ok :: "directive \<Rightarrow> bool" where
  "directive_ok (Port n) = (0 < n \<and> n < 65535)"
| "directive_ok (Join ch None) = (ch \<noteq> ''with'')"
| "directive_ok _ = True"

fun entry_ok :: "conf_entry \<Rightarrow> bool" where
  "entry_ok (Transport_entry (Some (u, g)) _) = (u < 2 ^ 63 \<and> g < 2 ^ 63)"
| "entry_ok (Server_entry _ ds) = list_all directive_ok ds"
| "entry_ok _ = True"

definition doc_ok :: "conf_entry list \<Rightarrow> bool" where
  "doc_ok es \<longleftrightarrow> list_all entry_ok es \<and> list_all printable (doc_tokens es)"

section \<open>The parser reads a document\<close>

lemma parses_key_value_loop:
  assumes "fst t \<noteq> TOKEN_STRING"
  shows "parses (key_value_loop setter x) (pair_tokens kvs @ t # ts) d
    (foldl (\<lambda>x (k, v). setter x k v) x kvs) (t # ts) d"
proof (induction kvs arbitrary: x)
  case Nil
  have "parses (\<lambda>conf. conf_then (conf_next_is TOKEN_STRING conf) (\<lambda>data conf1. case data of
      None \<Rightarrow> Done x conf1 | Some key \<Rightarrow> conf_then (conf_string conf1) (\<lambda>val conf2.
        key_value_loop setter (setter x key val) conf2))) (t # ts) d x (t # ts) d"
    using assms by (intro parses_then [OF parses_next_is_not]) (simp_all add: parses_return)
  then show ?case by (simp add: pair_tokens_def key_value_loop.simps [abs_def])
next
  case (Cons kv kvs)
  obtain k v where kv: "kv = (k, v)" by (cases kv)
  have "parses (\<lambda>conf1. conf_then (conf_string conf1) (\<lambda>val conf2. key_value_loop setter (setter x k val) conf2))
      (str v # pair_tokens kvs @ t # ts) d (foldl (\<lambda>x (k, v). setter x k v) (setter x k v) kvs) (t # ts) d"
    by (rule parses_then [OF parses_string]) (rule Cons)
  then have "parses (\<lambda>conf. conf_then (conf_next_is TOKEN_STRING conf) (\<lambda>data conf1. case data of
      None \<Rightarrow> Done x conf1 | Some key \<Rightarrow> conf_then (conf_string conf1) (\<lambda>val conf2.
        key_value_loop setter (setter x key val) conf2))) (str k # str v # pair_tokens kvs @ t # ts) d
      (foldl (\<lambda>x (k, v). setter x k v) (setter x k v) kvs) (t # ts) d"
    by (intro parses_then [OF parses_next_is]) simp
  then show ?case by (simp add: pair_tokens_def kv key_value_loop.simps [of setter x, abs_def])
qed

lemma parses_key_values:
  "parses (key_values setter x) (lbrace # pair_tokens kvs @ rbrace # ts) d
     (foldl (\<lambda>x (k, v). setter x k v) x kvs) ts d"
  unfolding key_values_def [abs_def]
  by (intro parses_then [OF parses_begin] parses_then [OF parses_key_value_loop] parses_then [OF parses_end])
    (simp_all add: parses_return)

subsection \<open>Servers\<close>

lemma join_fresh:
  assumes "sv_coroutine s = None"
  shows "snd (irc_server_join s ch pw) = directive_meaning s (Join ch pw)"
  using assms by (auto simp: irc_server_join_def server_ready_def irc__conn_ready_def irc_server_channels_add_def Let_def
      split: option.splits)

lemma directive_coroutine [simp]: "sv_coroutine (directive_meaning s dv) = sv_coroutine s"
proof (cases dv)
  case (Ctcp kvs)
  have "sv_coroutine (foldl (\<lambda>s (k, v). irc_server_set_ctcp s k v) s kvs) = sv_coroutine s"
    by (induction kvs arbitrary: s) (auto simp: irc_server_set_ctcp_def)
  with Ctcp show ?thesis by simp
qed simp_all

lemma directives_coroutine: "sv_coroutine (foldl directive_meaning s ds) = sv_coroutine s"
  by (induction ds arbitrary: s) simp_all

lemma setters_fresh:
  assumes "sv_coroutine s = None"
  shows "irc_server_set_hostname s (Some h) = Some (directive_meaning s (Hostname h))"
    "irc_server_set_port s (word_of_int (int n)) = Some (directive_meaning s (Port n))"
    "irc_server_set_password s (Some p) = Some (directive_meaning s (Password p))"
    "irc_server_set_nickname s nick = s\<lparr>sv_nickname := Some nick\<rparr>"
  using assms by (simp_all add: irc_server_set_hostname_def irc_server_set_port_def irc_server_set_password_def
      irc_server_set_nickname_def server_ready_def irc__conn_ready_def)

lemma parses_ident:
  assumes "sv_coroutine s = None"
  shows "parses (conf_parse_server_ident s) (str n # str u # str r # ts) d
    (directive_meaning s (Ident n u r)) ts d"
proof -
  have user: "irc_server_set_username (irc_server_set_nickname s n) u =
      Some (s\<lparr>sv_nickname := Some n, sv_username := Some u\<rparr>)"
    and real: "irc_server_set_realname (s\<lparr>sv_nickname := Some n, sv_username := Some u\<rparr>) r =
      Some (directive_meaning s (Ident n u r))"
    using assms by (simp_all add: setters_fresh irc_server_set_username_def irc_server_set_realname_def)
  show ?thesis
    unfolding conf_parse_server_ident_def [abs_def]
    by (intro parses_then [OF parses_string] parses_then [OF parses_attempt [OF user]] parses_attempt [OF real])
qed

lemma parses_options_loop:
  assumes "fst t \<noteq> TOKEN_STRING" and "fst t \<noteq> TOKEN_EOF"
  shows "parses (server_options_loop s) (map (\<lambda>fl. str (option_word fl)) fls @ t # ts) d
    (s\<lparr>sv_flags := foldl (\<lambda>f fl. f OR option_flag fl) (sv_flags s) fls\<rparr>, fst t) ts d"
proof (induction fls arbitrary: s)
  case Nil
  have "parses (server_options_loop s) (t # ts) d (s, fst t) ts d"
    unfolding server_options_loop.simps [of s, abs_def]
    using assms by (intro parses_then [OF parses_next]) (simp_all add: parses_return)
  then show ?case by simp
next
  case (Cons fl fls)
  let ?s = "irc_server_set_flags s (sv_flags s OR option_flag fl)"
  have "parses (server_options_loop ?s) (map (\<lambda>fl. str (option_word fl)) fls @ t # ts) d
      (s\<lparr>sv_flags := foldl (\<lambda>f fl. f OR option_flag fl) (sv_flags s) (fl # fls)\<rparr>, fst t) ts d"
    using Cons.IH [of ?s] by (simp add: irc_server_set_flags_def)
  then have "parses (server_options_loop s) (str (option_word fl) # map (\<lambda>fl. str (option_word fl)) fls @ t # ts) d
      (s\<lparr>sv_flags := foldl (\<lambda>f fl. f OR option_flag fl) (sv_flags s) (fl # fls)\<rparr>, fst t) ts d"
    unfolding server_options_loop.simps [of s, abs_def]
    by (intro parses_then [OF parses_next]) (cases fl; simp)+
  then show ?case by simp
qed

lemma parses_directive:
  assumes fresh: "sv_coroutine s = None" and good: "directive_ok dv"
    and dv: "directive_tokens dv = str w # us"
  shows "parses (conf_parse_server_item w s) (us @ ts) d (directive_meaning s dv) ts d"
proof (cases dv)
  case (Hostname h)
  then show ?thesis using dv setters_fresh(1) [OF fresh, of h]
    by (auto simp: conf_parse_server_item_def [abs_def] conf_parse_server_hostname_def [abs_def]
        intro!: parses_then [OF parses_string] parses_attempt)
next
  case (Port n)
  then have n: "irc_util_stoi (show_nat n) = Inr (int n)" "0 < n" "n < 65535"
    using good by (simp_all add: stoi_show)
  then show ?thesis using Port dv setters_fresh(2) [OF fresh, of n]
    by (auto simp: conf_parse_server_item_def [abs_def] conf_parse_server_port_def [abs_def]
        intro!: parses_then [OF parses_int [OF n(1)]] parses_attempt)
next
  case (Prefix p)
  then show ?thesis using dv
    by (auto simp: conf_parse_server_item_def [abs_def] conf_parse_server_prefix_def [abs_def]
        irc_server_set_prefix_def intro!: parses_then [OF parses_string] parses_return)
next
  case (Ident n u r)
  then show ?thesis using dv parses_ident [OF fresh, of n u r ts d]
    by (auto simp: conf_parse_server_item_def [abs_def])
next
  case (Password p)
  then show ?thesis using dv setters_fresh(3) [OF fresh, of p]
    by (auto simp: conf_parse_server_item_def [abs_def] conf_parse_server_password_def [abs_def]
        intro!: parses_then [OF parses_string] parses_attempt)
next
  case (Join ch pw)
  then show ?thesis using dv good join_fresh [OF fresh, of ch pw]
    by (cases pw) (auto simp: conf_parse_server_item_def [abs_def] conf_parse_server_join_def [abs_def]
        intro!: parses_then [OF parses_string] parses_then [OF parses_string_is] parses_return
          parses_then [OF parses_string_is_not] parses_then [OF parses_keyword])
next
  case (Ctcp kvs)
  then show ?thesis using dv parses_key_values [of irc_server_set_ctcp s kvs ts d]
    by (auto simp: conf_parse_server_item_def [abs_def] conf_parse_server_ctcp_def [abs_def])
next
  case Ssl
  then show ?thesis using dv
    by (auto simp: conf_parse_server_item_def [abs_def] conf_parse_server_ssl_def [abs_def]
        irc_server_set_flags_def intro!: parses_return)
next
  case (Options fls)
  then show ?thesis using dv parses_options_loop [of rbrace s fls ts d]
    by (auto simp: conf_parse_server_item_def [abs_def] conf_parse_server_options_def [abs_def]
        intro!: parses_then parses_return)
qed

lemma directive_word: "\<exists>w us. directive_tokens dv = str w # us"
  by (cases dv rule: directive_tokens.cases) simp_all

lemma server_loop_end:
  assumes "fst t \<noteq> TOKEN_STRING"
  shows "parses (server_loop s) (t # ts) d s (t # ts) d"
  unfolding server_loop.simps [of s, abs_def]
  using assms by (intro parses_then [OF parses_next_is_not]) (simp_all add: parses_return)

lemma server_loop_directive:
  assumes "parses (conf_parse_server_item w s) us d s1 ts d" and "parses (server_loop s1) ts d r ts' d"
  shows "parses (server_loop s) (str w # us) d r ts' d"
proof -
  have "parses (\<lambda>conf1. conf_then (conf_parse_server_item w s conf1) (\<lambda>s conf2. server_loop s conf2)) us d r ts' d"
    by (rule parses_then [OF assms(1)]) (rule assms(2))
  then show ?thesis
    unfolding server_loop.simps [of s, abs_def]
    by (intro parses_then [OF parses_next_is]) simp
qed

lemma server_loop_directives:
  assumes "sv_coroutine s = None" and "list_all directive_ok ds"
    and "parses (server_loop (foldl directive_meaning s ds)) ts d r ts' d"
  shows "parses (server_loop s) (concat (map directive_tokens ds) @ ts) d r ts' d"
  using assms
proof (induction ds arbitrary: s)
  case (Cons dv ds)
  obtain w us where dv: "directive_tokens dv = str w # us" using directive_word by blast
  have "parses (server_loop s) (str w # us @ concat (map directive_tokens ds) @ ts) d r ts' d"
  proof (rule server_loop_directive)
    show "parses (conf_parse_server_item w s) (us @ concat (map directive_tokens ds) @ ts) d
        (directive_meaning s dv) (concat (map directive_tokens ds) @ ts) d"
      using Cons.prems dv by (intro parses_directive) simp_all
    show "parses (server_loop (directive_meaning s dv)) (concat (map directive_tokens ds) @ ts) d r ts' d"
      using Cons.prems by (intro Cons.IH) simp_all
  qed
  with dv show ?case by simp
qed simp

lemma parses_hook:
  assumes "entry_meaning env d (Hook_entry name path) = Some d'"
  shows "parses conf_parse_hook (entry_tokens (Hook_entry name path) @ ts) d () ts d'"
  using assms unfolding conf_parse_hook_def [abs_def]
  by (auto simp: settings_eq irc_hook_new_def split: if_splits
      intro!: parses_then [OF parses_string] parses_if [where b = False] parses_then [OF parses_keyword] parses_done)

lemma parses_server:
  assumes "entry_meaning env d (Server_entry name ds) = Some d'" and "list_all directive_ok ds"
  shows "parses conf_parse_server (entry_tokens (Server_entry name ds) @ ts) d () ts d'"
proof -
  let ?s = "foldl directive_meaning (irc_server_new name) ds"
  have s: "name \<notin> sv_name ` set (cf_servers d)" "complete ?s" "d' = d\<lparr>cf_servers := cf_servers d @ [?s]\<rparr>"
    using assms(1) by (auto simp: Let_def split: if_splits)
  have loop: "parses (server_loop (irc_server_new name)) (concat (map directive_tokens ds) @ rbrace # ts) d
      ?s (rbrace # ts) d"
    by (intro server_loop_directives server_loop_end) (simp_all add: irc_server_new_def assms(2))
  have last: "parses (\<lambda>conf. if sv_hostname ?s = None then conf_fatal conf ''no hostname set''
          else if sv_port ?s = 0 then conf_fatal conf ''no port set''
          else if sv_nickname ?s = None \<or> sv_username ?s = None \<or> sv_realname ?s = None
          then conf_fatal conf ''no ident set''
          else Done () (conf\<lparr>cf_servers := cf_servers conf @ [?s]\<rparr>)) ts d () ts d'"
    using s(2,3) by (auto simp: complete_def settings_eq intro!: parses_done)
  show ?thesis
    unfolding conf_parse_server_def [abs_def] entry_tokens.simps
    using s(1) loop last
    by (auto simp: settings_eq
      intro!: parses_then [OF parses_string] parses_if [where b = False] parses_then [OF parses_begin]
        parses_then [OF parses_end] parses_then [OF loop])
qed

subsection \<open>Rules\<close>

lemma criterion_adder: "criteria_adder (criterion_word c) = Some (criterion_add c)"
  by (cases c) (simp_all add: criteria_adder_def)

lemma parses_criteria_loop:
  "parses (criteria_loop adder r) (list_tokens xs @ rbrace # ts) d (foldl adder r xs) (rbrace # ts) d"
proof (induction xs arbitrary: r rule: list_tokens.induct)
  case 1
  have "parses (\<lambda>conf. conf_then (conf_next_is TOKEN_STRING conf) (\<lambda>data conf1. case data of
      None \<Rightarrow> Done r conf1 | Some s \<Rightarrow> conf_then (conf_next_is TOKEN_COMMA conf1) (\<lambda>comma conf2.
        if comma = None then Done (adder r s) conf2 else criteria_loop adder (adder r s) conf2)))
      (rbrace # ts) d r (rbrace # ts) d"
    by (intro parses_then [OF parses_next_is_not]) (simp_all add: parses_return)
  then show ?case by (simp add: criteria_loop.simps [abs_def])
next
  case (2 s)
  have "parses (\<lambda>conf. conf_then (conf_next_is TOKEN_STRING conf) (\<lambda>data conf1. case data of
      None \<Rightarrow> Done r conf1 | Some s \<Rightarrow> conf_then (conf_next_is TOKEN_COMMA conf1) (\<lambda>comma conf2.
        if comma = None then Done (adder r s) conf2 else criteria_loop adder (adder r s) conf2)))
      (str s # rbrace # ts) d (adder r s) (rbrace # ts) d"
    by (intro parses_then [OF parses_next_is]) (auto intro!: parses_then [OF parses_next_is_not] parses_return)
  then show ?case by (simp add: criteria_loop.simps [of adder r, abs_def])
next
  case (3 s u us)
  have "parses (\<lambda>conf. conf_then (conf_next_is TOKEN_STRING conf) (\<lambda>data conf1. case data of
      None \<Rightarrow> Done r conf1 | Some s \<Rightarrow> conf_then (conf_next_is TOKEN_COMMA conf1) (\<lambda>comma conf2.
        if comma = None then Done (adder r s) conf2 else criteria_loop adder (adder r s) conf2)))
      (str s # comma # list_tokens (u # us) @ rbrace # ts) d (foldl adder (adder r s) (u # us)) (rbrace # ts) d"
    using 3 [of "adder r s"]
    by (intro parses_then [OF parses_next_is]) (auto intro!: parses_then [OF parses_next_is])
  then show ?case by (simp add: criteria_loop.simps [of adder r, abs_def])
qed

lemma parses_criteria:
  "parses (conf_parse_rule_criteria (criterion_word c) r) (lbrace # list_tokens xs @ rbrace # ts) d
     (foldl (criterion_add c) r xs) ts d"
  unfolding conf_parse_rule_criteria_def [abs_def] criterion_adder option.case
  by (intro parses_then [OF parses_begin] parses_then [OF parses_criteria_loop] parses_then [OF parses_end]
      parses_return)

lemma parses_rule_loop:
  "parses (rule_loop r) (criteria_tokens cs @ rbrace # ts) d
     (foldl (\<lambda>r (c, xs). foldl (criterion_add c) r xs) r cs, TOKEN_BLK_END) ts d"
proof (induction cs arbitrary: r)
  case Nil
  have "parses (\<lambda>conf. conf_then (conf_next conf) (\<lambda>t conf1. if fst t \<noteq> TOKEN_STRING then Done (r, fst t) conf1
      else conf_then (conf_parse_rule_criteria (snd t) r conf1) (\<lambda>r conf2. rule_loop r conf2)))
      (rbrace # ts) d (r, TOKEN_BLK_END) ts d"
    by (intro parses_then [OF parses_next]) (simp_all add: parses_return)
  then show ?case by (simp add: criteria_tokens_def rule_loop.simps [abs_def])
next
  case (Cons cx cs)
  obtain c xs where cx: "cx = (c, xs)" by (cases cx)
  have "parses (\<lambda>conf. conf_then (conf_next conf) (\<lambda>t conf1. if fst t \<noteq> TOKEN_STRING then Done (r, fst t) conf1
      else conf_then (conf_parse_rule_criteria (snd t) r conf1) (\<lambda>r conf2. rule_loop r conf2)))
      (str (criterion_word c) # lbrace # list_tokens xs @ rbrace # criteria_tokens cs @ rbrace # ts) d
      (foldl (\<lambda>r (c, xs). foldl (criterion_add c) r xs) (foldl (criterion_add c) r xs) cs, TOKEN_BLK_END) ts d"
    using Cons.IH by (intro parses_then [OF parses_next]) (auto intro!: parses_then [OF parses_criteria])
  then show ?case by (simp add: cx criteria_tokens_def rule_loop.simps [of r, abs_def])
qed

text \<open>What may follow an entry: another one, or the end.\<close>

definition follows :: "token list \<Rightarrow> bool" where
  "follows ts \<longleftrightarrow> (\<exists>t us. ts = t # us \<and> (t = eof \<or> (\<exists>e. t = str (entry_word e))))"

lemma parses_action: "parses conf_parse_rule_action (str (action_word a) # ts) d a ts d"
  unfolding conf_parse_rule_action_def [abs_def]
  by (cases a) (auto simp: action_word_def intro!: parses_then [OF parses_string_is] parses_return
      parses_then [OF parses_string_is_not])

lemma parses_rule_block:
  assumes "follows ts"
  shows "parses (conf_parse_rule_block r) (braces (criteria_tokens cs) @ ts) d
    (foldl (\<lambda>r (c, xs). foldl (criterion_add c) r xs) r cs) ts d"
proof (cases "cs = []")
  case True
  from assms obtain t us where "ts = t # us" "fst t \<noteq> TOKEN_BLK_BEGIN" by (auto simp: follows_def)
  with True show ?thesis
    unfolding conf_parse_rule_block_def [abs_def]
    by (auto simp: criteria_tokens_def braces_def intro!: parses_then [OF parses_next_is_not] parses_return)
next
  case False
  then have "criteria_tokens cs \<noteq> []" by (cases cs) (auto simp: criteria_tokens_def)
  then show ?thesis
    unfolding conf_parse_rule_block_def [abs_def]
    by (auto simp: braces_def intro!: parses_then [OF parses_next_is] parses_then [OF parses_rule_loop] parses_return)
qed

lemma parses_rule:
  assumes "entry_meaning env d (Rule_entry a cs) = Some d'" and "follows ts"
  shows "parses conf_parse_rule (entry_tokens (Rule_entry a cs) @ ts) d () ts d'"
  using assms unfolding conf_parse_rule_def [abs_def]
  by (auto simp: settings_eq rule_meaning_def
      intro!: parses_then [OF parses_action] parses_then [OF parses_rule_block] parses_done)

subsection \<open>Log and transport\<close>

lemma parses_sink:
  "parses conf_parse_log_sink (sink_tokens dest @ ts) d () ts
     (case dest of
        To_console \<Rightarrow> d\<lparr>cf_log_type := LOG_TYPE_CONSOLE\<rparr>
      | To_syslog \<Rightarrow> d\<lparr>cf_log_type := LOG_TYPE_SYSLOG\<rparr>
      | To_file f \<Rightarrow> d\<lparr>cf_log_type := LOG_TYPE_FILE, cf_log_file := Some f\<rparr>)"
  unfolding conf_parse_log_sink_def [abs_def]
  by (cases dest)
    (auto simp: settings_eq intro!: parses_then [OF parses_string_is] parses_then [OF parses_string_is_not]
      parses_done parses_then [OF parses_update [where ?d1.0 = "d\<lparr>cf_log_type := LOG_TYPE_FILE\<rparr>", OF _ parses_string]])

lemma parses_log_level:
  assumes "\<And>s. t = str s \<Longrightarrow> s \<notin> {''verbose'', ''quiet''}"
  shows "parses conf_parse_log_level
    ((case verbose of None \<Rightarrow> [] | Some v \<Rightarrow> [str (if v then ''verbose'' else ''quiet'')]) @ t # ts) d () (t # ts)
    (case verbose of None \<Rightarrow> d | Some v \<Rightarrow> d\<lparr>cf_log_level := if v then 1 else 0\<rparr>)"
  using assms unfolding conf_parse_log_level_def [abs_def]
  by (cases verbose) (auto simp: settings_eq intro!: parses_then [OF parses_string_is] parses_then [OF parses_string_is_not]
      parses_done)

lemma parses_log_template:
  "parses conf_parse_log_template
    ((case tmpl of None \<Rightarrow> [] | Some s \<Rightarrow> [str ''template'', str s]) @ str ''to'' # ts) d () (str ''to'' # ts)
    (case tmpl of None \<Rightarrow> d | Some s \<Rightarrow> d\<lparr>cf_log_template := Some s\<rparr>)"
  unfolding conf_parse_log_template_def [abs_def]
  by (cases tmpl) (auto simp: settings_eq intro!: parses_then [OF parses_string_is] parses_then [OF parses_string_is_not]
      parses_then [OF parses_string] parses_done)

lemma parses_log:
  assumes "entry_meaning env d (Log_entry verbose tmpl dest) = Some d'"
  shows "parses conf_parse_log (entry_tokens (Log_entry verbose tmpl dest) @ ts) d () ts d'"
proof -
  let ?d1 = "case verbose of None \<Rightarrow> d | Some v \<Rightarrow> d\<lparr>cf_log_level := if v then 1 else 0\<rparr>"
  let ?d2 = "case tmpl of None \<Rightarrow> ?d1 | Some s \<Rightarrow> ?d1\<lparr>cf_log_template := Some s\<rparr>"
  let ?rest = "(case tmpl of None \<Rightarrow> [] | Some s \<Rightarrow> [str ''template'', str s]) @ str ''to'' # sink_tokens dest @ ts"
  have level: "parses conf_parse_log_level
      ((case verbose of None \<Rightarrow> [] | Some v \<Rightarrow> [str (if v then ''verbose'' else ''quiet'')]) @ ?rest) d () ?rest ?d1"
    by (cases tmpl) (auto intro!: parses_log_level)
  from assms show ?thesis
    unfolding conf_parse_log_def [abs_def] entry_tokens.simps append_assoc append_Cons entry_meaning.simps Let_def
      option.inject
    by (auto intro!: parses_then [OF level] parses_then [OF parses_log_template] parses_then [OF parses_keyword]
        parses_sink)
qed

lemma parses_owner:
  assumes "case owner of None \<Rightarrow> True | Some (u, g) \<Rightarrow> u < 2 ^ 63 \<and> g < 2 ^ 63"
  shows "parses (conf_parse_transport_owner env)
    ((case owner of None \<Rightarrow> []
      | Some (u, g) \<Rightarrow> [str ''with'', str ''uid'', str (show_nat u), str ''gid'', str (show_nat g)]) @ str ''to'' # ts)
    d () (str ''to'' # ts)
    (case owner of None \<Rightarrow> d\<lparr>cf_tpt_uid := -1, cf_tpt_gid := -1\<rparr>
      | Some (u, g) \<Rightarrow> d\<lparr>cf_tpt_uid := int u, cf_tpt_gid := int g\<rparr>)"
proof (cases owner)
  case None
  then show ?thesis
    unfolding conf_parse_transport_owner_def [abs_def]
    by (auto simp: settings_eq intro!: parses_then [OF parses_string_is_not] parses_done)
next
  case (Some ug)
  obtain u g where ug: "ug = (u, g)" by (cases ug)
  let ?d1 = "d\<lparr>cf_tpt_uid := int u\<rparr>"
  have uid: "parses (conf_resolve_uid env (show_nat u)) ts d (int u) ts d"
    and gid: "parses (conf_resolve_gid env (show_nat g)) ts ?d1 (int g) ts ?d1" for ts
    using assms Some ug
    by (simp_all add: conf_resolve_uid_def [abs_def] conf_resolve_gid_def [abs_def] stoi_show parses_return)
  have keyword: "parses (\<lambda>conf. conf_keyword ''gid'' (conf\<lparr>cf_tpt_uid := int u\<rparr>)) (str ''gid'' # ts) d () ts ?d1" for ts
    by (rule parses_update [OF _ parses_keyword]) (simp add: settings_eq)
  show ?thesis
    unfolding conf_parse_transport_owner_def [abs_def] Some ug
    by (auto simp: settings_eq intro!: parses_then [OF parses_string_is] parses_then [OF parses_keyword]
        parses_then [OF parses_string] parses_then [OF uid] parses_then [OF keyword] parses_then [OF gid] parses_done)
qed

lemma parses_transport:
  assumes "entry_meaning env d (Transport_entry owner path) = Some d'" and "entry_ok (Transport_entry owner path)"
  shows "parses (conf_parse_transport env) (entry_tokens (Transport_entry owner path) @ ts) d () ts d'"
proof -
  have owner: "case owner of None \<Rightarrow> True | Some (u, g) \<Rightarrow> u < 2 ^ 63 \<and> g < 2 ^ 63"
    using assms(2) by (auto split: option.split)
  let ?d1 = "case owner of None \<Rightarrow> d\<lparr>cf_tpt_uid := -1, cf_tpt_gid := -1\<rparr>
      | Some (u, g) \<Rightarrow> d\<lparr>cf_tpt_uid := int u, cf_tpt_gid := int g\<rparr>"
  have d': "cf_tpt d = None" "d' = ?d1\<lparr>cf_tpt := Some path\<rparr>"
    using assms(1) by (auto split: if_splits option.splits)
  have last: "parses (\<lambda>conf. conf_then (conf_keyword ''to'' conf) (\<lambda>_ conf.
      conf_then (conf_string conf) (\<lambda>s conf. Done () (conf\<lparr>cf_tpt := Some s\<rparr>)))) (str ''to'' # str path # ts) ?d1 () ts d'"
    unfolding d'(2) by (intro parses_then [OF parses_keyword] parses_then [OF parses_string] parses_done)
      (simp add: settings_eq)
  have "parses (\<lambda>conf. conf_then (conf_parse_transport_owner env conf) (\<lambda>_ conf.
      conf_then (conf_keyword ''to'' conf) (\<lambda>_ conf.
      conf_then (conf_string conf) (\<lambda>s conf. Done () (conf\<lparr>cf_tpt := Some s\<rparr>)))))
      (entry_tokens (Transport_entry owner path) @ ts) d () ts d'"
    unfolding entry_tokens.simps append_assoc append_Cons append_Nil
    by (rule parses_then [OF parses_owner [OF owner]]) (rule last)
  then show ?thesis
    unfolding conf_parse_transport_def [abs_def]
    using d'(1) by (intro parses_if [where b = False]) (simp_all add: settings_eq)
qed

subsection \<open>Plugins\<close>

lemma block_setter: "plugin_setter (block_word b) = Some (block_set b)"
  by (cases b) (simp_all add: plugin_setter_def)

lemma parses_plugin_options:
  "parses (conf_parse_plugin_options (block_word b) p) (lbrace # pair_tokens kvs @ rbrace # ts) d
     (foldl (\<lambda>p (k, v). block_set b p k v) p kvs) ts d"
  unfolding conf_parse_plugin_options_def [abs_def] block_setter option.case by (rule parses_key_values)

lemma parses_plugin_block_loop:
  "parses (plugin_block_loop p) (block_tokens bs @ rbrace # ts) d (plugin_meaning p bs) (rbrace # ts) d"
proof (induction bs arbitrary: p)
  case Nil
  have "parses (\<lambda>conf. conf_then (conf_next_is TOKEN_STRING conf) (\<lambda>data conf1. case data of
      None \<Rightarrow> Done p conf1 | Some what \<Rightarrow> conf_then (conf_parse_plugin_options what p conf1) (\<lambda>p conf2.
        plugin_block_loop p conf2))) (rbrace # ts) d p (rbrace # ts) d"
    by (intro parses_then [OF parses_next_is_not]) (simp_all add: parses_return)
  then show ?case by (simp add: block_tokens_def plugin_meaning_def plugin_block_loop.simps [abs_def])
next
  case (Cons bk bs)
  obtain b kvs where bk: "bk = (b, kvs)" by (cases bk)
  let ?q = "foldl (\<lambda>p (k, v). block_set b p k v) p kvs"
  have "parses (\<lambda>conf1. conf_then (conf_parse_plugin_options (block_word b) p conf1) (\<lambda>p conf2. plugin_block_loop p conf2))
      (lbrace # pair_tokens kvs @ rbrace # block_tokens bs @ rbrace # ts) d (plugin_meaning ?q bs) (rbrace # ts) d"
    by (rule parses_then [OF parses_plugin_options]) (rule Cons)
  then have "parses (\<lambda>conf. conf_then (conf_next_is TOKEN_STRING conf) (\<lambda>data conf1. case data of
      None \<Rightarrow> Done p conf1 | Some what \<Rightarrow> conf_then (conf_parse_plugin_options what p conf1) (\<lambda>p conf2.
        plugin_block_loop p conf2)))
      (str (block_word b) # lbrace # pair_tokens kvs @ rbrace # block_tokens bs @ rbrace # ts) d
      (plugin_meaning ?q bs) (rbrace # ts) d"
    by (intro parses_then [OF parses_next_is]) simp
  then show ?case by (simp add: bk block_tokens_def plugin_meaning_def plugin_block_loop.simps [of p, abs_def])
qed

lemma parses_plugin_block:
  assumes "follows ts"
  shows "parses (conf_parse_plugin_block p) (braces (block_tokens bs) @ ts) d (plugin_meaning p bs) ts d"
proof (cases "bs = []")
  case True
  from assms obtain t us where "ts = t # us" "fst t \<noteq> TOKEN_BLK_BEGIN" by (auto simp: follows_def)
  with True show ?thesis
    unfolding conf_parse_plugin_block_def [abs_def]
    by (auto simp: block_tokens_def braces_def plugin_meaning_def
        intro!: parses_then [OF parses_begin_is_not] parses_return)
next
  case False
  then have "block_tokens bs \<noteq> []" by (cases bs) (auto simp: block_tokens_def)
  then show ?thesis
    unfolding conf_parse_plugin_block_def [abs_def]
    by (auto simp: braces_def intro!: parses_then [OF parses_begin_is] parses_then [OF parses_plugin_block_loop]
        parses_then [OF parses_end] parses_return)
qed

lemma entry_word_not_to: "entry_word e \<noteq> ''to''"
  by (cases e) simp_all

lemma parses_location:
  assumes "\<exists>t us. ts = t # us \<and> t \<noteq> str ''to''"
  shows "parses conf_parse_plugin_location ((case location of None \<Rightarrow> [] | Some l \<Rightarrow> [str ''to'', str l]) @ ts) d
    location ts d"
  using assms unfolding conf_parse_plugin_location_def [abs_def]
  by (cases location) (auto intro!: parses_then [OF parses_string_is] parses_then [OF parses_string_is_not]
      parses_then [OF parses_string] parses_return)

lemma parses_plugin:
  assumes "entry_meaning env d (Plugin_entry name location bs) = Some d'" and "follows ts"
  shows "parses (conf_parse_plugin env) (entry_tokens (Plugin_entry name location bs) @ ts) d () ts d'"
proof -
  obtain p where p: "irc_bot_plugin_search (ce_dirs env) (ce_irccd env) name location = Some (Some p)"
      "name \<notin> pl_name ` set (cf_plugins d)" "irc_bot_plugin_get (ce_irccd env) name = None"
      "d' = d\<lparr>cf_plugins := cf_plugins d @ [plugin_meaning p bs]\<rparr>"
    using assms(1) by (auto split: if_splits option.splits)
  have rest: "\<exists>t us. braces (block_tokens bs) @ ts = t # us \<and> t \<noteq> str ''to''"
    using assms(2) entry_word_not_to by (auto simp: braces_def follows_def)
  show ?thesis
    unfolding conf_parse_plugin_def [abs_def] entry_tokens.simps
    using p by (auto simp: settings_eq intro!: parses_then [OF parses_string] parses_if [where b = False]
        parses_then [OF parses_location [OF rest]] parses_then [OF parses_attempt [OF p(1)]]
        parses_then [OF parses_plugin_block [OF assms(2)]] parses_done)
qed

subsection \<open>Entries and documents\<close>

lemma parses_entry:
  assumes "entry_meaning env d e = Some d'" and "entry_ok e" and "follows ts"
  shows "parses (conf_section env (entry_word e)) (entry_tokens e @ ts) d () ts d'"
  using assms
  by (cases e) (simp_all add: conf_section_def [abs_def] parses_log parses_transport parses_hook parses_server
      parses_rule parses_plugin del: entry_tokens.simps entry_meaning.simps)

lemma follows_doc: "follows (doc_tokens es @ [eof])"
  by (cases es) (auto simp: doc_tokens_def follows_def)

lemma parser_entry_prefix:
  assumes "doc_meaning env d es = Some d'" and "list_all entry_ok es"
    and "holds (doc_tokens es @ ts) d conf" and "follows ts"
  shows "\<exists>conf'. conf_parser_entry env conf = conf_parser_entry env conf' \<and> holds ts d' conf'"
  using assms(1-3)
proof (induction es arbitrary: d conf)
  case Nil
  then show ?case by (auto simp: doc_tokens_def)
next
  case (Cons e es)
  then obtain d1 where d1: "entry_meaning env d e = Some d1" "doc_meaning env d1 es = Some d'"
    by (auto split: option.splits)
  have tokens: "doc_tokens (e # es) @ ts = str (entry_word e) # entry_tokens e @ doc_tokens es @ ts"
    by (simp add: doc_tokens_def)
  have nxt: "follows (doc_tokens es @ ts)"
    using assms(4) by (cases es) (auto simp: doc_tokens_def follows_def)
  from tokens Cons.prems(3) obtain conf1 where conf1: "conf_string conf = Done (entry_word e) conf1"
      "holds (entry_tokens e @ doc_tokens es @ ts) d conf1"
    using parses_string unfolding parses_def by metis
  have "entry_ok e" using Cons.prems(2) by simp
  then obtain conf2 where "conf_section env (entry_word e) conf1 = Done () conf2" "holds (doc_tokens es @ ts) d1 conf2"
    using parses_entry [OF d1(1) _ nxt] conf1(2) unfolding parses_def by blast
  with Cons.IH [OF d1(2), of conf2] Cons.prems(2) conf1(1) show ?case
    by (subst conf_parser_entry.simps) simp
qed

lemma parser_entry_eof:
  assumes "holds [eof] d conf"
  shows "\<exists>conf'. conf_parser_entry env conf = Off conf' \<and> settings conf' = settings d"
proof -
  obtain conf' where "conf_pull conf = Done eof conf'" "holds [] d conf'"
    using pull_holds [OF assms] by blast
  then show ?thesis
    by (subst conf_parser_entry.simps) (simp add: conf_string_def conf_next_def holds_def)
qed

text \<open>The parser starts in front of the tokens of the text that were printed.\<close>

lemma print_no_nul:
  assumes "list_all printable ts"
  shows "takeWhile (\<lambda>c. c \<noteq> NUL) (print_tokens ts) = print_tokens ts"
proof -
  have "printable t \<Longrightarrow> NUL \<notin> set (print_token t)" for t
    by (cases "fst t") (simp_all add: print_token_def print_string_def printable_def)
  then have "NUL \<notin> set (print_tokens ts)"
    using assms by (induction ts) (simp_all add: print_tokens_def)
  then show ?thesis by (auto simp: takeWhile_eq_all_conv)
qed

lemma holds_printed:
  assumes "list_all printable ts"
  shows "holds (ts @ [eof]) (conf_init path []) (conf_init path (print_tokens ts))"
  unfolding holds_def conf_init_def print_no_nul [OF assms]
  using lex_print [OF assms] by (simp add: settings_def)

text \<open>
  C7. Whatever a file can say (logging, the transport with its owner, hooks, servers with
  their directives, rules with their criteria, plugins with their location and options),
  written out as text, is read back as it was meant: the parser ends at the end of the file
  having built exactly what the entries mean, in their order.
\<close>
theorem conf_roundtrip:
  assumes "doc_ok es" and "doc_meaning env (conf_init path []) es = Some d"
  shows "\<exists>conf. conf_parse env path (print_doc es) = Off conf \<and> settings conf = settings d"
proof -
  have ok: "list_all entry_ok es" "list_all printable (doc_tokens es)" using assms(1) by (simp_all add: doc_ok_def)
  obtain conf where "conf_parse env path (print_doc es) = conf_parser_entry env conf" "holds [eof] d conf"
    using parser_entry_prefix [OF assms(2) ok(1) holds_printed [OF ok(2)]]
    by (auto simp: conf_parse_def print_doc_def follows_def)
  then show ?thesis using parser_entry_eof by metis
qed

lemma printable_nat: "printable (str (show_nat n))"
  using show_nat_digits [of n] by (auto simp: printable_def is_digit_def Let_def)

section \<open>A section that vanishes\<close>

text \<open>
  A server block in which a list of options is the last directive, closed by one brace, and
  then any words that are no directives of a server, the sections behind it for instance.
\<close>

definition server_words :: "string set" where
  "server_words = {''hostname'', ''port'', ''prefix'', ''ident'', ''password'', ''join'', ''ctcp'', ''ssl'', ''options''}"

definition open_server :: "string \<Rightarrow> directive list \<Rightarrow> server_option list \<Rightarrow> string list \<Rightarrow> token list" where
  "open_server name ds fls ws =
     [str ''server'', str name, lbrace] @ concat (map directive_tokens (ds @ [Options fls])) @ map str ws"

lemma server_loop_words:
  fixes d :: "'s conf"
  assumes "set ws \<inter> server_words = {}"
  shows "parses (server_loop s) (map str ws @ [eof]) d s [eof] d"
  using assms
proof (induction ws)
  case Nil
  then show ?case by (simp add: server_loop_end)
next
  case (Cons w ws)
  have "w \<notin> server_words" using Cons.prems by simp
  then have "conf_parse_server_item w s = (Done s :: 's conf \<Rightarrow> _)"
    by (rule contrapos_np) (auto simp: conf_parse_server_item_def [abs_def] server_words_def)
  then have "parses (conf_parse_server_item w s) (map str ws @ [eof]) d s (map str ws @ [eof]) d"
    by (simp add: parses_return)
  then show ?case
    using server_loop_directive [OF _ Cons.IH] Cons.prems by auto
qed

lemma open_server_off:
  assumes "name \<notin> sv_name ` set (cf_servers d)" and "list_all directive_ok ds" and "set ws \<inter> server_words = {}"
    and conf: "holds (open_server name ds fls ws @ [eof]) d conf"
  shows "\<exists>conf'. conf_parser_entry env conf = Off conf' \<and> settings conf' = settings d"
proof -
  let ?s = "irc_server_new name"
  obtain conf1 where conf1: "conf_string conf = Done ''server'' conf1"
      "holds (str name # lbrace # concat (map directive_tokens (ds @ [Options fls])) @ map str ws @ [eof]) d conf1"
    using parses_string conf unfolding parses_def open_server_def by fastforce
  obtain conf2 where conf2: "conf_string conf1 = Done name conf2"
      "holds (lbrace # concat (map directive_tokens (ds @ [Options fls])) @ map str ws @ [eof]) d conf2"
    using parses_string conf1(2) unfolding parses_def by blast
  obtain conf3 where conf3: "conf_begin conf2 = Done () conf3"
      "holds (concat (map directive_tokens (ds @ [Options fls])) @ map str ws @ [eof]) d conf3"
    using parses_begin conf2(2) unfolding parses_def by blast
  have "parses (server_loop ?s) (concat (map directive_tokens (ds @ [Options fls])) @ map str ws @ [eof]) d
      (foldl directive_meaning ?s (ds @ [Options fls])) [eof] d"
    using assms(2,3) by (intro server_loop_directives server_loop_words) (simp_all add: irc_server_new_def)
  then obtain s conf4 where conf4: "server_loop ?s conf3 = Done s conf4" "holds [eof] d conf4"
    using conf3(2) unfolding parses_def by blast
  obtain conf5 where conf5: "conf_pull conf4 = Done eof conf5" "holds [] d conf5"
    using pull_holds [OF conf4(2)] by blast
  have "\<not> (\<exists>s \<in> set (cf_servers conf2). sv_name s = name)"
    using assms(1) conf2(2) by (auto simp: holds_def settings_eq)
  then have "conf_parse_server conf1 = Off conf5"
    using conf2(1) conf3(1) conf4(1) conf5(1) by (simp add: conf_parse_server_def conf_end_def conf_next_def)
  then have "conf_parser_entry env conf = Off conf5"
    using conf1(1) by (subst conf_parser_entry.simps) (simp add: conf_section_def)
  with conf5(2) show ?thesis by (simp add: holds_def)
qed

text \<open>
  The options of a server are read up to a closing brace of their own.  A server block
  that ends with them and is closed by a single brace, as the manual has it, is still open:
  the sections behind it are skipped word by word, and at the end of the file the server
  and all of them are missing, without an error.
\<close>
theorem conf_options_vanish:
  assumes "doc_ok es" and "doc_meaning env (conf_init path []) es = Some d"
    and "list_all printable (open_server name ds fls ws)"
    and "name \<notin> sv_name ` set (cf_servers d)" and "list_all directive_ok ds" and "set ws \<inter> server_words = {}"
  shows "\<exists>conf. conf_parse env path (print_tokens (doc_tokens es @ open_server name ds fls ws)) = Off conf \<and>
    settings conf = settings d"
proof -
  have ok: "list_all entry_ok es" "list_all printable (doc_tokens es @ open_server name ds fls ws)"
    using assms(1,3) by (simp_all add: doc_ok_def)
  have "follows (open_server name ds fls ws @ [eof])"
    by (auto simp: follows_def open_server_def intro!: exI [where x = "Server_entry name ds"])
  then obtain conf where "conf_parse env path (print_tokens (doc_tokens es @ open_server name ds fls ws)) =
      conf_parser_entry env conf" "holds (open_server name ds fls ws @ [eof]) d conf"
    using parser_entry_prefix [OF assms(2) ok(1), of "open_server name ds fls ws @ [eof]"] holds_printed [OF ok(2)]
    by (auto simp: conf_parse_def)
  then show ?thesis using open_server_off [OF assms(4-6)] by metis
qed

definition demo_env :: "unit conf_env" where
  "demo_env = \<lparr>ce_getpwnam = \<lambda>_. None, ce_getgrnam = \<lambda>_. None,
     ce_dirs = \<lparr>cachedir = [], datadir = [], sysconfdir = []\<rparr>, ce_irccd = bot_empty\<rparr>"

definition demo_server :: "directive list" where
  "demo_server = [Hostname ''example.org'', Port 6697, Ident ''bot'' ''b'' ''The bot'', Join ''#c'' None]"

definition demo_doc :: "conf_entry list" where
  "demo_doc = [Hook_entry ''mail'' ''/bin/mail'', Server_entry ''s'' demo_server,
     Rule_entry Rule_Drop [(Plugins, [''ask'', ''a b''])]]"

theorem conf_roundtrip_witness:
  "\<exists>conf. conf_parse demo_env ''f'' (print_doc demo_doc) = Off conf \<and>
     cf_hooks conf = [\<lparr>hk_name = ''mail'', hk_path = ''/bin/mail''\<rparr>] \<and>
     map sv_port (cf_servers conf) = [6697] \<and>
     map r_plugins (cf_rules conf) = [Some [''ask'', ''a b'']]"
proof -
  have ok: "doc_ok demo_doc"
    by (simp add: doc_ok_def demo_doc_def demo_server_def doc_tokens_def criteria_tokens_def braces_def
        action_word_def printable_nat) (simp add: printable_def)
  have "map_option (\<lambda>d. (cf_hooks d, map sv_port (cf_servers d), map r_plugins (cf_rules d)))
      (doc_meaning demo_env (conf_init ''f'' []) demo_doc) =
      Some ([\<lparr>hk_name = ''mail'', hk_path = ''/bin/mail''\<rparr>], [6697], [Some [''ask'', ''a b'']])"
    by code_simp
  then obtain d where "doc_meaning demo_env (conf_init ''f'' []) demo_doc = Some d"
      "cf_hooks d = [\<lparr>hk_name = ''mail'', hk_path = ''/bin/mail''\<rparr>]" "map sv_port (cf_servers d) = [6697]"
      "map r_plugins (cf_rules d) = [Some [''ask'', ''a b'']]"
    by auto
  with conf_roundtrip [OF ok this(1)] show ?thesis by (auto simp: settings_eq)
qed

theorem conf_options_vanish_witness:
  "\<exists>conf. conf_parse demo_env ''f'' (print_tokens (doc_tokens [Hook_entry ''a'' ''/a''] @
       open_server ''s'' demo_server [Auto_rejoin] [''hook'', ''mail'', ''to'', ''/bin/mail''])) = Off conf \<and>
     cf_hooks conf = [\<lparr>hk_name = ''a'', hk_path = ''/a''\<rparr>] \<and> cf_servers conf = []"
proof -
  have ok: "doc_ok [Hook_entry ''a'' ''/a'']" "list_all directive_ok demo_server"
    by (simp_all add: doc_ok_def doc_tokens_def demo_server_def printable_def)
  have print: "list_all printable (open_server ''s'' demo_server [Auto_rejoin] [''hook'', ''mail'', ''to'', ''/bin/mail''])"
    by (simp add: open_server_def demo_server_def printable_nat) (simp add: printable_def)
  let ?d = "conf_init ''f'' []\<lparr>cf_hooks := [\<lparr>hk_name = ''a'', hk_path = ''/a''\<rparr>]\<rparr>"
  have "doc_meaning demo_env (conf_init ''f'' []) [Hook_entry ''a'' ''/a''] = Some ?d"
    by (simp add: conf_init_def)
  from conf_options_vanish [OF ok(1) this print _ ok(2)] show ?thesis
    by (auto simp: settings_eq conf_init_def server_words_def)
qed

end
