(* ===== verification/Conf_Safe.thy ===== *)
theory Conf_Safe
  imports Conf_Facts
begin

text \<open>
  What holds of the parser of the configuration file for every text: an interface for
  invariants of its state, three of them, and what follows for the file and the bot.
\<close>

section \<open>Invariants of the parser\<close>

text \<open>
  A server as a section leaves it: it can be connected, and it is not yet.
\<close>

definition fresh :: "string \<Rightarrow> irc_server \<Rightarrow> bool" where
  "fresh name s \<longleftrightarrow> sv_name s = name \<and> sv_coroutine s = None \<and> 0 < unat (sv_port s) \<and> unat (sv_port s) < 65535"

definition ready :: "irc_server \<Rightarrow> bool" where
  "ready s \<longleftrightarrow> complete s \<and> sv_coroutine s = None \<and> 0 < unat (sv_port s) \<and> unat (sv_port s) < 65535"

text \<open>
  \<open>I\<close> is the invariant, \<open>F\<close> holds of the messages, \<open>C\<close> is what an undefined execution
  implies.  A piece that is safe may add to what was built, one that stays does not, and its
  value satisfies \<open>V\<close>.
\<close>

definition safe :: "('s conf \<Rightarrow> bool) \<Rightarrow> (string \<Rightarrow> bool) \<Rightarrow> bool \<Rightarrow> ('a, 's) parsed \<Rightarrow> bool" where
  "safe I F C r = (case r of Done a conf \<Rightarrow> I conf | Off conf \<Rightarrow> I conf | Fatal m \<Rightarrow> F m | Crash \<Rightarrow> C)"

definition stays ::
  "('s conf \<Rightarrow> bool) \<Rightarrow> (string \<Rightarrow> bool) \<Rightarrow> bool \<Rightarrow> 's conf \<Rightarrow> ('a \<Rightarrow> bool) \<Rightarrow> ('a, 's) parsed \<Rightarrow> bool" where
  "stays I F C d V r = (case r of
      Done a conf \<Rightarrow> I conf \<and> settings conf = settings d \<and> V a
    | Off conf \<Rightarrow> I conf | Fatal m \<Rightarrow> F m | Crash \<Rightarrow> C)"

lemma pull_settings: "conf_pull conf = Done t conf' \<Longrightarrow> settings conf' = settings conf"
  by (auto simp: conf_pull_def settings_def split: list.splits lexed.splits)

lemma queue_settings [simp]: "settings (conf_queue t conf) = settings conf"
  by (simp add: conf_queue_def settings_def)

locale conf_invariant =
  fixes env :: "'s conf_env" and I :: "'s conf \<Rightarrow> bool" and F :: "string \<Rightarrow> bool" and C :: bool
  assumes pull: "I conf \<Longrightarrow> safe I F C (conf_pull conf)"
    and queue: "I conf \<Longrightarrow> I (conf_queue t conf)"
    and fatal: "I conf \<Longrightarrow> F (fatal_at (cf_path conf) (cf_pos conf) msg)"
    and frame: "I conf \<Longrightarrow> cf_path conf' = cf_path conf \<Longrightarrow> cf_pos conf' = cf_pos conf \<Longrightarrow>
      cf_toks conf' = cf_toks conf \<Longrightarrow> cf_servers conf' = cf_servers conf \<Longrightarrow> cf_hooks conf' = cf_hooks conf \<Longrightarrow> I conf'"
    and server: "I conf \<Longrightarrow> ready s \<Longrightarrow> sv_name s \<notin> sv_name ` set (cf_servers conf) \<Longrightarrow>
      I (conf\<lparr>cf_servers := cf_servers conf @ [s]\<rparr>)"
    and hook: "I conf \<Longrightarrow> hk_name h \<notin> hk_name ` set (cf_hooks conf) \<Longrightarrow>
      I (conf\<lparr>cf_hooks := cf_hooks conf @ [h]\<rparr>)"
    and search: "irc_bot_plugin_search (ce_dirs env) (ce_irccd env) name location = None \<Longrightarrow> C"
begin

lemma frames [simp]:
  assumes "I conf"
  shows "I (conf\<lparr>cf_log_level := l\<rparr>)" "I (conf\<lparr>cf_log_template := t\<rparr>)" "I (conf\<lparr>cf_log_type := ty\<rparr>)"
    "I (conf\<lparr>cf_log_file := t\<rparr>)" "I (conf\<lparr>cf_tpt_uid := u\<rparr>)" "I (conf\<lparr>cf_tpt_gid := u\<rparr>)"
    "I (conf\<lparr>cf_tpt_uid := u, cf_tpt_gid := g\<rparr>)" "I (conf\<lparr>cf_tpt := t\<rparr>)" "I (conf\<lparr>cf_rules := rs\<rparr>)"
    "I (conf\<lparr>cf_plugins := ps\<rparr>)" "I (conf\<lparr>cf_stderr := es\<rparr>)"
  by (rule frame [OF assms]; simp)+

lemma stays_then:
  "stays I F C d V m \<Longrightarrow>
   (\<And>a conf. m = Done a conf \<Longrightarrow> I conf \<Longrightarrow> settings conf = settings d \<Longrightarrow> V a \<Longrightarrow> stays I F C d W (f a conf)) \<Longrightarrow>
   stays I F C d W (conf_then m f)"
  by (cases m) (simp_all add: stays_def)

lemma safe_stays:
  "stays I F C d V m \<Longrightarrow>
   (\<And>a conf. m = Done a conf \<Longrightarrow> I conf \<Longrightarrow> settings conf = settings d \<Longrightarrow> V a \<Longrightarrow> safe I F C (f a conf)) \<Longrightarrow>
   safe I F C (conf_then m f)"
  by (cases m) (simp_all add: stays_def safe_def)

lemma safe_then:
  "safe I F C m \<Longrightarrow> (\<And>a conf. m = Done a conf \<Longrightarrow> I conf \<Longrightarrow> safe I F C (f a conf)) \<Longrightarrow> safe I F C (conf_then m f)"
  by (cases m) (simp_all add: safe_def)

lemma done_fatal [simp]:
  "safe I F C (Done a conf) = I conf"
  "stays I F C d V (Done a conf) = (I conf \<and> settings conf = settings d \<and> V a)"
  "I conf \<Longrightarrow> safe I F C (conf_fatal conf msg)"
  "I conf \<Longrightarrow> stays I F C d V (conf_fatal conf msg)"
  "I conf \<Longrightarrow> safe I F C (Off conf)"
  "I conf \<Longrightarrow> stays I F C d V (Off conf)"
  by (simp_all add: safe_def stays_def conf_fatal_def fatal)

subsection \<open>Taking tokens\<close>

lemma stays_pull: "I conf \<Longrightarrow> settings conf = settings d \<Longrightarrow> stays I F C d (\<lambda>_. True) (conf_pull conf)"
  using pull [of conf] pull_settings [of conf]
  by (cases "conf_pull conf") (auto simp: safe_def stays_def)

lemma takers:
  assumes "I conf" and "settings conf = settings d"
  shows "stays I F C d (\<lambda>_. True) (conf_next conf)" "stays I F C d (\<lambda>_. True) (conf_next_is ty conf)"
    "stays I F C d (\<lambda>_. True) (conf_string_is s conf)" "stays I F C d (\<lambda>_. True) (conf_string conf)"
    "stays I F C d (\<lambda>_. True) (conf_int conf)" "stays I F C d (\<lambda>_. True) (conf_keyword s conf)"
    "stays I F C d (\<lambda>_. True) (conf_begin conf)" "stays I F C d (\<lambda>_. True) (conf_begin_is conf)"
    "stays I F C d (\<lambda>_. True) (conf_end conf)"
proof -
  have nxt: "stays I F C d (\<lambda>_. True) (conf_next conf)"
    and nxt_is: "stays I F C d (\<lambda>_. True) (conf_next_is ty conf)"
    if "I conf" "settings conf = settings d" for conf ty
    using that unfolding conf_next_def conf_next_is_def
    by (auto intro!: stays_then [OF stays_pull] queue)
  have string_is: "stays I F C d (\<lambda>_. True) (conf_string_is s conf)"
    and string: "stays I F C d (\<lambda>_. True) (conf_string conf)"
    if "I conf" "settings conf = settings d" for conf s
    using that unfolding conf_string_is_def conf_string_def
    by (auto intro!: stays_then [OF nxt] stays_then [OF nxt_is] queue split: option.split)
  from assms show "stays I F C d (\<lambda>_. True) (conf_next conf)" "stays I F C d (\<lambda>_. True) (conf_next_is ty conf)"
    "stays I F C d (\<lambda>_. True) (conf_string_is s conf)" "stays I F C d (\<lambda>_. True) (conf_string conf)"
    by (rule nxt nxt_is string_is string; assumption)+
  from assms show "stays I F C d (\<lambda>_. True) (conf_int conf)" "stays I F C d (\<lambda>_. True) (conf_keyword s conf)"
    "stays I F C d (\<lambda>_. True) (conf_begin conf)" "stays I F C d (\<lambda>_. True) (conf_begin_is conf)"
    "stays I F C d (\<lambda>_. True) (conf_end conf)"
    unfolding conf_int_def conf_keyword_def conf_begin_def conf_begin_is_def conf_end_def
    by (auto intro!: stays_then [OF string] stays_then [OF string_is] stays_then [OF nxt] stays_then [OF nxt_is]
        split: sum.split)
qed

lemma stays_safe: "stays I F C d V r \<Longrightarrow> safe I F C r"
  by (cases r) (simp_all add: stays_def safe_def)

lemmas safe_takers = takers [OF _ refl, THEN stays_safe]
lemmas take_stays = takers [THEN stays_then]
lemmas take_safe = takers [THEN safe_stays]

lemma stays_resolve:
  assumes "I conf" and "settings conf = settings d"
  shows "stays I F C d (\<lambda>_. True) (conf_resolve_uid env s conf)"
    "stays I F C d (\<lambda>_. True) (conf_resolve_gid env s conf)"
  using assms unfolding conf_resolve_uid_def conf_resolve_gid_def
  by (auto split: sum.split option.split)

subsection \<open>Servers\<close>

lemma stays_attempt:
  "I conf \<Longrightarrow> settings conf = settings d \<Longrightarrow> r = Some a \<Longrightarrow> V a \<Longrightarrow> stays I F C d V (attempt r conf)"
  by (simp add: attempt_def)

lemma fresh_setters:
  assumes "fresh name s"
  shows "irc_server_set_hostname s (Some h) = Some (s\<lparr>sv_hostname := Some h\<rparr>)"
    "irc_server_set_port s n = Some (s\<lparr>sv_port := n\<rparr>)"
    "irc_server_set_password s (Some p) = Some (s\<lparr>sv_password := Some p\<rparr>)"
    "irc_server_set_username (irc_server_set_nickname s nick) u =
       Some (s\<lparr>sv_nickname := Some nick, sv_username := Some u\<rparr>)"
    "irc_server_set_realname s r = Some (s\<lparr>sv_realname := Some r\<rparr>)"
    "fresh name (s\<lparr>sv_hostname := Some h\<rparr>)" "fresh name (s\<lparr>sv_password := Some p\<rparr>)"
    "fresh name (s\<lparr>sv_nickname := Some nick, sv_username := Some u\<rparr>)" "fresh name (s\<lparr>sv_realname := Some r\<rparr>)"
    "fresh name (irc_server_set_prefix s p)" "fresh name (irc_server_set_flags s f)"
    "fresh name (irc_server_set_ctcp s k v)" "fresh name (snd (irc_server_join s ch pw))"
  using assms join_fresh [of s ch pw]
  by (simp_all add: fresh_def irc_server_set_hostname_def irc_server_set_port_def irc_server_set_password_def
      irc_server_set_username_def irc_server_set_nickname_def irc_server_set_realname_def server_ready_def
      irc__conn_ready_def irc_server_set_prefix_def irc_server_set_flags_def irc_server_set_ctcp_def)

lemma stays_key_value_loop:
  "(\<And>x k v. V x \<Longrightarrow> V (setter x k v)) \<Longrightarrow> V x \<Longrightarrow> I conf \<Longrightarrow> settings conf = settings d \<Longrightarrow>
   stays I F C d V (key_value_loop setter x conf)"
proof (induction setter x conf rule: key_value_loop.induct)
  case (1 setter x conf)
  then show ?case
    by (subst key_value_loop.simps) (auto intro!: take_stays split: option.split)
qed

lemma stays_key_values:
  assumes "\<And>x k v. V x \<Longrightarrow> V (setter x k v)" and "V x" and "I conf" and "settings conf = settings d"
  shows "stays I F C d V (key_values setter x conf)"
  using assms unfolding key_values_def
  by (auto intro!: take_stays stays_then [OF stays_key_value_loop [where V = V]])

lemma stays_options_loop:
  "fresh name s \<Longrightarrow> I conf \<Longrightarrow> settings conf = settings d \<Longrightarrow>
   stays I F C d (\<lambda>(s, ty). fresh name s) (server_options_loop s conf)"
proof (induction s conf rule: server_options_loop.induct)
  case (1 s conf)
  then show ?case
    by (subst server_options_loop.simps) (auto intro!: take_stays simp: fresh_setters)
qed

lemma port_in_range:
  fixes i :: int
  assumes "0 < i" and "i < 65535"
  shows "unat (word_of_int i :: c_uint) = nat i"
proof -
  have "uint (word_of_int i :: c_uint) = i" using assms by (simp add: uint_word_of_int)
  then show ?thesis by (simp only: unat_eq_nat_uint)
qed

lemma stays_item:
  assumes s: "fresh name s" and conf: "I conf" "settings conf = settings d"
  shows "stays I F C d (fresh name) (conf_parse_server_item w s conf)"
proof -
  have "stays I F C d (fresh name) (conf_parse_server_port s conf)"
  proof -
    have "fresh name (s\<lparr>sv_port := word_of_int i\<rparr>)" if "0 < i" "i < 65535" for i
      using s that by (simp add: fresh_def port_in_range)
    then show ?thesis using s conf unfolding conf_parse_server_port_def
      by (auto intro!: take_stays stays_attempt simp: fresh_setters)
  qed
  moreover have "stays I F C d (fresh name) (conf_parse_server_ident s conf)"
    using s conf unfolding conf_parse_server_ident_def
    by (intro take_stays stays_then [OF stays_attempt [where V = "fresh name", OF _ _ fresh_setters(4)]]
        stays_attempt [OF _ _ fresh_setters(5)] fresh_setters(8,9))
  moreover have "stays I F C d (fresh name) (conf_parse_server_join s conf)"
    using s conf unfolding conf_parse_server_join_def
    by (auto intro!: take_stays simp: fresh_setters)
  moreover have "stays I F C d (fresh name) (conf_parse_server_ctcp s conf)"
    using s conf unfolding conf_parse_server_ctcp_def
    by (intro stays_key_values) (simp_all add: fresh_setters)
  moreover have "stays I F C d (fresh name) (conf_parse_server_options s conf)"
    using s conf unfolding conf_parse_server_options_def
    by (auto intro!: stays_then [OF stays_options_loop])
  moreover have "stays I F C d (fresh name) (conf_parse_server_hostname s conf)"
    using s conf unfolding conf_parse_server_hostname_def
    by (intro take_stays stays_attempt [OF _ _ fresh_setters(1)] fresh_setters(6))
  moreover have "stays I F C d (fresh name) (conf_parse_server_password s conf)"
    using s conf unfolding conf_parse_server_password_def
    by (intro take_stays stays_attempt [OF _ _ fresh_setters(3)] fresh_setters(7))
  moreover have "stays I F C d (fresh name) (conf_parse_server_prefix s conf)"
    using s conf unfolding conf_parse_server_prefix_def
    by (intro take_stays) (simp_all add: fresh_setters)
  ultimately show ?thesis
    using s conf by (simp add: conf_parse_server_item_def conf_parse_server_ssl_def fresh_setters(11))
qed

lemma stays_server_loop:
  "fresh name s \<Longrightarrow> I conf \<Longrightarrow> settings conf = settings d \<Longrightarrow> stays I F C d (fresh name) (server_loop s conf)"
proof (induction s conf rule: server_loop.induct)
  case (1 s conf)
  then show ?case
    by (subst server_loop.simps) (auto intro!: take_stays stays_then [OF stays_item] split: option.split)
qed

subsection \<open>The sections\<close>

lemma stays_criteria_loop:
  "I conf \<Longrightarrow> settings conf = settings d \<Longrightarrow> stays I F C d (\<lambda>_. True) (criteria_loop adder r conf)"
proof (induction adder r conf rule: criteria_loop.induct)
  case (1 adder r conf)
  then show ?case
    by (subst criteria_loop.simps) (auto intro!: take_stays split: option.split)
qed

lemma stays_criteria:
  "I conf \<Longrightarrow> settings conf = settings d \<Longrightarrow> stays I F C d (\<lambda>_. True) (conf_parse_rule_criteria w r conf)"
  unfolding conf_parse_rule_criteria_def
  by (auto intro!: take_stays stays_then [OF stays_criteria_loop] split: option.split)

lemma stays_rule_loop:
  "I conf \<Longrightarrow> settings conf = settings d \<Longrightarrow> stays I F C d (\<lambda>_. True) (rule_loop r conf)"
proof (induction r conf rule: rule_loop.induct)
  case (1 r conf)
  then show ?case
    by (subst rule_loop.simps) (auto intro!: take_stays stays_then [OF stays_criteria])
qed

lemma stays_rule:
  assumes "I conf" and "settings conf = settings d"
  shows "stays I F C d (\<lambda>_. True) (conf_parse_rule_action conf)"
    "stays I F C d (\<lambda>_. True) (conf_parse_rule_block r conf)"
  using assms unfolding conf_parse_rule_action_def conf_parse_rule_block_def
  by (auto intro!: take_stays stays_then [OF stays_rule_loop])

lemma safe_rule: "I conf \<Longrightarrow> safe I F C (conf_parse_rule conf)"
  unfolding conf_parse_rule_def
  by (auto intro!: safe_stays [OF stays_rule(1)] safe_stays [OF stays_rule(2)])

lemma stays_plugin_options:
  "I conf \<Longrightarrow> settings conf = settings d \<Longrightarrow> stays I F C d (\<lambda>_. True) (conf_parse_plugin_options w p conf)"
  unfolding conf_parse_plugin_options_def
  by (auto intro!: stays_key_values split: option.split)

lemma stays_plugin_loop:
  "I conf \<Longrightarrow> settings conf = settings d \<Longrightarrow> stays I F C d (\<lambda>_. True) (plugin_block_loop p conf)"
proof (induction p conf rule: plugin_block_loop.induct)
  case (1 p conf)
  then show ?case
    by (subst plugin_block_loop.simps)
      (auto intro!: take_stays stays_then [OF stays_plugin_options] split: option.split)
qed

lemma stays_plugin:
  assumes "I conf" and "settings conf = settings d"
  shows "stays I F C d (\<lambda>_. True) (conf_parse_plugin_location conf)"
    "stays I F C d (\<lambda>_. True) (conf_parse_plugin_block p conf)"
    "stays I F C d (\<lambda>_. True) (attempt (irc_bot_plugin_search (ce_dirs env) (ce_irccd env) name location) conf)"
  using assms search [of name location]
  unfolding conf_parse_plugin_location_def conf_parse_plugin_block_def attempt_def
  by (auto intro!: take_stays stays_then [OF stays_plugin_loop] simp: stays_def [of _ _ _ _ _ Crash] split: option.split)

lemma safe_plugin: "I conf \<Longrightarrow> safe I F C (conf_parse_plugin env conf)"
  unfolding conf_parse_plugin_def
  by (auto intro!: take_safe [OF _ refl] safe_stays [OF stays_plugin(1) [OF _ refl]] safe_stays [OF stays_plugin(2) [OF _ refl]]
      safe_stays [OF stays_plugin(3) [OF _ refl]] split: option.split)

lemma safe_log: "I conf \<Longrightarrow> safe I F C (conf_parse_log conf)"
  unfolding conf_parse_log_def conf_parse_log_level_def conf_parse_log_template_def conf_parse_log_sink_def
  by (auto intro!: take_safe [OF _ refl] safe_takers safe_then)

lemma safe_transport: "I conf \<Longrightarrow> safe I F C (conf_parse_transport env conf)"
  unfolding conf_parse_transport_def conf_parse_transport_owner_def
  by (auto intro!: take_safe [OF _ refl] safe_takers safe_then safe_stays [OF stays_resolve(1) [OF _ refl]]
      safe_stays [OF stays_resolve(2) [OF _ refl]])

lemma hooks_settings: "settings c = settings d \<Longrightarrow> cf_hooks c = cf_hooks d"
  and servers_settings: "settings c = settings d \<Longrightarrow> cf_servers c = cf_servers d"
  by (simp_all add: settings_eq)

lemma hook_append: "I conf \<Longrightarrow> cf_hooks conf = hs \<Longrightarrow> hk_name h \<notin> hk_name ` set hs \<Longrightarrow> I (conf\<lparr>cf_hooks := hs @ [h]\<rparr>)"
  using hook by blast

lemma safe_hook: "I conf \<Longrightarrow> safe I F C (conf_parse_hook conf)"
  unfolding conf_parse_hook_def
  by (auto intro!: take_safe [OF _ refl] hook_append simp: irc_hook_new_def dest!: hooks_settings) blast

lemma safe_server: "I conf \<Longrightarrow> safe I F C (conf_parse_server conf)"
  unfolding conf_parse_server_def
proof (intro take_safe(4) [OF _ refl])
  fix name conf1
  assume conf1: "I conf1"
  have "safe I F C (conf_then (conf_begin conf1) (\<lambda>_ conf.
      conf_then (server_loop (irc_server_new name) conf) (\<lambda>server conf. conf_then (conf_end conf) (\<lambda>_ conf.
        if sv_hostname server = None then conf_fatal conf ''no hostname set''
        else if sv_port server = 0 then conf_fatal conf ''no port set''
        else if sv_nickname server = None \<or> sv_username server = None \<or> sv_realname server = None
        then conf_fatal conf ''no ident set''
        else Done () (conf\<lparr>cf_servers := cf_servers conf @ [server]\<rparr>)))))"
    if new: "\<not> (\<exists>s \<in> set (cf_servers conf1). sv_name s = name)"
  proof (intro take_safe(7) [OF conf1 refl])
    fix c2 assume c2: "I c2" "settings c2 = settings conf1"
    have start: "fresh name (irc_server_new name)" by (simp add: fresh_def irc_server_new_def)
    show "safe I F C (conf_then (server_loop (irc_server_new name) c2) (\<lambda>server conf. conf_then (conf_end conf) (\<lambda>_ conf.
        if sv_hostname server = None then conf_fatal conf ''no hostname set''
        else if sv_port server = 0 then conf_fatal conf ''no port set''
        else if sv_nickname server = None \<or> sv_username server = None \<or> sv_realname server = None
        then conf_fatal conf ''no ident set''
        else Done () (conf\<lparr>cf_servers := cf_servers conf @ [server]\<rparr>))))"
      using c2 new
      by (intro safe_stays [OF stays_server_loop [OF start c2]] take_safe(9))
        (auto intro!: server simp: fresh_def ready_def complete_def dest!: servers_settings)
  qed
  then show "safe I F C (if \<exists>s \<in> set (cf_servers conf1). sv_name s = name
      then conf_fatal conf1 (''server '' @ quoted name @ '' already exists'')
      else conf_then (conf_begin conf1) (\<lambda>_ conf.
      conf_then (server_loop (irc_server_new name) conf) (\<lambda>server conf. conf_then (conf_end conf) (\<lambda>_ conf.
        if sv_hostname server = None then conf_fatal conf ''no hostname set''
        else if sv_port server = 0 then conf_fatal conf ''no port set''
        else if sv_nickname server = None \<or> sv_username server = None \<or> sv_realname server = None
        then conf_fatal conf ''no ident set''
        else Done () (conf\<lparr>cf_servers := cf_servers conf @ [server]\<rparr>)))))"
    using conf1 by simp
qed assumption

lemma safe_section: "I conf \<Longrightarrow> safe I F C (conf_section env w conf)"
  by (simp add: conf_section_def safe_log safe_transport safe_hook safe_server safe_rule safe_plugin)

theorem safe_parser: "I conf \<Longrightarrow> safe I F C (conf_parser_entry env conf)"
proof (induction "left conf" arbitrary: conf rule: less_induct)
  case less
  show ?case
  proof (subst conf_parser_entry.simps, intro take_safe(4) [OF less.prems refl])
    fix w conf1
    assume conf1: "conf_string conf = Done w conf1" "I conf1"
    show "safe I F C (conf_then (conf_section env w conf1) (\<lambda>_. conf_parser_entry env))"
    proof (rule safe_then [OF safe_section [OF conf1(2)]])
      fix u conf2
      assume conf2: "conf_section env w conf1 = Done u conf2" "I conf2"
      have "left conf2 \<le> left conf1" using shrinksD [OF conf2(1) shrinks_section] by simp
      with conf_string_left [OF conf1(1)] show "safe I F C (conf_parser_entry env conf2)"
        by (intro less.hyps conf2(2)) simp
    qed
  qed
qed

end

section \<open>What was built\<close>

definition sound :: "'s conf \<Rightarrow> bool" where
  "sound conf \<longleftrightarrow> (\<forall>s \<in> set (cf_servers conf). ready s) \<and> distinct (map sv_name (cf_servers conf)) \<and>
     distinct (map hk_name (cf_hooks conf))"

interpretation sounds: conf_invariant env sound "\<lambda>_. True" True
  by unfold_locales
    (auto simp: sound_def safe_def conf_pull_def conf_queue_def split: list.split lexed.split parsed.split)

lemma sound_init: "sound (conf_init path txt)"
  by (simp add: sound_def conf_init_def)

section \<open>Positions of errors\<close>

text \<open>
  A position in a text: the line is the one behind some part of the text, the column at most
  the one there, as opening quotes are not counted.
\<close>

definition before :: "pos \<Rightarrow> pos \<Rightarrow> bool" where
  "before p q \<longleftrightarrow> fst p = fst q \<and> snd p \<le> snd q"

definition placed :: "string \<Rightarrow> pos \<Rightarrow> bool" where
  "placed txt p \<longleftrightarrow> (\<exists>pre post. txt = pre @ post \<and> before p (pos_after pre (1, 1)))"

fun lexed_placed :: "string \<Rightarrow> lexed \<Rightarrow> bool" where
  "lexed_placed txt (Lexed t p) = placed txt p"
| "lexed_placed txt (Lex_fatal m p) = placed txt p"
| "lexed_placed txt Lex_abort = True"

definition places :: "string \<Rightarrow> string \<Rightarrow> 's conf \<Rightarrow> bool" where
  "places path txt conf \<longleftrightarrow> cf_path conf = path \<and> placed txt (cf_pos conf) \<and>
     list_all (lexed_placed txt) (cf_toks conf)"

definition error_at :: "string \<Rightarrow> string \<Rightarrow> string \<Rightarrow> bool" where
  "error_at path txt m \<longleftrightarrow> (\<exists>p msg. placed txt p \<and> m = fatal_at path p msg)"

lemma error_atI [simp]: "placed txt p \<Longrightarrow> error_at path txt (fatal_at path p msg)"
  unfolding error_at_def by blast

interpretation places: conf_invariant env "places path txt" "error_at path txt" True
  by unfold_locales
    (auto simp: places_def safe_def conf_pull_def conf_queue_def split: list.split lexed.split parsed.split)

lemma pos_after_append: "pos_after (s @ t) p = pos_after t (pos_after s p)"
  by (simp add: pos_after_def)

lemma before_after: "before p q \<Longrightarrow> before (pos_after s p) (pos_after s q)"
  by (induction s arbitrary: p q) (auto simp: pos_after_def before_def conf_lex_advance_def)

lemma placedI: "before p (pos_after pre (1, 1)) \<Longrightarrow> placed (pre @ post) p"
  unfolding placed_def by blast

text \<open>The loops of the lexer move over a part of the text.\<close>

lemma lex_while_at:
  assumes "before p (pos_after pre (1, 1))" and "lex_while P off p = (off', p')"
  shows "\<exists>mid. off = mid @ off' \<and> before p' (pos_after (pre @ mid) (1, 1))"
  using assms before_after [of p "pos_after pre (1, 1)" "takeWhile P off"]
  by (intro exI [where x = "takeWhile P off"]) (auto simp: lex_while_eq pos_after_append pos_after_def)

lemma advance_at: "before p (pos_after pre (1, 1)) \<Longrightarrow> before (conf_lex_advance c p) (pos_after (pre @ [c]) (1, 1))"
  using before_after [of p _ "[c]"] by (simp add: pos_after_append) (simp add: pos_after_def)

lemma lexed_places:
  "before p (pos_after pre (1, 1)) \<Longrightarrow> list_all (lexed_placed (pre @ off)) (conf_lex_entry off p)"
proof (induction off p arbitrary: pre rule: conf_lex_entry.induct)
  case (1 p)
  then show ?case using placedI [of p pre "[]"] by simp
next
  case (2 c cs p)
  have here: "before (conf_lex_advance c p) (pos_after (pre @ [c]) (1, 1))" using 2(5) by (rule advance_at)
  consider "c = CHR ''{'' \<or> c = CHR ''}'' \<or> c = CHR '',''" | "c = CHR ''#''" | "c = CHR 0x22"
    | "\<not> (c = CHR ''{'' \<or> c = CHR ''}'' \<or> c = CHR '','')" "c \<noteq> CHR ''#''" "c \<noteq> CHR 0x22" "is_space c"
    | "\<not> (c = CHR ''{'' \<or> c = CHR ''}'' \<or> c = CHR '','')" "c \<noteq> CHR ''#''" "c \<noteq> CHR 0x22" "\<not> is_space c"
    by blast
  then show ?case
  proof cases
    case 1
    obtain off p2 where w: "conf_lex_bskip cs (conf_lex_advance c p) = (off, p2)" by (rule prod.exhaust)
    then obtain mid where mid: "cs = mid @ off" "before p2 (pos_after ((pre @ [c]) @ mid) (1, 1))"
      using lex_while_at [OF here] unfolding conf_lex_bskip_def by blast
    have "list_all (lexed_placed (((pre @ [c]) @ mid) @ off)) (conf_lex_entry off p2)"
      using 2(1) [OF 1 refl w [symmetric] mid(2)] .
    moreover have "placed ((pre @ [c]) @ cs) (conf_lex_advance c p)" using here by (rule placedI)
    ultimately show ?thesis using 1 w mid(1) by (simp add: conf_lex_entry.simps(2))
  next
    case 2
    obtain off p2 where w: "conf_lex_comment (c # cs) p = (off, p2)" by (rule prod.exhaust)
    obtain rest p3 where v: "lex_while (\<lambda>c. c \<noteq> LF) cs (conf_lex_advance c p) = (rest, p3)" by (rule prod.exhaust)
    then obtain m1 where m1: "cs = m1 @ rest" "before p3 (pos_after ((pre @ [c]) @ m1) (1, 1))"
      using lex_while_at [OF here] by blast
    have "conf_lex_bskip rest p3 = (off, p2)" using v w by (simp add: conf_lex_comment_def)
    then obtain m2 where m2: "rest = m2 @ off" "before p2 (pos_after (((pre @ [c]) @ m1) @ m2) (1, 1))"
      using lex_while_at [OF m1(2)] unfolding conf_lex_bskip_def by blast
    have "\<not> (c = CHR ''{'' \<or> c = CHR ''}'' \<or> c = CHR '','')" using 2 by simp
    from "2.IH"(2) [OF this 2 w [symmetric] m2(2)] show ?thesis
      using 2 w m1(1) m2(1) by (simp add: conf_lex_entry.simps(2))
  next
    case 3
    have skip: "before p (pos_after (pre @ [c]) (1, 1))"
      using "2.prems" 3 by (auto simp: before_def pos_after_append) (simp_all add: pos_after_def conf_lex_advance_def)
    obtain rest p3 where v: "lex_while (\<lambda>c. c \<noteq> CHR 0x22) cs p = (rest, p3)" by (rule prod.exhaust)
    then obtain m1 where m1: "cs = m1 @ rest" "before p3 (pos_after ((pre @ [c]) @ m1) (1, 1))"
      using lex_while_at [OF skip] by blast
    show ?thesis
    proof (cases rest)
      case Nil
      have "placed (((pre @ [c]) @ m1) @ []) p3" using m1(2) by (rule placedI)
      then show ?thesis using 3 v Nil m1(1) by (simp add: conf_lex_entry.simps(2) conf_lex_qstring_def)
    next
      case (Cons q r)
      then have q: "q = CHR 0x22" using v by (auto simp: lex_while_eq dropWhile_eq_Cons_conv)
      let ?p1 = "(fst p3, snd p3 + 1)"
      have p1: "before ?p1 (pos_after (((pre @ [c]) @ m1) @ [q]) (1, 1))"
        using advance_at [OF m1(2), of q] by (simp add: q conf_lex_advance_def)
      obtain off p2 where w: "conf_lex_bskip r ?p1 = (off, p2)" by (rule prod.exhaust)
      then obtain m2 where m2: "r = m2 @ off" "before p2 (pos_after ((((pre @ [c]) @ m1) @ [q]) @ m2) (1, 1))"
        using lex_while_at [OF p1] unfolding conf_lex_bskip_def by blast
      have lex: "conf_lex_qstring cs p = Inr (takeWhile (\<lambda>c. c \<noteq> CHR 0x22) cs, ?p1, off, p2)"
        using v Cons w by (simp add: conf_lex_qstring_def Let_def)
      have "\<not> (c = CHR ''{'' \<or> c = CHR ''}'' \<or> c = CHR '','')" "c \<noteq> CHR ''#''" using 3 by simp_all
      from "2.IH"(3) [OF this 3 lex refl refl refl m2(2)]
      have "list_all (lexed_placed (((((pre @ [c]) @ m1) @ [q]) @ m2) @ off)) (conf_lex_entry off p2)" .
      moreover have "placed ((((pre @ [c]) @ m1) @ [q]) @ r) ?p1" using p1 by (rule placedI)
      ultimately show ?thesis using 3 lex m1(1) m2(1) Cons by (simp add: conf_lex_entry.simps(2))
    qed
  next
    case 4
    then show ?thesis by (simp add: conf_lex_entry.simps(2))
  next
    case 5
    obtain rest p1 where v: "lex_while bare (c # cs) p = (rest, p1)" by (rule prod.exhaust)
    then obtain m1 where m1: "c # cs = m1 @ rest" "before p1 (pos_after (pre @ m1) (1, 1))"
      using lex_while_at [OF "2.prems"] by blast
    obtain off p2 where w: "conf_lex_bskip rest p1 = (off, p2)" by (rule prod.exhaust)
    then obtain m2 where m2: "rest = m2 @ off" "before p2 (pos_after ((pre @ m1) @ m2) (1, 1))"
      using lex_while_at [OF m1(2)] unfolding conf_lex_bskip_def by blast
    have lex: "conf_lex_string (c # cs) p = (takeWhile bare (c # cs), p1, off, p2)"
      unfolding conf_lex_string_def using v w by simp
    from "2.IH"(4) [OF 5 lex [symmetric] refl refl m2(2)]
    have all: "list_all (lexed_placed (((pre @ m1) @ m2) @ off)) (conf_lex_entry off p2)" .
    have one: "placed ((pre @ m1) @ rest) p1" using m1(2) by (rule placedI)
    have whole: "pre @ c # cs = (pre @ m1) @ rest" "pre @ c # cs = ((pre @ m1) @ m2) @ off"
      using m1(1) m2(1) by simp_all
    have "list_all (lexed_placed (pre @ c # cs)) (conf_lex_entry off p2)" unfolding whole(2) by (rule all)
    moreover have "placed (pre @ c # cs) p1" unfolding whole(1) by (rule one)
    ultimately show ?thesis using 5 lex by (simp add: conf_lex_entry.simps(2))
  qed
qed

lemma places_init: "places path (takeWhile (\<lambda>c. c \<noteq> NUL) txt) (conf_init path txt)"
proof -
  have "before (1, 1) (pos_after [] (1, 1))" by (simp add: before_def pos_after_def)
  from placedI [OF this, of "takeWhile (\<lambda>c. c \<noteq> NUL) txt"] lexed_places [OF this, of "takeWhile (\<lambda>c. c \<noteq> NUL) txt"]
  show ?thesis by (simp add: places_def conf_init_def)
qed


fun message :: "('a, 's) parsed \<Rightarrow> string option" where
  "message (Fatal m) = Some m"
| "message _ = None"

lemma message_Some: "message r = Some m \<longleftrightarrow> r = Fatal m"
  by (cases r) simp_all


section \<open>Undefined behaviour\<close>

definition lexed_all :: "'s conf \<Rightarrow> bool" where
  "lexed_all conf \<longleftrightarrow> Lex_abort \<notin> set (cf_toks conf)"

definition search_undefined :: "'s conf_env \<Rightarrow> bool" where
  "search_undefined env \<longleftrightarrow>
     (\<exists>name location. irc_bot_plugin_search (ce_dirs env) (ce_irccd env) name location = None)"

interpretation defined: conf_invariant env lexed_all "\<lambda>_. True" "search_undefined env"
  by unfold_locales
    (auto simp: lexed_all_def search_undefined_def safe_def conf_pull_def conf_queue_def
      split: list.split lexed.split parsed.split)

lemma bskip_hd: "conf_lex_bskip off p = (off', p') \<Longrightarrow> off' = [] \<or> \<not> is_space (hd off')"
  using hd_dropWhile [of is_space off] by (auto simp: conf_lex_bskip_def lex_while_eq)

lemma no_abort: "off = [] \<or> \<not> is_space (hd off) \<Longrightarrow> Lex_abort \<notin> set (conf_lex_entry off p)"
proof (induction off p rule: conf_lex_entry.induct)
  case (2 c cs p)
  have word: "off = [] \<or> \<not> is_space (hd off)" if "conf_lex_string (c # cs) p = (s, p1, off, p2)" for s p1 off p2
    using that by (auto simp: conf_lex_string_def split: prod.splits dest: bskip_hd)
  have quote: "off = [] \<or> \<not> is_space (hd off)" if "conf_lex_qstring cs p = Inr (s, p1, off, p2)" for s p1 off p2
    using that by (auto dest: bskip_hd simp: conf_lex_qstring_def Let_def split: prod.splits list.splits)
  have comment: "off = [] \<or> \<not> is_space (hd off)" if "conf_lex_comment (c # cs) p = (off, p1)" for off p1
    using that by (auto dest: bskip_hd simp: conf_lex_comment_def split: prod.splits)
  consider "c = CHR ''{'' \<or> c = CHR ''}'' \<or> c = CHR '',''" | "c = CHR ''#''" | "c = CHR 0x22"
    | "\<not> (c = CHR ''{'' \<or> c = CHR ''}'' \<or> c = CHR '','')" "c \<noteq> CHR ''#''" "c \<noteq> CHR 0x22" "\<not> is_space c"
    using "2.prems" by auto
  then show ?case
  proof cases
    case 1
    obtain off p2 where w: "conf_lex_bskip cs (conf_lex_advance c p) = (off, p2)" by (rule prod.exhaust)
    with "2.IH"(1) [OF 1 refl w [symmetric] bskip_hd [OF w]] 1 show ?thesis by (simp add: conf_lex_entry.simps(2))
  next
    case 2
    obtain off p2 where w: "conf_lex_comment (c # cs) p = (off, p2)" by (rule prod.exhaust)
    have "\<not> (c = CHR ''{'' \<or> c = CHR ''}'' \<or> c = CHR '','')" using 2 by simp
    from "2.IH"(2) [OF this 2 w [symmetric] comment [OF w]] 2 w show ?thesis by (simp add: conf_lex_entry.simps(2))
  next
    case 3
    have other: "\<not> (c = CHR ''{'' \<or> c = CHR ''}'' \<or> c = CHR '','')" "c \<noteq> CHR ''#''" using 3 by simp_all
    show ?thesis
    proof (cases "conf_lex_qstring cs p")
      case (Inl p1)
      with 3 show ?thesis by (simp add: conf_lex_entry.simps(2))
    next
      case (Inr r)
      then obtain s p1 off p2 where w: "conf_lex_qstring cs p = Inr (s, p1, off, p2)" by (cases r) auto
      from "2.IH"(3) [OF other 3 w refl refl refl quote [OF w]] 3 w show ?thesis by (simp add: conf_lex_entry.simps(2))
    qed
  next
    case 4
    obtain s p1 off p2 where w: "conf_lex_string (c # cs) p = (s, p1, off, p2)" by (metis prod.exhaust)
    from "2.IH"(4) [OF 4 w [symmetric] refl refl word [OF w]] 4 w show ?thesis by (simp add: conf_lex_entry.simps(2))
  qed
qed simp

lemma parser_not_done: "conf_parser_entry env conf \<noteq> Done u conf'"
proof (induction env conf rule: conf_parser_entry.induct)
  case (1 env conf)
  show ?case
  proof (cases "conf_string conf")
    case (Done w conf1)
    then show ?thesis using 1
      by (subst conf_parser_entry.simps) (cases "conf_section env w conf1"; simp)
  qed (subst conf_parser_entry.simps; simp)+
qed

text \<open>
  C9. Reading a configuration file always ends: at the end of the file or with an error.
  The exception is a file that begins with a blank, which nothing skips and which fails an
  assertion of the lexer; the search for plugins has to be defined.
\<close>
theorem conf_parse_ends:
  assumes "\<not> search_undefined env"
  shows "let off = takeWhile (\<lambda>c. c \<noteq> NUL) txt in
    if off \<noteq> [] \<and> is_space (hd off) then conf_parse env path txt = Crash
    else (\<exists>conf. conf_parse env path txt = Off conf) \<or> (\<exists>m. conf_parse env path txt = Fatal m)"
proof -
  let ?off = "takeWhile (\<lambda>c. c \<noteq> NUL) txt"
  have blank: "conf_parse env path txt = Crash" if off: "?off = c # cs" "is_space c" for c cs
  proof -
    have "c \<noteq> CHR ''{''" "c \<noteq> CHR ''}''" "c \<noteq> CHR '',''" "c \<noteq> CHR ''#''" "c \<noteq> CHR 0x22"
      using off(2) by (auto simp: is_space_def)
    then have "conf_lex_entry ?off (1, 1) = [Lex_abort]"
      using off by (simp add: conf_lex_entry.simps(2))
    then show ?thesis
      unfolding conf_parse_def
      by (subst conf_parser_entry.simps) (simp add: conf_string_def conf_next_def conf_pull_def conf_init_def)
  qed
  have ends: "(\<exists>conf. conf_parse env path txt = Off conf) \<or> (\<exists>m. conf_parse env path txt = Fatal m)"
    if "?off = [] \<or> \<not> is_space (hd ?off)"
  proof -
    have "lexed_all (conf_init path txt)" using no_abort [OF that] by (simp add: lexed_all_def conf_init_def)
    then have "safe lexed_all (\<lambda>_. True) (search_undefined env) (conf_parse env path txt)"
      unfolding conf_parse_def by (rule defined.safe_parser)
    with assms parser_not_done show ?thesis
      by (cases "conf_parse env path txt") (auto simp: safe_def conf_parse_def)
  qed
  show ?thesis using blank ends by (cases ?off) (auto simp: Let_def)
qed

theorem conf_parse_ends_witness:
  "conf_parse demo_env ''f'' (LF # ''rule drop'') = Crash \<and>
   ((\<exists>conf. conf_parse demo_env ''f'' ''rule drop'' = Off conf) \<or> (\<exists>m. conf_parse demo_env ''f'' ''rule drop'' = Fatal m))"
proof -
  have env: "\<not> search_undefined demo_env"
    by (simp add: search_undefined_def demo_env_def irc_bot_plugin_search_def bot_empty_def)
  show ?thesis
    using conf_parse_ends [OF env, of "LF # ''rule drop''" "''f''"] conf_parse_ends [OF env, of "''rule drop''" "''f''"]
    by (simp add: is_space_def Let_def)
qed

section \<open>From the file to the bot\<close>

definition connected :: "bool \<Rightarrow> irc_server \<Rightarrow> irc_server" where
  "connected ssl s = the (irc_server_connect ssl (irc_server_incref s))"

lemma ready_connects:
  assumes "ready s"
  shows "irc_server_connect ssl (irc_server_incref s) = Some (connected ssl s)"
    and "sv_name (connected ssl s) = sv_name s"
proof -
  have "complete s" "sv_coroutine s = None" using assms by (simp_all add: ready_def)
  then have "irc_server_connect ssl (irc_server_incref s) \<noteq> None"
    unfolding complete_def irc_server_connect_def irc_server_incref_def by simp
  then show "irc_server_connect ssl (irc_server_incref s) = Some (connected ssl s)"
    unfolding connected_def by (rule option.collapse [symmetric])
  then show "sv_name (connected ssl s) = sv_name s" by (rule connect_name)
qed

lemma add_servers_all:
  assumes "\<forall>s \<in> set ss. ready s" and "distinct (map sv_name ss)"
    and "sv_name ` set ss \<inter> sv_name ` set (bt_servers b) = {}"
  shows "add_servers ssl ss b = Some (b\<lparr>bt_servers := bt_servers b @ map (connected ssl) ss\<rparr>)"
  using assms
proof (induction ss arbitrary: b)
  case (Cons s ss)
  then have "irc_bot_server_get b (sv_name s) = None"
    by (auto simp: irc_bot_server_get_def find_key_None)
  with Cons.prems have "irc_bot_server_add ssl b s = Some (0, b\<lparr>bt_servers := bt_servers b @ [connected ssl s]\<rparr>)"
    by (simp add: irc_bot_server_add_def ready_connects)
  moreover have "add_servers ssl ss (b\<lparr>bt_servers := bt_servers b @ [connected ssl s]\<rparr>) =
      Some (b\<lparr>bt_servers := bt_servers b @ connected ssl s # map (connected ssl) ss\<rparr>)"
    using Cons.prems by (subst Cons.IH) (auto simp: ready_connects(2))
  ultimately show ?case by simp
qed simp

lemma insert_rules:
  assumes "length (bt_rules b) + length rs < 2 ^ 64"
  shows "foldl (\<lambda>b r. irc_bot_rule_insert b r (2 ^ 64 - 1)) b rs = b\<lparr>bt_rules := bt_rules b @ rs\<rparr>"
  using assms
proof (induction rs arbitrary: b)
  case (Cons r rs)
  then have "irc_bot_rule_insert b r (2 ^ 64 - 1) = b\<lparr>bt_rules := bt_rules b @ [r]\<rparr>"
    by (simp add: irc_bot_rule_insert_def irc_bot_rule_size_def)
  with Cons show ?case by simp
qed simp

lemma plugins_frame:
  "bt_servers (conf_apply_plugins conf b) = bt_servers b" "bt_rules (conf_apply_plugins conf b) = bt_rules b"
  "bt_hooks (conf_apply_plugins conf b) = bt_hooks b"
proof -
  have "bt_servers (foldl (\<lambda>b p. snd (irc_bot_plugin_add b p)) b ps) = bt_servers b \<and>
      bt_rules (foldl (\<lambda>b p. snd (irc_bot_plugin_add b p)) b ps) = bt_rules b \<and>
      bt_hooks (foldl (\<lambda>b p. snd (irc_bot_plugin_add b p)) b ps) = bt_hooks b" for ps
    by (induction ps arbitrary: b) (simp_all add: irc_bot_plugin_add_def split: prod.split)
  then show "bt_servers (conf_apply_plugins conf b) = bt_servers b" "bt_rules (conf_apply_plugins conf b) = bt_rules b"
    "bt_hooks (conf_apply_plugins conf b) = bt_hooks b"
    by (simp_all add: conf_apply_plugins_def)
qed

lemma add_hooks_all:
  assumes "add_hooks os hs (lg, b) = Some (lg', b')" and "distinct (map hk_name hs)"
    and "hk_name ` set hs \<inter> hk_name ` set (bt_hooks b) = {}"
  shows "b' = b\<lparr>bt_hooks := rev hs @ bt_hooks b\<rparr>"
  using assms
proof (induction hs arbitrary: lg b)
  case (Cons h hs)
  then have "irc_bot_hook_get b (hk_name h) = None"
    by (auto simp: irc_bot_hook_get_def find_key_None)
  then have "irc_bot_hook_add b h = Some (b\<lparr>bt_hooks := h # bt_hooks b\<rparr>)" by (simp add: irc_bot_hook_add_def)
  with Cons.prems(1) obtain lg1 where "add_hooks os hs (lg1, b\<lparr>bt_hooks := h # bt_hooks b\<rparr>) = Some (lg', b')"
    by (auto split: option.splits)
  from Cons.IH [OF this] Cons.prems(2,3) show ?case by auto
qed simp

text \<open>
  C8. What a bot without rules, servers and hooks has become behind a configuration file:
  the rules in the order of the file, all its servers, each of them connecting, and its
  hooks, the last one first; the transport listens if the file asks for it.  No server of
  the file is refused or fails an assertion.
\<close>
theorem conf_open_builds:
  assumes parse: "conf_parse env path txt = Off conf" and rules: "length (cf_rules conf) < 2 ^ 64"
    and run: "conf_open env aenv path (Contents txt) w = Some (Inr w')"
    and start: "bt_rules (wo_irccd w) = []" "bt_servers (wo_irccd w) = []" "bt_hooks (wo_irccd w) = []"
  shows "bt_rules (wo_irccd w') = cf_rules conf \<and>
    bt_servers (wo_irccd w') = map (connected (ap_with_ssl aenv)) (cf_servers conf) \<and>
    bt_hooks (wo_irccd w') = rev (cf_hooks conf) \<and>
    (cf_tpt conf \<noteq> None \<longrightarrow> tp_listening (wo_transport w'))"
proof -
  have "safe sound (\<lambda>_. True) True (conf_parse env path txt)"
    unfolding conf_parse_def by (rule sounds.safe_parser [OF sound_init])
  with parse have good: "\<forall>s \<in> set (cf_servers conf). ready s" "distinct (map sv_name (cf_servers conf))"
      "distinct (map hk_name (cf_hooks conf))"
    by (simp_all add: safe_def sound_def)
  have r: "conf_apply_rules conf (wo_irccd w) = (wo_irccd w)\<lparr>bt_rules := cf_rules conf\<rparr>"
    using insert_rules [of "wo_irccd w" "cf_rules conf"] rules start by (simp add: conf_apply_rules_def)
  let ?b1 = "(wo_irccd w)\<lparr>bt_rules := cf_rules conf,
      bt_servers := map (connected (ap_with_ssl aenv)) (cf_servers conf)\<rparr>"
  have s: "conf_apply_servers aenv conf (conf_apply_rules conf (wo_irccd w)) = Some ?b1"
    using add_servers_all [OF good(1,2), of "(wo_irccd w)\<lparr>bt_rules := cf_rules conf\<rparr>" "ap_with_ssl aenv"] start
    by (simp add: conf_apply_servers_def r)
  obtain lg lg' b2 t where hooks: "conf_apply_hooks aenv conf (lg, conf_apply_plugins conf ?b1) = Some (lg', b2)"
    and t: "conf_apply_transport aenv conf (wo_transport w) = Inr t"
    and w': "w' = \<lparr>wo_irccd = b2, wo_log = lg', wo_transport = t\<rparr>"
    using run parse s by (auto simp: conf_open_def conf_apply_def split: option.splits sum.splits)
  have "b2 = (conf_apply_plugins conf ?b1)\<lparr>bt_hooks := rev (cf_hooks conf)\<rparr>"
    using add_hooks_all [OF hooks [unfolded conf_apply_hooks_def] good(3)] start by (simp add: plugins_frame)
  moreover have "cf_tpt conf \<noteq> None \<Longrightarrow> tp_listening t"
    using t by (auto simp: conf_apply_transport_def transport_start_def Let_def
        split: option.splits sum.splits if_splits prod.splits)
  ultimately show ?thesis using w' by (simp add: plugins_frame)
qed

definition demo_apply :: apply_env where
  "demo_apply = \<lparr>ap_os = \<lparr>os_getenv = \<lambda>_. None, os_popen = \<lambda>_. None, os_strftime = \<lambda>s. s\<rparr>,
     ap_fopen = \<lambda>_. None, ap_with_ssl = False,
     ap_listen = \<lparr>lc_socket = Inr 3, lc_bind = None, lc_chown = None, lc_listen = None\<rparr>,
     ap_strerror1 = ''Operation not permitted''\<rparr>"

definition demo_world :: "unit world" where
  "demo_world = \<lparr>wo_irccd = bot_empty, wo_log = log_init,
     wo_transport = \<lparr>tp_fd = None, tp_umask = 18, tp_listening = False\<rparr>\<rparr>"

fun read_off :: "('a, 's) parsed \<Rightarrow> (irc_rule list \<times> irc_hook list \<times> irc_server list \<times> nat \<times> string option \<times>
    log_type \<times> int \<times> string option) option" where
  "read_off (Off conf) = Some (cf_rules conf, cf_hooks conf, cf_servers conf, length (cf_plugins conf),
     cf_tpt conf, cf_log_type conf, cf_log_level conf, cf_log_template conf)"
| "read_off _ = None"

lemma read_off_Some:
  "read_off r = Some (rs, hs, ss, n, t, ty, l, tm) \<Longrightarrow> \<exists>conf. r = Off conf \<and> cf_rules conf = rs \<and> cf_hooks conf = hs \<and>
     cf_servers conf = ss \<and> length (cf_plugins conf) = n \<and> cf_tpt conf = t \<and> cf_log_type conf = ty \<and>
     cf_log_level conf = l \<and> cf_log_template conf = tm"
  by (cases r) simp_all

theorem conf_open_builds_witness:
  "\<exists>conf w'. conf_parse demo_env ''f'' ''rule drop hook a to b transport to s'' = Off conf \<and>
    conf_open demo_env demo_apply ''f'' (Contents ''rule drop hook a to b transport to s'') demo_world = Some (Inr w') \<and>
    map r_action (bt_rules (wo_irccd w')) = [Rule_Drop] \<and>
    bt_hooks (wo_irccd w') = [\<lparr>hk_name = ''a'', hk_path = ''b''\<rparr>] \<and> tp_listening (wo_transport w')"
proof -
  let ?txt = "''rule drop hook a to b transport to s''"
  have "read_off (conf_parse demo_env ''f'' ?txt) =
      Some ([irc_rule_new Rule_Drop], [\<lparr>hk_name = ''a'', hk_path = ''b''\<rparr>], [], 0, Some ''s'', LOG_TYPE_CONSOLE, 0, None)"
    by code_simp
  from read_off_Some [OF this] obtain conf where conf: "conf_parse demo_env ''f'' ?txt = Off conf"
      "cf_rules conf = [irc_rule_new Rule_Drop]" "cf_hooks conf = [\<lparr>hk_name = ''a'', hk_path = ''b''\<rparr>]"
      "cf_servers conf = []" "cf_plugins conf = []" "cf_tpt conf = Some ''s''" "cf_log_type conf = LOG_TYPE_CONSOLE"
      "cf_log_level conf = 0" "cf_log_template conf = None"
    by auto
  have "transport_start (ap_listen demo_apply) ''s'' u g (wo_transport demo_world) =
      (True, \<lparr>tp_fd = Some 3, tp_umask = 18, tp_listening = True\<rparr>)" for u g
    by (simp add: transport_start_def demo_apply_def demo_world_def SUN_PATH_def irc_util_strlcpy_def)
  then obtain w' where run: "conf_open demo_env demo_apply ''f'' (Contents ?txt) demo_world = Some (Inr w')"
    using conf by (auto simp: conf_open_def conf_apply_def conf_apply_log_def conf_apply_servers_def
        conf_apply_hooks_def conf_apply_transport_def irc_log_info_def irc_log_to_console_def
        irc_log_set_verbose_def irc_log_set_template_def irc_bot_hook_add_def irc_bot_hook_get_def
        conf_apply_plugins_def split: option.split)
  have start: "bt_rules (wo_irccd demo_world) = []" "bt_servers (wo_irccd demo_world) = []" "bt_hooks (wo_irccd demo_world) = []"
    by (simp_all add: demo_world_def bot_empty_def)
  from conf_open_builds [OF conf(1) _ run start] show ?thesis
    using conf run by (auto simp: irc_rule_new_def)
qed

end
