(* ===== verification/Unicode.thy ===== *)
theory Unicode
  imports Prelude
begin

text \<open>
  UTF-8 and UTF-32 conversions (\<open>irccd/unicode.c\<close>).  Strings are NUL terminated in the
  code: a list of bytes or of code points is such a string without its terminator, and
  reading the byte after the last one reads the terminator.  \<open>(size_t)-1\<close> with \<open>errno\<close> set
  is \<open>Inl errno\<close>.
\<close>

type_synonym u8 = "8 word"
type_synonym u32 = "32 word"

section \<open>Sizes\<close>

definition uni8_sizeof :: "u8 \<Rightarrow> errno + nat" where
  "uni8_sizeof c =
     (if c \<le> 127 then Inr 1
      else if c AND 0xE0 = 0xC0 then Inr 2
      else if c AND 0xF0 = 0xE0 then Inr 3
      else if c AND 0xF8 = 0xF0 then Inr 4
      else Inl EILSEQ)"

definition uni32_sizeof :: "u32 \<Rightarrow> errno + nat" where
  "uni32_sizeof c =
     (if c \<le> 0x7F then Inr 1
      else if c \<le> 0x7FF then Inr 2
      else if c \<le> 0xFFFF then Inr 3
      else if c \<le> 0x1FFFFF then Inr 4
      else Inl EILSEQ)"

section \<open>One code point\<close>

definition uni8_encode :: "nat \<Rightarrow> u32 \<Rightarrow> errno + u8 list" where
  "uni8_encode dstsz point =
     (case uni32_sizeof point of
        Inl e \<Rightarrow> Inl e
      | Inr n \<Rightarrow>
          if dstsz < n then Inl ERANGE
          else if n = 1 then Inr [ucast point]
          else if n = 2 then
            Inr [ucast (0xC0 OR (drop_bit 6 point AND 0x1F)),
                 ucast (0x80 OR (point AND 0x3F))]
          else if n = 3 then
            Inr [ucast (0xE0 OR (drop_bit 12 point AND 0xF)),
                 ucast (0x80 OR (drop_bit 6 point AND 0x3F)),
                 ucast (0x80 OR (point AND 0x3F))]
          else
            Inr [ucast (0xF0 OR (drop_bit 18 point AND 0x7)),
                 ucast (0x80 OR (drop_bit 12 point AND 0x3F)),
                 ucast (0x80 OR (drop_bit 6 point AND 0x3F)),
                 ucast (0x80 OR (point AND 0x3F))])"

definition at :: "u8 list \<Rightarrow> nat \<Rightarrow> u8" where
  "at src i = (if i < length src then src ! i else 0)"

definition uni8_decode :: "u8 list \<Rightarrow> errno + (nat \<times> u32)" where
  "uni8_decode src =
     (case uni8_sizeof (at src 0) of
        Inl e \<Rightarrow> Inl e
      | Inr n \<Rightarrow>
          if n = 1 then Inr (1, ucast (at src 0))
          else if n = 2 then
            (if at src 1 = 0 then Inl EILSEQ
             else Inr (2, push_bit 6 (ucast (at src 0) AND 0x1F) OR (ucast (at src 1) AND 0x3F)))
          else if n = 3 then
            (if at src 1 = 0 \<or> at src 2 = 0 then Inl EILSEQ
             else Inr (3, push_bit 12 (ucast (at src 0) AND 0x0F) OR
                          push_bit 6 (ucast (at src 1) AND 0x3F) OR (ucast (at src 2) AND 0x3F)))
          else
            (if at src 1 = 0 \<or> at src 2 = 0 \<or> at src 3 = 0 then Inl EILSEQ
             else Inr (4, push_bit 16 (ucast (at src 0) AND 0x07) OR
                          push_bit 12 (ucast (at src 1) AND 0x3F) OR
                          push_bit 6 (ucast (at src 2) AND 0x3F) OR (ucast (at src 3) AND 0x3F))))"

section \<open>Strings\<close>

text \<open>
  \<open>uni8_length\<close> advances by the size its lead byte announces without looking at the
  bytes in between: it is undefined when the string is cut inside a sequence.
\<close>

function uni8_length_loop :: "nat \<Rightarrow> u8 list \<Rightarrow> (errno + nat) option" where
  "uni8_length_loop tot src =
     (if src = [] \<or> at src 0 = 0 then Some (Inr tot)
      else case uni8_sizeof (at src 0) of
             Inl e \<Rightarrow> Some (Inl e)
           | Inr gap \<Rightarrow> if gap = 0 \<or> length src < gap then None
                        else uni8_length_loop (tot + gap) (drop gap src))"
  by pat_completeness auto
termination
  by (relation "measure (\<lambda>(_, src). length src)") auto

declare uni8_length_loop.simps [simp del]

definition uni8_length :: "u8 list \<Rightarrow> (errno + nat) option" where
  "uni8_length src = uni8_length_loop 0 src"

fun uni8_to32_loop :: "u8 list \<Rightarrow> nat \<Rightarrow> errno + u32 list" where
  "uni8_to32_loop src 0 = Inl ERANGE"
| "uni8_to32_loop src (Suc dstsz) =
     (if at src 0 = 0 then Inr []
      else case uni8_decode src of
             Inl e \<Rightarrow> Inl e
           | Inr (gap, c) \<Rightarrow>
               (case uni8_to32_loop (drop gap src) dstsz of
                  Inl e \<Rightarrow> Inl e
                | Inr cs \<Rightarrow> Inr (c # cs)))"

definition uni8_to32 :: "u8 list \<Rightarrow> nat \<Rightarrow> errno + u32 list" where
  "uni8_to32 src dstsz = uni8_to32_loop src dstsz"

fun uni32_length :: "u32 list \<Rightarrow> nat" where
  "uni32_length [] = 0"
| "uni32_length (c # cs) = (if c = 0 then 0 else Suc (uni32_length cs))"

text \<open>\<open>SIZE_MAX\<close> is a parameter of the model: it depends on the platform.\<close>

fun uni32_requires_loop :: "nat \<Rightarrow> nat \<Rightarrow> u32 list \<Rightarrow> errno + nat" where
  "uni32_requires_loop size_max tot [] = Inr tot"
| "uni32_requires_loop size_max tot (c # cs) =
     (if c = 0 then Inr tot
      else case uni32_sizeof c of
             Inl e \<Rightarrow> Inl e
           | Inr gap \<Rightarrow> if size_max - tot \<le> gap then Inl ERANGE
                        else uni32_requires_loop size_max (tot + gap) cs)"

definition uni32_requires :: "nat \<Rightarrow> u32 list \<Rightarrow> errno + nat" where
  "uni32_requires size_max src = uni32_requires_loop size_max 0 src"

fun uni32_to8 :: "u32 list \<Rightarrow> nat \<Rightarrow> errno + u8 list" where
  "uni32_to8 src 0 = Inl ERANGE"
| "uni32_to8 [] (Suc n) = Inr []"
| "uni32_to8 (c # cs) (Suc n) =
     (if c = 0 then Inr []
      else case uni8_encode (Suc n) c of
             Inl e \<Rightarrow> Inl e
           | Inr bs \<Rightarrow>
               (case uni32_to8 cs (Suc n - length bs) of
                  Inl e \<Rightarrow> Inl e
                | Inr rest \<Rightarrow> Inr (bs @ rest)))"

section \<open>Masks as bit sets\<close>

lemma word8_le_127: "(c :: u8) \<le> 127 \<longleftrightarrow> \<not> bit c 7"
proof -
  have *: "n \<le> 127 \<longleftrightarrow> even (n div 128)" if "n < 256" for n :: nat
  proof (cases "n < 128")
    case False
    with that have "n div 128 = 1" by (intro div_nat_eqI) simp_all
    with False show ?thesis by simp
  qed simp
  have "c \<le> 127 \<longleftrightarrow> unat c \<le> 127" by (simp add: word_le_nat_alt)
  also have "\<dots> \<longleftrightarrow> even (unat c div 128)" using unsigned_less [of c] by (intro *) simp
  also have "\<dots> \<longleftrightarrow> \<not> bit (unat c) 7" by (simp add: bit_iff_odd)
  also have "\<dots> \<longleftrightarrow> \<not> bit c 7" by (simp add: bit_unsigned_iff)
  finally show ?thesis .
qed

lemma bit_bound:
  fixes p :: u32
  assumes "unat p < 2 ^ k" and "bit p n"
  shows "n < k"
proof -
  have "take_bit k (unat p) = unat p" using assms(1) by (simp add: take_bit_nat_eq_self)
  moreover have "bit (unat p) n" using assms(2) by (simp add: bit_unsigned_iff)
  ultimately show ?thesis by (metis bit_take_bit_iff)
qed

lemma low_masks:
  "(0x7F :: 'a::len word) = mask 7" "(0x3F :: 'a::len word) = mask 6"
  "(0x1F :: 'a::len word) = mask 5" "(0xF :: 'a::len word) = mask 4"
  "(0x7 :: 'a::len word) = mask 3"
  by (simp_all add: mask_eq_exp_minus_1)

lemma high_masks:
  "(0xC0 :: 'a::len word) = push_bit 6 (mask 2)" "(0xE0 :: 'a::len word) = push_bit 5 (mask 3)"
  "(0xF0 :: 'a::len word) = push_bit 4 (mask 4)" "(0xF8 :: 'a::len word) = push_bit 3 (mask 5)"
  "(0x80 :: 'a::len word) = push_bit 7 (mask 1)"
  by (simp_all add: mask_eq_exp_minus_1 push_bit_eq_mult)

lemma lead_sizes:
  fixes p :: u32
  shows "uni8_sizeof (ucast (0xC0 OR (p AND 0x1F))) = Inr 2"
    and "uni8_sizeof (ucast (0xE0 OR (p AND 0xF))) = Inr 3"
    and "uni8_sizeof (ucast (0xF0 OR (p AND 0x7))) = Inr 4"
proof -
  have "bit (ucast (0xC0 OR (p AND 0x1F)) :: u8) 7" "bit (ucast (0xE0 OR (p AND 0xF)) :: u8) 7"
    "bit (ucast (0xF0 OR (p AND 0x7)) :: u8) 7"
    unfolding low_masks high_masks by (simp_all add: bit_simps)
  moreover have "bit (ucast (0xE0 OR (p AND 0xF)) :: u8) 5" "bit (ucast (0xF0 OR (p AND 0x7)) :: u8) 5"
    "bit (ucast (0xF0 OR (p AND 0x7)) :: u8) 4"
    unfolding low_masks high_masks by (simp_all add: bit_simps)
  moreover have "ucast (0xC0 OR (p AND 0x1F)) AND (0xE0 :: u8) = 0xC0"
    "ucast (0xE0 OR (p AND 0xF)) AND (0xF0 :: u8) = 0xE0"
    "ucast (0xF0 OR (p AND 0x7)) AND (0xF8 :: u8) = 0xF0"
    unfolding low_masks high_masks by (rule bit_word_eqI; auto simp: bit_simps)+
  moreover have "\<not> (c AND 0xE0 = 0xC0)" if "bit c 5" for c :: u8
  proof
    assume "c AND 0xE0 = 0xC0"
    then have "bit (c AND 0xE0) 5 = bit (0xC0 :: u8) 5" by simp
    with that show False unfolding high_masks by (simp add: bit_simps)
  qed
  moreover have "\<not> (c AND 0xF0 = 0xE0)" if "bit c 4" for c :: u8
  proof
    assume "c AND 0xF0 = 0xE0"
    then have "bit (c AND 0xF0) 4 = bit (0xE0 :: u8) 4" by simp
    with that show False unfolding high_masks by (simp add: bit_simps)
  qed
  ultimately show "uni8_sizeof (ucast (0xC0 OR (p AND 0x1F))) = Inr 2"
    "uni8_sizeof (ucast (0xE0 OR (p AND 0xF))) = Inr 3"
    "uni8_sizeof (ucast (0xF0 OR (p AND 0x7))) = Inr 4"
    by (simp_all add: uni8_sizeof_def word8_le_127)
qed

lemma cont_nonzero: "ucast (0x80 OR (p AND 0x3F) :: u32) \<noteq> (0 :: u8)"
proof
  assume "ucast (0x80 OR (p AND 0x3F) :: u32) = (0 :: u8)"
  then have "bit (ucast (0x80 OR (p AND 0x3F) :: u32) :: u8) 7 = bit (0 :: u8) 7" by simp
  then show False unfolding low_masks high_masks by (simp add: bit_simps)
qed

lemma bit_0x80: "bit (0x80 :: int) n \<longleftrightarrow> n = 7"
proof -
  have "(0x80 :: int) = 2 ^ 7" by simp
  then show ?thesis by (simp only: bit_exp_iff) auto
qed

lemma strip_lead:
  fixes q :: u32
  shows "ucast (ucast (0x80 OR (q AND 0x3F)) :: u8) AND 0x3F = q AND 0x3F"
    and "ucast (ucast (0xC0 OR (q AND 0x1F)) :: u8) AND 0x1F = q AND 0x1F"
    and "ucast (ucast (0xE0 OR (q AND 0xF)) :: u8) AND 0xF = q AND 0xF"
    and "ucast (ucast (0xF0 OR (q AND 0x7)) :: u8) AND 0x7 = q AND 0x7"
  unfolding low_masks high_masks(1-4)
  by (rule bit_word_eqI, (auto simp: bit_simps bit_0x80)[1])+

lemma join2:
  fixes p :: u32 assumes "unat p < 2 ^ 11"
  shows "push_bit 6 (drop_bit 6 p AND 0x1F) OR (p AND 0x3F) = p"
  unfolding low_masks
  by (rule bit_word_eqI) (auto simp: bit_simps dest: bit_bound [OF assms])

lemma join3:
  fixes p :: u32 assumes "unat p < 2 ^ 16"
  shows "push_bit 12 (drop_bit 12 p AND 0xF) OR push_bit 6 (drop_bit 6 p AND 0x3F) OR
         (p AND 0x3F) = p"
  unfolding low_masks
proof (rule bit_word_eqI)
  fix n :: nat assume "n < LENGTH(32)"
  consider "n < 6" | "6 \<le> n" "n < 12" | "12 \<le> n" by linarith
  then show "bit (push_bit 12 (drop_bit 12 p AND mask 4) OR push_bit 6 (drop_bit 6 p AND mask 6) OR
      p AND mask 6) n = bit p n"
    by cases (auto simp: bit_simps dest: bit_bound [OF assms])
qed

text \<open>
  The four byte case shifts the lead bits by 16 where the encoder took them from bit 18,
  so they fall on bits that the first continuation byte holds already.
\<close>

lemma join4:
  fixes p :: u32 assumes "unat p < 2 ^ 18"
  shows "push_bit 16 (drop_bit 18 p AND 0x7) OR push_bit 12 (drop_bit 12 p AND 0x3F) OR
         push_bit 6 (drop_bit 6 p AND 0x3F) OR (p AND 0x3F) = p"
  unfolding low_masks
proof (rule bit_word_eqI)
  fix n :: nat assume "n < LENGTH(32)"
  have no: "\<not> bit p (18 + m)" for m using bit_bound [OF assms, of "18 + m"] by auto
  consider "n < 6" | "6 \<le> n" "n < 12" | "12 \<le> n" by linarith
  then show "bit (push_bit 16 (drop_bit 18 p AND mask 3) OR push_bit 12 (drop_bit 12 p AND mask 6) OR
      push_bit 6 (drop_bit 6 p AND mask 6) OR p AND mask 6) n = bit p n"
    by cases (auto simp: bit_simps no dest: bit_bound [OF assms])
qed

section \<open>Round trips\<close>

lemma uni32_sizeof_nat:
  "uni32_sizeof c =
     (if unat c < 2 ^ 7 then Inr 1 else if unat c < 2 ^ 11 then Inr 2
      else if unat c < 2 ^ 16 then Inr 3 else if unat c < 2 ^ 21 then Inr 4 else Inl EILSEQ)"
  by (auto simp: uni32_sizeof_def word_le_nat_alt)

lemma at_simps [simp]: "at (b # bs) 0 = b" "at (b # bs) (Suc i) = at bs i" "at [] i = 0"
  by (simp_all add: at_def)

lemma at_numeral [simp]: "at (b # bs) (numeral k) = at bs (pred_numeral k)"
  by (simp add: numeral_eq_Suc)

lemma uni8_sizeof_0 [simp]: "uni8_sizeof 0 = Inr 1"
  by (simp add: uni8_sizeof_def)

lemma uni8_decode_encode:
  assumes "unat p < 2 ^ 18" and "uni8_encode n p = Inr bs"
  shows "uni8_decode (bs @ rest) = Inr (length bs, p) \<and> bs \<noteq> [] \<and> length bs \<le> n \<and>
         (p \<noteq> 0 \<longrightarrow> at (bs @ rest) 0 \<noteq> 0)"
proof -
  consider "unat p < 2 ^ 7" | "\<not> unat p < 2 ^ 7" "unat p < 2 ^ 11"
    | "\<not> unat p < 2 ^ 11" "unat p < 2 ^ 16" | "\<not> unat p < 2 ^ 16" using assms(1) by blast
  then show ?thesis
  proof cases
    case 1
    then have u: "unat p < 128" by simp
    then have small: "unat (ucast p :: u8) = unat p"
      by (simp add: unsigned_ucast_eq take_bit_nat_eq_self)
    then have "ucast p \<le> (127 :: u8)" using u by (simp add: word_le_nat_alt)
    moreover have "ucast (ucast p :: u8) = p"
      by (rule bit_word_eqI) (auto simp: bit_simps dest: bit_bound [OF 1])
    moreover have "ucast p = (0 :: u8) \<longleftrightarrow> p = 0" using small by (metis unat_eq_zero unsigned_0)
    ultimately show ?thesis
      using assms(2) 1 by (auto simp: uni8_encode_def uni32_sizeof_nat uni8_decode_def
          uni8_sizeof_def split: if_splits)
  next
    case 2
    then show ?thesis
      using assms(2) lead_sizes(1) [of "drop_bit 6 p"] join2 [OF 2(2)]
      by (auto simp: uni8_encode_def uni32_sizeof_nat uni8_decode_def cont_nonzero strip_lead
          split: if_splits)
  next
    case 3
    then show ?thesis
      using assms(2) lead_sizes(2) [of "drop_bit 12 p"] join3 [OF 3(2)]
      by (auto simp: uni8_encode_def uni32_sizeof_nat uni8_decode_def cont_nonzero strip_lead
          split: if_splits)
  next
    case 4
    then show ?thesis
      using assms lead_sizes(3) [of "drop_bit 18 p"] join4 [OF assms(1)]
      by (auto simp: uni8_encode_def uni32_sizeof_nat uni8_decode_def cont_nonzero strip_lead
          split: if_splits)
  qed
qed

text \<open>
  C30. Encoding a code point below U+40000 and decoding it gives it back, with the number
  of bytes used, whatever follows it in the buffer.
\<close>
theorem utf8_roundtrip:
  assumes "unat p < 0x40000" and "uni8_encode n p = Inr bs"
  shows "uni8_decode (bs @ rest) = Inr (length bs, p) \<and> length bs \<le> n \<and>
         uni32_sizeof p = Inr (length bs)"
proof -
  have p: "unat p < 2 ^ 18" using assms(1) by simp
  have "uni32_sizeof p = Inr (length bs)"
    using assms(2) by (auto simp: uni8_encode_def uni32_sizeof_nat split: if_splits)
  with uni8_decode_encode [OF p assms(2), of rest] show ?thesis by blast
qed

theorem utf8_roundtrip_witness:
  "uni8_encode 4 0x20AC = Inr [0xE2, 0x82, 0xAC] \<and> uni8_decode [0xE2, 0x82, 0xAC] = Inr (3, 0x20AC)"
proof -
  have e: "uni8_encode 4 0x20AC = Inr [0xE2, 0x82, 0xAC]" by code_simp
  with utf8_roundtrip [OF _ e, of "[]"] show ?thesis by simp
qed

text \<open>
  Above U+3FFFF the two functions are not inverse: every such code point that the
  encoder accepts comes back as a code point below U+80000, because the decoder shifts the
  lead byte by 16 instead of 18.  U+100000 comes back as U+40000.
\<close>
theorem utf8_decode_loses_planes:
  "uni8_encode 4 0x100000 = Inr [0xF4, 0x80, 0x80, 0x80] \<and>
   uni8_decode [0xF4, 0x80, 0x80, 0x80] = Inr (4, 0x40000)"
  by code_simp

section \<open>Whole strings\<close>

definition valid_points :: "u32 list \<Rightarrow> bool" where
  "valid_points cs = (\<forall>c \<in> set cs. c \<noteq> 0 \<and> unat c < 0x40000)"

lemma uni32_to8_to32:
  "valid_points cs \<Longrightarrow> uni32_to8 cs n = Inr bs \<Longrightarrow> length cs < m \<Longrightarrow>
     uni8_to32_loop bs m = Inr cs"
proof (induction cs n arbitrary: bs m rule: uni32_to8.induct)
  case (1 src)
  then show ?case by simp
next
  case (2 n)
  then show ?case by (cases m) simp_all
next
  case (3 c cs n)
  from 3(2) have c: "c \<noteq> 0" "unat c < 2 ^ 18" and cs: "valid_points cs"
    by (auto simp: valid_points_def)
  from 3(3) c obtain b1 b2 where e: "uni8_encode (Suc n) c = Inr b1"
    and r: "uni32_to8 cs (Suc n - length b1) = Inr b2" and bs: "bs = b1 @ b2"
    by (auto split: sum.splits)
  obtain k where m: "m = Suc k" "length cs < k" using 3(4) by (cases m) auto
  have "uni8_to32_loop b2 k = Inr cs" by (rule "3.IH" [OF c(1) e cs r m(2)])
  with uni8_decode_encode [OF c(2) e, of b2] c(1) bs m(1) show ?case by simp
qed

lemma uni32_requires_to8:
  "uni32_to8 cs n = Inr bs \<Longrightarrow> \<forall>c \<in> set cs. c \<noteq> 0 \<Longrightarrow> tot + length bs < sz \<Longrightarrow>
     length bs < n \<and> uni32_requires_loop sz tot cs = Inr (tot + length bs)"
proof (induction cs n arbitrary: bs tot rule: uni32_to8.induct)
  case (3 c cs n)
  from "3.prems" obtain b1 b2 where e: "uni8_encode (Suc n) c = Inr b1"
    and r: "uni32_to8 cs (Suc n - length b1) = Inr b2" and bs: "bs = b1 @ b2" and c: "c \<noteq> 0"
    by (auto split: sum.splits)
  have sz: "uni32_sizeof c = Inr (length b1)" "length b1 \<le> Suc n"
    using e by (auto simp: uni8_encode_def uni32_sizeof_nat split: if_splits)
  have "length b2 < Suc n - length b1 \<and>
      uni32_requires_loop sz (tot + length b1) cs = Inr (tot + length b1 + length b2)"
    by (rule "3.IH" [OF c e r]) (use "3.prems" bs in auto)
  with sz bs c "3.prems"(3) show ?case by auto
qed auto

text \<open>
  A string of code points below U+40000 survives the conversion to UTF-8 and back
  when the second buffer has room for it and its terminator, and \<open>uni32_requires\<close> announces
  the length of the UTF-8 string, which leaves room for a terminator in its buffer.
\<close>
theorem utf32_string_roundtrip:
  assumes "valid_points cs" and "uni32_to8 cs n = Inr bs" and "length cs < m"
    and "length bs < size_max"
  shows "uni8_to32 bs m = Inr cs \<and> uni32_length cs = length cs \<and> length bs < n \<and>
         uni32_requires size_max cs = Inr (length bs)"
proof -
  have nz: "\<forall>c \<in> set cs. c \<noteq> 0" using assms(1) by (auto simp: valid_points_def)
  then have "uni32_length cs = length cs" by (induction cs) auto
  with uni32_to8_to32 [OF assms(1-3)] uni32_requires_to8 [OF assms(2) nz, of 0 size_max] assms(4)
  show ?thesis by (simp add: uni8_to32_def uni32_requires_def)
qed

theorem utf32_string_roundtrip_witness:
  "uni8_to32 [0x68, 0xC3, 0xA9] 3 = Inr [0x68, 0xE9]"
proof -
  have v: "valid_points [0x68, 0xE9]" by (simp add: valid_points_def)
  have e: "uni32_to8 [0x68, 0xE9] 8 = Inr [0x68, 0xC3, 0xA9]" by code_simp
  show ?thesis using utf32_string_roundtrip [OF v e, of 3 100] by simp
qed

end
