(* ===== verification/Unicode_Class.thy ===== *)
theory Unicode_Class
  imports Unicode Unicode_Tables
begin

text \<open>
  The code point classes and case conversions of \<open>irccd/unicode.c\<close>: the binary search over
  a flat table, the functions that read the tables with it, and what the tables hold.
  A pointer into a table is the suffix of the list that starts there.
\<close>

section \<open>Binary search\<close>

function search :: "nat \<Rightarrow> nat list \<Rightarrow> nat \<Rightarrow> nat \<Rightarrow> nat list option" where
  "search c t n ne =
     (if 1 < n then
        let m = n div 2; p = drop (m * ne) t in
        if p ! 0 \<le> c then search c p (n - m) ne
        else search c t m ne
      else if n \<noteq> 0 \<and> t ! 0 \<le> c then Some t
      else None)"
  by pat_completeness auto
termination
  by (relation "measure (\<lambda>(_, _, n, _). n)") auto

declare search.simps [simp del]

section \<open>Classes and conversions\<close>

definition in_ranges :: "u32 \<Rightarrow> nat list \<Rightarrow> bool" where
  "in_ranges c t =
     (case search (unat c) t (length t div 2) 2 of
        None \<Rightarrow> False
      | Some p \<Rightarrow> p ! 0 \<le> unat c \<and> unat c \<le> p ! 1)"

definition in_singles :: "u32 \<Rightarrow> nat list \<Rightarrow> bool" where
  "in_singles c t =
     (case search (unat c) t (length t) 1 of
        None \<Rightarrow> False
      | Some p \<Rightarrow> unat c = p ! 0)"

definition range_delta :: "u32 \<Rightarrow> nat list \<Rightarrow> u32 option" where
  "range_delta c t =
     (case search (unat c) t (length t div 3) 3 of
        None \<Rightarrow> None
      | Some p \<Rightarrow> if p ! 0 \<le> unat c \<and> unat c \<le> p ! 1
                  then Some (c + of_nat (p ! 2) - 1048576) else None)"

definition single_delta :: "u32 \<Rightarrow> nat list \<Rightarrow> u32 option" where
  "single_delta c t =
     (case search (unat c) t (length t div 2) 2 of
        None \<Rightarrow> None
      | Some p \<Rightarrow> if unat c = p ! 0 then Some (c + of_nat (p ! 1) - 1048576) else None)"

definition uni_isspace :: "u32 \<Rightarrow> bool" where
  "uni_isspace c = in_ranges c isspacer"

definition uni_isdigit :: "u32 \<Rightarrow> bool" where
  "uni_isdigit c = in_ranges c isdigitr"

definition uni_isalpha :: "u32 \<Rightarrow> bool" where
  "uni_isalpha c = (if in_ranges c isalphar then True else in_singles c isalphas)"

definition uni_isupper :: "u32 \<Rightarrow> bool" where
  "uni_isupper c = (if in_ranges c isupperr then True else in_singles c isuppers)"

definition uni_islower :: "u32 \<Rightarrow> bool" where
  "uni_islower c = (if in_ranges c islowerr then True else in_singles c islowers)"

definition uni_istitle :: "u32 \<Rightarrow> bool" where
  "uni_istitle c = (if in_ranges c istitler then True else in_singles c istitles)"

definition uni_toupper :: "u32 \<Rightarrow> u32" where
  "uni_toupper c =
     (case range_delta c toupperr of
        Some d \<Rightarrow> d
      | None \<Rightarrow> (case single_delta c touppers of Some d \<Rightarrow> d | None \<Rightarrow> c))"

definition uni_tolower :: "u32 \<Rightarrow> u32" where
  "uni_tolower c =
     (case range_delta c tolowerr of
        Some d \<Rightarrow> d
      | None \<Rightarrow> (case single_delta c tolowers of Some d \<Rightarrow> d | None \<Rightarrow> c))"

definition uni_totitle :: "u32 \<Rightarrow> u32" where
  "uni_totitle c =
     (case range_delta c totitler of
        Some d \<Rightarrow> d
      | None \<Rightarrow> (case single_delta c totitles of Some d \<Rightarrow> d | None \<Rightarrow> c))"

section \<open>The search finds the last row that does not start after the code point\<close>

lemma search_none: "c < t ! 0 \<Longrightarrow> (\<And>i. 0 < i \<Longrightarrow> i < n \<Longrightarrow> t ! 0 \<le> t ! (i * ne)) \<Longrightarrow>
    n * ne \<le> length t \<Longrightarrow> 0 < ne \<Longrightarrow> search c t n ne = None"
proof (induction c t n ne rule: search.induct)
  case (1 c t n ne)
  show ?case
  proof (cases "1 < n")
    case True
    let ?m = "n div 2"
    have m: "0 < ?m" "?m < n" using True by auto
    have le: "?m * ne \<le> length t"
      using mult_le_mono1[of ?m n ne] m "1.prems"(3) by linarith
    have hd: "drop (?m * ne) t ! 0 = t ! (?m * ne)"
      using le by simp
    have gt: "\<not> drop (?m * ne) t ! 0 \<le> c"
      using "1.prems"(2)[of ?m] m "1.prems"(1) hd by simp
    have "search c t ?m ne = None"
      by (rule "1.IH"(2)) (use True gt "1.prems" m le in auto)
    then show ?thesis
      using True gt by (simp add: search.simps[of c t n ne] Let_def)
  next
    case False
    then show ?thesis using "1.prems"(1) by (simp add: search.simps[of c t n ne])
  qed
qed

lemma search_some:
  "0 < n \<Longrightarrow> t ! 0 \<le> c \<Longrightarrow> n * ne \<le> length t \<Longrightarrow> 0 < ne \<Longrightarrow>
   (\<And>i j. i < j \<Longrightarrow> j < n \<Longrightarrow> t ! (i * ne) < t ! (j * ne)) \<Longrightarrow>
   \<exists>k<n. search c t n ne = Some (drop (k * ne) t) \<and> t ! (k * ne) \<le> c \<and>
     (\<forall>j. k < j \<longrightarrow> j < n \<longrightarrow> c < t ! (j * ne))"
proof (induction c t n ne rule: search.induct)
  case (1 c t n ne)
  show ?case
  proof (cases "1 < n")
    case False
    then have "n = Suc 0" using "1.prems"(1) by simp
    then show ?thesis using "1.prems"(2) by (simp add: search.simps[of c t "Suc 0" ne])
  next
    case True
    let ?m = "n div 2"
    let ?p = "drop (?m * ne) t"
    have m: "0 < ?m" "?m < n" using True by auto
    have le: "?m * ne \<le> length t" "(n - ?m) * ne \<le> length ?p"
      using order.trans[OF mult_le_mono1[of ?m n ne] "1.prems"(3)] m "1.prems"(3)
      by (auto simp: diff_mult_distrib)
    have at: "?p ! (i * ne) = t ! ((i + ?m) * ne)" for i
      using le(1) by (simp add: algebra_simps)
    show ?thesis
    proof (cases "?p ! 0 \<le> c")
      case yes: True
      have "\<exists>k<n - ?m. search c ?p (n - ?m) ne = Some (drop (k * ne) ?p) \<and> ?p ! (k * ne) \<le> c \<and>
          (\<forall>j. k < j \<longrightarrow> j < n - ?m \<longrightarrow> c < ?p ! (j * ne))"
        by (rule "1.IH"(1)[OF True refl refl yes])
          (use m yes le "1.prems"(4) "1.prems"(5) in \<open>auto simp: at\<close>)
      then obtain k where k: "k < n - ?m" "search c ?p (n - ?m) ne = Some (drop (k * ne) ?p)"
        "?p ! (k * ne) \<le> c" "\<And>j. k < j \<Longrightarrow> j < n - ?m \<Longrightarrow> c < ?p ! (j * ne)" by blast
      have "c < t ! (j * ne)" if "k + ?m < j" "j < n" for j
      proof -
        have "k < j - ?m" "j - ?m < n - ?m" "j - ?m + ?m = j" using that m by auto
        then show ?thesis using k(4)[of "j - ?m"] at[of "j - ?m"] by simp
      qed
      moreover have "drop (k * ne) ?p = drop ((k + ?m) * ne) t" by (simp add: algebra_simps)
      moreover have "k + ?m < n" using k(1) m by simp
      ultimately show ?thesis
        using k True yes
        by (intro exI[of _ "k + ?m"]) (auto simp: search.simps[of c t n ne] Let_def at)
    next
      case no: False
      have "\<exists>k<?m. search c t ?m ne = Some (drop (k * ne) t) \<and> t ! (k * ne) \<le> c \<and>
          (\<forall>j. k < j \<longrightarrow> j < ?m \<longrightarrow> c < t ! (j * ne))"
        by (rule "1.IH"(2)[OF True refl refl no]) (use m "1.prems" le in auto)
      then obtain k where k: "k < ?m" "search c t ?m ne = Some (drop (k * ne) t)"
        "t ! (k * ne) \<le> c" "\<And>j. k < j \<Longrightarrow> j < ?m \<Longrightarrow> c < t ! (j * ne)" by blast
      have "c < t ! (j * ne)" if "k < j" "j < n" for j
      proof (cases "j < ?m")
        case True then show ?thesis using k(4) that by simp
      next
        case False
        have "c < t ! (?m * ne)" using no at[of 0] by simp
        also have "\<dots> \<le> t ! (j * ne)"
          using False "1.prems"(5)[of ?m j] that m by (cases "j = ?m") auto
        finally show ?thesis .
      qed
      then show ?thesis
        using k True no m
        by (intro exI[of _ k]) (auto simp: search.simps[of c t n ne] Let_def)
    qed
  qed
qed


section \<open>Spans of code points\<close>

type_synonym span = "nat \<times> nat"

definition pts :: "span list \<Rightarrow> nat set" where
  "pts xs = {c. \<exists>(a, b) \<in> set xs. a \<le> c \<and> c \<le> b}"

fun asc :: "span list \<Rightarrow> bool" where
  "asc [] = True"
| "asc [(a, b)] = (a \<le> b)"
| "asc ((a, b) # (c, d) # xs) = (a \<le> b \<and> b < c \<and> asc ((c, d) # xs))"

text \<open>The rows of a flat table.\<close>

fun range_rows :: "nat list \<Rightarrow> span list" where
  "range_rows (a # b # t) = (a, b) # range_rows t"
| "range_rows _ = []"

fun delta_rows :: "nat list \<Rightarrow> (span \<times> nat) list" where
  "delta_rows (a # b # d # t) = ((a, b), d) # delta_rows t"
| "delta_rows _ = []"

fun single_rows :: "nat list \<Rightarrow> (span \<times> nat) list" where
  "single_rows (a # d # t) = ((a, a), d) # single_rows t"
| "single_rows _ = []"

definition singles :: "nat list \<Rightarrow> span list" where
  "singles t = map (\<lambda>a. (a, a)) t"

lemma pts_simps [simp]:
  "pts [] = {}" "pts ((a, b) # xs) = {a..b} \<union> pts xs" "pts (xs @ ys) = pts xs \<union> pts ys"
  by (auto simp: pts_def)

lemma pts_sort_key [simp]: "pts (sort_key f xs) = pts xs"
  by (simp add: pts_def)

lemma pts_singles [simp]: "pts (singles t) = set t"
  by (induction t) (auto simp: singles_def)

lemma asc_first: "asc ((a, b) # xs) \<Longrightarrow> x \<in> set xs \<Longrightarrow> a \<le> b \<and> b < fst x"
  by (induction xs arbitrary: a b) (fastforce split: prod.splits)+

lemma asc_Cons: "asc (x # xs) \<Longrightarrow> asc xs"
  by (cases x; cases xs) auto

lemma asc_nonempty: "asc xs \<Longrightarrow> x \<in> set xs \<Longrightarrow> fst x \<le> snd x"
proof (induction xs)
  case (Cons y ys)
  then show ?case by (cases y; cases ys) (auto dest: asc_Cons)
qed simp

lemma asc_nth: "asc xs \<Longrightarrow> i < j \<Longrightarrow> j < length xs \<Longrightarrow> snd (xs ! i) < fst (xs ! j)"
proof (induction xs arbitrary: i j)
  case (Cons x xs)
  obtain a b where x: "x = (a, b)" by fastforce
  from Cons show ?case
    using asc_first[of a b xs "xs ! (j - 1)"] asc_Cons[of x xs]
    by (cases i; cases j) (auto simp: x)
qed simp

lemma length_range_rows: "length (range_rows t) = length t div 2"
  by (induction t rule: range_rows.induct) auto

lemma length_delta_rows: "length (delta_rows t) = length t div 3"
  by (induction t rule: delta_rows.induct) auto

lemma length_single_rows: "length (single_rows t) = length t div 2"
  by (induction t rule: single_rows.induct) auto

lemma nth_range_rows: "i < length t div 2 \<Longrightarrow> range_rows t ! i = (t ! (i * 2), t ! (i * 2 + 1))"
proof (induction t arbitrary: i rule: range_rows.induct)
  case (1 a b t) then show ?case by (cases i) auto
qed auto

lemma nth_delta_rows:
  "i < length t div 3 \<Longrightarrow> delta_rows t ! i = ((t ! (i * 3), t ! (i * 3 + 1)), t ! (i * 3 + 2))"
proof (induction t arbitrary: i rule: delta_rows.induct)
  case (1 a b d t) then show ?case by (cases i) auto
qed auto

lemma nth_single_rows:
  "i < length t div 2 \<Longrightarrow> single_rows t ! i = ((t ! (i * 2), t ! (i * 2)), t ! (i * 2 + 1))"
proof (induction t arbitrary: i rule: single_rows.induct)
  case (1 a d t) then show ?case by (cases i) auto
qed auto

lemma set_range_rows:
  "(a, b) \<in> set (range_rows t) \<longleftrightarrow>
     (\<exists>i<length t div 2. t ! (i * 2) = a \<and> t ! (i * 2 + 1) = b)"
  by (simp add: in_set_conv_nth length_range_rows nth_range_rows cong: conj_cong)

lemma set_delta_rows:
  "((a, b), d) \<in> set (delta_rows t) \<longleftrightarrow>
     (\<exists>i<length t div 3. t ! (i * 3) = a \<and> t ! (i * 3 + 1) = b \<and> t ! (i * 3 + 2) = d)"
  by (simp add: in_set_conv_nth length_delta_rows nth_delta_rows conj_assoc cong: conj_cong)

lemma set_single_rows:
  "((a, b), d) \<in> set (single_rows t) \<longleftrightarrow>
     (\<exists>i<length t div 2. t ! (i * 2) = a \<and> t ! (i * 2) = b \<and> t ! (i * 2 + 1) = d)"
  by (simp add: in_set_conv_nth length_single_rows nth_single_rows conj_assoc cong: conj_cong)

lemma search_span:
  assumes "asc xs" "length xs = n" "n * ne \<le> length t" "0 < ne"
    "\<And>i. i < n \<Longrightarrow> fst (xs ! i) = t ! (i * ne)"
  shows "case search c t n ne of
      None \<Rightarrow> \<forall>i<n. \<not> (fst (xs ! i) \<le> c \<and> c \<le> snd (xs ! i))
    | Some p \<Rightarrow> \<exists>k<n. p = drop (k * ne) t \<and>
        (\<forall>i<n. fst (xs ! i) \<le> c \<and> c \<le> snd (xs ! i) \<longrightarrow> i = k)"
proof -
  have le: "fst (xs ! i) \<le> snd (xs ! i)" if "i < n" for i
    using asc_nonempty[OF assms(1), of "xs ! i"] that assms(2) by simp
  have lt: "t ! (i * ne) < t ! (j * ne)" if "i < j" "j < n" for i j
    using asc_nth[OF assms(1) that(1)] le[of i] that assms(2) assms(5)[of i] assms(5)[of j] by simp
  show ?thesis
  proof (cases "0 < n \<and> t ! 0 \<le> c")
    case True
    then obtain k where k: "k < n" "search c t n ne = Some (drop (k * ne) t)"
      "t ! (k * ne) \<le> c" "\<And>j. k < j \<Longrightarrow> j < n \<Longrightarrow> c < t ! (j * ne)"
      using search_some[of n t c ne] assms(3,4) lt by blast
    have "i = k" if "i < n" "fst (xs ! i) \<le> c" "c \<le> snd (xs ! i)" for i
    proof (rule ccontr)
      assume "i \<noteq> k"
      then consider "i < k" | "k < i" by linarith
      then show False
        using asc_nth[OF assms(1), of i k] k that assms(2) assms(5)[of i] assms(5)[of k]
        by cases fastforce+
    qed
    then show ?thesis using k by auto
  next
    case False
    have "search c t n ne = None"
    proof (cases "n = 0")
      case False
      then show ?thesis
        using \<open>\<not> (0 < n \<and> t ! 0 \<le> c)\<close> lt[of 0] assms(3,4)
        by (intro search_none) (auto intro: less_imp_le)
    qed (simp add: search.simps[of c t 0 ne])
    moreover have "\<not> fst (xs ! i) \<le> c" if "i < n" for i
      using False that lt[of 0 i] assms(5)[of i] by (cases "i = 0") auto
    ultimately show ?thesis by simp
  qed
qed

lemma search_span_cases:
  assumes "asc xs" "length xs = n" "n * ne \<le> length t" "0 < ne"
    "\<And>i. i < n \<Longrightarrow> fst (xs ! i) = t ! (i * ne)"
  obtains (out) "search c t n ne = None"
      "\<And>i. i < n \<Longrightarrow> fst (xs ! i) \<le> c \<Longrightarrow> c \<le> snd (xs ! i) \<Longrightarrow> False"
  | (hit) k where "k < n" "search c t n ne = Some (drop (k * ne) t)"
      "\<And>i. i < n \<Longrightarrow> fst (xs ! i) \<le> c \<Longrightarrow> c \<le> snd (xs ! i) \<Longrightarrow> i = k"
  using search_span[OF assms, of c] by (cases "search c t n ne") auto

lemma in_ranges_iff:
  assumes "asc (range_rows t)"
  shows "in_ranges c t \<longleftrightarrow> unat c \<in> pts (range_rows t)"
proof -
  let ?n = "length t div 2"
  have pts: "unat c \<in> pts (range_rows t) \<longleftrightarrow>
      (\<exists>i<?n. t ! (i * 2) \<le> unat c \<and> unat c \<le> t ! (i * 2 + 1))"
    unfolding pts_def by (simp add: set_range_rows Bex_def) blast
  show ?thesis
  proof (cases rule: search_span_cases[OF assms, of ?n 2 t "unat c", case_names len room pos key out hit])
    case out
    then show ?thesis by (auto simp: in_ranges_def pts nth_range_rows)
  next
    case (hit k)
    then have "in_ranges c t \<longleftrightarrow> t ! (k * 2) \<le> unat c \<and> unat c \<le> t ! (k * 2 + 1)"
      by (simp add: in_ranges_def)
    also have "\<dots> \<longleftrightarrow> unat c \<in> pts (range_rows t)"
      unfolding pts using hit(1) hit(3) by (auto simp: nth_range_rows)
    finally show ?thesis .
  qed (simp_all add: length_range_rows nth_range_rows)
qed

lemma in_singles_iff:
  assumes "asc (singles t)"
  shows "in_singles c t \<longleftrightarrow> unat c \<in> set t"
proof (cases rule: search_span_cases[OF assms, of "length t" 1 t "unat c", case_names len room pos key out hit])
  case out
  then show ?thesis
    by (simp add: in_singles_def singles_def) (metis in_set_conv_nth order_refl)
next
  case (hit k)
  then have "in_singles c t \<longleftrightarrow> unat c = t ! k" by (simp add: in_singles_def)
  also have "\<dots> \<longleftrightarrow> unat c \<in> set t"
    using hit(1) hit(3) by (auto simp: singles_def in_set_conv_nth)
  finally show ?thesis .
qed (simp_all add: singles_def)

lemma range_delta_iff:
  assumes "asc (map fst (delta_rows t))"
  shows "range_delta c t = Some w \<longleftrightarrow>
    (\<exists>a b d. ((a, b), d) \<in> set (delta_rows t) \<and> a \<le> unat c \<and> unat c \<le> b \<and>
       w = c + of_nat d - 1048576)"
proof -
  let ?P = "\<lambda>i. t ! (i * 3) \<le> unat c \<and> unat c \<le> t ! (i * 3 + 1) \<and>
    w = c + of_nat (t ! (i * 3 + 2)) - 1048576"
  have rows: "(\<exists>a b d. ((a, b), d) \<in> set (delta_rows t) \<and> a \<le> unat c \<and> unat c \<le> b \<and>
      w = c + of_nat d - 1048576) \<longleftrightarrow>
      (\<exists>i<length t div 3. t ! (i * 3) \<le> unat c \<and> unat c \<le> t ! (i * 3 + 1) \<and>
        w = c + of_nat (t ! (i * 3 + 2)) - 1048576)"
    unfolding set_delta_rows by blast
  show ?thesis
  proof (cases rule: search_span_cases[OF assms, of "length t div 3" 3 t "unat c",
        case_names len room pos key out hit])
    case out
    then have "range_delta c t = None" by (simp add: range_delta_def)
    then show ?thesis
      unfolding rows using out(2) by (auto simp: length_delta_rows nth_delta_rows)
  next
    case (hit k)
    have uniq: "i = k" if "i < length t div 3" "t ! (i * 3) \<le> unat c" "unat c \<le> t ! (i * 3 + 1)" for i
      using hit(3)[of i] that by (simp add: length_delta_rows nth_delta_rows)
    from hit(1,2) have "range_delta c t = (if t ! (k * 3) \<le> unat c \<and> unat c \<le> t ! (k * 3 + 1)
        then Some (c + of_nat (t ! (k * 3 + 2)) - 1048576) else None)"
      by (auto simp: range_delta_def)
    then have "range_delta c t = Some w \<longleftrightarrow> ?P k" by auto
    moreover have "(\<exists>i<length t div 3. ?P i) \<longleftrightarrow> ?P k" using hit(1) uniq by blast
    ultimately show ?thesis unfolding rows by blast
  qed (simp_all add: length_delta_rows nth_delta_rows)
qed

lemma single_delta_iff:
  assumes "asc (map fst (single_rows t))"
  shows "single_delta c t = Some w \<longleftrightarrow>
    (\<exists>a b d. ((a, b), d) \<in> set (single_rows t) \<and> a \<le> unat c \<and> unat c \<le> b \<and>
       w = c + of_nat d - 1048576)"
proof -
  let ?P = "\<lambda>i. t ! (i * 2) \<le> unat c \<and> unat c \<le> t ! (i * 2) \<and>
    w = c + of_nat (t ! (i * 2 + 1)) - 1048576"
  have rows: "(\<exists>a b d. ((a, b), d) \<in> set (single_rows t) \<and> a \<le> unat c \<and> unat c \<le> b \<and>
      w = c + of_nat d - 1048576) \<longleftrightarrow>
      (\<exists>i<length t div 2. t ! (i * 2) \<le> unat c \<and> unat c \<le> t ! (i * 2) \<and>
        w = c + of_nat (t ! (i * 2 + 1)) - 1048576)"
    unfolding set_single_rows by blast
  show ?thesis
  proof (cases rule: search_span_cases[OF assms, of "length t div 2" 2 t "unat c",
        case_names len room pos key out hit])
    case out
    then have "single_delta c t = None" by (simp add: single_delta_def)
    then show ?thesis
      unfolding rows using out(2) by (simp add: length_single_rows nth_single_rows) metis
  next
    case (hit k)
    have uniq: "i = k" if "i < length t div 2" "t ! (i * 2) \<le> unat c" "unat c \<le> t ! (i * 2)" for i
      using hit(3)[of i] that by (simp add: length_single_rows nth_single_rows)
    from hit(1,2) have "single_delta c t = (if t ! (k * 2) \<le> unat c \<and> unat c \<le> t ! (k * 2)
        then Some (c + of_nat (t ! (k * 2 + 1)) - 1048576) else None)"
      by (auto simp: single_delta_def)
    then have "single_delta c t = Some w \<longleftrightarrow> ?P k" by auto
    moreover have "(\<exists>i<length t div 2. ?P i) \<longleftrightarrow> ?P k" using hit(1) uniq by blast
    ultimately show ?thesis unfolding rows by blast
  qed (simp_all add: length_single_rows nth_single_rows)
qed

section \<open>The tables are ordered\<close>

named_theorems table_order

lemma asc_isspacer [table_order]: "asc (range_rows isspacer)"
  by (simp add: isspacer_def)

lemma asc_isdigitr [table_order]: "asc (range_rows isdigitr)"
  by (simp add: isdigitr_def)

lemma asc_isalphar [table_order]: "asc (range_rows isalphar)"
  by (simp add: isalphar_def)

lemma asc_isalphas [table_order]: "asc (singles isalphas)"
  by (simp add: isalphas_def singles_def)

lemma asc_isupperr [table_order]: "asc (range_rows isupperr)"
  by (simp add: isupperr_def)

lemma asc_isuppers [table_order]: "asc (singles isuppers)"
  by (simp add: isuppers_def singles_def)

lemma asc_islowerr [table_order]: "asc (range_rows islowerr)"
  by (simp add: islowerr_def)

lemma asc_islowers [table_order]: "asc (singles islowers)"
  by (simp add: islowers_def singles_def)

lemma asc_istitler [table_order]: "asc (range_rows istitler)"
  by (simp add: istitler_def)

lemma asc_istitles [table_order]: "asc (singles istitles)"
  by (simp add: istitles_def singles_def)

lemma asc_toupperr [table_order]: "asc (map fst (delta_rows toupperr))"
  by (simp add: toupperr_def)

lemma asc_touppers [table_order]: "asc (map fst (single_rows touppers))"
  by (simp add: touppers_def)

lemma asc_tolowerr [table_order]: "asc (map fst (delta_rows tolowerr))"
  by (simp add: tolowerr_def)

lemma asc_tolowers [table_order]: "asc (map fst (single_rows tolowers))"
  by (simp add: tolowers_def)

lemma asc_totitler [table_order]: "asc (map fst (delta_rows totitler))"
  by (simp add: totitler_def)

lemma asc_totitles [table_order]: "asc (map fst (single_rows totitles))"
  by (simp add: totitles_def)

end
