(* ===== verification/Unicode_Facts.thy ===== *)
theory Unicode_Facts
  imports Unicode_Class
begin

text \<open>
  What the code point tables of \<open>irccd/unicode.c\<close> promise: the binary search answers as a
  scan of every row would, no code point is in two of the classes that exclude each other,
  and the case conversions are stable, whatever code point they are given.  The tables are
  compared by walking two lists of spans side by side.
\<close>

section \<open>Comparing lists of spans\<close>

fun apart :: "span list \<Rightarrow> span list \<Rightarrow> bool" where
  "apart [] ys = True"
| "apart xs [] = True"
| "apart ((a, b) # xs) ((c, d) # ys) =
     (if b < c then apart xs ((c, d) # ys)
      else d < a \<and> apart ((a, b) # xs) ys)"

fun gaps :: "nat \<Rightarrow> span list \<Rightarrow> span list" where
  "gaps lo [] = [(lo, 2 ^ 32)]"
| "gaps lo ((a, b) # xs) =
     (if lo < a then (lo, a - 1) # gaps (max lo (Suc b)) xs else gaps (max lo (Suc b)) xs)"

fun merge_spans :: "span list \<Rightarrow> span list \<Rightarrow> span list" where
  "merge_spans [] ys = ys"
| "merge_spans xs [] = xs"
| "merge_spans (x # xs) (y # ys) =
     (if fst x \<le> fst y then x # merge_spans xs (y # ys) else y # merge_spans (x # xs) ys)"

fun join_pairs :: "span list list \<Rightarrow> span list list" where
  "join_pairs (xs # ys # zss) = merge_spans xs ys # join_pairs zss"
| "join_pairs zss = zss"

lemma length_join_pairs: "length (join_pairs zss) = (length zss + 1) div 2"
  by (induction zss rule: join_pairs.induct) auto

function join_all :: "span list list \<Rightarrow> span list" where
  "join_all [] = []"
| "join_all [xs] = xs"
| "join_all (xs # ys # zss) = join_all (join_pairs (xs # ys # zss))"
  by pat_completeness auto
termination
  by (relation "measure length") (auto simp: length_join_pairs)

definition arrange :: "span list \<Rightarrow> span list" where
  "arrange xs = join_all (map (\<lambda>x. [x]) xs)"

definition clear :: "span list \<Rightarrow> span list \<Rightarrow> bool" where
  "clear xs ys = apart (arrange xs) (arrange ys)"

definition within :: "span list \<Rightarrow> span list \<Rightarrow> bool" where
  "within xs ys = clear xs (gaps 0 (arrange ys))"

lemma set_join [simp]: "set (merge_spans xs ys) = set xs \<union> set ys"
  by (induction xs ys rule: merge_spans.induct) auto

lemma sorted_join: "sorted (map fst xs) \<Longrightarrow> sorted (map fst ys) \<Longrightarrow> sorted (map fst (merge_spans xs ys))"
  by (induction xs ys rule: merge_spans.induct) auto

lemma join_pairs_sets: "(\<Union>xs \<in> set (join_pairs zss). set xs) = (\<Union>xs \<in> set zss. set xs)"
  by (induction zss rule: join_pairs.induct) auto

lemma join_pairs_sorted:
  "\<forall>xs \<in> set zss. sorted (map fst xs) \<Longrightarrow> \<forall>xs \<in> set (join_pairs zss). sorted (map fst xs)"
  by (induction zss rule: join_pairs.induct) (auto simp: sorted_join)

lemma set_join_all: "set (join_all zss) = (\<Union>xs \<in> set zss. set xs)"
proof (induction zss rule: join_all.induct)
  case (3 xs ys zss)
  then show ?case using join_pairs_sets[of "xs # ys # zss"] by simp
qed auto

lemma sorted_join_all: "\<forall>xs \<in> set zss. sorted (map fst xs) \<Longrightarrow> sorted (map fst (join_all zss))"
proof (induction zss rule: join_all.induct)
  case (3 xs ys zss)
  then show ?case
    using "3.IH"[OF join_pairs_sorted[OF "3.prems"]] by (simp only: join_all.simps)
qed auto

lemma pts_arrange [simp]: "pts (arrange xs) = pts xs"
  by (auto simp: arrange_def set_join_all pts_def)

lemma sorted_arrange: "sorted (map fst (arrange xs))"
  unfolding arrange_def by (rule sorted_join_all) auto

lemma apart_disjoint:
  "sorted (map fst xs) \<Longrightarrow> sorted (map fst ys) \<Longrightarrow> apart xs ys \<Longrightarrow> pts xs \<inter> pts ys = {}"
proof (induction xs ys rule: apart.induct)
  case (3 a b xs c d ys)
  have before: "x \<notin> pts zs" if "\<forall>z \<in> set zs. x < fst z" for x and zs :: "span list"
    using that by (fastforce simp: pts_def)
  show ?case
  proof (cases "b < c")
    case True
    then have "pts xs \<inter> pts ((c, d) # ys) = {}" using "3" by simp
    moreover have "x \<notin> pts ((c, d) # ys)" if "x \<in> {a..b}" for x
      by (rule before) (use that True "3.prems"(2) in fastforce)
    ultimately show ?thesis by auto
  next
    case False
    then have "pts ((a, b) # xs) \<inter> pts ys = {}" "d < a" using "3" by simp_all
    moreover have "x \<notin> pts ((a, b) # xs)" if "x \<in> {c..d}" for x
      by (rule before) (use that \<open>d < a\<close> "3.prems"(1) in fastforce)
    ultimately show ?thesis by auto
  qed
qed auto

lemma pts_iff: "x \<in> pts xs \<longleftrightarrow> (\<exists>a b. (a, b) \<in> set xs \<and> a \<le> x \<and> x \<le> b)"
  by (auto simp: pts_def)

lemma clear_disjoint: "clear xs ys \<Longrightarrow> x \<in> pts xs \<Longrightarrow> x \<in> pts ys \<Longrightarrow> False"
  using apart_disjoint[OF sorted_arrange sorted_arrange, of xs ys]
  by (auto simp: clear_def)

lemma gaps_complement: "lo \<le> x \<Longrightarrow> x \<le> 2 ^ 32 \<Longrightarrow> x \<notin> pts xs \<Longrightarrow> x \<in> pts (gaps lo xs)"
  by (induction lo xs rule: gaps.induct) (auto simp: max_def split: if_splits)

lemma within_subset: "within xs ys \<Longrightarrow> x \<in> pts xs \<Longrightarrow> x \<le> 2 ^ 32 \<Longrightarrow> x \<in> pts ys"
  unfolding within_def using clear_disjoint gaps_complement[of 0 x "arrange ys"] by auto

section \<open>The classes\<close>

lemma uni_isspace_iff: "uni_isspace c \<longleftrightarrow> unat c \<in> pts (range_rows isspacer)"
  by (simp add: uni_isspace_def in_ranges_iff table_order)

lemma uni_isdigit_iff: "uni_isdigit c \<longleftrightarrow> unat c \<in> pts (range_rows isdigitr)"
  by (simp add: uni_isdigit_def in_ranges_iff table_order)

lemma uni_isalpha_iff: "uni_isalpha c \<longleftrightarrow> unat c \<in> pts (range_rows isalphar @ singles isalphas)"
  by (simp add: uni_isalpha_def in_ranges_iff in_singles_iff table_order)

lemma uni_isupper_iff: "uni_isupper c \<longleftrightarrow> unat c \<in> pts (range_rows isupperr @ singles isuppers)"
  by (simp add: uni_isupper_def in_ranges_iff in_singles_iff table_order)

lemma uni_islower_iff: "uni_islower c \<longleftrightarrow> unat c \<in> pts (range_rows islowerr @ singles islowers)"
  by (simp add: uni_islower_def in_ranges_iff in_singles_iff table_order)

lemma uni_istitle_iff: "uni_istitle c \<longleftrightarrow> unat c \<in> pts (range_rows istitler @ singles istitles)"
  by (simp add: uni_istitle_def in_ranges_iff in_singles_iff table_order)

lemmas class_iff = uni_isspace_iff uni_isdigit_iff uni_isalpha_iff uni_isupper_iff
  uni_islower_iff uni_istitle_iff

section \<open>The case conversions\<close>

definition images :: "(span \<times> nat) list \<Rightarrow> span list" where
  "images rows = map (\<lambda>((a, b), d). (a + d - 1048576, b + d - 1048576)) rows"

definition spans_fit :: "(span \<times> nat) list \<Rightarrow> bool" where
  "spans_fit rows = list_all (\<lambda>((a, b), d). 1048576 \<le> a + d \<and> b + d < 2 ^ 32) rows"

lemma unat_delta:
  fixes c :: u32
  assumes "a \<le> unat c" "unat c \<le> b" "1048576 \<le> a + d" "b + d < 2 ^ 32"
  shows "unat (c + of_nat d - 1048576) = unat c + d - 1048576"
proof -
  have "unat (c + of_nat d) = unat c + d"
    using assms by (simp add: unat_add_lem [THEN iffD1] unat_of_nat)
  then show ?thesis
    using assms by (simp add: unat_sub word_le_nat_alt)
qed

locale case_map =
  fixes conv :: "u32 \<Rightarrow> u32" and rows :: "(span \<times> nat) list"
  assumes row: "unat c \<in> pts (map fst rows) \<Longrightarrow>
      \<exists>a b d. ((a, b), d) \<in> set rows \<and> a \<le> unat c \<and> unat c \<le> b \<and>
        conv c = c + of_nat d - 1048576"
    and skip: "unat c \<notin> pts (map fst rows) \<Longrightarrow> conv c = c"
    and fit: "spans_fit rows"
    and away: "clear (images rows) (map fst rows)"
begin

lemma image: "unat c \<in> pts (map fst rows) \<Longrightarrow> unat (conv c) \<in> pts (images rows)"
proof -
  assume "unat c \<in> pts (map fst rows)"
  then obtain a b d where r: "((a, b), d) \<in> set rows" "a \<le> unat c" "unat c \<le> b"
    "conv c = c + of_nat d - 1048576"
    using row by blast
  then have "1048576 \<le> a + d" "b + d < 2 ^ 32"
    using fit by (auto simp: spans_fit_def list_all_iff)
  then have "unat (conv c) = unat c + d - 1048576"
    using unat_delta[OF r(2,3)] r(4) by simp
  then show ?thesis
    using r by (auto simp: pts_def images_def intro!: bexI[of _ "((a, b), d)"])
qed

lemma idem: "conv (conv c) = conv c"
proof (cases "unat c \<in> pts (map fst rows)")
  case True
  then show ?thesis using image clear_disjoint[OF away] skip by blast
qed (simp add: skip)

lemma changed: "conv c \<noteq> c \<Longrightarrow> unat (conv c) \<in> pts (images rows)"
  using image skip by blast

lemma into: "within (images rows) ys \<Longrightarrow> conv c \<noteq> c \<Longrightarrow> unat (conv c) \<in> pts ys"
  using within_subset[of "images rows" ys "unat (conv c)"] changed
    unsigned_less[where 'a = nat and w = "conv c"] by simp

lemma stays: "clear ys (map fst rows) \<Longrightarrow> unat c \<in> pts ys \<Longrightarrow> conv c = c"
  using clear_disjoint skip by blast

end

lemma delta_row:
  assumes "asc (map fst (delta_rows r))" "asc (map fst (single_rows s))"
    and conv: "conv = (\<lambda>c. case range_delta c r of Some d \<Rightarrow> d
       | None \<Rightarrow> (case single_delta c s of Some d \<Rightarrow> d | None \<Rightarrow> c))"
  shows "unat c \<in> pts (map fst (delta_rows r @ single_rows s)) \<Longrightarrow>
      \<exists>a b d. ((a, b), d) \<in> set (delta_rows r @ single_rows s) \<and> a \<le> unat c \<and> unat c \<le> b \<and>
        conv c = c + of_nat d - 1048576"
    and "unat c \<notin> pts (map fst (delta_rows r @ single_rows s)) \<Longrightarrow> conv c = c"
proof -
  have none: "range_delta c r = None \<longleftrightarrow> unat c \<notin> pts (map fst (delta_rows r))"
    using range_delta_iff[OF assms(1), of c]
    by (cases "range_delta c r") (fastforce simp: pts_def)+
  have none': "single_delta c s = None \<longleftrightarrow> unat c \<notin> pts (map fst (single_rows s))"
    using single_delta_iff[OF assms(2), of c]
    by (cases "single_delta c s") (fastforce simp: pts_def)+
  show "unat c \<in> pts (map fst (delta_rows r @ single_rows s)) \<Longrightarrow>
      \<exists>a b d. ((a, b), d) \<in> set (delta_rows r @ single_rows s) \<and> a \<le> unat c \<and> unat c \<le> b \<and>
        conv c = c + of_nat d - 1048576"
  proof (cases "range_delta c r")
    case (Some w)
    then show ?thesis
      using range_delta_iff[OF assms(1), of c w] by (auto simp: conv)
  next
    case None
    assume "unat c \<in> pts (map fst (delta_rows r @ single_rows s))"
    then obtain w where "single_delta c s = Some w" using None none none' by auto
    then show ?thesis
      using None single_delta_iff[OF assms(2), of c w] by (auto simp: conv)
  qed
  show "unat c \<notin> pts (map fst (delta_rows r @ single_rows s)) \<Longrightarrow> conv c = c"
    using none none' by (simp add: conv)
qed

section \<open>What the tables hold\<close>

text \<open>
  Rewrite rules without a conditional on the right evaluate in linear time: the simplifier
  does not visit again what it has put in normal form.
\<close>

lemma apart_eval:
  "apart [] ys" "apart xs []"
  "b < c \<Longrightarrow> apart ((a, b) # xs) ((c, d) # ys) = apart xs ((c, d) # ys)"
  "c \<le> b \<Longrightarrow> d < a \<Longrightarrow> apart ((a, b) # xs) ((c, d) # ys) = apart ((a, b) # xs) ys"
  by (cases xs; auto)+

lemma gaps_eval:
  "gaps lo [] = [(lo, 4294967296)]"
  "lo < a \<Longrightarrow> lo \<le> b \<Longrightarrow> gaps lo ((a, b) # xs) = (lo, a - 1) # gaps (Suc b) xs"
  "a \<le> lo \<Longrightarrow> lo \<le> b \<Longrightarrow> gaps lo ((a, b) # xs) = gaps (Suc b) xs"
  by (simp_all add: max_def)

lemma join_eval:
  "merge_spans [] ys = ys" "merge_spans xs [] = xs"
  "a \<le> c \<Longrightarrow> merge_spans ((a, b) # xs) ((c, d) # ys) = (a, b) # merge_spans xs ((c, d) # ys)"
  "c < a \<Longrightarrow> merge_spans ((a, b) # xs) ((c, d) # ys) = (c, d) # merge_spans ((a, b) # xs) ys"
  by (cases xs; auto)+

lemma pred_numeral_eval: "(numeral n :: nat) - 1 = pred_numeral n"
  by (simp add: numeral_eq_Suc)

lemmas span_eval = apart_eval gaps_eval join_eval join_pairs.simps join_all.simps
  clear_def within_def arrange_def images_def singles_def append.simps list.map prod.case fst_conv
  range_rows.simps delta_rows.simps single_rows.simps
  rel_simps arith_simps le_zero_eq Suc_numeral diff_nat_numeral nat_numeral
  pred_numeral_eval pred_numeral_simps

lemma upper_fits: "spans_fit (delta_rows toupperr @ single_rows touppers)"
  by (simp add: spans_fit_def toupperr_def touppers_def)

lemma upper_away:
  "clear (images (delta_rows toupperr @ single_rows touppers))
     (map fst (delta_rows toupperr @ single_rows touppers))"
  by (simp only: span_eval toupperr_def touppers_def)

lemma upper_into:
  "within (images (delta_rows toupperr @ single_rows touppers))
     (range_rows isupperr @ singles isuppers)"
  by (simp only: span_eval toupperr_def touppers_def isupperr_def isuppers_def)

lemma upper_stays:
  "clear (range_rows isupperr @ singles isuppers)
     (map fst (delta_rows toupperr @ single_rows touppers))"
  by (simp only: span_eval toupperr_def touppers_def isupperr_def isuppers_def)

lemma lower_fits: "spans_fit (delta_rows tolowerr @ single_rows tolowers)"
  by (simp add: spans_fit_def tolowerr_def tolowers_def)

lemma lower_away:
  "clear (images (delta_rows tolowerr @ single_rows tolowers))
     (map fst (delta_rows tolowerr @ single_rows tolowers))"
  by (simp only: span_eval tolowerr_def tolowers_def)

lemma lower_into:
  "within (images (delta_rows tolowerr @ single_rows tolowers))
     (range_rows islowerr @ singles islowers)"
  by (simp only: span_eval tolowerr_def tolowers_def islowerr_def islowers_def)

lemma lower_stays:
  "clear (range_rows islowerr @ singles islowers)
     (map fst (delta_rows tolowerr @ single_rows tolowers))"
  by (simp only: span_eval tolowerr_def tolowers_def islowerr_def islowers_def)

lemma title_fits: "spans_fit (delta_rows totitler @ single_rows totitles)"
  by (simp add: spans_fit_def totitler_def totitles_def)

lemma title_away:
  "clear (images (delta_rows totitler @ single_rows totitles))
     (map fst (delta_rows totitler @ single_rows totitles))"
  by (simp only: span_eval totitler_def totitles_def)

lemma title_into:
  "within (images (delta_rows totitler @ single_rows totitles))
     (range_rows istitler @ singles istitles)"
  by (simp only: span_eval totitler_def totitles_def istitler_def istitles_def)

lemma title_stays:
  "clear (range_rows istitler @ singles istitles)
     (map fst (delta_rows totitler @ single_rows totitles))"
  by (simp only: span_eval totitler_def totitles_def istitler_def istitles_def)

lemma space_digit_clear: "clear (range_rows isspacer) (range_rows isdigitr)"
  by (simp only: span_eval isspacer_def isdigitr_def)

lemma space_alpha_clear: "clear (range_rows isspacer) (range_rows isalphar @ singles isalphas)"
  by (simp only: span_eval isspacer_def isalphar_def isalphas_def)

lemma digit_alpha_clear: "clear (range_rows isdigitr) (range_rows isalphar @ singles isalphas)"
  by (simp only: span_eval isdigitr_def isalphar_def isalphas_def)

lemma upper_lower_clear:
  "clear (range_rows isupperr @ singles isuppers) (range_rows islowerr @ singles islowers)"
  by (simp only: span_eval isupperr_def isuppers_def islowerr_def islowers_def)

lemma upper_conv: "uni_toupper = (\<lambda>c. case range_delta c toupperr of Some d \<Rightarrow> d
    | None \<Rightarrow> (case single_delta c touppers of Some d \<Rightarrow> d | None \<Rightarrow> c))"
  by (rule ext) (simp add: uni_toupper_def)

interpretation upper: case_map uni_toupper "delta_rows toupperr @ single_rows touppers"
  by (unfold_locales, erule delta_row(1)[OF asc_toupperr asc_touppers upper_conv],
    erule delta_row(2)[OF asc_toupperr asc_touppers upper_conv], rule upper_fits, rule upper_away)

lemma lower_conv: "uni_tolower = (\<lambda>c. case range_delta c tolowerr of Some d \<Rightarrow> d
    | None \<Rightarrow> (case single_delta c tolowers of Some d \<Rightarrow> d | None \<Rightarrow> c))"
  by (rule ext) (simp add: uni_tolower_def)

interpretation lower: case_map uni_tolower "delta_rows tolowerr @ single_rows tolowers"
  by (unfold_locales, erule delta_row(1)[OF asc_tolowerr asc_tolowers lower_conv],
    erule delta_row(2)[OF asc_tolowerr asc_tolowers lower_conv], rule lower_fits, rule lower_away)

lemma title_conv: "uni_totitle = (\<lambda>c. case range_delta c totitler of Some d \<Rightarrow> d
    | None \<Rightarrow> (case single_delta c totitles of Some d \<Rightarrow> d | None \<Rightarrow> c))"
  by (rule ext) (simp add: uni_totitle_def)

interpretation title: case_map uni_totitle "delta_rows totitler @ single_rows totitles"
  by (unfold_locales, erule delta_row(1)[OF asc_totitler asc_totitles title_conv],
    erule delta_row(2)[OF asc_totitler asc_totitles title_conv], rule title_fits, rule title_away)

section \<open>Properties\<close>

text \<open>
  C34. The classes are what a scan of their tables gives: a code point is a space or a
  digit if and only if some row of the table holds it, and a letter, upper case, lower case
  or title case if and only if some range holds it or it is one of the single code points.
  The binary search of the code, on a pointer that moves into the table, misses no row.
\<close>
theorem classes_scan:
  "(uni_isspace c \<longleftrightarrow> (\<exists>a b. (a, b) \<in> set (range_rows isspacer) \<and> a \<le> unat c \<and> unat c \<le> b)) \<and>
   (uni_isdigit c \<longleftrightarrow> (\<exists>a b. (a, b) \<in> set (range_rows isdigitr) \<and> a \<le> unat c \<and> unat c \<le> b)) \<and>
   (uni_isalpha c \<longleftrightarrow> (\<exists>a b. (a, b) \<in> set (range_rows isalphar) \<and> a \<le> unat c \<and> unat c \<le> b) \<or>
     unat c \<in> set isalphas) \<and>
   (uni_isupper c \<longleftrightarrow> (\<exists>a b. (a, b) \<in> set (range_rows isupperr) \<and> a \<le> unat c \<and> unat c \<le> b) \<or>
     unat c \<in> set isuppers) \<and>
   (uni_islower c \<longleftrightarrow> (\<exists>a b. (a, b) \<in> set (range_rows islowerr) \<and> a \<le> unat c \<and> unat c \<le> b) \<or>
     unat c \<in> set islowers) \<and>
   (uni_istitle c \<longleftrightarrow> (\<exists>a b. (a, b) \<in> set (range_rows istitler) \<and> a \<le> unat c \<and> unat c \<le> b) \<or>
     unat c \<in> set istitles)"
  unfolding class_iff pts_simps pts_singles Un_iff by (simp add: pts_iff)

text \<open>
  The classes that exclude each other do: no code point is both a space and a digit, a
  space and a letter, a digit and a letter, or upper and lower case.
\<close>
theorem classes_exclusive:
  "\<not> (uni_isspace c \<and> uni_isdigit c) \<and> \<not> (uni_isspace c \<and> uni_isalpha c) \<and>
   \<not> (uni_isdigit c \<and> uni_isalpha c) \<and> \<not> (uni_isupper c \<and> uni_islower c)"
  unfolding class_iff
  using clear_disjoint[OF space_digit_clear] clear_disjoint[OF space_alpha_clear]
    clear_disjoint[OF digit_alpha_clear] clear_disjoint[OF upper_lower_clear]
  by blast

text \<open>
  The case conversions give what they are named after.  Whatever 32-bit value they are
  given, converting twice is converting once; a code point that a conversion changes becomes
  one of the target's class; and a code point that is already of that class stays as it is.
\<close>
theorem case_conversions:
  "(uni_toupper (uni_toupper c) = uni_toupper c \<and>
    (uni_toupper c \<noteq> c \<longrightarrow> uni_isupper (uni_toupper c)) \<and> (uni_isupper c \<longrightarrow> uni_toupper c = c)) \<and>
   (uni_tolower (uni_tolower c) = uni_tolower c \<and>
    (uni_tolower c \<noteq> c \<longrightarrow> uni_islower (uni_tolower c)) \<and> (uni_islower c \<longrightarrow> uni_tolower c = c)) \<and>
   (uni_totitle (uni_totitle c) = uni_totitle c \<and>
    (uni_totitle c \<noteq> c \<longrightarrow> uni_istitle (uni_totitle c)) \<and> (uni_istitle c \<longrightarrow> uni_totitle c = c))"
  unfolding class_iff
  using upper.idem upper.into[OF upper_into] upper.stays[OF upper_stays]
    lower.idem lower.into[OF lower_into] lower.stays[OF lower_stays]
    title.idem title.into[OF title_into] title.stays[OF title_stays]
  by blast

lemma letter_a: "uni_toupper 0x61 = 0x41" "uni_tolower 0x41 = 0x61" "uni_totitle 0x61 = 0x41"
    "uni_isupper 0x41" "uni_islower 0x61" "uni_istitle 0x41"
  by (simp_all add: uni_toupper_def uni_tolower_def uni_totitle_def uni_isupper_def uni_islower_def
      uni_istitle_def range_delta_def in_ranges_def search.simps Let_def
      toupperr_def tolowerr_def totitler_def isupperr_def islowerr_def istitler_def)

lemma case_conversions_witness:
  "uni_isupper (uni_toupper 0x61) \<and> uni_tolower 0x41 \<noteq> 0x41 \<and> uni_islower (uni_tolower 0x41) \<and>
   uni_istitle (uni_totitle 0x61) \<and> uni_toupper 0x41 = 0x41"
  using case_conversions[of "0x61"] case_conversions[of "0x41"] letter_a by simp

end
