(* ===== verification/Script.thy ===== *)
theory Script
  imports Util Complex_Main "HOL-Library.AList"
begin

text \<open>
  Script values and the calls of Duktape the bindings are written with
  (\<open>extern/libduktape/duktape.c\<close>).  A value is what the interpreter hands over: numbers are
  doubles, that is rationals, infinities and not-a-number; an object is the list of its own
  properties in the order of their creation; a function is only a name here, for its body
  is script code.  Strings hold no NUL byte.

  A binding receives the values of its call and returns a value, throws, or brings the
  program down: \<open>Crash\<close> is a failed assertion or a NULL that is followed.  The functions
  that read an argument pass what they read to the rest of the binding, as an error leaves
  it at that point.
\<close>

section \<open>Values\<close>

datatype num = Fin rat | Infinite bool | NaN

datatype jsval = JUndefined | JNull | JBool bool | JNum num | JStr string
  | JArr "jsval list" | JObj "(string \<times> jsval) list" | JFun string | JPtr nat

abbreviation JInt :: "int \<Rightarrow> jsval" where
  "JInt i \<equiv> JNum (Fin (of_int i))"

text \<open>\<open>Require t i\<close> is the \<open>TypeError\<close> of the interpreter: type \<open>t\<close> required, argument \<open>i\<close>.\<close>

datatype jsexc = Require string nat | Type_error string | Range_error string | Plain_error string
  | System_error int | Script_error jsval

datatype 'a js = Ret 'a | Throw jsexc | Crash

definition jbind :: "'a js \<Rightarrow> ('a \<Rightarrow> 'b js) \<Rightarrow> 'b js" where
  "jbind r k = (case r of Ret x \<Rightarrow> k x | Throw e \<Rightarrow> Throw e | Crash \<Rightarrow> Crash)"

lemma jbind_simps [simp]:
  "jbind (Ret x) k = k x" "jbind (Throw e) k = Throw e" "jbind Crash k = Crash"
  by (simp_all add: jbind_def)

section \<open>Types of values\<close>

fun is_object :: "jsval \<Rightarrow> bool" where
  "is_object (JArr _) = True"
| "is_object (JObj _) = True"
| "is_object (JFun _) = True"
| "is_object _ = False"

fun is_string :: "jsval \<Rightarrow> bool" where
  "is_string (JStr _) = True"
| "is_string _ = False"

fun is_number :: "jsval \<Rightarrow> bool" where
  "is_number (JNum _) = True"
| "is_number _ = False"

fun is_function :: "jsval \<Rightarrow> bool" where
  "is_function (JFun _) = True"
| "is_function _ = False"

section \<open>Numbers\<close>

definition toward_zero :: "rat \<Rightarrow> int" where
  "toward_zero r = (if r < 0 then \<lceil>r\<rceil> else \<lfloor>r\<rfloor>)"

fun coerce_int :: "int \<Rightarrow> int \<Rightarrow> num \<Rightarrow> int" where
  "coerce_int lo hi NaN = 0"
| "coerce_int lo hi (Infinite pos) = (if pos then hi else lo)"
| "coerce_int lo hi (Fin r) = (if r < of_int lo then lo else if of_int hi < r then hi else toward_zero r)"

definition duk__api_coerce_d2i :: "num \<Rightarrow> int" where
  "duk__api_coerce_d2i d = coerce_int (- (2 ^ 31)) (2 ^ 31 - 1) d"

definition duk__api_coerce_d2ui :: "num \<Rightarrow> int" where
  "duk__api_coerce_d2ui d = coerce_int 0 (2 ^ 32 - 1) d"

lemma coerce_int_bounds: "lo \<le> 0 \<Longrightarrow> 0 \<le> hi \<Longrightarrow> lo \<le> coerce_int lo hi d \<and> coerce_int lo hi d \<le> hi"
proof (cases d)
  case (Fin r)
  assume lo: "lo \<le> 0" "0 \<le> hi"
  have "lo \<le> toward_zero r" if "of_int lo \<le> r"
    using that lo by (auto simp: toward_zero_def le_floor_iff le_ceiling_iff)
  moreover have "toward_zero r \<le> hi" if "r \<le> of_int hi"
    using that lo by (auto simp: toward_zero_def ceiling_le_iff floor_le_iff)
  moreover have "rat_of_int lo \<le> of_int hi" using lo by simp
  ultimately show ?thesis using Fin lo by auto
qed auto

section \<open>Arguments\<close>

type_synonym args = "jsval list"

text \<open>An index past the last argument reads like \<open>undefined\<close>.\<close>

definition js_arg :: "args \<Rightarrow> nat \<Rightarrow> jsval" where
  "js_arg as i = (if i < length as then as ! i else JUndefined)"

definition duk_require_string :: "args \<Rightarrow> nat \<Rightarrow> (string \<Rightarrow> 'a js) \<Rightarrow> 'a js" where
  "duk_require_string as i k = (case js_arg as i of JStr s \<Rightarrow> k s | _ \<Rightarrow> Throw (Require ''string'' i))"

definition duk_get_string_default :: "args \<Rightarrow> nat \<Rightarrow> string option \<Rightarrow> string option" where
  "duk_get_string_default as i d = (case js_arg as i of JStr s \<Rightarrow> Some s | _ \<Rightarrow> d)"

definition duk_require_int :: "args \<Rightarrow> nat \<Rightarrow> (int \<Rightarrow> 'a js) \<Rightarrow> 'a js" where
  "duk_require_int as i k =
     (case js_arg as i of JNum d \<Rightarrow> k (duk__api_coerce_d2i d) | _ \<Rightarrow> Throw (Require ''number'' i))"

definition duk_get_int :: "args \<Rightarrow> nat \<Rightarrow> int" where
  "duk_get_int as i = (case js_arg as i of JNum d \<Rightarrow> duk__api_coerce_d2i d | _ \<Rightarrow> 0)"

definition duk_require_uint :: "args \<Rightarrow> nat \<Rightarrow> (int \<Rightarrow> 'a js) \<Rightarrow> 'a js" where
  "duk_require_uint as i k =
     (case js_arg as i of JNum d \<Rightarrow> k (duk__api_coerce_d2ui d) | _ \<Rightarrow> Throw (Require ''number'' i))"

definition duk_opt_int :: "args \<Rightarrow> nat \<Rightarrow> int \<Rightarrow> (int \<Rightarrow> 'a js) \<Rightarrow> 'a js" where
  "duk_opt_int as i d k = (if js_arg as i = JUndefined then k d else duk_require_int as i k)"

definition duk_opt_uint :: "args \<Rightarrow> nat \<Rightarrow> int \<Rightarrow> (int \<Rightarrow> 'a js) \<Rightarrow> 'a js" where
  "duk_opt_uint as i d k = (if js_arg as i = JUndefined then k d else duk_require_uint as i k)"

definition duk_require_boolean :: "args \<Rightarrow> nat \<Rightarrow> (bool \<Rightarrow> 'a js) \<Rightarrow> 'a js" where
  "duk_require_boolean as i k = (case js_arg as i of JBool b \<Rightarrow> k b | _ \<Rightarrow> Throw (Require ''boolean'' i))"

definition duk_opt_boolean :: "args \<Rightarrow> nat \<Rightarrow> bool \<Rightarrow> (bool \<Rightarrow> 'a js) \<Rightarrow> 'a js" where
  "duk_opt_boolean as i d k = (if js_arg as i = JUndefined then k d else duk_require_boolean as i k)"

definition duk_require_object :: "args \<Rightarrow> nat \<Rightarrow> 'a js \<Rightarrow> 'a js" where
  "duk_require_object as i k = (if is_object (js_arg as i) then k else Throw (Require ''object'' i))"

text \<open>NULL is pushed as \<open>null\<close>.\<close>

definition duk_push_string :: "string option \<Rightarrow> jsval" where
  "duk_push_string s = (case s of None \<Rightarrow> JNull | Some t \<Rightarrow> JStr t)"

text \<open>
  The text of a number or of an object is up to the interpreter, which may run script code
  for it: that is the parameter \<open>coerce\<close>, \<open>None\<close> when it throws.
\<close>

fun duk_to_string :: "(jsval \<Rightarrow> string option) \<Rightarrow> jsval \<Rightarrow> string option" where
  "duk_to_string coerce JUndefined = Some ''undefined''"
| "duk_to_string coerce JNull = Some ''null''"
| "duk_to_string coerce (JBool b) = Some (if b then ''true'' else ''false'')"
| "duk_to_string coerce (JStr s) = Some s"
| "duk_to_string coerce v = coerce v"

section \<open>Properties\<close>

definition lookup_prop :: "(string \<times> jsval) list \<Rightarrow> string \<Rightarrow> jsval" where
  "lookup_prop ps k = (case map_of ps k of Some v \<Rightarrow> v | None \<Rightarrow> JUndefined)"

fun get_prop :: "jsval \<Rightarrow> string \<Rightarrow> jsval" where
  "get_prop (JObj ps) k = lookup_prop ps k"
| "get_prop _ k = JUndefined"

text \<open>
  Storing a property keeps the place of one that exists.  An array or a function that is
  given named properties is kept as an object with its elements under their indices.
\<close>

fun as_props :: "jsval \<Rightarrow> (string \<times> jsval) list" where
  "as_props (JObj ps) = ps"
| "as_props (JArr xs) = zip (map show_nat [0..<length xs]) xs"
| "as_props _ = []"

definition put_prop :: "jsval \<Rightarrow> string \<Rightarrow> jsval \<Rightarrow> jsval" where
  "put_prop obj k v = JObj (AList.update k v (as_props obj))"

text \<open>Elements put at increasing indices; the indices left out are holes.\<close>

definition put_index :: "jsval list \<Rightarrow> nat \<Rightarrow> jsval \<Rightarrow> jsval list" where
  "put_index xs i v = (if i < length xs then xs[i := v] else xs @ replicate (i - length xs) JUndefined @ [v])"

text \<open>
  \<open>duk_enum\<close> with \<open>DUK_ENUM_ARRAY_INDICES_ONLY\<close> visits the values whose key is the canonical
  text of an array index.
\<close>

definition is_array_index :: "string \<Rightarrow> bool" where
  "is_array_index k =
     (k \<noteq> [] \<and> list_all is_digit k \<and> (hd k \<noteq> CHR ''0'' \<or> k = ''0'') \<and> digits_value k < 2 ^ 32 - 1)"

fun elements :: "jsval \<Rightarrow> jsval list" where
  "elements (JArr xs) = xs"
| "elements (JObj ps) = map snd (filter (\<lambda>(k, _). is_array_index k) ps)"
| "elements _ = []"

section \<open>Native functions\<close>

text \<open>
  A native function returns a value and the new state of the program, or throws before it
  has changed anything.  A function list gives each name its function and the number of its
  arguments: a call with fewer is filled with \<open>undefined\<close> and one with more is cut; \<open>None\<close>
  takes them as they come.
\<close>

type_synonym 'w native = "args \<Rightarrow> 'w \<Rightarrow> (jsval \<times> 'w) js"
type_synonym 'w function_list = "(string \<times> 'w native \<times> nat option) list"

definition call_args :: "nat option \<Rightarrow> args \<Rightarrow> args" where
  "call_args nargs as =
     (case nargs of None \<Rightarrow> as
      | Some n \<Rightarrow> take n (as @ replicate (n - length as) JUndefined))"

definition js_call :: "'w function_list \<Rightarrow> string \<Rightarrow> args \<Rightarrow> 'w \<Rightarrow> (jsval \<times> 'w) js" where
  "js_call fns name as w =
     (case map_of fns name of
        None \<Rightarrow> Throw (Type_error ''not callable'')
      | Some (f, nargs) \<Rightarrow> f (call_args nargs as) w)"

lemma length_call_args [simp]: "length (call_args (Some n) as) = n"
  by (simp add: call_args_def)

lemma call_args_idem [simp]: "length as = n \<Longrightarrow> call_args (Some n) as = as"
  by (simp add: call_args_def)

lemma arg_Cons [simp]:
  "js_arg (v # vs) 0 = v" "js_arg (v # vs) (Suc i) = js_arg vs i" "js_arg [] i = JUndefined"
  by (simp_all add: js_arg_def)

lemma arg_numeral [simp]: "js_arg (v # vs) (numeral n) = js_arg vs (pred_numeral n)"
  by (simp add: numeral_eq_Suc)

lemma arg_call_args: "i < n \<Longrightarrow> js_arg (call_args (Some n) as) i = js_arg as i"
  by (auto simp: js_arg_def call_args_def nth_append)

lemma arg_call_args_none: "n \<le> i \<Longrightarrow> js_arg (call_args (Some n) as) i = JUndefined"
  by (simp add: js_arg_def)

lemma toward_zero_of_int [simp]: "toward_zero (of_int i) = i"
  by (simp add: toward_zero_def)

lemma d2i_of_int [simp]:
  "duk__api_coerce_d2i (Fin (of_int i)) = (if i < - (2 ^ 31) then - (2 ^ 31) else if 2 ^ 31 - 1 < i then 2 ^ 31 - 1 else i)"
  "duk__api_coerce_d2ui (Fin (of_int i)) = (if i < 0 then 0 else if 2 ^ 32 - 1 < i then 2 ^ 32 - 1 else i)"
proof -
  have *: "(of_int i < - (2147483648 :: rat)) = (i < - 2147483648)"
    "((2147483647 :: rat) < of_int i) = (2147483647 < i)"
    "((4294967295 :: rat) < of_int i) = (4294967295 < i)"
    using of_int_less_iff[of i "- 2147483648", where 'a = rat]
      of_int_less_iff[of 2147483647 i, where 'a = rat]
      of_int_less_iff[of 4294967295 i, where 'a = rat] by simp_all
  show "duk__api_coerce_d2i (Fin (of_int i)) = (if i < - (2 ^ 31) then - (2 ^ 31) else if 2 ^ 31 - 1 < i then 2 ^ 31 - 1 else i)"
    "duk__api_coerce_d2ui (Fin (of_int i)) = (if i < 0 then 0 else if 2 ^ 32 - 1 < i then 2 ^ 32 - 1 else i)"
    by (simp_all add: duk__api_coerce_d2i_def duk__api_coerce_d2ui_def *)
qed

end
