(* ===== verification/Js_Util.thy ===== *)
theory Js_Util
  imports Script Subst
begin

text \<open>
  \<open>Irccd.Util\<close> (\<open>irccd/jsapi-util.c\<close>): breaking a text into lines of a limited width,
  filling a template, and the two halves of a user's address.
\<close>

section \<open>Words\<close>

text \<open>
  \<open>strtok_r\<close> called until it returns NULL: the runs of bytes that are no delimiter.
\<close>

fun strtok_all :: "(char \<Rightarrow> bool) \<Rightarrow> string \<Rightarrow> string \<Rightarrow> string list" where
  "strtok_all P w [] = (if w = [] then [] else [w])"
| "strtok_all P w (c # cs) =
     (if P c then (if w = [] then strtok_all P [] cs else w # strtok_all P [] cs)
      else strtok_all P (w @ [c]) cs)"

definition is_sep :: "char \<Rightarrow> bool" where
  "is_sep c = (c = CHR '' '' \<or> c = CHR 0x09 \<or> c = LF)"

definition stringlist_concat :: "string list \<Rightarrow> string \<Rightarrow> string list" where
  "stringlist_concat list value = list @ strtok_all is_sep [] value"

fun split_from_array :: "(jsval \<Rightarrow> string option) \<Rightarrow> jsval list \<Rightarrow> string list \<Rightarrow> string list js" where
  "split_from_array coerce [] list = Ret list"
| "split_from_array coerce (v # vs) list =
     (case duk_to_string coerce v of
        None \<Rightarrow> Throw (Script_error v)
      | Some value \<Rightarrow> split_from_array coerce vs (stringlist_concat list value))"

text \<open>An object that is not an array leaves the list empty.\<close>

definition util_split :: "(jsval \<Rightarrow> string option) \<Rightarrow> args \<Rightarrow> nat \<Rightarrow> string list js" where
  "util_split coerce as index =
     (case js_arg as index of
        JStr s \<Rightarrow> Ret (stringlist_concat [] s)
      | JArr vs \<Rightarrow> split_from_array coerce vs []
      | v \<Rightarrow> if is_object v then Ret [] else Throw (Require ''type'' index))"

section \<open>Lines\<close>

text \<open>The result of type \<open>int\<close> is assigned to a \<open>size_t\<close>, which restores the default.\<close>

definition limit :: "args \<Rightarrow> nat \<Rightarrow> string \<Rightarrow> nat \<Rightarrow> nat js" where
  "limit as index name value =
     (case js_arg as index of
        JNum d \<Rightarrow>
          let newvalue = duk__api_coerce_d2i d in
          if newvalue \<le> 0
          then Throw (Range_error (''argument '' @ show_nat index @ '' ('' @ name @ '') must be positive''))
          else Ret (nat newvalue)
      | _ \<Rightarrow> Ret value)"

fun join_loop :: "nat \<Rightarrow> nat \<Rightarrow> string list \<Rightarrow> nat \<Rightarrow> nat \<Rightarrow> string js" where
  "join_loop maxc maxl [] linesz lineavail = Ret []"
| "join_loop maxc maxl (token # toks) linesz lineavail =
     (if maxc < length token
      then Throw (Range_error (''token '' @ [CHR 0x27] @ token @ [CHR 0x27] @
             '' could not fit in maxc limit ('' @ show_nat maxc @ '')''))
      else
        let toksz = (if 0 < linesz then length token + 1 else length token) in
        if maxc < linesz + toksz then
          (if lineavail - 1 = 0
           then Throw (Range_error (''number of lines exceeds maxl ('' @ show_nat maxl @ '')''))
           else jbind (join_loop maxc maxl toks (length token) (lineavail - 1))
                  (\<lambda>out. Ret (LF # token @ out)))
        else
          jbind (join_loop maxc maxl toks (linesz + toksz) lineavail)
            (\<lambda>out. Ret ((if 0 < linesz then CHR '' '' # token else token) @ out)))"

definition join :: "nat \<Rightarrow> nat \<Rightarrow> string list \<Rightarrow> string js" where
  "join maxc maxl toks = join_loop maxc maxl toks 0 maxl"

definition Util_cut :: "nat \<Rightarrow> (jsval \<Rightarrow> string option) \<Rightarrow> args \<Rightarrow> jsval js" where
  "Util_cut size_max coerce as =
     jbind (limit as 1 ''maxc'' 72) (\<lambda>maxc.
     jbind (limit as 2 ''maxl'' size_max) (\<lambda>maxl.
     jbind (util_split coerce as 0) (\<lambda>toks.
     jbind (join maxc maxl toks) (\<lambda>lines.
     Ret (JArr (map JStr (strtok_all (\<lambda>c. c = LF) [] lines)))))))"

section \<open>Templates\<close>

text \<open>
  The keywords in the order of the object's properties, and the time: seconds since the
  epoch, \<open>now\<close> unless the property \<open>date\<close> gives milliseconds.  Property names are strings,
  so the code's check of that cannot fail.  A date that is no finite number is converted to
  an integer all the same, which is undefined: \<open>None\<close>.
\<close>

definition subspack_keywords :: "(string \<times> jsval) list \<Rightarrow> irc_subst_keyword list" where
  "subspack_keywords ps =
     map (\<lambda>(k, v). \<lparr>kw_key = k,
            kw_value = Some (case v of JStr s \<Rightarrow> s | _ \<Rightarrow> [])\<rparr>)
       (filter (\<lambda>(k, _). k \<noteq> ''date'') ps)"

definition subspack_time :: "int \<Rightarrow> (string \<times> jsval) list \<Rightarrow> int option" where
  "subspack_time now ps =
     (case map_of ps ''date'' of
        None \<Rightarrow> Some now
      | Some (JNum (Fin r)) \<Rightarrow> Some (toward_zero (r / 1000))
      | Some _ \<Rightarrow> None)"

definition subspack_parse :: "int \<Rightarrow> args \<Rightarrow> nat \<Rightarrow> (irc_subst_t \<times> int) option" where
  "subspack_parse now as index =
     (if \<not> is_object (js_arg as index) then Some (\<lparr>su_flags = 0, su_keywords = []\<rparr>, 0)
      else map_option (Pair
             \<lparr>su_flags = IRC_SUBST_DATE OR IRC_SUBST_KEYWORDS OR IRC_SUBST_ENV OR IRC_SUBST_IRC_ATTRS,
              su_keywords = subspack_keywords (as_props (js_arg as index))\<rparr>)
             (subspack_time now (as_props (js_arg as index))))"

text \<open>
  The buffer holds 1024 bytes and is pushed whatever \<open>irc_subst\<close> returns: it is empty after
  an error.  What the operating system answers depends on the time that is formatted.
\<close>

definition Util_format :: "(int \<Rightarrow> subst_os) \<Rightarrow> int \<Rightarrow> args \<Rightarrow> jsval js" where
  "Util_format os now as =
     duk_require_string as 0 (\<lambda>str.
       case subspack_parse now as 1 of
         None \<Rightarrow> Crash
       | Some (pkg, time) \<Rightarrow>
           (case irc_subst (os time) 1024 str pkg of
              None \<Rightarrow> Crash
            | Some (Inr out) \<Rightarrow> Ret (JStr out)
            | Some (Inl _) \<Rightarrow> Ret (JStr [])))"

section \<open>Users\<close>

definition Util_splituser :: "args \<Rightarrow> jsval js" where
  "Util_splituser as =
     duk_require_string as 0 (\<lambda>ident. Ret (JStr (nickname (irc_util_user_split ident))))"

definition Util_splithost :: "args \<Rightarrow> jsval js" where
  "Util_splithost as =
     duk_require_string as 0 (\<lambda>ident. Ret (duk_push_string (host (irc_util_user_split ident))))"

section \<open>The words of a text\<close>

lemma strtok_all_pieces:
  "list_all (\<lambda>x. x \<noteq> [] \<and> list_all (\<lambda>c. \<not> P c) x) (strtok_all P w s) \<longleftrightarrow> list_all (\<lambda>c. \<not> P c) w"
  by (induction P w s rule: strtok_all.induct) simp_all

lemma strtok_all_append: "(\<forall>c \<in> set x. \<not> P c) \<Longrightarrow> strtok_all P w (x @ s) = strtok_all P (w @ x) s"
  by (induction x arbitrary: w) auto

lemma strtok_all_join:
  "P d \<Longrightarrow> (\<forall>x \<in> set xs. x \<noteq> [] \<and> (\<forall>c \<in> set x. \<not> P c)) \<Longrightarrow> strtok_all P [] (join_with d xs) = xs"
proof (induction d xs rule: join_with.induct)
  case (2 d x)
  then show ?case using strtok_all_append[of x P "[]" "[]"] by simp
next
  case (3 d x y ys)
  then show ?case by (simp add: strtok_all_append)
qed simp

section \<open>Breaking words into lines\<close>

abbreviation unwords :: "string list \<Rightarrow> string" where
  "unwords \<equiv> join_with CHR '' ''"

text \<open>Each line takes as many words as it holds.\<close>

fun fill :: "nat \<Rightarrow> string list \<Rightarrow> string list \<Rightarrow> string list list" where
  "fill maxc cur [] = [cur]"
| "fill maxc cur (w # ws) =
     (if length (unwords (cur @ [w])) \<le> maxc then fill maxc (cur @ [w]) ws else cur # fill maxc [w] ws)"

definition greedy :: "nat \<Rightarrow> string list \<Rightarrow> string list list" where
  "greedy maxc ws = (case ws of [] \<Rightarrow> [] | w # ws' \<Rightarrow> fill maxc [w] ws')"

definition layout :: "nat \<Rightarrow> string list \<Rightarrow> string list list \<Rightarrow> bool" where
  "layout maxc ws lss = (concat lss = ws \<and> (\<forall>ls \<in> set lss. ls \<noteq> [] \<and> length (unwords ls) \<le> maxc))"

lemma unwords_snoc: "cur \<noteq> [] \<Longrightarrow> unwords (cur @ [w]) = unwords cur @ CHR '' '' # w"
  by (induction "CHR '' ''" cur rule: join_with.induct) auto

lemma fill_not_empty [simp]: "fill maxc cur ws \<noteq> []"
  by (induction maxc cur ws rule: fill.induct) auto

lemma fill_layout:
  "cur \<noteq> [] \<Longrightarrow> length (unwords cur) \<le> maxc \<Longrightarrow> (\<forall>w \<in> set ws. length w \<le> maxc) \<Longrightarrow>
   layout maxc (cur @ ws) (fill maxc cur ws)"
proof (induction maxc cur ws rule: fill.induct)
  case (2 maxc cur w ws)
  show ?case
  proof (cases "length (unwords (cur @ [w])) \<le> maxc")
    case True
    then show ?thesis using "2.IH"(1)[OF True] "2.prems" by simp
  next
    case False
    then have "layout maxc ([w] @ ws) (fill maxc [w] ws)" using "2.IH"(2)[OF False] "2.prems" by simp
    then show ?thesis using False "2.prems" by (simp add: layout_def)
  qed
qed (simp add: layout_def)

lemma unwords_append: "xs \<noteq> [] \<Longrightarrow> ys \<noteq> [] \<Longrightarrow> unwords (xs @ ys) = unwords xs @ CHR '' '' # unwords ys"
proof (induction "CHR '' ''" xs rule: join_with.induct)
  case (2 x) then show ?case by (cases ys) auto
qed auto

lemma unwords_suffix: "length (unwords ys) \<le> length (unwords (xs @ ys))"
  using unwords_append[of xs ys] by (cases "xs = []"; cases "ys = []") auto

lemma unwords_prefix: "length (unwords xs) \<le> length (unwords (xs @ ys))"
  using unwords_append[of xs ys] by (cases "xs = []"; cases "ys = []") auto

text \<open>
  No layout has fewer lines than the greedy one.  While both walk over the words, the
  greedy line is in the same line as the other one and holds a suffix of it (\<open>k = 0\<close>), or
  it is a line behind (\<open>k = 1\<close>).
\<close>

lemma fill_least:
  "ws = r @ concat rest \<Longrightarrow> (\<forall>l \<in> set rest. l \<noteq> [] \<and> length (unwords l) \<le> maxc) \<Longrightarrow>
   length (unwords (cur' @ r)) \<le> maxc \<Longrightarrow> cur \<noteq> [] \<Longrightarrow> k = 1 \<or> k = 0 \<and> (\<exists>p. cur' = p @ cur) \<Longrightarrow>
   length (fill maxc cur ws) \<le> 1 + k + length rest"
proof (induction ws arbitrary: r rest cur' cur k)
  case (Cons w ws)
  show ?case
  proof (cases r)
    case (Cons x r')
    then have r: "r = w # r'" "ws = r' @ concat rest" using Cons.prems(1) by auto
    have fits: "length (unwords ((cur' @ [w]) @ r')) \<le> maxc" using Cons.prems(3) r by simp
    show ?thesis
    proof (cases "length (unwords (cur @ [w])) \<le> maxc")
      case True
      then have "length (fill maxc cur (w # ws)) = length (fill maxc (cur @ [w]) ws)" by simp
      also have "\<dots> \<le> 1 + k + length rest"
        by (rule Cons.IH[OF r(2) Cons.prems(2) fits]) (use Cons.prems(5) in auto)
      finally show ?thesis .
    next
      case False
      have "k = 1"
      proof (rule ccontr)
        assume "k \<noteq> 1"
        then obtain p where "cur' = p @ cur" using Cons.prems(5) by auto
        then have "length (unwords (cur @ [w])) \<le> length (unwords ((cur' @ [w]) @ r'))"
          using unwords_suffix[of "cur @ [w]" p] unwords_prefix[of "p @ cur @ [w]" r'] by simp
        then show False using False fits by simp
      qed
      have "length (fill maxc [w] ws) \<le> 1 + 0 + length rest"
        by (rule Cons.IH[OF r(2) Cons.prems(2) fits]) auto
      then show ?thesis using False \<open>k = 1\<close> by simp
    qed
  next
    case Nil
    then obtain l rest' where rest: "rest = (w # l) # rest'" "ws = l @ concat rest'"
      using Cons.prems(1,2) by (cases rest) (auto simp: Cons_eq_append_conv)
    have ok: "\<forall>l \<in> set rest'. l \<noteq> [] \<and> length (unwords l) \<le> maxc"
      "length (unwords ([w] @ l)) \<le> maxc"
      using Cons.prems(2) rest(1) by auto
    show ?thesis
    proof (cases "length (unwords (cur @ [w])) \<le> maxc")
      case True
      have "length (fill maxc (cur @ [w]) ws) \<le> 1 + 1 + length rest'"
        by (rule Cons.IH[OF rest(2) ok]) auto
      then show ?thesis using True rest(1) by simp
    next
      case False
      have "length (fill maxc [w] ws) \<le> 1 + 0 + length rest'"
        by (rule Cons.IH[OF rest(2) ok]) auto
      then show ?thesis using False rest(1) by simp
    qed
  qed
qed simp

lemma greedy_least:
  assumes "layout maxc ws lss"
  shows "length (greedy maxc ws) \<le> length lss"
proof (cases ws)
  case (Cons w ws')
  then obtain l rest where "lss = (w # l) # rest" "ws' = l @ concat rest"
    using assms by (cases lss; cases "hd lss") (auto simp: layout_def)
  then show ?thesis
    using fill_least[of ws' l rest maxc "[w]" "[w]" 0] assms Cons
    by (simp add: greedy_def layout_def)
qed (simp add: greedy_def)

lemma greedy_layout: "(\<forall>w \<in> set ws. length w \<le> maxc) \<Longrightarrow> layout maxc ws (greedy maxc ws)"
  using fill_layout[of "[hd ws]" maxc "tl ws"] by (cases ws) (auto simp: greedy_def layout_def)

lemma layout_words: "layout maxc ws lss \<Longrightarrow> w \<in> set ws \<Longrightarrow> length w \<le> maxc"
proof -
  assume lay: "layout maxc ws lss" and "w \<in> set ws"
  then obtain ls where ls: "ls \<in> set lss" "w \<in> set ls" by (auto simp: layout_def)
  then obtain a b where "ls = a @ w # b" by (meson split_list)
  then have "length (unwords [w]) \<le> length (unwords ls)"
    using unwords_suffix[of "w # b" a] unwords_prefix[of "[w]" b] by simp
  then show ?thesis using lay ls by (auto simp: layout_def)
qed

section \<open>The loop of join makes the greedy layout\<close>

abbreviation unlines :: "string list list \<Rightarrow> string" where
  "unlines lss \<equiv> join_with LF (map unwords lss)"

lemma unlines_Cons:
  "lss \<noteq> [] \<Longrightarrow> join_with LF (l # map unwords lss) = l @ LF # unlines lss"
  by (cases lss) auto

definition fits_in :: "nat \<Rightarrow> nat \<Rightarrow> string list \<Rightarrow> nat \<Rightarrow> bool" where
  "fits_in maxc avail ws n = ((\<forall>w \<in> set ws. length w \<le> maxc) \<and> n \<le> avail)"

lemma join_loop_fill:
  assumes "cur \<noteq> []" "\<forall>w \<in> set (cur @ ws). w \<noteq> []" "1 \<le> avail"
  shows "if fits_in maxc avail ws (length (fill maxc cur ws))
         then \<exists>out. join_loop maxc maxl ws (length (unwords cur)) avail = Ret out \<and>
                unwords cur @ out = unlines (fill maxc cur ws)
         else \<exists>m. join_loop maxc maxl ws (length (unwords cur)) avail = Throw (Range_error m)"
  using assms
proof (induction maxc cur ws arbitrary: avail rule: fill.induct)
  case (1 maxc cur)
  then show ?case by (simp add: fits_in_def)
next
  case (2 maxc cur w ws)
  have pos: "0 < length (unwords cur)"
    using "2.prems"(1,2) unwords_prefix[of "[hd cur]" "tl cur"] by (cases cur) auto
  consider (long) "maxc < length w"
    | (same) "length w \<le> maxc" "length (unwords (cur @ [w])) \<le> maxc"
    | (new) "length w \<le> maxc" "maxc < length (unwords (cur @ [w]))" by linarith
  then show ?case
  proof cases
    case long
    then show ?thesis by (simp add: fits_in_def)
  next
    case same
    have step: "join_loop maxc maxl (w # ws) (length (unwords cur)) avail =
        jbind (join_loop maxc maxl ws (length (unwords (cur @ [w]))) avail)
          (\<lambda>out. Ret (CHR '' '' # w @ out))"
      using same pos "2.prems"(1) by (simp add: unwords_snoc Let_def)
    show ?thesis
      using "2.IH"(1)[OF same(2) _ _ "2.prems"(3)] "2.prems"(1,2) same
      unfolding step by (auto simp: fits_in_def unwords_snoc split: if_splits)
  next
    case new
    have fill: "fill maxc cur (w # ws) = cur # fill maxc [w] ws" using new by simp
    show ?thesis
    proof (cases "avail = 1")
      case True
      have "length (fill maxc [w] ws) \<noteq> 0" by simp
      then have "\<not> fits_in maxc avail (w # ws) (length (fill maxc cur (w # ws)))"
        using True fill by (simp add: fits_in_def del: length_0_conv)
      moreover have "\<exists>m. join_loop maxc maxl (w # ws) (length (unwords cur)) avail = Throw (Range_error m)"
        using True new pos "2.prems"(1) by (simp add: unwords_snoc Let_def)
      ultimately show ?thesis by simp
    next
      case False
      have step: "join_loop maxc maxl (w # ws) (length (unwords cur)) avail =
          jbind (join_loop maxc maxl ws (length (unwords [w])) (avail - 1))
            (\<lambda>out. Ret (LF # w @ out))"
        using new pos False "2.prems"(1,3) by (simp add: unwords_snoc Let_def)
      have "if fits_in maxc (avail - 1) ws (length (fill maxc [w] ws))
         then \<exists>out. join_loop maxc maxl ws (length (unwords [w])) (avail - 1) = Ret out \<and>
                unwords [w] @ out = unlines (fill maxc [w] ws)
         else \<exists>m. join_loop maxc maxl ws (length (unwords [w])) (avail - 1) = Throw (Range_error m)"
        by (rule "2.IH"(2)) (use new "2.prems" False in auto)
      moreover have "fits_in maxc avail (w # ws) (length (fill maxc cur (w # ws))) \<longleftrightarrow>
          fits_in maxc (avail - 1) ws (length (fill maxc [w] ws))"
        using new fill "2.prems"(3) False by (auto simp: fits_in_def)
      ultimately show ?thesis
        unfolding step fill by (auto simp: unlines_Cons split: if_splits)
    qed
  qed
qed

lemma join_greedy:
  assumes "\<forall>w \<in> set ws. w \<noteq> []" "1 \<le> maxl"
  shows "if fits_in maxc maxl ws (length (greedy maxc ws))
         then join maxc maxl ws = Ret (unlines (greedy maxc ws))
         else \<exists>m. join maxc maxl ws = Throw (Range_error m)"
proof (cases ws)
  case Nil
  then show ?thesis by (simp add: join_def greedy_def fits_in_def)
next
  case (Cons w ws')
  show ?thesis
  proof (cases "maxc < length w")
    case True
    then show ?thesis using Cons by (auto simp: join_def fits_in_def)
  next
    case False
    have step: "join maxc maxl ws = jbind (join_loop maxc maxl ws' (length (unwords [w])) maxl)
        (\<lambda>out. Ret (w @ out))"
      using False Cons by (simp add: join_def)
    have eq: "greedy maxc ws = fill maxc [w] ws'" using Cons by (simp add: greedy_def)
    have fits: "fits_in maxc maxl ws (length (fill maxc [w] ws')) \<longleftrightarrow>
        fits_in maxc maxl ws' (length (fill maxc [w] ws'))"
      using False Cons by (simp add: fits_in_def)
    show ?thesis
      using join_loop_fill[of "[w]" ws' maxl maxc maxl] assms Cons
      unfolding step eq fits by (auto split: if_splits)
  qed
qed

lemma set_join_with: "c \<in> set (join_with d xs) \<Longrightarrow> c = d \<or> (\<exists>x \<in> set xs. c \<in> set x)"
  by (induction d xs rule: join_with.induct) auto

lemma unwords_not_empty: "ws \<noteq> [] \<Longrightarrow> \<forall>w \<in> set ws. w \<noteq> [] \<Longrightarrow> unwords ws \<noteq> []"
  using unwords_prefix[of "[hd ws]" "tl ws"] by (cases ws) auto

lemma cut_lines:
  assumes "\<forall>w \<in> set ws. w \<noteq> [] \<and> (\<forall>c \<in> set w. \<not> is_sep c)" "layout maxc ws lss"
  shows "strtok_all (\<lambda>c. c = LF) [] (unlines lss) = map unwords lss"
proof (rule strtok_all_join)
  have "unwords ls \<noteq> [] \<and> (\<forall>c \<in> set (unwords ls). \<not> c = LF)" if "ls \<in> set lss" for ls
  proof -
    have ls: "ls \<noteq> []" "set ls \<subseteq> set ws" using assms(2) that by (auto simp: layout_def)
    have "\<not> c = LF" if "c \<in> set (unwords ls)" for c
      using set_join_with[OF that] assms(1) ls(2) by (auto simp: is_sep_def)
    moreover have "unwords ls \<noteq> []"
      by (rule unwords_not_empty[OF ls(1)]) (use assms(1) ls(2) in blast)
    ultimately show ?thesis by blast
  qed
  then show "\<forall>x \<in> set (map unwords lss). x \<noteq> [] \<and> (\<forall>c \<in> set x. \<not> c = LF)" by simp
qed simp

lemma util_split_words:
  "util_split coerce as i = Ret ws \<Longrightarrow> list_all (\<lambda>w. w \<noteq> [] \<and> list_all (\<lambda>c. \<not> is_sep c) w) ws"
proof -
  have concat: "list_all (\<lambda>w. w \<noteq> [] \<and> list_all (\<lambda>c. \<not> is_sep c) w) (stringlist_concat list s)"
    if "list_all (\<lambda>w. w \<noteq> [] \<and> list_all (\<lambda>c. \<not> is_sep c) w) list" for list s
    using that strtok_all_pieces[of is_sep "[]" s] by (simp add: stringlist_concat_def)
  have arr: "split_from_array coerce vs list = Ret ws \<Longrightarrow>
      list_all (\<lambda>w. w \<noteq> [] \<and> list_all (\<lambda>c. \<not> is_sep c) w) list \<Longrightarrow>
      list_all (\<lambda>w. w \<noteq> [] \<and> list_all (\<lambda>c. \<not> is_sep c) w) ws" for vs list ws
    by (induction coerce vs list rule: split_from_array.induct) (auto simp: concat split: option.splits)
  show "util_split coerce as i = Ret ws \<Longrightarrow> list_all (\<lambda>w. w \<noteq> [] \<and> list_all (\<lambda>c. \<not> is_sep c) w) ws"
    using arr[of _ "[]" ws] concat[of "[]"]
    by (auto simp: util_split_def split: jsval.splits if_splits)
qed

section \<open>Properties\<close>

text \<open>
  C33. \<open>Irccd.Util.cut\<close> finds a layout whenever there is one, and the shortest.  The lines
  it returns hold the words of the text in their order, separated by one space, none is
  longer than \<open>maxc\<close>, there are no more than \<open>maxl\<close> of them, and no way of putting these
  words on lines of that width takes fewer.  It throws a \<open>RangeError\<close> exactly when no
  layout of at most \<open>maxl\<close> lines exists.
\<close>
theorem cut_layout:
  assumes "limit as 1 ''maxc'' 72 = Ret maxc" "limit as 2 ''maxl'' size_max = Ret maxl"
    "util_split coerce as 0 = Ret ws" "1 \<le> size_max"
  shows "if \<exists>lss. layout maxc ws lss \<and> length lss \<le> maxl
    then \<exists>lss. Util_cut size_max coerce as = Ret (JArr (map (\<lambda>ls. JStr (unwords ls)) lss)) \<and>
           layout maxc ws lss \<and> length lss \<le> maxl \<and>
           (\<forall>lss'. layout maxc ws lss' \<longrightarrow> length lss \<le> length lss')
    else \<exists>m. Util_cut size_max coerce as = Throw (Range_error m)"
proof -
  have ws: "\<forall>w \<in> set ws. w \<noteq> [] \<and> (\<forall>c \<in> set w. \<not> is_sep c)"
    using util_split_words[OF assms(3)] by (simp add: list_all_iff)
  have maxl: "1 \<le> maxl"
    using assms(2,4) by (auto simp: limit_def Let_def split: jsval.splits if_splits)
  have cut: "Util_cut size_max coerce as = jbind (join maxc maxl ws)
      (\<lambda>lines. Ret (JArr (map JStr (strtok_all (\<lambda>c. c = LF) [] lines))))"
    using assms(1-3) by (simp add: Util_cut_def)
  have ex: "(\<exists>lss. layout maxc ws lss \<and> length lss \<le> maxl) \<longleftrightarrow>
      fits_in maxc maxl ws (length (greedy maxc ws))"
    using greedy_least greedy_layout layout_words unfolding fits_in_def by (meson le_trans)
  show ?thesis
  proof (cases "fits_in maxc maxl ws (length (greedy maxc ws))")
    case True
    then have lay: "layout maxc ws (greedy maxc ws)" by (simp add: fits_in_def greedy_layout)
    have "Util_cut size_max coerce as = Ret (JArr (map (\<lambda>ls. JStr (unwords ls)) (greedy maxc ws)))"
      using join_greedy[of ws maxl maxc] True ws maxl cut_lines[OF ws lay] by (simp add: cut comp_def)
    then show ?thesis
      unfolding ex using True lay greedy_least by (auto simp: fits_in_def)
  next
    case False
    then show ?thesis
      unfolding ex using join_greedy[of ws maxl maxc] ws maxl by (auto simp: cut)
  qed
qed

lemma cut_layout_witness:
  "\<exists>lss. Util_cut 100 (\<lambda>_. None) [JStr ''to be or not to be'', JInt 8, JInt 3] =
      Ret (JArr (map (\<lambda>ls. JStr (unwords ls)) lss)) \<and> length lss \<le> 3"
proof -
  have args: "limit [JStr ''to be or not to be'', JInt 8, JInt 3] 1 ''maxc'' 72 = Ret 8"
    "limit [JStr ''to be or not to be'', JInt 8, JInt 3] 2 ''maxl'' 100 = Ret 3"
    "util_split (\<lambda>_. None) [JStr ''to be or not to be'', JInt 8, JInt 3] 0 =
       Ret [''to'', ''be'', ''or'', ''not'', ''to'', ''be'']"
    by (simp_all add: limit_def util_split_def stringlist_concat_def is_sep_def del: of_int_numeral)
  have "layout 8 [''to'', ''be'', ''or'', ''not'', ''to'', ''be'']
      [[''to'', ''be'', ''or''], [''not'', ''to''], [''be'']]"
    by (simp add: layout_def)
  then have "\<exists>lss. layout 8 [''to'', ''be'', ''or'', ''not'', ''to'', ''be''] lss \<and> length lss \<le> 3"
    by (intro exI[of _ "[[''to'', ''be'', ''or''], [''not'', ''to''], [''be'']]"]) simp
  then show ?thesis using cut_layout[OF args] by auto
qed

end
