(* ===== verification/Js_Plugin.thy ===== *)
theory Js_Plugin
  imports Js_Util Plugin
begin

text \<open>
  Javascript plugins (\<open>irccd/js-plugin.c\<close>) and the tables they share with the daemon
  (\<open>irccd/jsapi-plugin.c\<close>): the global objects, the calls of the script's functions with an
  event, and the loader.

  What the bodies of the script's functions do is not known: running one is a function of
  the \<open>engine\<close>, a parameter, which is given the arguments and the state of the interpreter
  and returns a value or what was thrown, with the new state.
\<close>

section \<open>The interpreter of a plugin\<close>

text \<open>The global object, hidden symbols included, and everything else the interpreter keeps.\<close>

record 'j duk_context =
  cx_globals :: "(string \<times> jsval) list"
  cx_heap :: 'j

type_synonym 'j outcome = "(jsval + jsval) \<times> 'j duk_context"

record 'j engine =
  en_new :: "'j duk_context"
  en_peval :: "string \<Rightarrow> 'j duk_context \<Rightarrow> 'j outcome"
  en_pcall :: "string \<Rightarrow> args \<Rightarrow> 'j duk_context \<Rightarrow> 'j outcome"
  en_coerce :: "jsval \<Rightarrow> string option"

text \<open>The structure \<open>self\<close>; the lines are what was given to \<open>irc_log_warn\<close>.\<close>

record 'j js_self =
  js_name :: string
  js_ctx :: "'j duk_context"
  js_location :: string
  js_warnings :: "string list"

definition hidden :: "string \<Rightarrow> string" where
  "hidden name = CHR 0xFF # name"

definition JSAPI_PLUGIN_PROP_OPTIONS :: string where
  "JSAPI_PLUGIN_PROP_OPTIONS = hidden ''options''"

definition JSAPI_PLUGIN_PROP_TEMPLATES :: string where
  "JSAPI_PLUGIN_PROP_TEMPLATES = hidden ''templates''"

definition JSAPI_PLUGIN_PROP_PATHS :: string where
  "JSAPI_PLUGIN_PROP_PATHS = hidden ''paths''"

definition get_global :: "'j duk_context \<Rightarrow> string \<Rightarrow> jsval" where
  "get_global ctx name = lookup_prop (cx_globals ctx) name"

definition put_global :: "'j duk_context \<Rightarrow> string \<Rightarrow> jsval \<Rightarrow> 'j duk_context" where
  "put_global ctx name v = ctx\<lparr>cx_globals := AList.update name v (cx_globals ctx)\<rparr>"

definition metadata :: "'j duk_context \<Rightarrow> string \<Rightarrow> string" where
  "metadata ctx name =
     (case get_prop (get_global ctx ''info'') name of JStr s \<Rightarrow> s | _ \<Rightarrow> ''unknown'')"

section \<open>Tables\<close>

text \<open>
  The keys of a table and what is stored under one.  A key that is missing reads as
  \<open>undefined\<close>, whose text is returned; \<open>None\<close> is a conversion that throws with nothing to
  catch it.  The members an object inherits from \<open>Object.prototype\<close> are not in the model.
\<close>

definition get_table :: "'j duk_context \<Rightarrow> string \<Rightarrow> string list" where
  "get_table ctx name = map fst (as_props (get_global ctx name))"

definition set_key_value :: "'j duk_context \<Rightarrow> string \<Rightarrow> string \<Rightarrow> string \<Rightarrow> 'j duk_context" where
  "set_key_value ctx table key value =
     put_global ctx table (put_prop (get_global ctx table) key (JStr value))"

definition get_value :: "(jsval \<Rightarrow> string option) \<Rightarrow> 'j duk_context \<Rightarrow> string \<Rightarrow> string \<Rightarrow> string option" where
  "get_value coerce ctx table key = duk_to_string coerce (lookup_prop (as_props (get_global ctx table)) key)"

text \<open>
  The property setters and getters of \<open>Irccd.Plugin\<close> (\<open>jsapi-plugin.c\<close>): the table the
  script assigns takes over every entry of the one it replaces.
\<close>

definition plugin_set :: "string \<Rightarrow> args \<Rightarrow> 'j duk_context \<Rightarrow> (jsval \<times> 'j duk_context) js" where
  "plugin_set name as ctx =
     (if \<not> is_object (js_arg as 0)
      then Throw (Type_error ([CHR 0x27] @ name @ [CHR 0x27] @ '' property must be object''))
      else Ret (JUndefined, put_global ctx name
        (foldl (\<lambda>obj (k, v). put_prop obj k v) (js_arg as 0) (as_props (get_global ctx name)))))"

definition plugin_get :: "string \<Rightarrow> args \<Rightarrow> 'j duk_context \<Rightarrow> (jsval \<times> 'j duk_context) js" where
  "plugin_get name as ctx = Ret (get_global ctx name, ctx)"

section \<open>Values of events\<close>

definition SERVER_SIGNATURE :: string where
  "SERVER_SIGNATURE = hidden ''Irccd.Server''"

text \<open>\<open>ptr\<close> is where the server of a name is in memory.\<close>

definition jsapi_server_push :: "(string \<Rightarrow> nat) \<Rightarrow> string \<Rightarrow> jsval" where
  "jsapi_server_push ptr name = JObj [(SERVER_SIGNATURE, JPtr (ptr name))]"

definition push_int :: "c_int \<Rightarrow> jsval" where
  "push_int w = JInt (sint w)"

definition push_modes :: "string list \<Rightarrow> jsval" where
  "push_modes modes = JArr (map JStr modes)"

definition push_names :: "irc_event_names \<Rightarrow> jsval" where
  "push_names e =
     JArr (map (\<lambda>(nick, modes). JObj [(''nickname'', duk_push_string nick), (''modes'', push_int modes)])
       (names_users e))"

definition push_whois :: "irc_event_whois \<Rightarrow> jsval" where
  "push_whois e =
     JObj [(''nickname'', JStr (whois_nickname e)), (''username'', JStr (whois_username e)),
           (''realname'', JStr (whois_realname e)), (''hostname'', JStr (whois_hostname e)),
           (''channels'', JArr (map (\<lambda>(name, modes).
              JObj [(''channel'', JStr name), (''modes'', push_int modes)]) (whois_channels e)))]"

section \<open>Calls\<close>

text \<open>
  The trace of what was thrown.  Reading a property of \<open>undefined\<close> or \<open>null\<close> throws, and
  a \<open>stack\<close> that is neither missing nor a string does too; no protected call is active
  then, so the interpreter aborts the process: \<open>None\<close>.
\<close>

definition log_trace :: "jsval \<Rightarrow> 'j js_self \<Rightarrow> 'j js_self option" where
  "log_trace err self =
     (if err = JUndefined \<or> err = JNull then None
      else case get_prop err ''stack'' of
        JUndefined \<Rightarrow> Some []
      | JStr s \<Rightarrow> Some (strtok_all (\<lambda>c. c = LF) [] s)
      | _ \<Rightarrow> None) \<bind> (\<lambda>stack.
      Some (self\<lparr>js_warnings := js_warnings self @
        (''plugin '' @ js_name self @ '': '' @ js_location self @ '':'' @
           show_int (duk_get_int [get_prop err ''lineNumber''] 0)) #
        map (\<lambda>token. ''plugin '' @ js_name self @ '': '' @ token) stack\<rparr>))"

definition vcall :: "'j engine \<Rightarrow> string \<Rightarrow> args \<Rightarrow> 'j js_self \<Rightarrow> (int \<times> 'j js_self) option" where
  "vcall en function as self =
     (case get_global (js_ctx self) function of
        JFun f \<Rightarrow>
          (case en_pcall en f as (js_ctx self) of
             (Inr _, ctx) \<Rightarrow> Some (0, self\<lparr>js_ctx := ctx\<rparr>)
           | (Inl err, ctx) \<Rightarrow> map_option (Pair (-1)) (log_trace err (self\<lparr>js_ctx := ctx\<rparr>)))
      | _ \<Rightarrow> Some (0, self))"

text \<open>The function an event calls and what it is given.\<close>

definition event_call :: "(string \<Rightarrow> nat) \<Rightarrow> irc_event \<Rightarrow> (string \<times> args) option" where
  "event_call ptr ev =
     (let sv = jsapi_server_push ptr (ev_server ev) in
      case ev_type ev of
        IRC_EVENT_COMMAND e \<Rightarrow>
          Some (''onCommand'', [sv, JStr (message_origin e), JStr (message_channel e), JStr (message_message e)])
      | IRC_EVENT_CONNECT \<Rightarrow> Some (''onConnect'', [sv])
      | IRC_EVENT_DISCONNECT \<Rightarrow> Some (''onDisconnect'', [sv])
      | IRC_EVENT_INVITE e \<Rightarrow> Some (''onInvite'', [sv, JStr (invite_origin e), JStr (invite_channel e)])
      | IRC_EVENT_JOIN e \<Rightarrow> Some (''onJoin'', [sv, JStr (join_origin e), JStr (join_channel e)])
      | IRC_EVENT_KICK e \<Rightarrow>
          Some (''onKick'', [sv, JStr (kick_origin e), JStr (kick_channel e), JStr (kick_target e),
            duk_push_string (kick_reason e)])
      | IRC_EVENT_ME e \<Rightarrow>
          Some (''onMe'', [sv, JStr (message_origin e), JStr (message_channel e), JStr (message_message e)])
      | IRC_EVENT_MESSAGE e \<Rightarrow>
          Some (''onMessage'', [sv, JStr (message_origin e), JStr (message_channel e), JStr (message_message e)])
      | IRC_EVENT_MODE e \<Rightarrow>
          Some (''onMode'', [sv, JStr (mode_origin e), JStr (mode_channel e), JStr (mode_mode e),
            push_modes (mode_args e)])
      | IRC_EVENT_NAMES e \<Rightarrow> Some (''onNames'', [sv, JStr (names_channel e), push_names e])
      | IRC_EVENT_NICK e \<Rightarrow> Some (''onNick'', [sv, JStr (nick_origin e), JStr (nick_nickname e)])
      | IRC_EVENT_NOTICE e \<Rightarrow>
          Some (''onNotice'', [sv, JStr (notice_origin e), JStr (notice_channel e), JStr (notice_notice e)])
      | IRC_EVENT_PART e \<Rightarrow>
          Some (''onPart'', [sv, JStr (part_origin e), JStr (part_channel e), duk_push_string (part_reason e)])
      | IRC_EVENT_TOPIC e \<Rightarrow>
          Some (''onTopic'', [sv, JStr (topic_origin e), JStr (topic_channel e), JStr (topic_topic e)])
      | IRC_EVENT_WHOIS e \<Rightarrow> Some (''onWhois'', [sv, push_whois e])
      | IRC_EVENT_UNKNOWN \<Rightarrow> None)"

section \<open>The callbacks of the plugin\<close>

text \<open>The state of the plugin is \<open>None\<close> once the process has aborted or the plugin is freed.\<close>

type_synonym 'j js_state = "'j js_self option"

definition js_handle :: "'j engine \<Rightarrow> (string \<Rightarrow> nat) \<Rightarrow> 'j js_state \<Rightarrow> irc_event \<Rightarrow> 'j js_state" where
  "js_handle en ptr st ev =
     (case event_call ptr ev of
        None \<Rightarrow> st
      | Some (f, as) \<Rightarrow> st \<bind> (\<lambda>self. map_option snd (vcall en f as self)))"

definition js_load :: "'j engine \<Rightarrow> 'j js_state \<Rightarrow> int \<times> 'j js_state" where
  "js_load en st =
     (case st \<bind> vcall en ''onLoad'' [] of None \<Rightarrow> (-1, None) | Some (rc, self) \<Rightarrow> (rc, Some self))"

definition js_reload :: "'j engine \<Rightarrow> 'j js_state \<Rightarrow> 'j js_state" where
  "js_reload en st = map_option snd (st \<bind> vcall en ''onReload'' [])"

definition js_unload :: "'j engine \<Rightarrow> 'j js_state \<Rightarrow> 'j js_state" where
  "js_unload en st = map_option snd (st \<bind> vcall en ''onUnload'' [])"

definition js_finish :: "'j js_state \<Rightarrow> 'j js_state" where
  "js_finish st = None"

definition js_set :: "string \<Rightarrow> 'j js_state \<Rightarrow> string \<Rightarrow> string \<Rightarrow> 'j js_state" where
  "js_set table st key value =
     map_option (\<lambda>self. self\<lparr>js_ctx := set_key_value (js_ctx self) table key value\<rparr>) st"

definition js_get :: "'j engine \<Rightarrow> string \<Rightarrow> 'j js_state \<Rightarrow> string \<Rightarrow> string option" where
  "js_get en table st key = st \<bind> (\<lambda>self. get_value (en_coerce en) (js_ctx self) table key)"

definition js_list :: "string \<Rightarrow> 'j js_state \<Rightarrow> string list option" where
  "js_list table st = map_option (\<lambda>self. get_table (js_ctx self) table) st"

section \<open>Opening\<close>

definition js_init :: "'j engine \<Rightarrow> string \<Rightarrow> string \<Rightarrow> string \<Rightarrow> string \<Rightarrow> 'j js_state irc_plugin option" where
  "js_init en version name path script =
     (let ctx0 = put_global (put_global (put_global (en_new en)
             JSAPI_PLUGIN_PROP_OPTIONS (JObj [])) JSAPI_PLUGIN_PROP_TEMPLATES (JObj []))
             JSAPI_PLUGIN_PROP_PATHS (JObj [])
      in case en_peval en script ctx0 of
           (Inl _, _) \<Rightarrow> None
         | (Inr _, ctx) \<Rightarrow>
             Some (irc_plugin_set_info
               (irc_plugin_init version
                  (Some \<lparr>js_name = name, js_ctx = ctx, js_location = path, js_warnings = []\<rparr>) name)
               (Some (metadata ctx ''license'')) (Some (metadata ctx ''version''))
               (Some (metadata ctx ''author'')) (Some (metadata ctx ''summary''))))"

text \<open>
  \<open>eat\<close> is what reading the whole file gives: an error or the script.  The warnings of a
  script that cannot be loaded are not kept.
\<close>

definition js_plugin_open ::
  "'j engine \<Rightarrow> (string \<Rightarrow> nat) \<Rightarrow> string \<Rightarrow> (string \<Rightarrow> errno + string) \<Rightarrow>
   string \<Rightarrow> string \<Rightarrow> 'j js_state irc_plugin option" where
  "js_plugin_open en ptr version eat name path =
     (case eat path of
        Inl _ \<Rightarrow> None
      | Inr script \<Rightarrow>
          map_option (\<lambda>plg. plg\<lparr>
            pl_set_template := Some (js_set JSAPI_PLUGIN_PROP_TEMPLATES),
            pl_get_template := Some (js_get en JSAPI_PLUGIN_PROP_TEMPLATES),
            pl_get_templates := Some (js_list JSAPI_PLUGIN_PROP_TEMPLATES),
            pl_set_path := Some (js_set JSAPI_PLUGIN_PROP_PATHS),
            pl_get_path := Some (js_get en JSAPI_PLUGIN_PROP_PATHS),
            pl_get_paths := Some (js_list JSAPI_PLUGIN_PROP_PATHS),
            pl_set_option := Some (js_set JSAPI_PLUGIN_PROP_OPTIONS),
            pl_get_option := Some (js_get en JSAPI_PLUGIN_PROP_OPTIONS),
            pl_get_options := Some (js_list JSAPI_PLUGIN_PROP_OPTIONS),
            pl_load := Some (js_load en),
            pl_reload := Some (js_reload en),
            pl_unload := Some (js_unload en),
            pl_handle := Some (js_handle en ptr),
            pl_finish := Some js_finish\<rparr>)
          (js_init en version name path script))"

definition js_plugin_loader_new ::
  "'j engine \<Rightarrow> (string \<Rightarrow> nat) \<Rightarrow> string \<Rightarrow> (string \<Rightarrow> errno + string) \<Rightarrow> string \<Rightarrow>
   'j js_state irc_plugin_loader" where
  "js_plugin_loader_new en ptr version eat libdir =
     \<lparr>ld_paths = Some (libdir @ ''/irccd''), ld_extensions = Some ''js'',
      ld_open = js_plugin_open en ptr version eat\<rparr>"

section \<open>Keyed tables\<close>

text \<open>
  What the daemon relies on in the three tables of a plugin: what was stored under a key is
  read back, nothing else changes, and the key is listed.
\<close>

locale kv_table =
  fixes ok :: "'t \<Rightarrow> bool"
    and set_kv :: "'t \<Rightarrow> string \<Rightarrow> string \<Rightarrow> 't"
    and get_kv :: "'t \<Rightarrow> string \<Rightarrow> string option"
    and keys :: "'t \<Rightarrow> string list"
  assumes ok_set: "ok t \<Longrightarrow> ok (set_kv t k v)"
    and get_set: "ok t \<Longrightarrow> get_kv (set_kv t k v) k' = (if k' = k then Some v else get_kv t k')"
    and keys_set: "ok t \<Longrightarrow> set (keys (set_kv t k v)) = insert k (set (keys t))"
    and keys_distinct: "ok t \<Longrightarrow> distinct (keys t)"
begin

abbreviation set_all :: "'t \<Rightarrow> (string \<times> string) list \<Rightarrow> 't" where
  "set_all t kvs \<equiv> foldl (\<lambda>t (k, v). set_kv t k v) t kvs"

lemma ok_set_all: "ok t \<Longrightarrow> ok (set_all t kvs)"
  by (induction kvs arbitrary: t) (auto simp: ok_set)

lemma get_set_all: "ok t \<Longrightarrow>
    get_kv (set_all t kvs) k = (case map_of (rev kvs) k of Some v \<Rightarrow> Some v | None \<Rightarrow> get_kv t k)"
proof (induction kvs arbitrary: t)
  case (Cons kv kvs)
  obtain k' v where "kv = (k', v)" by fastforce
  then show ?case
    using Cons ok_set[of t k' v] by (auto simp: get_set map_add_def split: option.splits)
qed simp

lemma keys_set_all: "ok t \<Longrightarrow> set (keys (set_all t kvs)) = set (keys t) \<union> fst ` set kvs"
proof (induction kvs arbitrary: t)
  case (Cons kv kvs)
  obtain k' v where "kv = (k', v)" by fastforce
  then show ?case using Cons ok_set[of t k' v] by (auto simp: keys_set)
qed simp

lemma keys_distinct_all: "ok t \<Longrightarrow> distinct (keys (set_all t kvs))"
  by (rule keys_distinct[OF ok_set_all])

end

definition table_ok :: "string \<Rightarrow> 'j js_state \<Rightarrow> bool" where
  "table_ok table st =
     (\<exists>self ps. st = Some self \<and> get_global (js_ctx self) table = JObj ps \<and> distinct (map fst ps))"

lemma lookup_update: "lookup_prop (AList.update k v ps) k' = (if k' = k then v else lookup_prop ps k')"
  by (simp add: lookup_prop_def update_conv')

lemma get_put_global [simp]:
  "get_global (put_global ctx n v) m = (if m = n then v else get_global ctx m)"
  by (simp add: get_global_def put_global_def lookup_update)

lemma table_laws:
  fixes st :: "'j js_state"
  assumes "table_ok table st"
  shows "table_ok table (js_set table st k v)"
    and "js_get en table (js_set table st k v) k' = (if k' = k then Some v else js_get en table st k')"
    and "set (the (js_list table (js_set table st k v))) = insert k (set (the (js_list table st)))"
    and "distinct (the (js_list table st))"
proof -
  obtain self ps where st: "st = Some self" "get_global (js_ctx self) table = JObj ps" "distinct (map fst ps)"
    using assms by (auto simp: table_ok_def)
  show "table_ok table (js_set table st k v)"
    using st by (simp add: table_ok_def js_set_def set_key_value_def put_prop_def distinct_update)
  show "js_get en table (js_set table st k v) k' = (if k' = k then Some v else js_get en table st k')"
    using st by (simp add: js_get_def js_set_def set_key_value_def put_prop_def get_value_def lookup_update)
  show "set (the (js_list table (js_set table st k v))) = insert k (set (the (js_list table st)))"
    using st by (auto simp: js_list_def js_set_def set_key_value_def put_prop_def get_table_def update_keys)
  show "distinct (the (js_list table st))"
    using st by (simp add: js_list_def get_table_def)
qed

interpretation js_options: kv_table "table_ok JSAPI_PLUGIN_PROP_OPTIONS" "js_set JSAPI_PLUGIN_PROP_OPTIONS"
  "js_get en JSAPI_PLUGIN_PROP_OPTIONS" "\<lambda>st. the (js_list JSAPI_PLUGIN_PROP_OPTIONS st)"
  for en :: "'j engine"
  by unfold_locales (simp_all add: table_laws)

interpretation js_templates: kv_table "table_ok JSAPI_PLUGIN_PROP_TEMPLATES"
  "js_set JSAPI_PLUGIN_PROP_TEMPLATES" "js_get en JSAPI_PLUGIN_PROP_TEMPLATES"
  "\<lambda>st. the (js_list JSAPI_PLUGIN_PROP_TEMPLATES st)"
  for en :: "'j engine"
  by unfold_locales (simp_all add: table_laws)

interpretation js_paths: kv_table "table_ok JSAPI_PLUGIN_PROP_PATHS" "js_set JSAPI_PLUGIN_PROP_PATHS"
  "js_get en JSAPI_PLUGIN_PROP_PATHS" "\<lambda>st. the (js_list JSAPI_PLUGIN_PROP_PATHS st)"
  for en :: "'j engine"
  by unfold_locales (simp_all add: table_laws)

end
