(* ===== verification/Js_Api.thy ===== *)
theory Js_Api
  imports Js_Plugin Bot Log Unicode_Class
begin

text \<open>
  The modules of the Javascript API that act on the daemon: \<open>Irccd.Hook\<close>
  (\<open>irccd/jsapi-hook.c\<close>), \<open>Irccd.Rule\<close> (\<open>jsapi-rule.c\<close>), \<open>Irccd.Plugin\<close>
  (\<open>jsapi-plugin.c\<close>), \<open>Irccd.Logger\<close> (\<open>jsapi-logger.c\<close>) and \<open>Irccd.Unicode\<close>
  (\<open>jsapi-unicode.c\<close>).
\<close>

section \<open>Hooks\<close>

definition Hook_add :: "'s irccd native" where
  "Hook_add as b =
     duk_require_string as 0 (\<lambda>name.
     duk_require_string as 1 (\<lambda>path.
       if irc_bot_hook_get b name \<noteq> None
       then Throw (Plain_error (''hook '' @ name @ '' already exists''))
       else case irc_bot_hook_add b (irc_hook_new name path) of
              None \<Rightarrow> Ret (JUndefined, b)
            | Some b' \<Rightarrow> Ret (JUndefined, b')))"

definition Hook_list :: "'s irccd native" where
  "Hook_list as b =
     Ret (JArr (map (\<lambda>h. JObj [(''name'', JStr (hk_name h)), (''path'', JStr (hk_path h))]) (bt_hooks b)), b)"

definition Hook_remove :: "'s irccd native" where
  "Hook_remove as b =
     duk_require_string as 0 (\<lambda>name. Ret (JUndefined, irc_bot_hook_remove b name))"

definition hook_functions :: "'s irccd function_list" where
  "hook_functions =
     [(''add'', Hook_add, Some 2), (''list'', Hook_list, Some 0), (''remove'', Hook_remove, Some 1)]"

section \<open>Rules\<close>

definition IRC_RULE_DROP :: int where "IRC_RULE_DROP = 1"

fun action_of :: "int \<Rightarrow> rule_action" where
  "action_of i = (if i = IRC_RULE_DROP then Rule_Drop else Rule_Accept)"

fun action_number :: "rule_action \<Rightarrow> int" where
  "action_number Rule_Accept = 0"
| "action_number Rule_Drop = IRC_RULE_DROP"

definition push_list :: "string list option \<Rightarrow> jsval" where
  "push_list l = JArr (map JStr (entries l))"

fun add_all :: "(irc_rule \<Rightarrow> string \<Rightarrow> irc_rule) \<Rightarrow> irc_rule \<Rightarrow> jsval list \<Rightarrow> irc_rule" where
  "add_all add rule [] = rule"
| "add_all add rule (JStr s # vs) = add_all add (add rule s) vs"
| "add_all add rule (v # vs) = add_all add rule vs"

definition get_list :: "args \<Rightarrow> string \<Rightarrow> (irc_rule \<Rightarrow> string \<Rightarrow> irc_rule) \<Rightarrow> irc_rule \<Rightarrow> irc_rule" where
  "get_list as prop add rule =
     (let v = get_prop (js_arg as 1) prop in
      if is_object v then add_all add rule (elements v) else rule)"

definition Rule_add :: "'s irccd native" where
  "Rule_add as b =
     duk_opt_uint as 0 (2 ^ 32 - 1) (\<lambda>index.
     duk_require_object as 1
       (case get_prop (js_arg as 1) ''action'' of
          JNum d \<Rightarrow>
            let action = duk__api_coerce_d2i d in
            if action < 0 \<or> IRC_RULE_DROP < action then Throw (Type_error ''invalid rule action'')
            else Ret (JUndefined, irc_bot_rule_insert b
              (get_list as ''events'' irc_rule_add_event
                (get_list as ''plugins'' irc_rule_add_plugin
                  (get_list as ''origins'' irc_rule_add_origin
                    (get_list as ''channels'' irc_rule_add_channel
                      (get_list as ''servers'' irc_rule_add_server (irc_rule_new (action_of action)))))))
              (nat index))
        | _ \<Rightarrow> Throw (Type_error ''invalid rule action'')))"

definition Rule_clear :: "'s irccd native" where
  "Rule_clear as b = Ret (JUndefined, irc_bot_rule_clear b)"

definition push_rule :: "irc_rule \<Rightarrow> jsval" where
  "push_rule rule =
     JObj [(''action'', JInt (action_number (r_action rule))),
           (''servers'', push_list (r_servers rule)), (''channels'', push_list (r_channels rule)),
           (''origins'', push_list (r_origins rule)), (''plugins'', push_list (r_plugins rule)),
           (''events'', push_list (r_events rule))]"

definition Rule_list :: "'s irccd native" where
  "Rule_list as b = Ret (JArr (map push_rule (bt_rules b)), b)"

definition Rule_remove :: "'s irccd native" where
  "Rule_remove as b =
     duk_require_uint as 0 (\<lambda>index.
       case irc_bot_rule_remove b (nat index) of
         None \<Rightarrow> Throw (Range_error ''rule index is invalid'')
       | Some b' \<Rightarrow> Ret (JUndefined, b'))"

definition rule_functions :: "'s irccd function_list" where
  "rule_functions =
     [(''add'', Rule_add, Some 2), (''clear'', Rule_clear, Some 0), (''list'', Rule_list, Some 0),
      (''remove'', Rule_remove, Some 1)]"

section \<open>Plugins\<close>

text \<open>
  \<open>me\<close> is the plugin whose script makes the call; it may not be in the list yet.  A plugin that is not found
  is a NULL pointer that is followed.  A script plugin that unloads itself destroys the
  interpreter that is running the call, which is undefined: both are \<open>Crash\<close>.
\<close>

definition find_plg :: "'s irccd \<Rightarrow> args \<Rightarrow> ('s irc_plugin option \<Rightarrow> 'a js) \<Rightarrow> 'a js" where
  "find_plg b as k = duk_require_string as 0 (\<lambda>name. k (irc_bot_plugin_get b name))"

definition push_info :: "'s irc_plugin option \<Rightarrow> jsval" where
  "push_info p =
     (case p of None \<Rightarrow> JUndefined
      | Some p \<Rightarrow> JObj [(''name'', JStr (pl_name p)), (''author'', JStr (pl_author p)),
          (''license'', JStr (pl_license p)), (''summary'', JStr (pl_description p)),
          (''version'', JStr (pl_version p))])"

definition Plugin_info :: "'s irc_plugin \<Rightarrow> 's irccd native" where
  "Plugin_info me as b =
     (if 1 \<le> length as then find_plg b as (\<lambda>p. Ret (push_info p, b))
      else Ret (push_info (Some me), b))"

definition Plugin_list :: "'s irccd native" where
  "Plugin_list as b = Ret (JArr (map (\<lambda>p. JStr (pl_name p)) (bt_plugins b)), b)"

definition Plugin_load :: "'s irccd native" where
  "Plugin_load as b = Ret (JUndefined, b)"

definition Plugin_reload :: "'s irccd native" where
  "Plugin_reload as b =
     find_plg b as (\<lambda>p. case p of None \<Rightarrow> Crash
       | Some p \<Rightarrow> Ret (JUndefined, b\<lparr>bt_plugins :=
           update_first (\<lambda>q. pl_name q = pl_name p) irc_plugin_reload (bt_plugins b)\<rparr>))"

definition Plugin_unload :: "'s irc_plugin \<Rightarrow> 's irccd native" where
  "Plugin_unload me as b =
     find_plg b as (\<lambda>p. case p of None \<Rightarrow> Crash
       | Some p \<Rightarrow> if pl_name p = pl_name me then Crash
                   else Ret (JUndefined, irc_bot_plugin_remove b (pl_name p)))"

definition plugin_functions :: "'s irc_plugin \<Rightarrow> 's irccd function_list" where
  "plugin_functions me =
     [(''info'', Plugin_info me, None), (''list'', Plugin_list, Some 0), (''load'', Plugin_load, Some 1),
      (''reload'', Plugin_reload, Some 1), (''unload'', Plugin_unload me, Some 1)]"

section \<open>Logger\<close>

text \<open>\<open>f\<close> is one of the three loggers; it may fail, which is \<open>Crash\<close> here.\<close>

definition Logger_log :: "(string \<Rightarrow> log \<Rightarrow> log option) \<Rightarrow> string \<Rightarrow> log native" where
  "Logger_log f self as lg =
     duk_require_string as 0 (\<lambda>message.
       case f (''plugin '' @ self @ '': '' @ message) lg of
         None \<Rightarrow> Crash | Some lg' \<Rightarrow> Ret (JUndefined, lg'))"

definition Logger_info :: "subst_os \<Rightarrow> string \<Rightarrow> log native" where
  "Logger_info os self = Logger_log (irc_log_info os) self"

definition Logger_warning :: "subst_os \<Rightarrow> string \<Rightarrow> log native" where
  "Logger_warning os self = Logger_log (irc_log_warn os) self"

definition Logger_debug :: "bool \<Rightarrow> subst_os \<Rightarrow> string \<Rightarrow> log native" where
  "Logger_debug ndebug os self = Logger_log (irc_log_debug ndebug os) self"

definition logger_functions :: "bool \<Rightarrow> subst_os \<Rightarrow> string \<Rightarrow> log function_list" where
  "logger_functions ndebug os self =
     [(''info'', Logger_info os self, Some 1), (''warning'', Logger_warning os self, Some 1),
      (''debug'', Logger_debug ndebug os self, Some 1)]"

section \<open>Unicode\<close>

text \<open>The argument is an \<open>int\<close>, 0 when it is no number, converted to a code point.\<close>

definition Unicode_is :: "(u32 \<Rightarrow> bool) \<Rightarrow> unit native" where
  "Unicode_is f as w = Ret (JBool (f (word_of_int (duk_get_int as 0))), w)"

definition Unicode_isDigit :: "unit native" where "Unicode_isDigit = Unicode_is uni_isdigit"
definition Unicode_isLetter :: "unit native" where "Unicode_isLetter = Unicode_is uni_isalpha"
definition Unicode_isLower :: "unit native" where "Unicode_isLower = Unicode_is uni_islower"
definition Unicode_isSpace :: "unit native" where "Unicode_isSpace = Unicode_is uni_isspace"
definition Unicode_isTitle :: "unit native" where "Unicode_isTitle = Unicode_is uni_istitle"
definition Unicode_isUpper :: "unit native" where "Unicode_isUpper = Unicode_is uni_isupper"

definition unicode_functions :: "unit function_list" where
  "unicode_functions =
     [(''isDigit'', Unicode_isDigit, Some 1), (''isLetter'', Unicode_isLetter, Some 1),
      (''isLower'', Unicode_isLower, Some 1), (''isSpace'', Unicode_isSpace, Some 1),
      (''isTitle'', Unicode_isTitle, Some 1), (''isUpper'', Unicode_isUpper, Some 1)]"

end
