(* ===== verification/Js_Server.thy ===== *)
theory Js_Server
  imports Js_Api
begin

text \<open>
  \<open>Irccd.Server\<close> (\<open>irccd/jsapi-server.c\<close>).  A server object of a script is a pointer to the
  server itself, which the bot's list may hold too.  The \<open>world\<close> has the servers by their
  address and, for those in the bot's list, the addresses in its order; what a method does
  to a server shows in both.  The address of a new server is chosen by the allocator.
\<close>

section \<open>The servers a script can reach\<close>

record 's js_world =
  jw_bot :: "'s irccd"
  jw_addrs :: "nat list"
  jw_heap :: "nat \<Rightarrow> irc_server option"
  jw_acts :: "act list"

definition world_wf :: "'s js_world \<Rightarrow> bool" where
  "world_wf w =
     (distinct (jw_addrs w) \<and> map (jw_heap w) (jw_addrs w) = map Some (bt_servers (jw_bot w)) \<and>
      distinct (map sv_name (bt_servers (jw_bot w))))"

text \<open>A change through the pointer: the server in the bot's list is the same object.\<close>

definition store_server :: "nat \<Rightarrow> irc_server \<Rightarrow> 's js_world \<Rightarrow> 's js_world" where
  "store_server p s w =
     w\<lparr>jw_heap := (jw_heap w)(p \<mapsto> s),
       jw_bot := (jw_bot w)\<lparr>bt_servers :=
         map2 (\<lambda>a old. if a = p then s else old) (jw_addrs w) (bt_servers (jw_bot w))\<rparr>\<rparr>"

type_synonym 's js_method = "jsval \<Rightarrow> args \<Rightarrow> 's js_world \<Rightarrow> (jsval \<times> 's js_world) js"

text \<open>A pointer to a server that was freed is followed: \<open>Crash\<close>.\<close>

definition server_self ::
  "jsval \<Rightarrow> 's js_world \<Rightarrow> (nat \<Rightarrow> irc_server \<Rightarrow> (jsval \<times> 's js_world) js) \<Rightarrow> (jsval \<times> 's js_world) js" where
  "server_self this w k =
     (case get_prop this SERVER_SIGNATURE of
        JPtr p \<Rightarrow> (case jw_heap w p of None \<Rightarrow> Crash | Some s \<Rightarrow> k p s)
      | _ \<Rightarrow> Throw (Type_error ''not a Server object''))"

definition server_require ::
  "args \<Rightarrow> nat \<Rightarrow> 's js_world \<Rightarrow> (nat \<Rightarrow> irc_server \<Rightarrow> (jsval \<times> 's js_world) js) \<Rightarrow> (jsval \<times> 's js_world) js" where
  "server_require as i w k =
     (if is_object (js_arg as i) then server_self (js_arg as i) w k
      else Throw (Type_error ''not a Server object''))"

section \<open>Reading the parameters of a server\<close>

definition get_string ::
  "jsval \<Rightarrow> string \<Rightarrow> string option \<Rightarrow> (string option \<Rightarrow> 'a js) \<Rightarrow> 'a js" where
  "get_string obj n d k =
     (case get_prop obj n of
        JUndefined \<Rightarrow> k d
      | JStr s \<Rightarrow> k (Some s)
      | _ \<Rightarrow> Throw (Plain_error (''invalid or missing '' @ [CHR 0x27] @ n @ [CHR 0x27] @ '' property'')))"

definition get_required :: "jsval \<Rightarrow> string \<Rightarrow> (string \<Rightarrow> 'a js) \<Rightarrow> 'a js" where
  "get_required obj n k =
     get_string obj n None (\<lambda>v. case v of
       None \<Rightarrow> Throw (Plain_error (''missing required '' @ [CHR 0x27] @ n @ [CHR 0x27] @ '' property''))
     | Some s \<Rightarrow> k s)"

definition get_name :: "jsval \<Rightarrow> (string \<Rightarrow> 'a js) \<Rightarrow> 'a js" where
  "get_name obj k = get_required obj ''name'' k"

definition get_hostname :: "jsval \<Rightarrow> (string \<Rightarrow> 'a js) \<Rightarrow> 'a js" where
  "get_hostname obj k = get_required obj ''hostname'' k"

text \<open>The port is an \<open>unsigned short\<close>.\<close>

definition IRC_SERVER_DEFAULT_PORT :: int where "IRC_SERVER_DEFAULT_PORT = 6667"

definition get_port :: "jsval \<Rightarrow> (int \<Rightarrow> 'a js) \<Rightarrow> 'a js" where
  "get_port obj k =
     (case get_prop obj ''port'' of
        JUndefined \<Rightarrow> k IRC_SERVER_DEFAULT_PORT
      | JNum d \<Rightarrow> k (duk__api_coerce_d2i d mod 65536)
      | _ \<Rightarrow> Throw (Plain_error (''invalid '' @ [CHR 0x27] @ ''port'' @ [CHR 0x27] @ '' property'')))"

text \<open>A failed assertion of a setter is \<open>Crash\<close>.\<close>

definition set_or_crash :: "irc_server option \<Rightarrow> (irc_server \<Rightarrow> 'a js) \<Rightarrow> 'a js" where
  "set_or_crash r k = (case r of None \<Rightarrow> Crash | Some s \<Rightarrow> k s)"

definition get_ident :: "jsval \<Rightarrow> irc_server \<Rightarrow> (irc_server \<Rightarrow> 'a js) \<Rightarrow> 'a js" where
  "get_ident obj s k =
     get_required obj ''nickname'' (\<lambda>nick.
     get_required obj ''username'' (\<lambda>user.
     get_required obj ''realname'' (\<lambda>real.
       set_or_crash (irc_server_set_username (irc_server_set_nickname s nick) user) (\<lambda>s1.
       set_or_crash (irc_server_set_realname s1 real) k))))"

definition get_params :: "jsval \<Rightarrow> irc_server \<Rightarrow> (irc_server \<Rightarrow> 'a js) \<Rightarrow> 'a js" where
  "get_params obj s k =
     (let flags = (if get_prop obj ''ssl'' = JBool True then IRC_SERVER_FLAGS_SSL else 0) in
      get_hostname obj (\<lambda>hostname.
      get_port obj (\<lambda>port.
        set_or_crash (irc_server_set_hostname s (Some hostname)) (\<lambda>s1.
        set_or_crash (irc_server_set_port s1 (word_of_int port)) (\<lambda>s2.
          k (irc_server_set_flags s2 flags))))))"

fun get_channels_loop :: "jsval list \<Rightarrow> irc_server \<Rightarrow> (irc_server \<Rightarrow> 'a js) \<Rightarrow> 'a js" where
  "get_channels_loop [] s k = k s"
| "get_channels_loop (v # vs) s k =
     (if v = JUndefined \<or> v = JNull then Throw (Type_error ''cannot read property'')
      else case get_prop v ''name'' of
        JStr name \<Rightarrow>
          get_channels_loop vs
            (snd (irc_server_join s name (duk_get_string_default [get_prop v ''password''] 0 None))) k
      | _ \<Rightarrow> Throw (Plain_error (''invalid channel '' @ [CHR 0x27] @ ''name'' @ [CHR 0x27] @ '' property'')))"

definition get_channels :: "jsval \<Rightarrow> irc_server \<Rightarrow> (irc_server \<Rightarrow> 'a js) \<Rightarrow> 'a js" where
  "get_channels obj s k =
     (let v = get_prop obj ''channels'' in
      if is_object v then get_channels_loop (map snd (as_props v)) s k else k s)"

text \<open>
  The version is passed where \<open>irc_server_set_ctcp\<close> takes the name of the variable, and the
  source where it takes the value; both are asserted not to be NULL.
\<close>

definition ctcp_or :: "string option \<Rightarrow> string option \<Rightarrow> string option" where
  "ctcp_or v d = (case v of None \<Rightarrow> d | Some s \<Rightarrow> if s = [] then None else Some s)"

definition get_ctcp :: "jsval \<Rightarrow> irc_server \<Rightarrow> (irc_server \<Rightarrow> 'a js) \<Rightarrow> 'a js" where
  "get_ctcp obj s k =
     (let v = get_prop obj ''ctcp'' in
      if \<not> is_object v then k s
      else get_string v ''version'' None (\<lambda>version.
           get_string v ''source'' None (\<lambda>source.
             case (ctcp_or version (sv_ctcp_version s), ctcp_or source (sv_ctcp_source s)) of
               (Some key, Some value) \<Rightarrow> k (irc_server_set_ctcp s key value)
             | _ \<Rightarrow> Crash)))"

text \<open>The object under construction is returned with its hidden pointer.\<close>

definition Server_constructor :: "nat \<Rightarrow> 's js_method" where
  "Server_constructor p this as w =
     duk_require_object as 0
       (get_name (js_arg as 0) (\<lambda>name.
        get_ident (js_arg as 0) (irc_server_new name) (\<lambda>s1.
        get_params (js_arg as 0) s1 (\<lambda>s2.
        get_channels (js_arg as 0) s2 (\<lambda>s3.
        get_ctcp (js_arg as 0) s3 (\<lambda>s4.
          if this = JUndefined then Throw (Type_error ''cannot write property'')
          else Ret (put_prop this SERVER_SIGNATURE (JPtr p), store_server p (irc_server_incref s4) w)))))))"

definition Server_destructor :: "jsval \<Rightarrow> 's js_world \<Rightarrow> 's js_world option" where
  "Server_destructor obj w =
     (case get_prop obj SERVER_SIGNATURE of
        JPtr p \<Rightarrow>
          (case jw_heap w p of
             None \<Rightarrow> None
           | Some s \<Rightarrow>
               (case irc_server_decref s of
                  None \<Rightarrow> None
                | Some (Inl _) \<Rightarrow> Some (w\<lparr>jw_heap := (jw_heap w)(p := None)\<rparr>)
                | Some (Inr s') \<Rightarrow> Some (store_server p s' w)))
      | _ \<Rightarrow> Some w)"

section \<open>Methods\<close>

text \<open>What a command returns as an \<open>int\<close> is pushed as a boolean: 0, sent, is false.\<close>

definition sent_result :: "nat \<Rightarrow> sent \<times> irc_server \<Rightarrow> 's js_world \<Rightarrow> (jsval \<times> 's js_world) js" where
  "sent_result p r w = Ret (JBool (fst r \<noteq> Inr 0), store_server p (snd r) w)"

definition Server_prototype_invite :: "'s js_method" where
  "Server_prototype_invite this as w =
     server_self this w (\<lambda>p s.
     duk_require_string as 0 (\<lambda>target.
     duk_require_string as 1 (\<lambda>channel.
       sent_result p (irc_server_invite s target channel) w)))"

definition Server_prototype_isSelf :: "'s js_method" where
  "Server_prototype_isSelf this as w =
     server_self this w (\<lambda>p s.
     duk_require_string as 0 (\<lambda>target.
       case sv_nickname s of
         None \<Rightarrow> Crash
       | Some nick \<Rightarrow> Ret (JBool (strneq target nick (length nick)), w)))"

definition Server_prototype_join :: "'s js_method" where
  "Server_prototype_join this as w =
     server_self this w (\<lambda>p s.
     duk_require_string as 0 (\<lambda>channel.
       sent_result p (irc_server_join s channel (duk_get_string_default as 1 None)) w))"

definition Server_prototype_kick :: "'s js_method" where
  "Server_prototype_kick this as w =
     server_self this w (\<lambda>p s.
     duk_require_string as 0 (\<lambda>target.
     duk_require_string as 1 (\<lambda>channel.
       sent_result p (irc_server_kick s channel target (duk_get_string_default as 2 None)) w)))"

definition Server_prototype_me :: "'s js_method" where
  "Server_prototype_me this as w =
     server_self this w (\<lambda>p s.
     duk_require_string as 0 (\<lambda>target.
     duk_require_string as 1 (\<lambda>message. sent_result p (irc_server_me s target message) w)))"

definition Server_prototype_message :: "'s js_method" where
  "Server_prototype_message this as w =
     server_self this w (\<lambda>p s.
     duk_require_string as 0 (\<lambda>target.
     duk_require_string as 1 (\<lambda>message. sent_result p (irc_server_message s target message) w)))"

definition Server_prototype_mode :: "'s js_method" where
  "Server_prototype_mode this as w =
     server_self this w (\<lambda>p s.
     duk_require_string as 0 (\<lambda>channel.
     duk_require_string as 1 (\<lambda>mode.
       sent_result p (irc_server_mode s channel mode (duk_get_string_default as 2 None)) w)))"

definition Server_prototype_names :: "'s js_method" where
  "Server_prototype_names this as w =
     server_self this w (\<lambda>p s.
     duk_require_string as 0 (\<lambda>channel. sent_result p (irc_server_names s channel) w))"

definition Server_prototype_nick :: "'s js_method" where
  "Server_prototype_nick this as w =
     server_self this w (\<lambda>p s.
     duk_require_string as 0 (\<lambda>nickname.
       Ret (JBool True, store_server p (irc_server_set_nickname s nickname) w)))"

definition Server_prototype_notice :: "'s js_method" where
  "Server_prototype_notice this as w =
     server_self this w (\<lambda>p s.
     duk_require_string as 0 (\<lambda>target.
       case duk_get_string_default as 1 None of
         None \<Rightarrow> Crash
       | Some message \<Rightarrow> sent_result p (irc_server_notice s target message) w))"

definition Server_prototype_part :: "'s js_method" where
  "Server_prototype_part this as w =
     server_self this w (\<lambda>p s.
     duk_require_string as 0 (\<lambda>channel.
       sent_result p (irc_server_part s channel (duk_get_string_default as 1 None)) w))"

definition Server_prototype_send :: "'s js_method" where
  "Server_prototype_send this as w =
     server_self this w (\<lambda>p s.
     duk_require_string as 0 (\<lambda>raw. sent_result p (irc_server_send s raw) w))"

definition Server_prototype_topic :: "'s js_method" where
  "Server_prototype_topic this as w =
     server_self this w (\<lambda>p s.
     duk_require_string as 0 (\<lambda>channel.
     duk_require_string as 1 (\<lambda>topic. sent_result p (irc_server_topic s channel topic) w)))"

definition Server_prototype_whois :: "'s js_method" where
  "Server_prototype_whois this as w =
     server_self this w (\<lambda>p s.
     duk_require_string as 0 (\<lambda>target. sent_result p (irc_server_whois s target) w))"

definition Server_prototype_toString :: "'s js_method" where
  "Server_prototype_toString this as w = server_self this w (\<lambda>p s. Ret (JStr (sv_name s), w))"

text \<open>
  The description of a server.  The index of the users runs on from one channel to the
  next, so the arrays of all channels but the first start with holes.
\<close>

definition push_user :: "channel_user \<Rightarrow> jsval" where
  "push_user u = JObj [(''nickname'', JStr (u_nickname u)), (''modes'', push_int (u_modes u))]"

fun push_users :: "nat \<Rightarrow> channel_user list \<Rightarrow> jsval list \<Rightarrow> jsval list" where
  "push_users ui [] xs = xs"
| "push_users ui (u # us) xs = push_users (Suc ui) us (put_index xs ui (push_user u))"

fun push_channels :: "nat \<Rightarrow> irc_channel list \<Rightarrow> jsval list" where
  "push_channels ui [] = []"
| "push_channels ui (c # cs) =
     JObj [(''name'', JStr (ch_name c)),
           (''joined'', JBool (ch_flags c AND IRC_CHANNEL_FLAGS_JOINED \<noteq> 0)),
           (''users'', JArr (push_users ui (ch_users c) []))]
     # push_channels (ui + length (ch_users c)) cs"

fun push_prefixes :: "nat \<Rightarrow> irc_server_umode list \<Rightarrow> jsval list \<Rightarrow> jsval list" where
  "push_prefixes i [] xs = xs"
| "push_prefixes i (m # ms) xs =
     push_prefixes (Suc i) ms
       (if um_mode m = NUL then xs
        else put_index xs i (JObj [(''mode'', JStr [um_mode m]), (''symbol'', JStr [um_symbol m])]))"

definition push_server :: "irc_server \<Rightarrow> jsval" where
  "push_server s =
     JObj [(''name'', JStr (sv_name s)), (''hostname'', duk_push_string (sv_hostname s)),
           (''port'', JInt (uint (sv_port s))),
           (''ssl'', JBool (sv_flags s AND IRC_SERVER_FLAGS_SSL \<noteq> 0)),
           (''prefix'', duk_push_string (sv_prefix s)), (''realname'', duk_push_string (sv_realname s)),
           (''nickname'', duk_push_string (sv_nickname s)), (''username'', duk_push_string (sv_username s)),
           (''ctcp'', JObj [(''version'', duk_push_string (sv_ctcp_version s)),
                            (''source'', duk_push_string (sv_ctcp_source s))]),
           (''prefixes'', JArr (push_prefixes 0 (sv_prefixes s) [])),
           (''channels'', JArr (push_channels 0 (sv_channels s)))]"

definition Server_prototype_info :: "'s js_method" where
  "Server_prototype_info this as w = server_self this w (\<lambda>p s. Ret (push_server s, w))"

definition server_methods :: "(string \<times> 's js_method \<times> nat option) list" where
  "server_methods =
     [(''info'', Server_prototype_info, Some 0), (''invite'', Server_prototype_invite, Some 2),
      (''isSelf'', Server_prototype_isSelf, Some 1), (''join'', Server_prototype_join, None),
      (''kick'', Server_prototype_kick, None), (''me'', Server_prototype_me, Some 2),
      (''message'', Server_prototype_message, Some 2), (''mode'', Server_prototype_mode, Some 1),
      (''names'', Server_prototype_names, Some 1), (''nick'', Server_prototype_nick, Some 1),
      (''notice'', Server_prototype_notice, Some 2), (''part'', Server_prototype_part, None),
      (''send'', Server_prototype_send, Some 1), (''topic'', Server_prototype_topic, Some 2),
      (''toString'', Server_prototype_toString, Some 0), (''whois'', Server_prototype_whois, Some 1)]"

definition method_call :: "string \<Rightarrow> 's js_method" where
  "method_call name this as w =
     (case map_of server_methods name of
        None \<Rightarrow> Throw (Type_error ''not callable'')
      | Some (f, nargs) \<Rightarrow> f this (call_args nargs as) w)"

section \<open>Functions\<close>

definition Server_add :: "bool \<Rightarrow> 's js_world native" where
  "Server_add with_ssl as w =
     server_require as 0 w (\<lambda>p s.
       case irc_bot_server_add with_ssl (jw_bot w) s of
         None \<Rightarrow> Crash
       | Some (rc, b) \<Rightarrow>
           if rc \<noteq> 0 then Ret (JUndefined, w)
           else Ret (JUndefined, w\<lparr>jw_bot := b, jw_addrs := jw_addrs w @ [p],
                  jw_heap := (jw_heap w)(p \<mapsto> last (bt_servers b))\<rparr>))"

text \<open>The new object holds a reference to the server.\<close>

definition push_addr :: "nat \<Rightarrow> jsval" where
  "push_addr p = JObj [(SERVER_SIGNATURE, JPtr p)]"

definition server_addr :: "'s js_world \<Rightarrow> string \<Rightarrow> (nat \<times> irc_server) option" where
  "server_addr w name = find (\<lambda>(p, s). sv_name s = name) (zip (jw_addrs w) (bt_servers (jw_bot w)))"

definition Server_find :: "'s js_world native" where
  "Server_find as w =
     duk_require_string as 0 (\<lambda>name.
       case server_addr w name of
         None \<Rightarrow> Ret (JUndefined, w)
       | Some (p, s) \<Rightarrow> Ret (push_addr p, store_server p (irc_server_incref s) w))"

definition Server_list :: "'s js_world native" where
  "Server_list as w =
     Ret (JObj (foldl (\<lambda>ps (p, s). AList.update (sv_name s) (push_addr p) ps) []
            (zip (jw_addrs w) (bt_servers (jw_bot w)))),
          foldl (\<lambda>w (p, s). store_server p (irc_server_incref s) w) w
            (zip (jw_addrs w) (bt_servers (jw_bot w))))"

text \<open>
  The bot disconnects the server, tells the plugins and drops its reference; an object of a
  script keeps the server alive.
\<close>

definition Server_remove :: "'s js_world native" where
  "Server_remove as w =
     duk_require_string as 0 (\<lambda>name.
       case server_addr w name of
         None \<Rightarrow> Ret (JUndefined, w)
       | Some (p, s) \<Rightarrow>
           (case irc_bot_server_remove (jw_bot w) name of
              None \<Rightarrow> Crash
            | Some (acts, b) \<Rightarrow>
                (case irc_server_decref (irc_server_disconnect s) of
                   None \<Rightarrow> Crash
                 | Some r \<Rightarrow>
                     Ret (JUndefined, w\<lparr>jw_bot := b, jw_addrs := filter (\<lambda>a. a \<noteq> p) (jw_addrs w),
                       jw_heap := (jw_heap w)(p := (case r of Inl _ \<Rightarrow> None | Inr s' \<Rightarrow> Some s')),
                       jw_acts := jw_acts w @ acts\<rparr>))))"

definition server_functions :: "bool \<Rightarrow> 's js_world function_list" where
  "server_functions with_ssl =
     [(''add'', Server_add with_ssl, Some 1), (''find'', Server_find, Some 1),
      (''list'', Server_list, Some 0), (''remove'', Server_remove, Some 1)]"

end
