(* ===== verification/Js_Server_Facts.thy ===== *)
theory Js_Server_Facts
  imports Js_Server "HOL-Library.Multiset"
begin

text \<open>
  The servers a script holds: the bot's list and the pointers agree, references are counted
  exactly, and what a script does to a server object happens to the server of the bot.
\<close>

section \<open>Methods change a server in place\<close>

text \<open>The attributes no method and no change of the list touches: the name and the references.\<close>

definition same_server :: "irc_server \<Rightarrow> irc_server \<Rightarrow> bool" where
  "same_server s s' = (sv_name s' = sv_name s \<and> sv_refc s' = sv_refc s)"

lemma same_refl [simp]: "same_server s s" by (simp add: same_server_def)

lemma same_send [simp]: "same_server s (snd (irc_server_send s t))"
  using send_cases[of s t] by (auto simp: same_server_def)

lemma same_trans: "same_server s t \<Longrightarrow> same_server t u \<Longrightarrow> same_server s u"
  by (simp add: same_server_def)

lemma same_add: "same_server s (irc_server_channels_add s n p f)"
  by (simp add: same_server_def irc_server_channels_add_def on_channel_def split: option.splits)

lemma same_join [simp]: "same_server s (snd (irc_server_join s n p))"
  by (auto simp: irc_server_join_def Let_def same_add intro: same_trans[OF same_add same_send] split: option.splits)

lemma same_command [simp]:
  "same_server s (snd (irc_server_invite s c t))" "same_server s (snd (irc_server_kick s c t r))"
  "same_server s (snd (irc_server_part s c r))" "same_server s (snd (irc_server_topic s c t))"
  "same_server s (snd (irc_server_message s c t))" "same_server s (snd (irc_server_me s c t))"
  "same_server s (snd (irc_server_mode s c t r))" "same_server s (snd (irc_server_names s c))"
  "same_server s (snd (irc_server_notice s c t))" "same_server s (snd (irc_server_whois s t))"
  "same_server s (irc_server_set_nickname s n)"
  unfolding irc_server_invite_def irc_server_kick_def irc_server_part_def irc_server_topic_def
    irc_server_message_def irc_server_me_def irc_server_mode_def irc_server_names_def
    irc_server_notice_def irc_server_whois_def irc_server_set_nickname_def
  by (simp_all, simp add: same_server_def)

text \<open>A method returns with the world as it was or with one server replaced.\<close>

definition in_place :: "jsval \<Rightarrow> 's js_world \<Rightarrow> 's js_world \<Rightarrow> bool" where
  "in_place this w w' =
     (\<exists>p s s'. get_prop this SERVER_SIGNATURE = JPtr p \<and> jw_heap w p = Some s \<and> same_server s s' \<and>
        (w' = w \<or> w' = store_server p s' w))"

lemma self_elim:
  assumes "server_self this w k = Ret r"
  obtains p s where "get_prop this SERVER_SIGNATURE = JPtr p" "jw_heap w p = Some s" "k p s = Ret r"
  using assms by (auto simp: server_self_def split: jsval.splits option.splits)

lemma sent_in_place:
  "\<lbrakk>get_prop this SERVER_SIGNATURE = JPtr p; jw_heap w p = Some s; sent_result p r w = Ret (v, w');
    same_server s (snd r)\<rbrakk> \<Longrightarrow> in_place this w w'"
  by (auto simp: sent_result_def in_place_def)

lemma in_place_same: "\<lbrakk>get_prop this SERVER_SIGNATURE = JPtr p; jw_heap w p = Some s\<rbrakk> \<Longrightarrow> in_place this w w"
  by (auto simp: in_place_def intro: same_refl)

lemma in_place_nick: "\<lbrakk>get_prop this SERVER_SIGNATURE = JPtr p; jw_heap w p = Some s\<rbrakk>
    \<Longrightarrow> in_place this w (store_server p (irc_server_set_nickname s n) w)"
  by (auto simp: in_place_def intro!: exI[of _ "irc_server_set_nickname s n"])

lemma require_elim:
  assumes "duk_require_string as i k = Ret r"
  obtains t where "js_arg as i = JStr t" "k t = Ret r"
  using assms by (auto simp: duk_require_string_def split: jsval.splits)

lemma method_in_place:
  assumes "method_call m this as w = Ret (v, w')"
  shows "in_place this w w'"
  using assms unfolding method_call_def server_methods_def
    by (auto split: if_splits option.splits elim!: self_elim require_elim
        simp: Server_prototype_invite_def Server_prototype_isSelf_def Server_prototype_join_def
          Server_prototype_kick_def Server_prototype_me_def Server_prototype_message_def
          Server_prototype_mode_def Server_prototype_names_def Server_prototype_nick_def
          Server_prototype_notice_def Server_prototype_part_def Server_prototype_send_def
          Server_prototype_topic_def Server_prototype_whois_def Server_prototype_toString_def
          Server_prototype_info_def
        intro: sent_in_place[OF _ _ _ same_command(9)] sent_in_place in_place_same in_place_nick)

section \<open>The list and the pointers agree\<close>

lemma heap_store [simp]: "jw_heap (store_server p s w) = (jw_heap w)(p \<mapsto> s)"
  and addrs_store [simp]: "jw_addrs (store_server p s w) = jw_addrs w"
  by (simp_all add: store_server_def)

lemma zip_wf:
  assumes "world_wf w" "(p, s) \<in> set (zip (jw_addrs w) (bt_servers (jw_bot w)))"
  shows "jw_heap w p = Some s" "p \<in> set (jw_addrs w)" "s \<in> set (bt_servers (jw_bot w))"
proof -
  from assms(2) obtain i where i: "i < length (jw_addrs w)" "i < length (bt_servers (jw_bot w))"
    "p = jw_addrs w ! i" "s = bt_servers (jw_bot w) ! i" by (auto simp: in_set_zip)
  moreover have "map (jw_heap w) (jw_addrs w) ! i = map Some (bt_servers (jw_bot w)) ! i"
    using assms(1) by (simp add: world_wf_def)
  ultimately show "jw_heap w p = Some s" "p \<in> set (jw_addrs w)" "s \<in> set (bt_servers (jw_bot w))" by simp_all
qed

lemma length_wf: "world_wf w \<Longrightarrow> length (jw_addrs w) = length (bt_servers (jw_bot w))"
  using map_eq_imp_length_eq by (auto simp: world_wf_def)

lemma listed_wf:
  assumes "world_wf w" "p \<in> set (jw_addrs w)"
  obtains s where "jw_heap w p = Some s" "s \<in> set (bt_servers (jw_bot w))"
proof -
  have "jw_heap w p \<in> set (map (jw_heap w) (jw_addrs w))" using assms(2) by simp
  also have "\<dots> = Some ` set (bt_servers (jw_bot w))" using assms(1) by (simp add: world_wf_def)
  finally show ?thesis using that by auto
qed

lemma nth_wf:
  assumes "world_wf w" "i < length (jw_addrs w)"
  shows "jw_heap w (jw_addrs w ! i) = Some (bt_servers (jw_bot w) ! i)"
  using assms zip_wf(1)[OF assms(1)] length_wf[OF assms(1)] by (auto simp: in_set_zip)

lemma world_wf_store:
  assumes wf: "world_wf w" and s: "\<And>s0. p \<in> set (jw_addrs w) \<Longrightarrow> jw_heap w p = Some s0 \<Longrightarrow> sv_name s = sv_name s0"
  shows "world_wf (store_server p s w)"
proof -
  let ?xs = "map2 (\<lambda>a old. if a = p then s else old) (jw_addrs w) (bt_servers (jw_bot w))"
  note len = length_wf[OF wf]
  have "map ((jw_heap w)(p \<mapsto> s)) (jw_addrs w) = map Some ?xs"
    by (rule nth_equalityI) (auto simp: len nth_wf[OF wf, unfolded len])
  moreover have "map sv_name ?xs = map sv_name (bt_servers (jw_bot w))"
    using s nth_wf[OF wf] by (intro nth_equalityI) (auto simp: len)
  ultimately show ?thesis using wf by (simp add: world_wf_def store_server_def)
qed

section \<open>References\<close>

text \<open>
  The objects of the scripts that point to servers, as the multiset of their addresses: a
  server counts one reference for each and one for the list of the bot, and lives as long as
  it has any.
\<close>

definition refs_ok :: "'s js_world \<Rightarrow> nat multiset \<Rightarrow> bool" where
  "refs_ok w objs =
     (world_wf w \<and>
      (\<forall>p. case jw_heap w p of
            None \<Rightarrow> p \<notin># objs
          | Some s \<Rightarrow> 0 < sv_refc s \<and>
              sv_refc s = count objs p + (if p \<in> set (jw_addrs w) then 1 else 0)))"

text \<open>The objects in what a function returns.\<close>

fun handle :: "jsval \<Rightarrow> nat list" where
  "handle (JObj [(k, JPtr p)]) = [p]"
| "handle _ = []"

definition handles :: "jsval \<Rightarrow> nat list" where
  "handles v = handle v @ concat (map (handle \<circ> snd) (as_props v))"

text \<open>
  What happens to the servers while scripts run: a constructor is given an address that is
  free, methods and functions are called on the objects there are, an event brings an object
  for its server, and an object that is no longer used is finalised.
\<close>

inductive script_step ::
  "bool \<Rightarrow> 's js_world \<times> nat multiset \<Rightarrow> 's js_world \<times> nat multiset \<Rightarrow> bool" for ssl where
  construct: "\<lbrakk>jw_heap w p = None; Server_constructor p this as w = Ret (this', w')\<rbrakk>
    \<Longrightarrow> script_step ssl (w, objs) (w', add_mset p objs)"
| invoke: "method_call m this as w = Ret (v, w') \<Longrightarrow> script_step ssl (w, objs) (w', objs)"
| call: "js_call (server_functions ssl) f as w = Ret (v, w')
    \<Longrightarrow> script_step ssl (w, objs) (w', objs + mset (handles v))"
| event: "\<lbrakk>p \<in> set (jw_addrs w); jw_heap w p = Some s\<rbrakk>
    \<Longrightarrow> script_step ssl (w, objs) (store_server p (irc_server_incref s) w, add_mset p objs)"
| finalise: "\<lbrakk>p \<in># objs; Server_destructor (push_addr p) w = Some w'\<rbrakk>
    \<Longrightarrow> script_step ssl (w, objs) (w', objs - {#p#})"

lemma refs_heap:
  assumes ok: "refs_ok w objs" and heap: "jw_heap w p = Some s"
  shows "0 < sv_refc s \<and> sv_refc s = count objs p + (if p \<in> set (jw_addrs w) then 1 else 0)"
proof -
  have "case jw_heap w p of None \<Rightarrow> p \<notin># objs | Some s \<Rightarrow> 0 < sv_refc s \<and>
      sv_refc s = count objs p + (if p \<in> set (jw_addrs w) then 1 else 0)"
    using ok unfolding refs_ok_def by blast
  then show ?thesis unfolding heap option.case .
qed

lemma refs_free: "refs_ok w objs \<Longrightarrow> jw_heap w p = None \<Longrightarrow> p \<notin># objs \<and> p \<notin> set (jw_addrs w)"
  by (auto simp: refs_ok_def elim!: listed_wf dest: spec[of _ p])

lemma refs_live: "refs_ok w objs \<Longrightarrow> p \<in># objs \<Longrightarrow> \<exists>s. jw_heap w p = Some s"
  using refs_free by fastforce

text \<open>A server takes the place of one with its name, and the objects change with its count.\<close>

lemma refs_store:
  assumes ok: "refs_ok w objs" and s0: "jw_heap w p = Some s0" and name: "sv_name s = sv_name s0"
    and refc: "0 < sv_refc s" "sv_refc s + count objs p = sv_refc s0 + count objs' p"
    and others: "\<And>q. q \<noteq> p \<Longrightarrow> count objs' q = count objs q"
  shows "refs_ok (store_server p s w) objs'"
proof -
  have "world_wf (store_server p s w)"
    using ok s0 name by (intro world_wf_store) (auto simp: refs_ok_def)
  moreover have "case ((jw_heap w)(p \<mapsto> s)) q of None \<Rightarrow> q \<notin># objs'
      | Some t \<Rightarrow> 0 < sv_refc t \<and> sv_refc t = count objs' q + (if q \<in> set (jw_addrs w) then 1 else 0)" for q
  proof (cases "q = p")
    case True
    with refs_heap[OF ok s0] refc show ?thesis by (auto split: if_splits)
  next
    case False
    with others refs_free[OF ok, of q] refs_heap[OF ok, of q] show ?thesis
      by (auto simp: not_in_iff split: option.splits)
  qed
  ultimately show ?thesis unfolding refs_ok_def heap_store addrs_store by blast
qed

lemma refs_in_place: "\<lbrakk>refs_ok w objs; in_place this w w'\<rbrakk> \<Longrightarrow> refs_ok w' objs"
  by (auto simp: in_place_def same_server_def dest: refs_heap intro!: refs_store)

lemma refs_incref: "\<lbrakk>refs_ok w objs; jw_heap w p = Some s\<rbrakk> \<Longrightarrow>
    refs_ok (store_server p (irc_server_incref s) w) (add_mset p objs)"
  by (rule refs_store) (auto simp: irc_server_incref_def)

lemma handles_addr [simp]: "handles (push_addr p) = [p]" "handles JUndefined = []"
  by (simp_all add: handles_def push_addr_def)

section \<open>The functions of the module\<close>

text \<open>What a parameter does to the server under construction leaves its name and references.\<close>

lemma required_elim: "get_required obj n k = Ret r \<Longrightarrow> \<exists>t. k t = Ret r"
  by (auto simp: get_required_def get_string_def split: jsval.splits option.splits)

lemma same_update:
  "same_server s (s\<lparr>sv_hostname := h\<rparr>)" "same_server s (s\<lparr>sv_port := n\<rparr>)"
  "same_server s (s\<lparr>sv_realname := t\<rparr>)" "same_server s (s\<lparr>sv_username := t\<rparr>)"
  "same_server s (s\<lparr>sv_flags := f\<rparr>)"
  by (simp_all add: same_server_def)

lemma same_ex: "same_server s t \<Longrightarrow> k t = Ret r \<Longrightarrow> \<exists>s'. same_server s s' \<and> k s' = Ret r"
  by blast

lemma set_elim:
  "set_or_crash (irc_server_set_hostname s h) k = Ret r \<Longrightarrow> \<exists>s'. same_server s s' \<and> k s' = Ret r"
  "set_or_crash (irc_server_set_port s n) k = Ret r \<Longrightarrow> \<exists>s'. same_server s s' \<and> k s' = Ret r"
  "set_or_crash (irc_server_set_realname s t) k = Ret r \<Longrightarrow> \<exists>s'. same_server s s' \<and> k s' = Ret r"
  "set_or_crash (irc_server_set_username s t) k = Ret r \<Longrightarrow> \<exists>s'. same_server s s' \<and> k s' = Ret r"
  unfolding set_or_crash_def irc_server_set_hostname_def irc_server_set_port_def
    irc_server_set_realname_def irc_server_set_username_def
  by (auto split: option.splits if_splits intro: same_update[THEN same_ex])

lemma ident_elim: "get_ident obj s k = Ret r \<Longrightarrow> \<exists>s'. same_server s s' \<and> k s' = Ret r"
proof -
  assume r: "get_ident obj s k = Ret r"
  from required_elim[OF r[unfolded get_ident_def]] obtain nick where
    r: "get_required obj ''username'' (\<lambda>user. get_required obj ''realname'' (\<lambda>real.
       set_or_crash (irc_server_set_username (irc_server_set_nickname s nick) user)
         (\<lambda>s1. set_or_crash (irc_server_set_realname s1 real) k))) = Ret r" ..
  from required_elim[OF r] obtain user where
    r: "get_required obj ''realname'' (\<lambda>real.
       set_or_crash (irc_server_set_username (irc_server_set_nickname s nick) user)
         (\<lambda>s1. set_or_crash (irc_server_set_realname s1 real) k)) = Ret r" ..
  from required_elim[OF r] obtain real where
    r: "set_or_crash (irc_server_set_username (irc_server_set_nickname s nick) user)
      (\<lambda>s1. set_or_crash (irc_server_set_realname s1 real) k) = Ret r" ..
  from set_elim(4)[OF r] obtain s1 where s1: "same_server (irc_server_set_nickname s nick) s1"
    "set_or_crash (irc_server_set_realname s1 real) k = Ret r" by blast
  from set_elim(3)[OF s1(2)] obtain s2 where s2: "same_server s1 s2" "k s2 = Ret r" by blast
  have "same_server s s2" using same_trans[OF same_trans[OF same_command(11) s1(1)] s2(1)] .
  with s2(2) show ?thesis by blast
qed

lemma port_elim: "get_port obj k = Ret r \<Longrightarrow> \<exists>t. k t = Ret r"
  by (auto simp: get_port_def split: jsval.splits)

lemma params_elim: "get_params obj s k = Ret r \<Longrightarrow> \<exists>s'. same_server s s' \<and> k s' = Ret r"
proof -
  assume r: "get_params obj s k = Ret r"
  define flags where "flags = (if get_prop obj ''ssl'' = JBool True then IRC_SERVER_FLAGS_SSL else 0)"
  from required_elim[OF r[unfolded get_params_def Let_def get_hostname_def, folded flags_def]]
  obtain host where r: "get_port obj (\<lambda>port. set_or_crash (irc_server_set_hostname s (Some host)) (\<lambda>s1.
       set_or_crash (irc_server_set_port s1 (word_of_int port)) (\<lambda>s2. k (irc_server_set_flags s2 flags)))) = Ret r" ..
  from port_elim[OF r] obtain port where
    r: "set_or_crash (irc_server_set_hostname s (Some host)) (\<lambda>s1.
       set_or_crash (irc_server_set_port s1 (word_of_int port)) (\<lambda>s2. k (irc_server_set_flags s2 flags))) = Ret r" ..
  from set_elim(1)[OF r] obtain s1 where s1: "same_server s s1"
    "set_or_crash (irc_server_set_port s1 (word_of_int port)) (\<lambda>s2. k (irc_server_set_flags s2 flags)) = Ret r"
    by blast
  from set_elim(2)[OF s1(2)] obtain s2 where "same_server s1 s2" "k (irc_server_set_flags s2 flags) = Ret r"
    by blast
  with s1(1) show ?thesis
    by (intro exI[of _ "irc_server_set_flags s2 flags"]) (simp add: same_server_def irc_server_set_flags_def)
qed

lemma channels_elim: "get_channels obj s k = Ret r \<Longrightarrow> \<exists>s'. same_server s s' \<and> k s' = Ret r"
proof -
  have "get_channels_loop vs s k = Ret r \<Longrightarrow> \<exists>s'. same_server s s' \<and> k s' = Ret r" for vs
  proof (induction vs arbitrary: s)
    case (Cons v vs)
    then obtain name p where "get_channels_loop vs (snd (irc_server_join s name p)) k = Ret r"
      by (auto split: if_splits jsval.splits)
    with Cons.IH show ?case by (blast intro: same_trans[OF same_join])
  qed (auto intro: same_refl)
  moreover assume "get_channels obj s k = Ret r"
  ultimately show ?thesis
    by (fastforce simp: get_channels_def Let_def split: if_splits intro: same_refl)
qed

lemma ctcp_elim: "get_ctcp obj s k = Ret r \<Longrightarrow> \<exists>s'. same_server s s' \<and> k s' = Ret r"
proof -
  have set: "same_server s (irc_server_set_ctcp s a b)" for a b
    by (simp add: irc_server_set_ctcp_def same_server_def)
  assume "get_ctcp obj s k = Ret r"
  then have "k s = Ret r \<or> (\<exists>a b. k (irc_server_set_ctcp s a b) = Ret r)"
    by (auto simp: get_ctcp_def get_string_def Let_def split: if_splits jsval.splits option.splits)
  with set show ?thesis by (auto intro: same_refl)
qed

lemma constructed:
  assumes "Server_constructor p this as w = Ret (v, w')"
  shows "\<exists>s. sv_refc s = 0 \<and> w' = store_server p (irc_server_incref s) w"
proof -
  from assms obtain name s1 s2 s3 s4 where
    "same_server (irc_server_new name) s1" "same_server s1 s2" "same_server s2 s3" "same_server s3 s4"
    "w' = store_server p (irc_server_incref s4) w"
    unfolding Server_constructor_def duk_require_object_def get_name_def
    by (auto split: if_splits dest!: required_elim ident_elim params_elim channels_elim ctcp_elim)
  then show ?thesis by (auto simp: same_server_def irc_server_new_def)
qed

lemma refs_construct:
  assumes ok: "refs_ok w objs" and free: "jw_heap w p = None"
    and c: "Server_constructor p this as w = Ret (v, w')"
  shows "refs_ok w' (add_mset p objs)"
proof -
  from constructed[OF c] obtain s where s: "sv_refc s = 0" "w' = store_server p (irc_server_incref s) w" by blast
  note none = refs_free[OF ok free]
  have "world_wf w'" using ok none unfolding s(2) by (intro world_wf_store) (auto simp: refs_ok_def)
  moreover have "case jw_heap w' q of None \<Rightarrow> q \<notin># add_mset p objs
      | Some t \<Rightarrow> 0 < sv_refc t \<and> sv_refc t = count (add_mset p objs) q +
          (if q \<in> set (jw_addrs w') then 1 else 0)" for q
    using none refs_free[OF ok, of q] refs_heap[OF ok, of q] s
    by (cases "q = p") (auto simp: irc_server_incref_def not_in_iff split: option.splits)
  ultimately show ?thesis unfolding refs_ok_def by blast
qed

lemma server_addr_Some:
  assumes "world_wf w" "server_addr w name = Some (p, s)"
  shows "jw_heap w p = Some s" "p \<in> set (jw_addrs w)" "sv_name s = name"
  using zip_wf[OF assms(1), of p s] find_SomeD[OF assms(2)[unfolded server_addr_def]] by auto

lemma refs_add:
  assumes ok: "refs_ok w objs" and r: "Server_add ssl as w = Ret (v, w')"
  shows "v = JUndefined \<and> refs_ok w' objs"
proof -
  from r obtain p s rc b where heap: "jw_heap w p = Some s"
    and add: "irc_bot_server_add ssl (jw_bot w) s = Some (rc, b)"
    and w': "v = JUndefined" "w' = (if rc \<noteq> 0 then w else w\<lparr>jw_bot := b, jw_addrs := jw_addrs w @ [p],
                  jw_heap := (jw_heap w)(p \<mapsto> last (bt_servers b))\<rparr>)"
    by (auto simp: Server_add_def server_require_def server_self_def split: if_splits jsval.splits option.splits)
  show ?thesis
  proof (cases "rc = 0")
    case True
    with add obtain s' where new: "sv_name s \<notin> sv_name ` set (bt_servers (jw_bot w))"
      and c: "irc_server_connect ssl (irc_server_incref s) = Some s'"
      and b: "b = (jw_bot w)\<lparr>bt_servers := bt_servers (jw_bot w) @ [s']\<rparr>"
      by (auto simp: irc_bot_server_add_def irc_bot_server_get_def find_key_None split: if_splits)
    have wf: "world_wf w" using ok by (simp add: refs_ok_def)
    have p: "p \<notin> set (jw_addrs w)" using new heap listed_wf[OF wf, of p] by auto
    have s': "sv_name s' = sv_name s" "sv_refc s' = Suc (sv_refc s)"
      using c by (auto simp: irc_server_connect_def irc_server_incref_def split: if_splits)
    have w2: "w' = w\<lparr>jw_bot := b, jw_addrs := jw_addrs w @ [p], jw_heap := (jw_heap w)(p \<mapsto> s')\<rparr>"
      using w'(2) True b by simp
    have "map ((jw_heap w)(p \<mapsto> s')) (jw_addrs w) = map (jw_heap w) (jw_addrs w)" using p by auto
    then have "world_wf w'" using wf p new s' unfolding w2 b by (simp add: world_wf_def)
    moreover have "case jw_heap w' q of None \<Rightarrow> q \<notin># objs
      | Some t \<Rightarrow> 0 < sv_refc t \<and> sv_refc t = count objs q + (if q \<in> set (jw_addrs w') then 1 else 0)" for q
      using p s' heap refs_free[OF ok, of q] refs_heap[OF ok, of q] unfolding w2
      by (cases "q = p") (auto split: option.splits)
    ultimately show ?thesis using w'(1) unfolding refs_ok_def by blast
  qed (use ok w' in simp)
qed

lemma update_new: "k \<notin> fst ` set ps \<Longrightarrow> AList.update k v ps = ps @ [(k, v)]"
  by (induction ps) auto

lemma list_value:
  assumes "distinct (map sv_name (map snd xs))" "\<And>p s. (p, s) \<in> set xs \<Longrightarrow> sv_name s \<notin> fst ` set ps"
  shows "foldl (\<lambda>ps (p, s). AList.update (sv_name s) (push_addr p) ps) ps xs =
    ps @ map (\<lambda>(p, s). (sv_name s, push_addr p)) xs"
  using assms
proof (induction xs arbitrary: ps)
  case (Cons x xs)
  obtain p s where x: "x = (p, s)" by fastforce
  have "sv_name t \<notin> fst ` set (ps @ [(sv_name s, push_addr p)])" if "(q, t) \<in> set xs" for q t
  proof -
    have "sv_name t \<noteq> sv_name s" using Cons.prems(1) that x by (force simp: image_iff)
    with Cons.prems(2)[of q t] that show ?thesis by simp
  qed
  then have "foldl (\<lambda>ps (p, s). AList.update (sv_name s) (push_addr p) ps) (ps @ [(sv_name s, push_addr p)]) xs =
      (ps @ [(sv_name s, push_addr p)]) @ map (\<lambda>(p, s). (sv_name s, push_addr p)) xs"
    using Cons.prems(1) by (intro Cons.IH) simp_all
  moreover have "AList.update (sv_name s) (push_addr p) ps = ps @ [(sv_name s, push_addr p)]"
    using Cons.prems(2)[of p s] x by (simp add: update_new)
  ultimately show ?case using x by simp
qed simp

lemma handles_list: "handles (JObj (map (\<lambda>(p, s). (sv_name s, push_addr p)) xs)) = map fst xs"
proof -
  have "handle (JObj (map (\<lambda>(p, s). (sv_name s, push_addr p)) xs)) = []"
    by (cases xs rule: remdups_adj.cases) (auto simp: push_addr_def)
  moreover have "concat (map (handle \<circ> snd) (map (\<lambda>(p, s). (sv_name s, push_addr p)) xs)) = map fst xs"
    by (induction xs) (auto simp: push_addr_def)
  ultimately show ?thesis by (simp add: handles_def)
qed

lemma refs_list_loop:
  assumes "refs_ok w objs" "distinct (map fst xs)" "\<And>p s. (p, s) \<in> set xs \<Longrightarrow> jw_heap w p = Some s"
  shows "refs_ok (foldl (\<lambda>w (p, s). store_server p (irc_server_incref s) w) w xs) (objs + mset (map fst xs))"
  using assms
proof (induction xs arbitrary: w objs)
  case (Cons x xs)
  obtain p s where x: "x = (p, s)" by fastforce
  have "refs_ok (store_server p (irc_server_incref s) w) (add_mset p objs)"
    using Cons.prems(1,3) x by (auto intro: refs_incref)
  moreover have "jw_heap (store_server p (irc_server_incref s) w) q = Some t" if "(q, t) \<in> set xs" for q t
    using Cons.prems(2) Cons.prems(3)[of q t] that x by force
  ultimately show ?case using Cons.IH[of "store_server p (irc_server_incref s) w" "add_mset p objs"]
      Cons.prems(2) x by simp
qed simp

lemma refs_list:
  assumes ok: "refs_ok w objs" and r: "Server_list as w = Ret (v, w')"
  shows "refs_ok w' (objs + mset (handles v))"
proof -
  let ?z = "zip (jw_addrs w) (bt_servers (jw_bot w))"
  have wf: "world_wf w" using ok by (simp add: refs_ok_def)
  have z: "map fst ?z = jw_addrs w" "map snd ?z = bt_servers (jw_bot w)" using length_wf[OF wf] by simp_all
  have v: "v = JObj (map (\<lambda>(p, s). (sv_name s, push_addr p)) ?z)"
    using r wf list_value[of ?z "[]"] z(2) by (simp add: Server_list_def world_wf_def)
  have w': "w' = foldl (\<lambda>w (p, s). store_server p (irc_server_incref s) w) w ?z"
    using r by (simp add: Server_list_def)
  show ?thesis
    using refs_list_loop[OF ok, of ?z] zip_wf(1)[OF wf] wf z(1) unfolding v w' handles_list
    by (simp add: world_wf_def)
qed

lemma refs_find:
  assumes ok: "refs_ok w objs" and r: "Server_find as w = Ret (v, w')"
  shows "refs_ok w' (objs + mset (handles v))"
proof -
  from r obtain name where r: "(case server_addr w name of None \<Rightarrow> Ret (JUndefined, w)
      | Some (p, s) \<Rightarrow> Ret (push_addr p, store_server p (irc_server_incref s) w)) = Ret (v, w')"
    unfolding Server_find_def by (rule require_elim)
  show ?thesis
  proof (cases "server_addr w name")
    case None
    with r ok show ?thesis by simp
  next
    case (Some q)
    then obtain p s where q: "server_addr w name = Some (p, s)" by (cases q) auto
    with r have "v = push_addr p" "w' = store_server p (irc_server_incref s) w" by simp_all
    moreover have "jw_heap w p = Some s" using server_addr_Some(1)[OF _ q] ok by (simp add: refs_ok_def)
    ultimately show ?thesis using refs_incref[OF ok] by simp
  qed
qed

lemma remove_zip:
  assumes "distinct (map fst z)" "distinct (map f (map snd z))" "(p, s) \<in> set z"
  shows "map snd (filter (\<lambda>(a, x). a \<noteq> p) z) = delete_key f (map snd z) (f s)"
  using assms
proof (induction z)
  case (Cons y z)
  have "filter (\<lambda>(a, x). a \<noteq> fst y) z = z"
    using Cons.prems(1) by (intro filter_True) (auto simp: image_iff)
  then have rest: "map snd (filter (\<lambda>(a, x). a \<noteq> fst y) z) = map snd z" by simp
  show ?case
  proof (cases "y = (p, s)")
    case True
    with rest show ?thesis by (auto simp: delete_key_def)
  next
    case False
    with Cons.prems have z: "(p, s) \<in> set z" by simp
    then have "p \<in> fst ` set z" "f s \<in> (\<lambda>x. f (snd x)) ` set z" by force+
    moreover have "fst y \<notin> fst ` set z" "f (snd y) \<notin> (\<lambda>x. f (snd x)) ` set z"
      using Cons.prems(1,2) by (simp_all add: image_image)
    ultimately have "fst y \<noteq> p" "f (snd y) \<noteq> f s" by metis+
    with Cons.IH[OF _ _ z] Cons.prems show ?thesis by (auto simp: delete_key_def)
  qed
qed simp

lemma remove_bot:
  assumes "irc_bot_server_remove b name = Some (as, b')" "irc_bot_server_get b name = Some s"
  shows "bt_servers b' = delete_key sv_name (bt_servers b) name"
proof -
  let ?s = "irc_server_disconnect s"
  have name: "sv_name ?s = name" using assms(2) find_key_Some
    by (fastforce simp: irc_bot_server_get_def irc_server_disconnect_def irc_server_clear_def irc_server_channels_clear_def)
  have del: "delete_first (\<lambda>x. sv_name x = name) (update_first (\<lambda>x. sv_name x = name) (\<lambda>_. ?s) xs) =
      delete_first (\<lambda>x. sv_name x = name) xs" for xs
    using name by (induction xs) auto
  show ?thesis using assms
    by (auto simp: irc_bot_server_remove_def Let_def delete_key_def del dest!: dispatch_frame)
qed

lemma refs_remove:
  assumes ok: "refs_ok w objs" and r: "Server_remove as w = Ret (v, w')"
  shows "v = JUndefined \<and> refs_ok w' objs"
proof -
  from r obtain name where r: "(case server_addr w name of None \<Rightarrow> Ret (JUndefined, w)
      | Some (p, s) \<Rightarrow>
          (case irc_bot_server_remove (jw_bot w) name of
             None \<Rightarrow> Crash
           | Some (acts, b) \<Rightarrow>
               (case irc_server_decref (irc_server_disconnect s) of
                  None \<Rightarrow> Crash
                | Some r \<Rightarrow>
                    Ret (JUndefined, w\<lparr>jw_bot := b, jw_addrs := filter (\<lambda>a. a \<noteq> p) (jw_addrs w),
                      jw_heap := (jw_heap w)(p := (case r of Inl _ \<Rightarrow> None | Inr s' \<Rightarrow> Some s')),
                      jw_acts := jw_acts w @ acts\<rparr>)))) = Ret (v, w')"
    unfolding Server_remove_def by (rule require_elim)
  show ?thesis
  proof (cases "server_addr w name")
    case None
    with r ok show ?thesis by simp
  next
    case (Some q)
    then obtain p s where q: "server_addr w name = Some (p, s)" by (cases q) auto
    have wf: "world_wf w" using ok by (simp add: refs_ok_def)
    note at = server_addr_Some[OF wf q]
    from r q obtain acts b d where rem: "irc_bot_server_remove (jw_bot w) name = Some (acts, b)"
      and d: "irc_server_decref (irc_server_disconnect s) = Some d" and v: "v = JUndefined"
      and w': "w' = w\<lparr>jw_bot := b, jw_addrs := filter (\<lambda>a. a \<noteq> p) (jw_addrs w),
          jw_heap := (jw_heap w)(p := (case d of Inl _ \<Rightarrow> None | Inr s' \<Rightarrow> Some s')),
          jw_acts := jw_acts w @ acts\<rparr>"
      by (auto split: option.splits)
    let ?z = "zip (jw_addrs w) (bt_servers (jw_bot w))"
    have z: "map fst ?z = jw_addrs w" "map snd ?z = bt_servers (jw_bot w)" using length_wf[OF wf] by simp_all
    have ps: "(p, s) \<in> set ?z" using find_SomeD[OF q[unfolded server_addr_def]] by blast
    have "irc_bot_server_get (jw_bot w) name \<noteq> None"
      using zip_wf(3)[OF wf ps] at(3) by (auto simp: irc_bot_server_get_def find_key_None)
    then have "bt_servers b = delete_key sv_name (bt_servers (jw_bot w)) name"
      using remove_bot[OF rem] by blast
    also have "\<dots> = map snd (filter (\<lambda>(a, x). a \<noteq> p) ?z)"
      using remove_zip[OF _ _ ps, of sv_name] wf z at(3) by (simp add: world_wf_def)
    finally have b: "bt_servers b = map snd (filter (\<lambda>(a, x). a \<noteq> p) ?z)" .
    have addrs: "filter (\<lambda>a. a \<noteq> p) (jw_addrs w) = map fst (filter (\<lambda>(a, x). a \<noteq> p) ?z)"
      by (subst z(1)[symmetric]) (simp add: filter_map comp_def case_prod_unfold)
    have "map (jw_heap w') (filter (\<lambda>a. a \<noteq> p) (jw_addrs w)) = map Some (bt_servers b)"
      unfolding addrs b w' using zip_wf(1)[OF wf] by auto
    moreover have "distinct (map sv_name (bt_servers b))"
      using wf remove_bot[OF rem] \<open>irc_bot_server_get (jw_bot w) name \<noteq> None\<close>
      by (auto simp: world_wf_def delete_key_def distinct_map_delete_first)
    ultimately have "world_wf w'" using wf unfolding world_wf_def w' by simp
    moreover have "case jw_heap w' q of None \<Rightarrow> q \<notin># objs
      | Some t \<Rightarrow> 0 < sv_refc t \<and> sv_refc t = count objs q + (if q \<in> set (jw_addrs w') then 1 else 0)" for q
    proof (cases "q = p")
      case True
      have "sv_refc (irc_server_disconnect s) = Suc (count objs p)"
        using refs_heap[OF ok at(1)] at(2)
        by (simp add: irc_server_disconnect_def irc_server_clear_def irc_server_channels_clear_def)
      with d True show ?thesis unfolding w'
        by (auto simp: irc_server_decref_def not_in_iff split: if_splits)
    next
      case False
      with refs_free[OF ok, of q] refs_heap[OF ok, of q] show ?thesis unfolding w'
        by (auto split: option.splits)
    qed
    ultimately show ?thesis using v unfolding refs_ok_def by blast
  qed
qed

lemma refs_call:
  assumes ok: "refs_ok w objs" and r: "js_call (server_functions ssl) f as w = Ret (v, w')"
  shows "refs_ok w' (objs + mset (handles v))"
proof -
  obtain g n where g: "map_of (server_functions ssl) f = Some (g, n)" "g (call_args n as) w = Ret (v, w')"
    using r by (auto simp: js_call_def split: option.splits)
  from g(1) have "g = Server_add ssl \<or> g = Server_find \<or> g = Server_list \<or> g = Server_remove"
    by (auto simp: server_functions_def split: if_splits)
  with g(2) refs_add[OF ok, of ssl] refs_find[OF ok] refs_list[OF ok] refs_remove[OF ok]
  show ?thesis by fastforce
qed

lemma refs_finalise:
  assumes ok: "refs_ok w objs" and p: "p \<in># objs"
  shows "\<exists>w'. Server_destructor (push_addr p) w = Some w' \<and> refs_ok w' (objs - {#p#})"
proof -
  obtain s where s: "jw_heap w p = Some s" using refs_live[OF ok p] by blast
  note n = refs_heap[OF ok s]
  have sig: "get_prop (push_addr p) SERVER_SIGNATURE = JPtr p" by (simp add: push_addr_def lookup_prop_def)
  show ?thesis
  proof (cases "sv_refc s = 1")
    case True
    moreover obtain c where "count objs p = Suc c" using p by (metis count_greater_zero_iff gr0_implies_Suc)
    ultimately have out: "p \<notin> set (jw_addrs w)" "count objs p = 1" using n by (simp_all split: if_splits)
    let ?w = "w\<lparr>jw_heap := (jw_heap w)(p := None)\<rparr>"
    have "map (jw_heap ?w) (jw_addrs w) = map (jw_heap w) (jw_addrs w)" using out(1) by auto
    moreover have "world_wf w" using ok by (simp add: refs_ok_def)
    ultimately have "world_wf ?w" unfolding world_wf_def by simp
    moreover have "case jw_heap ?w q of None \<Rightarrow> q \<notin># objs - {#p#}
      | Some t \<Rightarrow> 0 < sv_refc t \<and> sv_refc t = count (objs - {#p#}) q +
          (if q \<in> set (jw_addrs ?w) then 1 else 0)" for q
      using out refs_free[OF ok, of q] refs_heap[OF ok, of q]
      by (cases "q = p") (auto simp: not_in_iff split: option.splits)
    moreover have "Server_destructor (push_addr p) w = Some ?w"
      using s True sig by (simp add: Server_destructor_def irc_server_decref_def)
    ultimately show ?thesis unfolding refs_ok_def by blast
  next
    case False
    let ?s = "s\<lparr>sv_refc := sv_refc s - 1\<rparr>"
    have "Server_destructor (push_addr p) w = Some (store_server p ?s w)"
      using s False conjunct1[OF n] sig by (simp add: Server_destructor_def irc_server_decref_def)
    moreover have "refs_ok (store_server p ?s w) (objs - {#p#})"
      using False n p by (intro refs_store[OF ok s]) auto
    ultimately show ?thesis by blast
  qed
qed

section \<open>Properties\<close>

lemma refs_step:
  assumes "script_step ssl x y" "refs_ok (fst x) (snd x)"
  shows "refs_ok (fst y) (snd y)"
  using assms
proof (cases rule: script_step.cases)
  case (construct w p this as this' w' objs)
  with assms(2) show ?thesis by (simp add: refs_construct)
next
  case (invoke m this as w v w' objs)
  with assms(2) show ?thesis using refs_in_place[OF _ method_in_place] by simp
next
  case (call f as w v w' objs)
  with assms(2) show ?thesis by (simp add: refs_call)
next
  case (event p w s objs)
  with assms(2) show ?thesis by (simp add: refs_incref)
next
  case (finalise p objs w w')
  with assms(2) refs_finalise[of w objs p] show ?thesis by auto
qed


text \<open>A script makes a server, gives it to the bot and drops its own object.\<close>

definition demo_scripts :: "unit js_world" where
  "demo_scripts = \<lparr>jw_bot = bot_empty, jw_addrs = [], jw_heap = (\<lambda>_. None), jw_acts = []\<rparr>"

definition demo_params :: jsval where
  "demo_params = JObj [(''name'', JStr ''wiki''), (''hostname'', JStr ''irc.net''), (''nickname'', JStr ''n''),
     (''username'', JStr ''u''), (''realname'', JStr ''r'')]"

definition demo_made :: irc_server where
  "demo_made = (irc_server_new ''wiki'')\<lparr>sv_hostname := Some ''irc.net'', sv_nickname := Some ''n'',
     sv_username := Some ''u'', sv_realname := Some ''r'', sv_refc := 1\<rparr>"

lemma demo_construct:
  "Server_constructor 7 (JObj []) [demo_params] demo_scripts = Ret (push_addr 7, store_server 7 demo_made demo_scripts)"
  by (simp add: Server_constructor_def duk_require_object_def get_name_def get_required_def get_string_def
      get_ident_def get_params_def get_channels_def get_ctcp_def get_hostname_def get_port_def Let_def
      demo_params_def demo_made_def lookup_prop_def set_or_crash_def irc_server_new_def server_ready_def
      irc_server_set_nickname_def irc_server_set_username_def irc_server_set_realname_def
      irc_server_set_hostname_def irc_server_set_port_def irc_server_set_flags_def irc_server_incref_def
      IRC_SERVER_DEFAULT_PORT_def put_prop_def push_addr_def irc__conn_ready_def)

lemma demo_add:
  "\<exists>w s. js_call (server_functions False) ''add'' [push_addr 7] (store_server 7 demo_made demo_scripts) =
    Ret (JUndefined, w) \<and> jw_heap w 7 = Some s \<and> sv_refc s = 2 \<and> jw_addrs w = [7]"
  by (simp add: js_call_def server_functions_def call_args_def Server_add_def server_require_def
      server_self_def push_addr_def lookup_prop_def store_server_def demo_scripts_def bot_empty_def
      irc_bot_server_add_def irc_bot_server_get_def find_key_def irc_server_connect_def demo_made_def
      irc_server_new_def irc_server_incref_def)


text \<open>What a script sends through an object it found.\<close>

lemma get_store:
  assumes wf: "world_wf w" and a: "server_addr w name = Some (p, s)" and n: "sv_name s' = name"
  shows "irc_bot_server_get (jw_bot (store_server p s' w)) k =
    (if k = name then Some s' else irc_bot_server_get (jw_bot w) k)"
proof -
  let ?z = "zip (jw_addrs w) (bt_servers (jw_bot w))"
  have ps: "(p, s) \<in> set ?z" "sv_name s = name"
    using find_SomeD[OF a[unfolded server_addr_def]] by auto
  have d: "distinct (map fst ?z)" "distinct (map sv_name (map snd ?z))" "map snd ?z = bt_servers (jw_bot w)"
    using wf length_wf[OF wf] by (simp_all add: world_wf_def)
  have *: "find_key sv_name (map (\<lambda>(a, x). if a = p then s' else x) z) k =
      (if k = name then Some s' else find_key sv_name (map snd z) k)"
    if "distinct (map fst z)" "distinct (map sv_name (map snd z))" "(p, s) \<in> set z" for z
    using that
  proof (induction z)
    case (Cons y z)
    have id: "map (\<lambda>(a, x). if a = p then s' else x) z = map snd z" if "p \<notin> fst ` set z"
      using that by (auto simp: image_iff)
    show ?case
    proof (cases "y = (p, s)")
      case True
      with Cons.prems(1) have "p \<notin> fst ` set z" by simp
      then have "map (\<lambda>(a, x). if a = p then s' else x) (y # z) = s' # map snd z"
        using id True by (simp del: map_eq_conv)
      then show ?thesis using True n ps(2) by (simp del: map_eq_conv)
    next
      case False
      with Cons.prems(3) have "(p, s) \<in> set z" by simp
      then have "p \<in> fst ` set z" "name \<in> (\<lambda>x. sv_name (snd x)) ` set z" using ps(2) by force+
      moreover have "fst y \<notin> fst ` set z" "sv_name (snd y) \<notin> (\<lambda>x. sv_name (snd x)) ` set z"
        using Cons.prems(1,2) by (simp_all add: image_image)
      ultimately have "fst y \<noteq> p" "sv_name (snd y) \<noteq> name" by metis+
      with Cons.IH Cons.prems \<open>(p, s) \<in> set z\<close> show ?thesis by (auto simp: split_beta)
    qed
  qed simp
  from *[OF d(1,2) ps(1)] show ?thesis unfolding d(3)
    by (simp add: irc_bot_server_get_def store_server_def)
qed

lemma addr_get: "world_wf w \<Longrightarrow> irc_bot_server_get (jw_bot w) name = map_option snd (server_addr w name)"
proof -
  have *: "length xs = length ys \<Longrightarrow> find_key sv_name ys name =
      map_option snd (find (\<lambda>(p, s). sv_name s = name) (zip xs ys))" for xs :: "nat list" and ys
    by (induction xs ys rule: list_induct2) (simp_all add: find_key_def)
  show "world_wf w \<Longrightarrow> irc_bot_server_get (jw_bot w) name = map_option snd (server_addr w name)"
    unfolding irc_bot_server_get_def server_addr_def by (rule *) (rule length_wf)
qed

lemma store_store [simp]: "store_server p t (store_server p s w) = store_server p t w"
proof -
  have "map2 (\<lambda>a old. if a = p then t else old) xs (map2 (\<lambda>a old. if a = p then s else old) xs ys) =
      map2 (\<lambda>a old. if a = p then t else old) xs ys" for xs ys
  proof (induction xs arbitrary: ys)
    case (Cons x xs)
    then show ?case by (cases ys) simp_all
  qed simp
  then show ?thesis by (simp add: store_server_def)
qed

text \<open>
  The object \<open>Irccd.Server.find\<close> returns is the server of the bot itself: a message
  sent through it goes out on that server and counts its result, and no other server of the
  bot changes.  A name the bot does not have is \<open>undefined\<close>.
\<close>
theorem found_server_is_shared:
  assumes "world_wf w"
  shows "case irc_bot_server_get (jw_bot w) name of
      None \<Rightarrow> js_call (server_functions ssl) ''find'' [JStr name] w = Ret (JUndefined, w)
    | Some s \<Rightarrow>
        let r = irc_server_message (irc_server_incref s) c m in
        \<exists>obj w1 w2. js_call (server_functions ssl) ''find'' [JStr name] w = Ret (obj, w1) \<and>
          method_call ''message'' obj [JStr c, JStr m] w1 = Ret (JBool (fst r \<noteq> Inr 0), w2) \<and>
          (\<forall>k. irc_bot_server_get (jw_bot w2) k =
            (if k = name then Some (snd r) else irc_bot_server_get (jw_bot w) k))"
proof (cases "server_addr w name")
  case None
  then show ?thesis
    by (simp add: addr_get[OF assms] js_call_def server_functions_def Server_find_def duk_require_string_def)
next
  case (Some q)
  then obtain p s where q: "server_addr w name = Some (p, s)" by (cases q) auto
  let ?s = "irc_server_incref s"
  let ?r = "irc_server_message ?s c m"
  let ?w1 = "store_server p ?s w" and ?w2 = "store_server p (snd ?r) w"
  have find: "js_call (server_functions ssl) ''find'' [JStr name] w = Ret (push_addr p, ?w1)"
    by (simp add: js_call_def server_functions_def Server_find_def duk_require_string_def q)
  have "get_prop (push_addr p) SERVER_SIGNATURE = JPtr p" by (simp add: push_addr_def lookup_prop_def)
  then have send: "method_call ''message'' (push_addr p) [JStr c, JStr m] ?w1 =
      Ret (JBool (fst ?r \<noteq> Inr 0), ?w2)"
    by (simp add: method_call_def server_methods_def Server_prototype_message_def server_self_def
        duk_require_string_def sent_result_def)
  have "sv_name (snd ?r) = name"
    using same_command(5)[of ?s c m] server_addr_Some(3)[OF assms q]
    by (simp add: same_server_def irc_server_incref_def)
  from get_store[OF assms q this] find send show ?thesis
    by (auto simp: addr_get[OF assms, of name] q Let_def)
qed

lemma found_server_is_shared_witness:
  "\<exists>(w :: unit js_world) s. irc_bot_server_get (jw_bot w) ''wiki'' = Some s \<and>
    (\<exists>obj w1 w2. js_call (server_functions False) ''find'' [JStr ''wiki''] w = Ret (obj, w1) \<and>
      method_call ''message'' obj [JStr ''#a'', JStr ''hi''] w1 = Ret (JBool True, w2) \<and>
      irc_bot_server_get (jw_bot w2) ''wiki'' = Some (irc_server_incref s))"
proof -
  let ?w = "\<lparr>jw_bot = (bot_empty :: unit irccd)\<lparr>bt_servers := [demo_made]\<rparr>, jw_addrs = [7],
    jw_heap = [7 \<mapsto> demo_made], jw_acts = []\<rparr>"
  have "world_wf ?w" "irc_bot_server_get (jw_bot ?w) ''wiki'' = Some demo_made"
    by (simp_all add: world_wf_def irc_bot_server_get_def demo_made_def irc_server_new_def)
  then obtain w :: "unit js_world" where wf: "world_wf w"
    and get: "irc_bot_server_get (jw_bot w) ''wiki'' = Some demo_made" by blast
  have send: "irc_server_message (irc_server_incref demo_made) ''#a'' ''hi'' = (Inl ENOTCONN, irc_server_incref demo_made)"
    by (simp add: irc_server_message_def irc_server_send_def irc_server_send_va_def demo_made_def
        irc_server_incref_def irc_server_new_def)
  from found_server_is_shared[OF wf, where name = "''wiki''" and ssl = False and c = "''#a''" and m = "''hi''",
      unfolded get Let_def, simplified send option.case, simplified]
  obtain obj w1 w2 where r: "js_call (server_functions False) ''find'' [JStr ''wiki''] w = Ret (obj, w1)"
    "method_call ''message'' obj [JStr ''#a'', JStr ''hi''] w1 = Ret (JBool True, w2)"
    and k: "\<forall>k. irc_bot_server_get (jw_bot w2) k = (if k = ''wiki''
      then Some (snd (Inl ENOTCONN :: sent, irc_server_incref demo_made)) else irc_bot_server_get (jw_bot w) k)"
    by (elim exE conjE)
  have "irc_bot_server_get (jw_bot w2) ''wiki'' = Some (irc_server_incref demo_made)"
    using spec[OF k, of "''wiki''"] by simp
  with r get show ?thesis by blast
qed

end
