(* ===== verification/Js_Api_Facts.thy ===== *)
theory Js_Api_Facts
  imports Js_Api
begin

text \<open>
  What the Javascript API promises to a script and to the daemon: the types of the
  arguments of an event, the precedence of the configuration over what a script assigns to
  its tables, and the modules that edit hooks and rules.
\<close>

section \<open>Types of events\<close>

datatype ty = Ty_server | Ty_string | Ty_string_or_null | Ty_strings | Ty_users | Ty_whois

definition is_whole :: "jsval \<Rightarrow> bool" where
  "is_whole v = (case v of JNum (Fin r) \<Rightarrow> r = of_int (toward_zero r) | _ \<Rightarrow> False)"

text \<open>A name under \<open>key\<close> and a set of modes.\<close>

definition is_entry :: "string \<Rightarrow> jsval \<Rightarrow> bool" where
  "is_entry key v =
     (case v of
        JObj ps \<Rightarrow> map fst ps = [key, ''modes''] \<and> (is_string (snd (ps ! 0)) \<or> snd (ps ! 0) = JNull) \<and>
          is_whole (snd (ps ! 1))
      | _ \<Rightarrow> False)"

fun has_type :: "ty \<Rightarrow> jsval \<Rightarrow> bool" where
  "has_type Ty_server v = (case v of JObj [(k, JPtr _)] \<Rightarrow> k = SERVER_SIGNATURE | _ \<Rightarrow> False)"
| "has_type Ty_string v = is_string v"
| "has_type Ty_string_or_null v = (is_string v \<or> v = JNull)"
| "has_type Ty_strings v = (case v of JArr xs \<Rightarrow> list_all is_string xs | _ \<Rightarrow> False)"
| "has_type Ty_users v = (case v of JArr xs \<Rightarrow> list_all (is_entry ''nickname'') xs | _ \<Rightarrow> False)"
| "has_type Ty_whois v =
     (case v of
        JObj ps \<Rightarrow>
          map fst ps = [''nickname'', ''username'', ''realname'', ''hostname'', ''channels''] \<and>
          list_all is_string (map snd (take 4 ps)) \<and>
          (case snd (ps ! 4) of JArr xs \<Rightarrow> list_all (is_entry ''channel'') xs | _ \<Rightarrow> False)
      | _ \<Rightarrow> False)"

definition signatures :: "(string \<times> ty list) list" where
  "signatures =
     [(''onCommand'', [Ty_server, Ty_string, Ty_string, Ty_string]),
      (''onConnect'', [Ty_server]), (''onDisconnect'', [Ty_server]),
      (''onInvite'', [Ty_server, Ty_string, Ty_string]), (''onJoin'', [Ty_server, Ty_string, Ty_string]),
      (''onKick'', [Ty_server, Ty_string, Ty_string, Ty_string, Ty_string_or_null]),
      (''onMe'', [Ty_server, Ty_string, Ty_string, Ty_string]),
      (''onMessage'', [Ty_server, Ty_string, Ty_string, Ty_string]),
      (''onMode'', [Ty_server, Ty_string, Ty_string, Ty_string, Ty_strings]),
      (''onNames'', [Ty_server, Ty_string, Ty_users]), (''onNick'', [Ty_server, Ty_string, Ty_string]),
      (''onNotice'', [Ty_server, Ty_string, Ty_string, Ty_string]),
      (''onPart'', [Ty_server, Ty_string, Ty_string, Ty_string_or_null]),
      (''onTopic'', [Ty_server, Ty_string, Ty_string, Ty_string]), (''onWhois'', [Ty_server, Ty_whois])]"

lemma is_whole_pushed [simp]: "is_whole (push_int m)"
  unfolding is_whole_def push_int_def by (simp only: jsval.case num.case toward_zero_of_int)

lemma is_entry_pushed [simp]:
  "is_entry key (JObj [(key, v), (''modes'', push_int m)]) = (is_string v \<or> v = JNull)"
  by (simp add: is_entry_def)

lemma push_types [simp]:
  "has_type Ty_server (jsapi_server_push ptr name)"
  "has_type Ty_string_or_null (duk_push_string s)"
  "has_type Ty_strings (push_modes ms)"
  "has_type Ty_users (push_names e)"
  "has_type Ty_whois (push_whois w)"
  by (auto simp: jsapi_server_push_def duk_push_string_def push_modes_def push_names_def push_whois_def
      list_all_iff split: option.splits)


section \<open>The tables of a plugin\<close>

lemma foldl_put_prop:
  "ps \<noteq> [] \<Longrightarrow> foldl (\<lambda>obj (k, v). put_prop obj k v) obj ps =
     JObj (foldl (\<lambda>qs (k, v). AList.update k v qs) (as_props obj) ps)"
proof (induction ps arbitrary: obj)
  case (Cons p ps)
  then show ?case by (cases p; cases "ps = []") (simp_all add: put_prop_def)
qed simp

lemma lookup_foldl_update:
  "distinct (map fst ps) \<Longrightarrow> lookup_prop (foldl (\<lambda>qs (k, v). AList.update k v qs) qs ps) k =
     (case map_of ps k of Some v \<Rightarrow> v | None \<Rightarrow> lookup_prop qs k)"
proof (induction ps arbitrary: qs)
  case (Cons p ps)
  obtain k' v where "p = (k', v)" by fastforce
  moreover from this Cons.prems have "map_of ps k' = None" by (simp add: map_of_eq_None_iff)
  ultimately show ?case using Cons by (simp add: lookup_update split: option.splits)
qed simp

lemma plugin_set_lookup:
  assumes "is_object obj" "get_global ctx name = JObj ps" "distinct (map fst ps)"
  shows "\<exists>ctx'. plugin_set name [obj] ctx = Ret (JUndefined, ctx') \<and>
    lookup_prop (as_props (get_global ctx' name)) k =
      (case map_of ps k of Some v \<Rightarrow> v | None \<Rightarrow> lookup_prop (as_props obj) k)"
  using assms foldl_put_prop[of ps obj] lookup_foldl_update[of ps "as_props obj" k]
  by (cases "ps = []") (simp_all add: plugin_set_def)

text \<open>
  The configuration has precedence over the script.  Whatever object a script assigns
  to \<open>Irccd.Plugin.config\<close>, a key the daemon has set keeps the last value it was given, and
  every other key has the value of the script's object: the script provides the defaults,
  the order in which script and configuration run does not matter for what was set.
\<close>
theorem config_precedence:
  assumes "table_ok JSAPI_PLUGIN_PROP_OPTIONS st" "is_object obj"
    "foldl (\<lambda>t (k, v). js_set JSAPI_PLUGIN_PROP_OPTIONS t k v) st kvs = Some self"
  shows "\<exists>ctx. plugin_set JSAPI_PLUGIN_PROP_OPTIONS [obj] (js_ctx self) = Ret (JUndefined, ctx) \<and>
    (\<forall>k. js_get en JSAPI_PLUGIN_PROP_OPTIONS (Some (self\<lparr>js_ctx := ctx\<rparr>)) k =
      (case map_of (rev kvs) k of
         Some v \<Rightarrow> Some v
       | None \<Rightarrow> if k \<in> set (the (js_list JSAPI_PLUGIN_PROP_OPTIONS st))
                then js_get en JSAPI_PLUGIN_PROP_OPTIONS st k
                else duk_to_string (en_coerce en) (lookup_prop (as_props obj) k)))"
proof -
  note ok = js_options.ok_set_all[OF assms(1), of kvs, unfolded assms(3)]
  from ok obtain ps where ps: "get_global (js_ctx self) JSAPI_PLUGIN_PROP_OPTIONS = JObj ps"
    "distinct (map fst ps)" by (auto simp: table_ok_def)
  define P where "P = JSAPI_PLUGIN_PROP_OPTIONS"
  obtain ctx where set: "plugin_set P [obj] (js_ctx self) = Ret (JUndefined, ctx)"
    using plugin_set_lookup[OF assms(2) ps] unfolding P_def by blast
  have new: "js_get en P (Some (self\<lparr>js_ctx := ctx\<rparr>)) k =
      (if k \<in> fst ` set ps then js_get en P (Some self) k
       else duk_to_string (en_coerce en) (lookup_prop (as_props obj) k))" for k
  proof -
    have "lookup_prop (as_props (get_global ctx P)) k =
        (case map_of ps k of Some v \<Rightarrow> v | None \<Rightarrow> lookup_prop (as_props obj) k)"
      using plugin_set_lookup[OF assms(2) ps, of k] set unfolding P_def by auto
    moreover have "k \<in> fst ` set ps \<longleftrightarrow> map_of ps k \<noteq> None" by (simp add: map_of_eq_None_iff)
    ultimately show ?thesis
      using ps(1) unfolding P_def
      by (cases "map_of ps k") (simp_all add: js_get_def get_value_def lookup_prop_def)
  qed
  have keys: "fst ` set ps = set (the (js_list P st)) \<union> fst ` set kvs"
    using js_options.keys_set_all[OF assms(1), of kvs] assms(3) ps(1) unfolding P_def
    by (simp add: js_list_def get_table_def)
  have old: "js_get en P (Some self) k =
      (case map_of (rev kvs) k of Some v \<Rightarrow> Some v | None \<Rightarrow> js_get en P st k)" for k
    using js_options.get_set_all[OF assms(1), of en kvs k] assms(3) unfolding P_def by simp
  have keyed: "map_of (rev kvs) k = None \<longleftrightarrow> k \<notin> fst ` set kvs" for k
    by (simp add: map_of_eq_None_iff)
  have "js_get en P (Some (self\<lparr>js_ctx := ctx\<rparr>)) k =
      (case map_of (rev kvs) k of
         Some v \<Rightarrow> Some v
       | None \<Rightarrow> if k \<in> set (the (js_list P st)) then js_get en P st k
                else duk_to_string (en_coerce en) (lookup_prop (as_props obj) k))" for k
    unfolding new keys old using keyed[of k] by (cases "map_of (rev kvs) k") simp_all
  then show ?thesis using set unfolding P_def by blast
qed

definition engine_demo :: "unit engine" where
  "engine_demo = \<lparr>en_new = \<lparr>cx_globals = [], cx_heap = ()\<rparr>, en_peval = (\<lambda>_ c. (Inr JUndefined, c)),
     en_pcall = (\<lambda>_ _ c. (Inr JUndefined, c)), en_coerce = (\<lambda>_. None)\<rparr>"

lemma config_precedence_witness:
  "\<exists>ctx. plugin_set JSAPI_PLUGIN_PROP_OPTIONS
      [JObj [(''mode'', JStr ''simple''), (''level'', JStr ''123'')]]
      \<lparr>cx_globals = [(JSAPI_PLUGIN_PROP_OPTIONS, JObj [(''mode'', JStr ''hard'')])], cx_heap = ()\<rparr> =
        Ret (JUndefined, ctx) \<and>
    js_get engine_demo JSAPI_PLUGIN_PROP_OPTIONS
      (Some \<lparr>js_name = ''p'', js_ctx = ctx, js_location = [], js_warnings = []\<rparr>) ''mode'' = Some ''hard'' \<and>
    js_get engine_demo JSAPI_PLUGIN_PROP_OPTIONS
      (Some \<lparr>js_name = ''p'', js_ctx = ctx, js_location = [], js_warnings = []\<rparr>) ''level'' = Some ''123''"
proof -
  let ?ctx0 = "\<lparr>cx_globals = [(JSAPI_PLUGIN_PROP_OPTIONS, JObj [])], cx_heap = ()\<rparr>"
  let ?self = "\<lambda>c. \<lparr>js_name = ''p'', js_ctx = c, js_location = [], js_warnings = []\<rparr>"
  have "table_ok JSAPI_PLUGIN_PROP_OPTIONS (Some (?self ?ctx0))"
    by (simp add: table_ok_def get_global_def lookup_prop_def)
  moreover have "is_object (JObj [(''mode'', JStr ''simple''), (''level'', JStr ''123'')])" by simp
  moreover have "foldl (\<lambda>t (k, v). js_set JSAPI_PLUGIN_PROP_OPTIONS t k v) (Some (?self ?ctx0)) [(''mode'', ''hard'')] =
      Some (?self \<lparr>cx_globals = [(JSAPI_PLUGIN_PROP_OPTIONS, JObj [(''mode'', JStr ''hard'')])], cx_heap = ()\<rparr>)"
    by (simp add: js_set_def set_key_value_def put_global_def get_global_def lookup_prop_def put_prop_def)
  ultimately obtain ctx where ctx: "plugin_set JSAPI_PLUGIN_PROP_OPTIONS
      [JObj [(''mode'', JStr ''simple''), (''level'', JStr ''123'')]]
      \<lparr>cx_globals = [(JSAPI_PLUGIN_PROP_OPTIONS, JObj [(''mode'', JStr ''hard'')])], cx_heap = ()\<rparr> =
        Ret (JUndefined, ctx)"
    "\<And>k. js_get engine_demo JSAPI_PLUGIN_PROP_OPTIONS (Some (?self ctx)) k =
      (case map_of (rev [(''mode'', ''hard'')]) k of Some v \<Rightarrow> Some v
       | None \<Rightarrow> if k \<in> set (the (js_list JSAPI_PLUGIN_PROP_OPTIONS (Some (?self ?ctx0))))
           then js_get engine_demo JSAPI_PLUGIN_PROP_OPTIONS (Some (?self ?ctx0)) k
           else duk_to_string (en_coerce engine_demo)
             (lookup_prop (as_props (JObj [(''mode'', JStr ''simple''), (''level'', JStr ''123'')])) k))"
    using config_precedence[where en = engine_demo] by fastforce
  show ?thesis
    using ctx(1) ctx(2)[of "''mode''"] ctx(2)[of "''level''"]
    by (auto simp: js_list_def get_table_def get_global_def lookup_prop_def)
qed

section \<open>Hooks and rules\<close>

lemma foldl_add_texts:
  "distinct (map (map to_lower) (ys @ xs)) \<Longrightarrow>
   foldl list_add (if ys = [] then None else Some ys) xs = (if ys @ xs = [] then None else Some (ys @ xs))"
proof (induction xs arbitrary: ys)
  case (Cons x xs)
  have "\<not> list_contains (if ys = [] then None else Some ys) x"
    using Cons.prems by (auto simp: strcaseeq_def) (metis image_eqI)
  then have "list_add (if ys = [] then None else Some ys) x = Some (ys @ [x])"
    by (simp add: list_add_def)
  then show ?case using Cons.IH[of "ys @ [x]"] Cons.prems by simp
qed simp

lemma list_add_entries: "crit_wf l \<Longrightarrow> foldl list_add None (entries l) = l"
  using foldl_add_texts[of "[]" "entries l"] by (cases l) (auto simp: crit_wf_def)

definition rule_wf :: "irc_rule \<Rightarrow> bool" where
  "rule_wf r = (crit_wf (r_servers r) \<and> crit_wf (r_channels r) \<and> crit_wf (r_origins r) \<and>
     crit_wf (r_plugins r) \<and> crit_wf (r_events r))"

lemma add_all_strings: "add_all add rule (map JStr xs) = foldl add rule xs"
  by (induction xs arbitrary: rule) auto

lemma foldl_add_criteria:
  "foldl irc_rule_add_server r xs = r\<lparr>r_servers := foldl list_add (r_servers r) xs\<rparr>"
  "foldl irc_rule_add_channel r xs = r\<lparr>r_channels := foldl list_add (r_channels r) xs\<rparr>"
  "foldl irc_rule_add_origin r xs = r\<lparr>r_origins := foldl list_add (r_origins r) xs\<rparr>"
  "foldl irc_rule_add_plugin r xs = r\<lparr>r_plugins := foldl list_add (r_plugins r) xs\<rparr>"
  "foldl irc_rule_add_event r xs = r\<lparr>r_events := foldl list_add (r_events r) xs\<rparr>"
  by (induction xs arbitrary: r)
    (simp_all add: irc_rule_add_server_def irc_rule_add_channel_def irc_rule_add_origin_def
      irc_rule_add_plugin_def irc_rule_add_event_def)

lemma get_list_pushed:
  "get_list [i, push_rule r] ''servers'' add rule = foldl add rule (entries (r_servers r))"
  "get_list [i, push_rule r] ''channels'' add rule = foldl add rule (entries (r_channels r))"
  "get_list [i, push_rule r] ''origins'' add rule = foldl add rule (entries (r_origins r))"
  "get_list [i, push_rule r] ''plugins'' add rule = foldl add rule (entries (r_plugins r))"
  "get_list [i, push_rule r] ''events'' add rule = foldl add rule (entries (r_events r))"
  by (simp_all add: get_list_def push_rule_def push_list_def lookup_prop_def Let_def add_all_strings)

text \<open>
  What \<open>Irccd.Rule.list\<close> describes, \<open>Irccd.Rule.add\<close> restores: the description of a
  rule, given back with an index, inserts an equal rule at that place (\<open>undefined\<close> is the
  end), and the list then holds the description there again.
\<close>
theorem rule_description_roundtrip:
  fixes b :: "'s irccd"
  assumes "rule_wf r" "0 \<le> i" "i < 2 ^ 32"
  shows "js_call rule_functions ''add'' [JInt i, push_rule r] b =
      Ret (JUndefined, irc_bot_rule_insert b r (nat i)) \<and>
    js_call rule_functions ''list'' [] (irc_bot_rule_insert b r (nat i)) =
      Ret (JArr (map push_rule (bt_rules (irc_bot_rule_insert b r (nat i)))), irc_bot_rule_insert b r (nat i)) \<and>
    push_rule r \<in> set (map push_rule (bt_rules (irc_bot_rule_insert b r (nat i))))"
proof -
  let ?as = "[JInt i, push_rule r]"
  have action: "get_prop (push_rule r) ''action'' = JInt (action_number (r_action r))"
    by (simp add: push_rule_def lookup_prop_def)
  have number: "duk__api_coerce_d2i (Fin (of_int (action_number (r_action r)))) = action_number (r_action r)"
    "0 \<le> action_number (r_action r)" "action_number (r_action r) \<le> IRC_RULE_DROP"
    "action_of (action_number (r_action r)) = r_action r"
    by (cases "r_action r"; simp add: IRC_RULE_DROP_def del: of_int_0 of_int_1)+
  have built: "get_list ?as ''events'' irc_rule_add_event
      (get_list ?as ''plugins'' irc_rule_add_plugin
        (get_list ?as ''origins'' irc_rule_add_origin
          (get_list ?as ''channels'' irc_rule_add_channel
            (get_list ?as ''servers'' irc_rule_add_server (irc_rule_new (r_action r)))))) = r"
    using assms(1)
    by (simp add: get_list_pushed foldl_add_criteria rule_wf_def list_add_entries irc_rule_new_def)
  have index: "duk_opt_uint ?as 0 (2 ^ 32 - 1) k = k i" for k :: "int \<Rightarrow> (jsval \<times> 's irccd) js"
    using assms(2,3) by (simp add: duk_opt_uint_def duk_require_uint_def)
  have object: "duk_require_object ?as 1 k = k" for k :: "(jsval \<times> 's irccd) js"
    by (simp add: duk_require_object_def push_rule_def)
  have "Rule_add ?as b = Ret (JUndefined, irc_bot_rule_insert b r (nat i))"
    using number unfolding Rule_add_def index object
    by (simp add: action built Let_def)
  moreover have "r \<in> set (bt_rules (irc_bot_rule_insert b r (nat i)))"
    by (simp add: irc_bot_rule_insert_def append_elem_def)
  ultimately show ?thesis
    by (simp add: js_call_def rule_functions_def call_args_def Rule_list_def)
qed

lemma rule_description_roundtrip_witness:
  "js_call rule_functions ''add''
      [JInt 0, push_rule ((irc_rule_new Rule_Drop)\<lparr>r_channels := Some [''#staff'']\<rparr>)] (bot_empty :: unit irccd) =
    Ret (JUndefined, irc_bot_rule_insert bot_empty ((irc_rule_new Rule_Drop)\<lparr>r_channels := Some [''#staff'']\<rparr>) 0)"
  using rule_description_roundtrip[of "(irc_rule_new Rule_Drop)\<lparr>r_channels := Some [''#staff'']\<rparr>" 0
      "bot_empty :: unit irccd"]
  by (simp add: rule_wf_def irc_rule_new_def crit_wf_def)

text \<open>
  \<open>Irccd.Hook\<close> keeps one hook per name: adding a hook under a name that exists throws
  and changes nothing, otherwise the list gains that hook, and it is gone once removed.
\<close>
theorem hook_api:
  fixes b :: "'s irccd"
  assumes "bot_wf b"
  shows "js_call hook_functions ''add'' [JStr name, JStr path] b =
      (if irc_bot_hook_get b name \<noteq> None
       then Throw (Plain_error (''hook '' @ name @ '' already exists''))
       else Ret (JUndefined, b\<lparr>bt_hooks := irc_hook_new name path # bt_hooks b\<rparr>)) \<and>
    (\<forall>v b'. js_call hook_functions ''add'' [JStr name, JStr path] b = Ret (v, b') \<longrightarrow>
       bot_wf b' \<and> irc_bot_hook_get b' name = Some (irc_hook_new name path) \<and>
       js_call hook_functions ''remove'' [JStr name] b' = Ret (JUndefined, b))"
proof -
  have name: "hk_name (irc_hook_new name path) = name" by (simp add: irc_hook_new_def)
  have add: "js_call hook_functions ''add'' [JStr name, JStr path] b =
      (if irc_bot_hook_get b name \<noteq> None
       then Throw (Plain_error (''hook '' @ name @ '' already exists''))
       else Ret (JUndefined, b\<lparr>bt_hooks := irc_hook_new name path # bt_hooks b\<rparr>))"
    by (simp add: js_call_def hook_functions_def Hook_add_def duk_require_string_def irc_bot_hook_add_def name)
  let ?b = "b\<lparr>bt_hooks := irc_hook_new name path # bt_hooks b\<rparr>"
  have "bot_wf ?b \<and> irc_bot_hook_get ?b name = Some (irc_hook_new name path) \<and>
      js_call hook_functions ''remove'' [JStr name] ?b = Ret (JUndefined, b)"
    if free: "irc_bot_hook_get b name = None"
  proof -
    have added: "irc_bot_hook_add b (irc_hook_new name path) = Some ?b"
      using free by (simp add: irc_bot_hook_add_def name)
    show ?thesis
      using hooks.wf_add[OF assms added] hooks.get_add[OF assms added, of name] name
      by (simp add: js_call_def hook_functions_def Hook_remove_def duk_require_string_def
          irc_bot_hook_remove_def delete_key_def)
  qed
  then show ?thesis using add by (auto split: if_splits)
qed

lemma hook_api_witness:
  "\<exists>b'. js_call hook_functions ''add'' [JStr ''mail'', JStr ''/bin/mail''] (bot_empty :: unit irccd) =
      Ret (JUndefined, b') \<and> js_call hook_functions ''remove'' [JStr ''mail''] b' = Ret (JUndefined, bot_empty)"
proof -
  have wf: "bot_wf (bot_empty :: unit irccd)" and free: "irc_bot_hook_get (bot_empty :: unit irccd) ''mail'' = None"
    by (simp_all add: bot_wf_def bot_empty_def irc_bot_hook_get_def find_key_def)
  show ?thesis
    using hook_api[OF wf, of "''mail''" "''/bin/mail''"] free by auto
qed

end
