(* ===== verification/Paths.thy ===== *)
theory Paths
  imports Util
begin

text \<open>
  File names (\<open>irc_util_basename\<close> and \<open>irc_util_dirname\<close> of \<open>lib/irccd/util.c\<close>), which the
  native plugins and \<open>Irccd.File\<close> rest on.
\<close>

text \<open>\<open>basename\<close> and \<open>dirname\<close> of the C library.\<close>

definition strip_slashes :: "string \<Rightarrow> string" where
  "strip_slashes p = rev (dropWhile (\<lambda>c. c = CHR ''/'') (rev p))"

definition libc_basename :: "string \<Rightarrow> string" where
  "libc_basename p =
     (if p = [] then ''.''
      else if strip_slashes p = [] then ''/''
      else rev (takeWhile (\<lambda>c. c \<noteq> CHR ''/'') (rev (strip_slashes p))))"

definition libc_dirname :: "string \<Rightarrow> string" where
  "libc_dirname p =
     (if p = [] then ''.''
      else if strip_slashes p = [] then ''/''
      else let d = rev (dropWhile (\<lambda>c. c \<noteq> CHR ''/'') (rev (strip_slashes p))) in
        if d = [] then ''.'' else if strip_slashes d = [] then ''/'' else strip_slashes d)"

definition irc_util_basename :: "string \<Rightarrow> string" where
  "irc_util_basename str = fit PATH_MAX (libc_basename (fit PATH_MAX str))"

definition irc_util_dirname :: "string \<Rightarrow> string" where
  "irc_util_dirname str = fit PATH_MAX (libc_dirname (fit PATH_MAX str))"

lemma strip_eq: "strip_slashes (d @ b) = d @ b" if "b \<noteq> []" "last b \<noteq> CHR ''/''"
  using that by (cases b rule: rev_cases) (simp_all add: strip_slashes_def)

lemma split_path:
  assumes "b \<noteq> []" "CHR ''/'' \<notin> set b"
  shows "takeWhile (\<lambda>c. c \<noteq> CHR ''/'') (rev (d @ CHR ''/'' # b)) = rev b"
    and "dropWhile (\<lambda>c. c \<noteq> CHR ''/'') (rev (d @ CHR ''/'' # b)) = CHR ''/'' # rev d"
proof -
  have "\<forall>c \<in> set (rev b). c \<noteq> CHR ''/''" using assms(2) by auto
  then show "takeWhile (\<lambda>c. c \<noteq> CHR ''/'') (rev (d @ CHR ''/'' # b)) = rev b"
    and "dropWhile (\<lambda>c. c \<noteq> CHR ''/'') (rev (d @ CHR ''/'' # b)) = CHR ''/'' # rev d"
    by (simp_all add: takeWhile_append dropWhile_append)
qed

text \<open>
  A path taken apart and put together is the path: for a file in a directory, the base
  name is the file and the directory name is the directory, and no name is ever longer than
  its buffer.
\<close>
theorem path_parts_roundtrip:
  assumes "b \<noteq> []" "CHR ''/'' \<notin> set b" "d \<noteq> []" "last d \<noteq> CHR ''/''"
    "length d + length b + 1 < PATH_MAX"
  shows "irc_util_dirname (d @ ''/'' @ b) = d \<and> irc_util_basename (d @ ''/'' @ b) = b \<and>
    length (irc_util_dirname p) < PATH_MAX \<and> length (irc_util_basename p) < PATH_MAX"
proof -
  have "last b \<noteq> CHR ''/''" using assms(1,2) last_in_set by metis
  then have strip: "strip_slashes (d @ CHR ''/'' # b) = d @ CHR ''/'' # b"
    using strip_eq[OF assms(1), of "d @ ''/''"] by simp
  have d: "strip_slashes (d @ ''/'') = d"
    using assms(3,4) by (cases d rule: rev_cases) (simp_all add: strip_slashes_def)
  have "fit PATH_MAX (d @ CHR ''/'' # b) = d @ CHR ''/'' # b" "fit PATH_MAX d = d" "fit PATH_MAX b = b"
    using assms(5) by (simp_all add: fit_id)
  with strip d assms(3) split_path[OF assms(1,2), of d]
  have "irc_util_dirname (d @ ''/'' @ b) = d \<and> irc_util_basename (d @ ''/'' @ b) = b"
    by (simp add: irc_util_dirname_def irc_util_basename_def libc_dirname_def libc_basename_def)
  moreover have "length (fit PATH_MAX q) < PATH_MAX" for q by (simp add: PATH_MAX_def min_less_iff_disj)
  ultimately show ?thesis by (simp add: irc_util_dirname_def irc_util_basename_def)
qed

lemma path_parts_roundtrip_witness:
  "irc_util_dirname ''/usr/lib/ask.so'' = ''/usr/lib'' \<and> irc_util_basename ''/usr/lib/ask.so'' = ''ask.so''"
  using path_parts_roundtrip[of "''ask.so''" "''/usr/lib''" "[]"] by (simp add: PATH_MAX_def)

end
