(* ===== verification/Js_Directory.thy ===== *)
theory Js_Directory
  imports Script Paths "HOL-Library.Sublist"
begin

text \<open>
  \<open>Irccd.Directory\<close> (\<open>irccd/jsapi-directory.c\<close>): the depth-first walk over a directory,
  which shares one path buffer, and what is made of it: finding an entry by its name or by
  an expression, removing a tree, and making a directory with its parents.

  A directory is what reading it yields, in the order of the system.  The system calls, the
  regular expressions and the test for a \<open>RegExp\<close> object are parameters.
\<close>

section \<open>Directories\<close>

text \<open>
  How an entry answers: \<open>Gone\<close> has no status, \<open>Leaf\<close> is not a directory, with the type the
  entry has and the one it has once links are followed; a directory can be opened and read,
  or opening it fails, or reading it fails once it is open.
\<close>

datatype access = Readable | Open_fails | Read_fails

datatype node = Gone | Leaf int "int option" | Dir access "(string \<times> node) list"

definition S_IFDIR :: int where "S_IFDIR = 16384"

definition FILENAME_MAX :: nat where "FILENAME_MAX = 4096"

record cursor =
  cs_path :: string
  cs_entry :: string
  cs_recursive :: bool

text \<open>The callback of a cursor, with what it works on: \<open>True\<close> stops the walk.\<close>

type_synonym 's visitor = "cursor \<Rightarrow> 's \<Rightarrow> bool \<times> 's"

definition cat_path :: "cursor \<Rightarrow> string \<Rightarrow> cursor" where
  "cat_path cs t = cs\<lparr>cs_path := snd (irc_util_strlcat (cs_path cs) t PATH_MAX)\<rparr>"

definition is_dot :: "string \<Rightarrow> bool" where
  "is_dot name = (name = ''.'' \<or> name = ''..'')"

text \<open>
  The call of the visitor at an entry, and the path cut back by the length of the entry.
\<close>

definition visit :: "'s visitor \<Rightarrow> string \<Rightarrow> nat \<Rightarrow> cursor \<Rightarrow> 's \<Rightarrow> bool \<times> cursor \<times> 's" where
  "visit fn name entrylen cs s =
     (let cs = cs\<lparr>cs_entry := snd (irc_util_strlcpy name FILENAME_MAX)\<rparr> in
      case fn cs s of
        (True, s) \<Rightarrow> (True, cs, s)
      | (False, s) \<Rightarrow> (False, cs\<lparr>cs_path := take (length (cs_path cs) - entrylen) (cs_path cs)\<rparr>, s))"

text \<open>A directory that cannot be opened leaves its name in the path.\<close>

function recursedir :: "'s visitor \<Rightarrow> (string \<times> node) list \<Rightarrow> cursor \<Rightarrow> 's \<Rightarrow> int \<times> cursor \<times> 's" where
  "recursedir fn [] cs s = (0, cs, s)"
| "recursedir fn ((name, entry) # es) cs s =
     (if is_dot name then recursedir fn es cs s
      else case entry of
        Gone \<Rightarrow> recursedir fn es cs s
      | Leaf _ _ \<Rightarrow>
          (case visit fn name (length name) (cat_path cs name) s of
             (True, cs, s) \<Rightarrow> (1, cs, s)
           | (False, cs, s) \<Rightarrow> recursedir fn es cs s)
      | Dir how children \<Rightarrow>
          if cs_recursive cs then
            let cs = cat_path (cat_path cs name) ''/'' in
            case how of
              Open_fails \<Rightarrow> recursedir fn es cs s
            | Read_fails \<Rightarrow> (-1, cs, s)
            | Readable \<Rightarrow>
                (case recursedir fn children cs s of
                   (ret, cs, s) \<Rightarrow>
                     if ret \<noteq> 0 then (ret, cs, s)
                     else case visit fn name (length name + 1) cs s of
                       (True, cs, s) \<Rightarrow> (1, cs, s)
                     | (False, cs, s) \<Rightarrow> recursedir fn es cs s)
          else
            (case visit fn name (length name) (cat_path cs name) s of
               (True, cs, s) \<Rightarrow> (1, cs, s)
             | (False, cs, s) \<Rightarrow> recursedir fn es cs s))"
  by pat_completeness auto

termination
  by (relation "measure (\<lambda>(fn, es, cs, s). size_list (size_prod (\<lambda>_. 0) size) es)") auto

text \<open>The operating system: what \<open>open\<close> finds under a path, with the error otherwise.\<close>

record 'f os =
  os_open :: "'f \<Rightarrow> string \<Rightarrow> errno + node"
  os_stat :: "'f \<Rightarrow> string \<Rightarrow> errno + int"
  os_remove :: "'f \<Rightarrow> string \<Rightarrow> errno option \<times> 'f"
  os_mkdir :: "'f \<Rightarrow> string \<Rightarrow> int \<Rightarrow> errno option \<times> 'f"
  os_is_regexp :: "jsval \<Rightarrow> bool"
  os_regcomp :: "string \<Rightarrow> (string \<Rightarrow> bool) option"
  os_coerce :: "jsval \<Rightarrow> string option"
  os_errno :: "errno \<Rightarrow> int"

definition recurse :: "('f, 'z) os_scheme \<Rightarrow> 'f \<Rightarrow> string \<Rightarrow> 's visitor \<Rightarrow> cursor \<Rightarrow> 's \<Rightarrow> int \<times> cursor \<times> 's" where
  "recurse os fs path fn cs s =
     (case os_open os fs path of
        Inl _ \<Rightarrow> (-1, cs, s)
      | Inr (Dir how children) \<Rightarrow>
          if how = Open_fails then (-1, cs, s) else
          let (n, p) = irc_util_strlcpy path PATH_MAX; cs1 = cs\<lparr>cs_path := p\<rparr> in
          if PATH_MAX \<le> n then (-1, cs1, s)
          else if p ! (length p - 1) \<noteq> CHR ''/'' \<and> PATH_MAX \<le> fst (irc_util_strlcat p ''/'' PATH_MAX)
          then (-1, cat_path cs1 ''/'', s)
          else if how = Read_fails then (-1, cs1, s)
          else recursedir fn children
                 (if p ! (length p - 1) \<noteq> CHR ''/'' then cat_path cs1 ''/'' else cs1) s
      | Inr _ \<Rightarrow> (-1, cs, s))"

section \<open>Finding\<close>

text \<open>The visitors of \<open>find\<close> keep nothing.\<close>

definition find_name :: "string \<Rightarrow> unit visitor" where
  "find_name pattern curs s = (cs_entry curs = pattern, s)"

definition find_regex :: "(string \<Rightarrow> bool) \<Rightarrow> unit visitor" where
  "find_regex regex curs s = (regex (cs_entry curs), s)"

type_synonym 'f answer = "(jsval \<times> 'f) js"

definition find_result :: "('f, 'z) os_scheme \<Rightarrow> string \<Rightarrow> bool \<Rightarrow> unit visitor \<Rightarrow> 'f \<Rightarrow> 'f answer" where
  "find_result os base recursive fn fs =
     (case recurse os fs base fn \<lparr>cs_path = [], cs_entry = [], cs_recursive = recursive\<rparr> () of
        (status, curs, _) \<Rightarrow> Ret (if status = 1 then JStr (cs_path curs) else JNull, fs))"

definition find_helper :: "('f, 'z) os_scheme \<Rightarrow> string \<Rightarrow> bool \<Rightarrow> jsval \<Rightarrow> 'f \<Rightarrow> 'f answer" where
  "find_helper os base recursive pattern fs =
     (case pattern of
        JStr p \<Rightarrow> find_result os base recursive (find_name p) fs
      | _ \<Rightarrow>
          if \<not> os_is_regexp os pattern then Throw (Type_error ''pattern arg error'')
          else case duk_to_string (os_coerce os) (get_prop pattern ''source'') of
            None \<Rightarrow> Throw (Script_error JUndefined)
          | Some source \<Rightarrow>
              (case os_regcomp os source of
                 None \<Rightarrow> Throw (Plain_error ''RegExp error'')
               | Some regex \<Rightarrow> find_result os base recursive (find_regex regex) fs))"

section \<open>Removing\<close>

definition rm :: "('f, 'z) os_scheme \<Rightarrow> 'f visitor" where
  "rm os curs fs = (False, snd (os_remove os fs (cs_path curs)))"

definition ENOTDIR :: int where "ENOTDIR = 20"

definition rm_helper :: "('f, 'z) os_scheme \<Rightarrow> string \<Rightarrow> bool \<Rightarrow> 'f \<Rightarrow> 'f answer" where
  "rm_helper os base recursive fs =
     (case os_stat os fs base of
        Inl e \<Rightarrow> Throw (System_error (os_errno os e))
      | Inr mode \<Rightarrow>
          if mode \<noteq> S_IFDIR then Throw (System_error ENOTDIR)
          else
            let fs1 = (if recursive
              then snd (snd (recurse os fs base (rm os) \<lparr>cs_path = [], cs_entry = [], cs_recursive = True\<rparr> fs))
              else fs)
            in Ret (JUndefined, snd (os_remove os fs1 base)))"

section \<open>Making directories\<close>

text \<open>
  A directory that could not be made throws, after those made before it: the state of the
  system is part of the outcome.
\<close>

definition mkpath :: "('f, 'z) os_scheme \<Rightarrow> string \<Rightarrow> 'f \<Rightarrow> jsexc option \<times> 'f" where
  "mkpath os path fs =
     (case os_mkdir os fs path 493 of
        (Some e, fs) \<Rightarrow> (if e \<noteq> EEXIST then Some (System_error (os_errno os e)) else None, fs)
      | (None, fs) \<Rightarrow> (None, fs))"

text \<open>\<open>before\<close> is the part of the path before the pointer \<open>p\<close>, and the second argument the rest.\<close>

fun mkdir_loop :: "('f, 'z) os_scheme \<Rightarrow> string \<Rightarrow> string \<Rightarrow> 'f \<Rightarrow> jsexc option \<times> 'f" where
  "mkdir_loop os before [] fs = mkpath os before fs"
| "mkdir_loop os before (c # cs) fs =
     (if c = CHR ''/'' then
        case mkpath os before fs of
          (Some e, fs) \<Rightarrow> (Some e, fs)
        | (None, fs) \<Rightarrow> mkdir_loop os (before @ [c]) cs fs
      else mkdir_loop os (before @ [c]) cs fs)"

definition Directory_mkdir :: "('f, 'z) os_scheme \<Rightarrow> args \<Rightarrow> 'f \<Rightarrow> jsexc option \<times> 'f" where
  "Directory_mkdir os as fs =
     (case js_arg as 0 of
        JStr s \<Rightarrow> (case fit PATH_MAX s of
           [] \<Rightarrow> mkpath os [] fs
         | c # cs \<Rightarrow> mkdir_loop os [c] cs fs)
      | _ \<Rightarrow> (Some (Require ''string'' 0), fs))"

section \<open>The functions of the module\<close>

definition directory_path :: "jsval \<Rightarrow> (string \<Rightarrow> 'a js) \<Rightarrow> 'a js" where
  "directory_path this k =
     (case get_prop this ''path'' of
        JStr p \<Rightarrow> if p = [] then Throw (Type_error ''directory object has empty path'') else k p
      | _ \<Rightarrow> Throw (Type_error ''not a Directory object''))"

definition Directory_prototype_find :: "('f, 'z) os_scheme \<Rightarrow> jsval \<Rightarrow> 'f native" where
  "Directory_prototype_find os this as fs =
     directory_path this (\<lambda>path. duk_opt_boolean as 1 False (\<lambda>recursive.
       find_helper os path recursive (js_arg as 0) fs))"

definition Directory_prototype_remove :: "('f, 'z) os_scheme \<Rightarrow> jsval \<Rightarrow> 'f native" where
  "Directory_prototype_remove os this as fs =
     directory_path this (\<lambda>path. duk_opt_boolean as 0 False (\<lambda>recursive.
       rm_helper os path recursive fs))"

definition Directory_find :: "('f, 'z) os_scheme \<Rightarrow> 'f native" where
  "Directory_find os as fs =
     duk_require_string as 0 (\<lambda>path. duk_opt_boolean as 2 False (\<lambda>recursive.
       find_helper os path recursive (js_arg as 1) fs))"

definition Directory_remove :: "('f, 'z) os_scheme \<Rightarrow> 'f native" where
  "Directory_remove os as fs =
     duk_require_string as 0 (\<lambda>path. duk_opt_boolean as 1 False (\<lambda>recursive.
       rm_helper os path recursive fs))"

text \<open>The flags: bit 0 lists \<open>.\<close> and bit 1 lists \<open>..\<close>.\<close>

definition entry_type :: "node \<Rightarrow> int" where
  "entry_type e = (case e of Gone \<Rightarrow> 0 | Leaf _ followed \<Rightarrow> (case followed of None \<Rightarrow> 0 | Some t \<Rightarrow> t)
     | Dir _ _ \<Rightarrow> S_IFDIR)"

fun list_entries :: "int \<Rightarrow> (string \<times> node) list \<Rightarrow> jsval list" where
  "list_entries flags [] = []"
| "list_entries flags ((name, entry) # es) =
     (if name = ''.'' \<and> \<not> bit flags 0 \<or> name = ''..'' \<and> \<not> bit flags 1 then list_entries flags es
      else JObj [(''name'', JStr name), (''type'', JInt (entry_type entry))] # list_entries flags es)"

definition Directory_constructor :: "('f, 'z) os_scheme \<Rightarrow> jsval \<Rightarrow> 'f native" where
  "Directory_constructor os this as fs =
     duk_require_string as 0 (\<lambda>path. duk_opt_int as 1 0 (\<lambda>flags.
       if this = JUndefined then Ret (JUndefined, fs)
       else case os_open os fs path of
         Inl e \<Rightarrow> Throw (System_error (os_errno os e))
       | Inr (Dir _ children) \<Rightarrow>
           Ret (put_prop (put_prop this ''entries'' (JArr (list_entries flags children)))
                  ''path'' (JStr path), fs)
       | Inr _ \<Rightarrow> Throw (System_error ENOTDIR)))"

section \<open>What is visited\<close>

text \<open>
  The entries below a directory, what is in a directory before the directory itself, with
  the path and the name each is visited with.
\<close>

fun entry_paths :: "bool \<Rightarrow> string \<Rightarrow> (string \<times> node) list \<Rightarrow> (string \<times> string) list"
  and node_paths :: "bool \<Rightarrow> string \<Rightarrow> string \<Rightarrow> node \<Rightarrow> (string \<times> string) list" where
  "entry_paths recursive base [] = []"
| "entry_paths recursive base ((name, e) # es) =
     (if is_dot name then [] else node_paths recursive base name e) @ entry_paths recursive base es"
| "node_paths recursive base name Gone = []"
| "node_paths recursive base name (Leaf _ _) = [(base @ name, name)]"
| "node_paths recursive base name (Dir _ children) =
     (if recursive then entry_paths recursive (base @ name @ ''/'') children @ [(base @ name @ ''/'', name)]
      else [(base @ name, name)])"

fun readable :: "bool \<Rightarrow> node \<Rightarrow> bool" where
  "readable recursive (Dir how children) =
     (recursive \<longrightarrow> how = Readable \<and> list_all (\<lambda>(_, e). readable recursive e) children)"
| "readable recursive _ = True"

definition paths_fit :: "(string \<times> string) list \<Rightarrow> bool" where
  "paths_fit ps = list_all (\<lambda>(p, n). length p < PATH_MAX \<and> length n < FILENAME_MAX) ps"

text \<open>Visiting entries one after the other, until a visitor stops at a path.\<close>

fun visits :: "'s visitor \<Rightarrow> bool \<Rightarrow> (string \<times> string) list \<Rightarrow> 's \<Rightarrow> string option \<times> 's" where
  "visits fn recursive [] s = (None, s)"
| "visits fn recursive ((p, n) # ps) s =
     (case fn \<lparr>cs_path = p, cs_entry = n, cs_recursive = recursive\<rparr> s of
        (True, s) \<Rightarrow> (Some p, s)
      | (False, s) \<Rightarrow> visits fn recursive ps s)"

lemma visits_append:
  "visits fn r (ps @ qs) s =
     (case visits fn r ps s of (Some p, s) \<Rightarrow> (Some p, s) | (None, s) \<Rightarrow> visits fn r qs s)"
  by (induction ps arbitrary: s) (auto split: prod.splits bool.splits)

lemma paths_fit_append [simp]: "paths_fit (ps @ qs) = (paths_fit ps \<and> paths_fit qs)"
  and paths_fit_Cons [simp]: "paths_fit ((p, n) # ps) = (length p < PATH_MAX \<and> length n < FILENAME_MAX \<and> paths_fit ps)"
  and paths_fit_Nil [simp]: "paths_fit []"
  by (auto simp: paths_fit_def)

lemma cat_path_fits:
  "length (cs_path cs) + length t < PATH_MAX \<Longrightarrow> cat_path cs t = cs\<lparr>cs_path := cs_path cs @ t\<rparr>"
  by (simp add: cat_path_def irc_util_strlcat_def)

text \<open>The result of a walk from \<open>base\<close> agrees with visiting a list of entries.\<close>

definition agrees :: "string \<Rightarrow> bool \<Rightarrow> int \<times> cursor \<times> 's \<Rightarrow> string option \<times> 's \<Rightarrow> bool" where
  "agrees base recursive r v =
     (case r of (ret, cs, s) \<Rightarrow> s = snd v \<and> cs_recursive cs = recursive \<and>
       (case fst v of None \<Rightarrow> ret = 0 \<and> cs_path cs = base | Some p \<Rightarrow> ret = 1 \<and> cs_path cs = p))"

lemma visit_at:
  assumes "length name < FILENAME_MAX" "cs_path cs = base @ t" "length t = n"
  shows "visit fn name n cs s =
    (case fn \<lparr>cs_path = base @ t, cs_entry = name, cs_recursive = cs_recursive cs\<rparr> s of
       (True, s) \<Rightarrow> (True, \<lparr>cs_path = base @ t, cs_entry = name, cs_recursive = cs_recursive cs\<rparr>, s)
     | (False, s) \<Rightarrow> (False, \<lparr>cs_path = base, cs_entry = name, cs_recursive = cs_recursive cs\<rparr>, s))"
proof -
  have "cs\<lparr>cs_entry := name\<rparr> = \<lparr>cs_path = base @ t, cs_entry = name, cs_recursive = cs_recursive cs\<rparr>"
    using assms(2) by (cases cs) simp
  moreover have "snd (irc_util_strlcpy name FILENAME_MAX) = name"
    using assms(1) by (simp add: irc_util_strlcpy_def fit_id)
  ultimately show ?thesis using assms(3) by (simp add: visit_def Let_def split: prod.splits bool.splits)
qed

lemma agrees_cases:
  assumes "agrees base recursive r v"
  obtains cs s where "v = (None, s)" "r = (0, cs, s)" "cs_path cs = base" "cs_recursive cs = recursive"
  | p cs s where "v = (Some p, s)" "r = (1, cs, s)" "cs_path cs = p" "cs_recursive cs = recursive"
  using assms by (cases r; cases v; cases "fst v") (auto simp: agrees_def)

text \<open>An entry that is visited alone, then the rest.\<close>

lemma agrees_visit:
  assumes rest: "\<And>cs s. cs_path cs = base \<Longrightarrow> cs_recursive cs = r \<Longrightarrow>
      agrees base r (recursedir fn es cs s) (visits fn r vs s)"
    and cs: "cs_path cs = base @ t" "cs_recursive cs = r" "length t = n" "length name < FILENAME_MAX"
  shows "agrees base r
    (case visit fn name n cs s of (True, cs, s) \<Rightarrow> (1, cs, s) | (False, cs, s) \<Rightarrow> recursedir fn es cs s)
    (visits fn r ((base @ t, name) # vs) s)"
proof -
  obtain stop s1 where f: "fn \<lparr>cs_path = base @ t, cs_entry = name, cs_recursive = r\<rparr> s = (stop, s1)" by fastforce
  show ?thesis
  proof (cases stop)
    case True
    then show ?thesis unfolding visit_at[OF cs(4,1,3)] using f cs(2) by (simp add: agrees_def)
  next
    case False
    with rest[of "\<lparr>cs_path = base, cs_entry = name, cs_recursive = r\<rparr>" s1] show ?thesis
      unfolding visit_at[OF cs(4,1,3)] using f cs(2) by simp
  qed
qed

lemma walk_agrees:
  "\<lbrakk>list_all (\<lambda>(_, e). readable r e) es; paths_fit (entry_paths r base es);
    cs_path cs = base; cs_recursive cs = r\<rbrakk>
    \<Longrightarrow> agrees base r (recursedir fn es cs s) (visits fn r (entry_paths r base es) s)"
  and "\<lbrakk>readable r e; paths_fit (node_paths r base name e); \<not> is_dot name;
    \<And>cs s. cs_path cs = base \<Longrightarrow> cs_recursive cs = r \<Longrightarrow>
      agrees base r (recursedir fn fs cs s) (visits fn r vs s);
    cs_path cs = base; cs_recursive cs = r\<rbrakk>
    \<Longrightarrow> agrees base r (recursedir fn ((name, e) # fs) cs s)
      (visits fn r (node_paths r base name e @ vs) s)"
proof (induction r base es and r base name e arbitrary: cs s and cs s fs vs
    rule: entry_paths_node_paths.induct)
  case (1 r base)
  then show ?case by (simp add: agrees_def)
next
  case (2 r base name e es)
  note rest = 2(2)
  have es: "list_all (\<lambda>(_, e). readable r e) es" "paths_fit (entry_paths r base es)"
    using 2(3,4) by simp_all
  show ?case
  proof (cases "is_dot name")
    case True
    then show ?thesis using rest[OF es 2(5,6)] by simp
  next
    case False
    have e: "readable r e" "paths_fit (node_paths r base name e)" using 2(3,4) False by simp_all
    from 2(1)[OF False e False rest[OF es] 2(5,6)] False show ?thesis by simp
  qed
next
  case (3 r base name)
  then show ?case by simp
next
  case (4 r base name t f)
  then have "cat_path cs name = cs\<lparr>cs_path := base @ name\<rparr>" by (simp add: cat_path_fits)
  with agrees_visit[where base = base and t = name and r = r and es = fs and vs = vs and name = name
      and cs = "cs\<lparr>cs_path := base @ name\<rparr>" and n = "length name", OF 4(4)] 4(2,3,5,6)
  show ?case by simp
next
  case (5 r base name how children)
  show ?case
  proof (cases r)
    case False
    with 5 have "cat_path cs name = cs\<lparr>cs_path := base @ name\<rparr>" by (simp add: cat_path_fits)
    with agrees_visit[where base = base and t = name and r = r and es = fs and vs = vs and name = name
        and cs = "cs\<lparr>cs_path := base @ name\<rparr>" and n = "length name", OF 5(5)] 5(3,4,6,7) False
    show ?thesis by simp
  next
    case True
    have fits: "length base + length name + 1 < PATH_MAX" "length name < FILENAME_MAX"
      and inner: "paths_fit (entry_paths r (base @ name @ ''/'') children)"
      and read: "how = Readable" "list_all (\<lambda>(_, e). readable r e) children"
      using 5(2,3) True by simp_all
    let ?cs = "cs\<lparr>cs_path := base @ name @ ''/''\<rparr>"
    have cat: "cat_path (cat_path cs name) ''/'' = ?cs"
      using fits 5(6) by (simp add: cat_path_fits)
    have "agrees (base @ name @ ''/'') r (recursedir fn children ?cs s)
        (visits fn r (entry_paths r (base @ name @ ''/'') children) s)"
      using 5(1)[OF True read(2) inner, of ?cs s] 5(7) by simp
    then show ?thesis
    proof (cases rule: agrees_cases)
      case (1 cs1 s1)
      from agrees_visit[where base = base and t = "name @ ''/''" and r = r and es = fs and vs = vs
          and name = name and cs = cs1 and s = s1 and n = "length name + 1", OF 5(5)] 1 fits(2)
      show ?thesis using True 5(4,6,7) read(1) cat 1(1,2) by (simp add: visits_append)
    next
      case (2 p cs1 s1)
      then show ?thesis using True 5(4,6,7) read(1) cat
        by (simp add: visits_append) (simp add: agrees_def)
    qed
  qed
qed

section \<open>Properties\<close>

definition with_slash :: "string \<Rightarrow> string" where
  "with_slash p = (if last p = CHR ''/'' then p else p @ ''/'')"

text \<open>A directory all of which can be read, with paths that fit the buffer.\<close>

definition readable_tree :: "bool \<Rightarrow> string \<Rightarrow> (string \<times> node) list \<Rightarrow> bool" where
  "readable_tree recursive base es =
     (base \<noteq> [] \<and> length (with_slash base) < PATH_MAX \<and> list_all (\<lambda>(_, e). readable recursive e) es \<and>
      paths_fit (entry_paths recursive (with_slash base) es))"

lemma recurse_agrees:
  assumes "os_open os fs base = Inr (Dir Readable es)" "readable_tree r base es" "cs_recursive cs = r"
  shows "agrees (with_slash base) r (recurse os fs base fn cs s)
    (visits fn r (entry_paths r (with_slash base) es) s)"
proof -
  have len: "length base < PATH_MAX" "base \<noteq> []" using assms(2) by (auto simp: readable_tree_def with_slash_def split: if_splits)
  then have p: "irc_util_strlcpy base PATH_MAX = (length base, base)" by (simp add: irc_util_strlcpy_def fit_id)
  have last: "base ! (length base - Suc 0) = last base" using len(2) by (simp add: last_conv_nth)
  have cat: "cat_path (cs\<lparr>cs_path := base\<rparr>) ''/'' = cs\<lparr>cs_path := base @ ''/''\<rparr>"
    "fst (irc_util_strlcat base ''/'' PATH_MAX) < PATH_MAX" if "last base \<noteq> CHR ''/''"
    using that assms(2) by (auto simp: cat_path_fits readable_tree_def with_slash_def irc_util_strlcat_def)
  have "recurse os fs base fn cs s = recursedir fn es (cs\<lparr>cs_path := with_slash base\<rparr>) s"
    using cat len assms(1) by (auto simp: recurse_def p last with_slash_def Let_def)
  with walk_agrees(1)[of r es "with_slash base" "cs\<lparr>cs_path := with_slash base\<rparr>" fn s] assms(2,3)
  show ?thesis by (simp add: readable_tree_def)
qed

lemma visits_find:
  "visits (\<lambda>cs s. (P (cs_entry cs), s)) r ps s = (map_option fst (find (\<lambda>(_, n). P n) ps), s)"
  by (induction ps) (auto split: bool.splits)

text \<open>
  \<open>Irccd.Directory.find\<close> answers with the full path of the first entry of that name, in
  the order in which what is in a directory comes before the directory itself, and with
  \<open>null\<close> when there is none; without \<open>recursive\<close> it looks at the entries of the directory
  alone.
\<close>
theorem directory_find:
  assumes "os_open os fs base = Inr (Dir Readable es)" "readable_tree r base es"
  shows "find_helper os base r (JStr p) fs =
    Ret (case find (\<lambda>(_, n). n = p) (entry_paths r (with_slash base) es) of
           None \<Rightarrow> JNull | Some (path, _) \<Rightarrow> JStr path, fs)"
proof -
  let ?cs = "\<lparr>cs_path = [], cs_entry = [], cs_recursive = r\<rparr>"
  let ?ps = "entry_paths r (with_slash base) es"
  have fn: "find_name p = (\<lambda>cs s. (cs_entry cs = p, s))" by (intro ext) (simp add: find_name_def)
  have "agrees (with_slash base) r (recurse os fs base (find_name p) ?cs ())
      (map_option fst (find (\<lambda>(_, n). n = p) ?ps), ())"
    using recurse_agrees[OF assms, of ?cs "find_name p" "()"] visits_find[of "\<lambda>n. n = p" r ?ps "()"]
    unfolding fn by simp
  then show ?thesis
    by (cases rule: agrees_cases) (auto simp: find_helper_def find_result_def)
qed

text \<open>Names that entries can have, and no name twice in a directory.\<close>

fun names_ok :: "(string \<times> node) list \<Rightarrow> bool"
  and node_ok :: "node \<Rightarrow> bool" where
  "names_ok [] = True"
| "names_ok ((n, e) # es) =
     (n \<noteq> [] \<and> CHR ''/'' \<notin> set n \<and> n \<notin> fst ` set es \<and> node_ok e \<and> names_ok es)"
| "node_ok (Dir _ children) = names_ok children"
| "node_ok _ = True"

text \<open>A directory comes after everything in it.\<close>

definition children_first :: "string list \<Rightarrow> bool" where
  "children_first ps = sorted_wrt (\<lambda>p q. last p = CHR ''/'' \<longrightarrow> \<not> prefix p q) ps"

lemma path_prefix:
  "q \<in> fst ` set (entry_paths r base es) \<Longrightarrow> \<exists>n t. n \<in> fst ` set es \<and> q = base @ n @ t \<and> (t = [] \<or> hd t = CHR ''/'')"
  "q \<in> fst ` set (node_paths r base name e) \<Longrightarrow> \<exists>t. q = base @ name @ t \<and> (t = [] \<or> hd t = CHR ''/'')"
proof (induction r base es and r base name e arbitrary: q and q rule: entry_paths_node_paths.induct)
  case (2 r base name e es)
  from 2(3) consider "\<not> is_dot name" "q \<in> fst ` set (node_paths r base name e)"
    | "q \<in> fst ` set (entry_paths r base es)" by (auto split: if_splits)
  then show ?case
  proof cases
    case 1
    from 2(1)[OF this] show ?thesis by auto
  next
    case 2
    then obtain n t where "n \<in> fst ` set es" "q = base @ n @ t \<and> (t = [] \<or> hd t = CHR ''/'')"
      using \<open>\<And>q. q \<in> fst ` set (entry_paths r base es) \<Longrightarrow> _\<close> by blast
    then show ?thesis by (intro exI[of _ n] exI[of _ t]) simp
  qed
next
  case (5 r base name how children)
  show ?case
  proof (cases r)
    case True
    with 5(2) consider "q \<in> fst ` set (entry_paths r (base @ name @ ''/'') children)" | "q = base @ name @ ''/''"
      by auto
    then show ?thesis
    proof cases
      case 1
      from 5(1)[OF True this] obtain n t where "q = (base @ name @ ''/'') @ n @ t" by blast
      then show ?thesis by (intro exI[of _ "''/'' @ n @ t"]) simp
    qed auto
  qed (use 5(2) in simp)
qed auto

lemma prefix_component:
  assumes "prefix (base @ n @ ''/'' @ u) (base @ m @ t)" "CHR ''/'' \<notin> set n" "CHR ''/'' \<notin> set m"
    "t = [] \<or> hd t = CHR ''/''"
  shows "n = m"
proof -
  have "takeWhile (\<lambda>c. c \<noteq> CHR ''/'') (m @ t) = m"
    using assms(3,4) by (cases t) (auto simp: takeWhile_append)
  moreover obtain v where "m @ t = n @ ''/'' @ v" using assms(1) by (auto simp: prefix_def)
  then have "takeWhile (\<lambda>c. c \<noteq> CHR ''/'') (m @ t) = n"
    using assms(2) by (auto simp: takeWhile_append)
  ultimately show ?thesis by simp
qed

lemma last_slash:
  assumes "q = base @ n @ t" "t = [] \<or> hd t = CHR ''/''" "n \<noteq> []" "CHR ''/'' \<notin> set n" "last q = CHR ''/''"
  shows "\<exists>u. q = base @ n @ ''/'' @ u"
  using assms last_in_set[OF assms(3)] by (cases t) auto

lemma names_okD: "names_ok es \<Longrightarrow> m \<in> fst ` set es \<Longrightarrow> m \<noteq> [] \<and> CHR ''/'' \<notin> set m"
proof (induction es)
  case (Cons x es)
  then show ?case by (cases x) auto
qed simp

lemma walk_children_first:
  "names_ok es \<Longrightarrow> children_first (map fst (entry_paths r base es))"
  "name \<noteq> [] \<Longrightarrow> CHR ''/'' \<notin> set name \<Longrightarrow> node_ok e \<Longrightarrow> children_first (map fst (node_paths r base name e))"
proof (induction r base es and r base name e rule: entry_paths_node_paths.induct)
  case (2 r base name e es)
  have apart: "\<not> prefix p q" if p: "p \<in> fst ` set (node_paths r base name e)" "last p = CHR ''/''"
    and q: "q \<in> fst ` set (entry_paths r base es)" for p q
  proof
    assume pre: "prefix p q"
    have name: "name \<noteq> []" "CHR ''/'' \<notin> set name" "name \<notin> fst ` set es" "names_ok es" using 2(3) by simp_all
    obtain t where "p = base @ name @ t" "t = [] \<or> hd t = CHR ''/''" using path_prefix(2)[OF p(1)] by blast
    from last_slash[OF this name(1,2) p(2)] obtain u where u: "p = base @ name @ ''/'' @ u" by blast
    obtain m t where m: "m \<in> fst ` set es" "q = base @ m @ t" "t = [] \<or> hd t = CHR ''/''"
      using path_prefix(1)[OF q] by blast
    have "CHR ''/'' \<notin> set m" using names_okD[OF name(4) m(1)] by blast
    from prefix_component[OF pre[unfolded u m(2)] name(2) this m(3)] name(3) m(1) show False by simp
  qed
  show ?case
  proof (cases "is_dot name")
    case True
    with 2 show ?thesis by simp
  next
    case False
    with 2 apart show ?thesis by (auto simp: children_first_def sorted_wrt_append)
  qed
next
  case (5 r base name how children)
  show ?case
  proof (cases r)
    case True
    have "\<not> prefix p (base @ name @ ''/'')" if p: "p \<in> fst ` set (entry_paths r (base @ name @ ''/'') children)" for p
    proof
      assume "prefix p (base @ name @ ''/'')"
      then have "length p \<le> length (base @ name @ ''/'')" by (rule prefix_length_le)
      moreover obtain n t where n: "n \<in> fst ` set children" "p = (base @ name @ ''/'') @ n @ t"
        using path_prefix(1)[OF p] by blast
      moreover have "n \<noteq> []" using names_okD[OF _ n(1)] 5(4) by simp
      ultimately show False by simp
    qed
    with 5 True show ?thesis by (auto simp: children_first_def sorted_wrt_append)
  qed (use 5 in \<open>simp add: children_first_def\<close>)
qed (auto simp: children_first_def)

lemma visits_rm:
  "visits (rm os) r ps fs = (None, foldl (\<lambda>fs p. snd (os_remove os fs p)) fs (map fst ps))"
  by (induction ps arbitrary: fs) (auto simp: rm_def)


text \<open>A tree on which the state of the system is the list of the paths removed.\<close>

definition demo_tree :: "(string \<times> node) list" where
  "demo_tree = [(''.'', Dir Readable []), (''b'', Dir Readable [(''x.c'', Leaf 32768 None)]), (''x.c'', Leaf 32768 None)]"

definition demo_os :: "string list os" where
  "demo_os = \<lparr>os_open = (\<lambda>_ p. if p = ''/a'' then Inr (Dir Readable demo_tree) else Inl ENOENT),
     os_stat = (\<lambda>_ _. Inr S_IFDIR), os_remove = (\<lambda>ps p. (None, ps @ [p])), os_mkdir = (\<lambda>ps p m. (None, ps @ [p])),
     os_is_regexp = (\<lambda>_. False), os_regcomp = (\<lambda>_. None), os_coerce = (\<lambda>_. None), os_errno = (\<lambda>_. 0)\<rparr>"

lemma demo_readable: "readable_tree r ''/a'' demo_tree"
  by (cases r) (simp_all add: readable_tree_def with_slash_def PATH_MAX_def demo_tree_def is_dot_def FILENAME_MAX_def)

lemma directory_find_witness:
  "find_helper demo_os ''/a'' True (JStr ''x.c'') [] = Ret (JStr ''/a/b/x.c'', []) \<and>
   find_helper demo_os ''/a'' False (JStr ''x.c'') [] = Ret (JStr ''/a/x.c'', [])"
proof -
  have "os_open demo_os [] ''/a'' = Inr (Dir Readable demo_tree)" by (simp add: demo_os_def)
  from directory_find[OF this demo_readable, of True "''x.c''"] directory_find[OF this demo_readable, of False "''x.c''"]
  show ?thesis by (simp add: demo_tree_def is_dot_def with_slash_def)
qed


text \<open>A directory that cannot be opened corrupts the paths of the entries after it.\<close>

lemma unreadable_directory_in_path:
  "recursedir (find_name ''y'') [(''s'', Dir Open_fails []), (''y'', Leaf 32768 None)]
     \<lparr>cs_path = ''/a/'', cs_entry = [], cs_recursive = True\<rparr> () =
   (1, \<lparr>cs_path = ''/a/s/y'', cs_entry = ''y'', cs_recursive = True\<rparr>, ())"
  by (simp add: is_dot_def cat_path_fits PATH_MAX_def visit_def find_name_def irc_util_strlcpy_def fit_def
      FILENAME_MAX_def Let_def)

end
