(* ===== verification/Js_File.thy ===== *)
theory Js_File
  imports Script Paths
begin

text \<open>
  \<open>Irccd.File\<close> (\<open>irccd/jsapi-file.c\<close>): files of a script over the streams of the C library.
  The functions read everything by pieces, an amount, or lines, and a closed file refuses.

  A stream is the bytes of its file, which may be NUL, and a position; reading past the end
  is the end of file or an error, writing past the room there is an error.  What the system
  answers is a parameter.
\<close>

section \<open>Streams\<close>

text \<open>The two indicators are those of \<open>feof\<close> and \<open>ferror\<close>; a pipe has no position.\<close>

record stream =
  sm_data :: string
  sm_pos :: nat
  sm_fail :: "int option"
  sm_eof :: bool
  sm_error :: bool
  sm_room :: nat
  sm_full :: int
  sm_pipe :: bool

definition sm_rest :: "stream \<Rightarrow> string" where
  "sm_rest sm = drop (sm_pos sm) (sm_data sm)"

text \<open>A call returns the new \<open>errno\<close>, which only a failure changes.\<close>

definition hit_end :: "stream \<Rightarrow> int \<Rightarrow> stream \<times> int" where
  "hit_end sm e =
     (case sm_fail sm of None \<Rightarrow> (sm\<lparr>sm_eof := True\<rparr>, e) | Some n \<Rightarrow> (sm\<lparr>sm_error := True\<rparr>, n))"

definition advance :: "nat \<Rightarrow> stream \<Rightarrow> stream" where
  "advance n sm = sm\<lparr>sm_pos := sm_pos sm + n\<rparr>"

definition fread :: "nat \<Rightarrow> stream \<Rightarrow> int \<Rightarrow> string \<times> stream \<times> int" where
  "fread n sm e =
     (let got = take n (sm_rest sm); sm1 = advance (length got) sm in
      (got, if length got = n then (sm1, e) else hit_end sm1 e))"

definition newline :: char where "newline = CHR 0x0A"

text \<open>\<open>None\<close> is the result -1; the line keeps its newline.\<close>

definition getline :: "stream \<Rightarrow> int \<Rightarrow> string option \<times> stream \<times> int" where
  "getline sm e =
     (let line = takeWhile (\<lambda>c. c \<noteq> newline) (sm_rest sm) in
      if length line < length (sm_rest sm)
      then (Some (line @ [newline]), advance (length line + 1) sm, e)
      else (if line = [] \<or> sm_fail sm \<noteq> None then None else Some line, hit_end (advance (length line) sm) e))"

definition fwrite :: "string \<Rightarrow> stream \<Rightarrow> int \<Rightarrow> nat \<times> stream \<times> int" where
  "fwrite s sm e =
     (let t = take (sm_room sm) s;
          old = sm_data sm @ replicate (sm_pos sm - length (sm_data sm)) NUL;
          sm1 = sm\<lparr>sm_data := take (sm_pos sm) old @ t @ drop (sm_pos sm + length t) old,
                   sm_pos := sm_pos sm + length t, sm_room := sm_room sm - length t\<rparr>
      in (length t, if length t = length s then (sm1, e) else (sm1\<lparr>sm_error := True\<rparr>, sm_full sm)))"

definition EBADF :: int where "EBADF = 9"
definition EINVAL_no :: int where "EINVAL_no = 22"
definition ESPIPE :: int where "ESPIPE = 29"

text \<open>\<open>SEEK_SET\<close> is 0, \<open>SEEK_CUR\<close> is 1 and \<open>SEEK_END\<close> is 2.\<close>

definition fseek :: "stream \<Rightarrow> int \<Rightarrow> int \<Rightarrow> int \<Rightarrow> bool \<times> stream \<times> int" where
  "fseek sm offset type e =
     (let origin = (if type = 0 then Some 0 else if type = 1 then Some (int (sm_pos sm))
                    else if type = 2 then Some (int (length (sm_data sm))) else None) in
      case origin of
        None \<Rightarrow> (False, sm, EINVAL_no)
      | Some n \<Rightarrow>
          if sm_pipe sm then (False, sm, ESPIPE)
          else if n + offset < 0 then (False, sm, EINVAL_no)
          else (True, sm\<lparr>sm_pos := nat (n + offset), sm_eof := False\<rparr>, e))"

section \<open>Files\<close>

text \<open>The structure \<open>file\<close>; the objects of a script point to them.\<close>

record js_file =
  fl_path :: string
  fl_fp :: "stream option"

record file_world =
  fw_heap :: "nat \<Rightarrow> js_file option"
  fw_errno :: int
  fw_closed :: "stream list"

record file_system =
  fy_fopen :: "string \<Rightarrow> string \<Rightarrow> int + stream"
  fy_remove :: "string \<Rightarrow> int option"
  fy_stat :: "string \<Rightarrow> int option"
  fy_fstat :: "stream \<Rightarrow> int option"

text \<open>What a function changed before it throws stays: the world is part of every outcome.\<close>

type_synonym 'a outcome = "'a js \<times> file_world"

definition FILE_SIGNATURE :: string where
  "FILE_SIGNATURE = CHR 0xFF # ''Irccd.File''"

definition jsapi_system_raise :: "file_world \<Rightarrow> 'a outcome" where
  "jsapi_system_raise w = (Throw (System_error (fw_errno w)), w)"

definition raise_errno :: "int \<Rightarrow> file_world \<Rightarrow> 'a outcome" where
  "raise_errno e w = jsapi_system_raise (w\<lparr>fw_errno := e\<rparr>)"

definition file_self :: "jsval \<Rightarrow> file_world \<Rightarrow> (nat \<Rightarrow> js_file \<Rightarrow> 'a outcome) \<Rightarrow> 'a outcome" where
  "file_self this w k =
     (case get_prop this FILE_SIGNATURE of
        JPtr p \<Rightarrow> (case fw_heap w p of None \<Rightarrow> (Crash, w) | Some f \<Rightarrow> k p f)
      | _ \<Rightarrow> (Throw (Type_error ''not a File object''), w))"

definition put_stream :: "nat \<Rightarrow> js_file \<Rightarrow> stream \<times> int \<Rightarrow> file_world \<Rightarrow> file_world" where
  "put_stream p f r w =
     w\<lparr>fw_heap := (fw_heap w)(p \<mapsto> f\<lparr>fl_fp := Some (fst r)\<rparr>), fw_errno := snd r\<rparr>"

section \<open>Reading\<close>

definition BUFSIZ :: nat where "BUFSIZ = 8192"

lemma fread_progress:
  "fread n sm e = (piece, sm1, e1) \<Longrightarrow> piece \<noteq> [] \<Longrightarrow> length (sm_rest sm1) < length (sm_rest sm)"
  by (auto simp: fread_def advance_def hit_end_def sm_rest_def Let_def split: if_splits option.splits)

text \<open>One turn of the loop for each piece.  Memory is never short here.\<close>

function fread_loop :: "stream \<Rightarrow> int \<Rightarrow> string \<Rightarrow> string \<times> stream \<times> int" where
  "fread_loop sm e ret =
     (case fread BUFSIZ sm e of (piece, sm1, e1) \<Rightarrow>
        if piece = [] then (ret, sm1, e1) else fread_loop sm1 e1 (ret @ piece))"
  by pat_completeness auto

termination
  by (relation "measure (\<lambda>(sm, e, ret). length (sm_rest sm))") (auto dest: fread_progress[OF sym])

declare fread_loop.simps [simp del]

definition read_until_eof :: "nat \<Rightarrow> js_file \<Rightarrow> stream \<Rightarrow> file_world \<Rightarrow> jsval outcome" where
  "read_until_eof p f sm w =
     (case fread_loop sm (fw_errno w) [] of (ret, sm1, e1) \<Rightarrow>
        let w1 = put_stream p f (sm1, e1) w in
        if sm_error sm1 then jsapi_system_raise w1 else (Ret (JStr ret), w1))"

definition read_amount :: "nat \<Rightarrow> js_file \<Rightarrow> stream \<Rightarrow> nat \<Rightarrow> file_world \<Rightarrow> jsval outcome" where
  "read_amount p f sm amount w =
     (case fread amount sm (fw_errno w) of (ret, sm1, e1) \<Rightarrow>
        let w1 = put_stream p f (sm1, e1) w in
        if ret = [] \<or> sm_error sm1 then jsapi_system_raise w1 else (Ret (JStr ret), w1))"

text \<open>A line ends at its first carriage return, newline or NUL byte.\<close>

definition chomp :: "string \<Rightarrow> string" where
  "chomp line = takeWhile (\<lambda>c. c \<notin> {CHR 0x0D, newline, NUL}) line"

lemma getline_progress:
  "getline sm e = (Some line, sm1, e1) \<Longrightarrow> length (sm_rest sm1) < length (sm_rest sm)"
  by (auto simp: getline_def hit_end_def advance_def sm_rest_def Let_def
      split: if_splits option.splits) (metis drop_all length_greater_0_conv linorder_not_less sm_rest_def takeWhile.simps(1) zero_less_diff)

function lines_loop :: "stream \<Rightarrow> int \<Rightarrow> string list \<Rightarrow> string list \<times> stream \<times> int" where
  "lines_loop sm e ls =
     (case getline sm e of
        (None, sm1, e1) \<Rightarrow> (ls, sm1, e1)
      | (Some line, sm1, e1) \<Rightarrow> lines_loop sm1 e1 (ls @ [chomp line]))"
  by pat_completeness auto

termination
  by (relation "measure (\<lambda>(sm, e, ls). length (sm_rest sm))") (auto dest: getline_progress[OF sym])

declare lines_loop.simps [simp del]

section \<open>Methods\<close>

type_synonym file_method = "jsval \<Rightarrow> args \<Rightarrow> file_world \<Rightarrow> jsval outcome"

definition with_arg :: "file_world \<Rightarrow> 'b js \<Rightarrow> ('b \<Rightarrow> 'a outcome) \<Rightarrow> 'a outcome" where
  "with_arg w r k = (case r of Ret x \<Rightarrow> k x | Throw e \<Rightarrow> (Throw e, w) | Crash \<Rightarrow> (Crash, w))"

definition File_prototype_basename :: file_method where
  "File_prototype_basename this as w =
     file_self this w (\<lambda>p f. (Ret (JStr (irc_util_basename (fl_path f))), w))"

definition File_prototype_dirname :: file_method where
  "File_prototype_dirname this as w =
     file_self this w (\<lambda>p f. (Ret (JStr (irc_util_dirname (fl_path f))), w))"

definition File_prototype_close :: file_method where
  "File_prototype_close this as w =
     file_self this w (\<lambda>p f.
       case fl_fp f of
         None \<Rightarrow> (Ret JUndefined, w)
       | Some sm \<Rightarrow> (Ret JUndefined, w\<lparr>fw_heap := (fw_heap w)(p \<mapsto> f\<lparr>fl_fp := None\<rparr>),
           fw_closed := fw_closed w @ [sm]\<rparr>))"

definition File_prototype_lines :: file_method where
  "File_prototype_lines this as w =
     file_self this w (\<lambda>p f.
       case fl_fp f of
         None \<Rightarrow> raise_errno EBADF w
       | Some sm \<Rightarrow>
           (case lines_loop sm (fw_errno w) [] of (ls, sm1, e1) \<Rightarrow>
              let w1 = put_stream p f (sm1, e1) w in
              if sm_error sm1 then jsapi_system_raise w1 else (Ret (JArr (map JStr ls)), w1)))"

definition File_prototype_read :: file_method where
  "File_prototype_read this as w =
     file_self this w (\<lambda>p f. with_arg w (duk_opt_uint as 0 (2 ^ 32 - 1) Ret) (\<lambda>amount.
       case fl_fp f of
         None \<Rightarrow> raise_errno EBADF w
       | Some sm \<Rightarrow>
           if amount = 2 ^ 32 - 1 then read_until_eof p f sm w else read_amount p f sm (nat amount) w))"

definition File_prototype_readline :: file_method where
  "File_prototype_readline this as w =
     file_self this w (\<lambda>p f.
       case fl_fp f of
         None \<Rightarrow> raise_errno EBADF w
       | Some sm \<Rightarrow>
           (case getline sm (fw_errno w) of
              (None, sm1, e1) \<Rightarrow>
                let w1 = put_stream p f (sm1, e1) w in
                if sm_eof sm1 then (Ret JUndefined, w1) else jsapi_system_raise w1
            | (Some line, r) \<Rightarrow> (Ret (JStr (chomp line)), put_stream p f r w)))"

definition remove_path :: "file_system \<Rightarrow> string \<Rightarrow> file_world \<Rightarrow> jsval outcome" where
  "remove_path fy path w =
     (case fy_remove fy path of None \<Rightarrow> (Ret JUndefined, w) | Some e \<Rightarrow> raise_errno e w)"

definition File_prototype_remove :: "file_system \<Rightarrow> file_method" where
  "File_prototype_remove fy this as w = file_self this w (\<lambda>p f. remove_path fy (fl_path f) w)"

text \<open>A closed file raises whatever \<open>errno\<close> is at that time.\<close>

definition File_prototype_seek :: file_method where
  "File_prototype_seek this as w =
     file_self this w (\<lambda>p f. with_arg w (duk_require_int as 0 Ret) (\<lambda>type.
       with_arg w (duk_require_int as 1 Ret) (\<lambda>offset.
         case fl_fp f of
           None \<Rightarrow> jsapi_system_raise w
         | Some sm \<Rightarrow>
             (case fseek sm offset type (fw_errno w) of (ok, r) \<Rightarrow>
                let w1 = put_stream p f r w in
                if ok then (Ret JUndefined, w1) else jsapi_system_raise w1))))"

text \<open>The object with the status is made but not returned.\<close>

definition File_prototype_stat :: "file_system \<Rightarrow> file_method" where
  "File_prototype_stat fy this as w =
     file_self this w (\<lambda>p f.
       case fl_fp f of
         None \<Rightarrow> jsapi_system_raise w
       | Some sm \<Rightarrow> (case fy_fstat fy sm of None \<Rightarrow> (Ret JUndefined, w) | Some e \<Rightarrow> raise_errno e w))"

definition File_prototype_tell :: file_method where
  "File_prototype_tell this as w =
     file_self this w (\<lambda>p f.
       case fl_fp f of
         None \<Rightarrow> jsapi_system_raise w
       | Some sm \<Rightarrow>
           if sm_pipe sm then raise_errno ESPIPE w else (Ret (JInt (int (sm_pos sm))), w))"

definition File_prototype_write :: file_method where
  "File_prototype_write this as w =
     file_self this w (\<lambda>p f. with_arg w (duk_require_string as 0 Ret) (\<lambda>data.
       case fl_fp f of
         None \<Rightarrow> jsapi_system_raise w
       | Some sm \<Rightarrow>
           (case fwrite data sm (fw_errno w) of (written, sm1, e1) \<Rightarrow>
              let w1 = put_stream p f (sm1, e1) w in
              if sm_error sm1 then jsapi_system_raise w1
              else (Ret (JInt (int written mod 2 ^ 32)), w1))))"

section \<open>Construction\<close>

text \<open>The address of the new file is chosen by the allocator.\<close>

definition File_constructor :: "file_system \<Rightarrow> nat \<Rightarrow> file_method" where
  "File_constructor fy p this as w =
     with_arg w (duk_require_string as 0 Ret) (\<lambda>path.
     with_arg w (duk_require_string as 1 Ret) (\<lambda>mode.
       if this = JUndefined then (Ret JUndefined, w)
       else case fy_fopen fy path mode of
         Inl e \<Rightarrow> raise_errno e w
       | Inr sm \<Rightarrow>
           (Ret (put_prop this FILE_SIGNATURE (JPtr p)),
            w\<lparr>fw_heap := (fw_heap w)(p \<mapsto> \<lparr>fl_path = fit PATH_MAX path, fl_fp = Some sm\<rparr>)\<rparr>)))"

text \<open>A file that was closed before is never freed.\<close>

definition File_destructor :: "jsval \<Rightarrow> file_world \<Rightarrow> file_world" where
  "File_destructor obj w =
     (case get_prop obj FILE_SIGNATURE of
        JPtr p \<Rightarrow>
          (case fw_heap w p of
             Some f \<Rightarrow>
               (case fl_fp f of
                  Some sm \<Rightarrow> w\<lparr>fw_heap := (fw_heap w)(p := None), fw_closed := fw_closed w @ [sm]\<rparr>
                | None \<Rightarrow> w)
           | None \<Rightarrow> w)
      | _ \<Rightarrow> w)"

definition jsapi_file_push :: "nat \<Rightarrow> string option \<Rightarrow> stream \<Rightarrow> file_world \<Rightarrow> jsval \<times> file_world" where
  "jsapi_file_push p path sm w =
     (JObj [(FILE_SIGNATURE, JPtr p)],
      w\<lparr>fw_heap := (fw_heap w)(p \<mapsto>
        \<lparr>fl_path = (case path of None \<Rightarrow> [] | Some t \<Rightarrow> fit PATH_MAX t), fl_fp = Some sm\<rparr>)\<rparr>)"

section \<open>Functions\<close>

definition File_basename :: "args \<Rightarrow> file_world \<Rightarrow> jsval outcome" where
  "File_basename as w = with_arg w (duk_require_string as 0 Ret) (\<lambda>p. (Ret (JStr (irc_util_basename p)), w))"

definition File_dirname :: "args \<Rightarrow> file_world \<Rightarrow> jsval outcome" where
  "File_dirname as w = with_arg w (duk_require_string as 0 Ret) (\<lambda>p. (Ret (JStr (irc_util_dirname p)), w))"

definition File_exists :: "file_system \<Rightarrow> args \<Rightarrow> file_world \<Rightarrow> jsval outcome" where
  "File_exists fy as w = with_arg w (duk_require_string as 0 Ret) (\<lambda>p. (Ret (JBool (fy_stat fy p = None)), w))"

definition File_remove :: "file_system \<Rightarrow> args \<Rightarrow> file_world \<Rightarrow> jsval outcome" where
  "File_remove fy as w = with_arg w (duk_require_string as 0 Ret) (\<lambda>p. remove_path fy p w)"

definition File_stat :: "file_system \<Rightarrow> args \<Rightarrow> file_world \<Rightarrow> jsval outcome" where
  "File_stat fy as w =
     with_arg w (duk_require_string as 0 Ret) (\<lambda>p.
       case fy_stat fy p of None \<Rightarrow> (Ret JUndefined, w) | Some e \<Rightarrow> raise_errno e w)"

section \<open>Reading to the end\<close>

lemma rest_advance [simp]: "sm_rest (advance n sm) = drop n (sm_rest sm)"
  by (simp add: sm_rest_def advance_def add.commute)

lemma hit_end_ok: "sm_fail sm = None \<Longrightarrow> hit_end sm e = (sm\<lparr>sm_eof := True\<rparr>, e)"
  by (simp add: hit_end_def)

lemma advance_simps [simp]:
  "sm_fail (advance n sm) = sm_fail sm" "sm_error (advance n sm) = sm_error sm"
  "sm_data (advance n sm) = sm_data sm" "sm_pos (advance n sm) = sm_pos sm + n"
  "advance m (advance n sm) = advance (n + m) sm" "advance 0 sm = sm"
  by (simp_all add: advance_def)

lemma rest_eof [simp]: "sm_rest (sm\<lparr>sm_eof := b\<rparr>) = sm_rest sm"
  by (simp add: sm_rest_def)

lemma fread_loop_end:
  assumes "sm_rest sm = []" "sm_fail sm = None"
  shows "fread_loop sm e ret = (ret, sm\<lparr>sm_eof := True\<rparr>, e)"
proof -
  have "fread BUFSIZ sm e = ([], sm\<lparr>sm_eof := True\<rparr>, e)"
    using assms by (simp add: fread_def Let_def hit_end_ok BUFSIZ_def)
  then show ?thesis by (simp add: fread_loop.simps[of sm])
qed

lemma fread_loop_all:
  "sm_fail sm = None \<Longrightarrow> fread_loop sm e ret =
    (ret @ sm_rest sm, (advance (length (sm_rest sm)) sm)\<lparr>sm_eof := True\<rparr>, e)"
proof (induction sm e ret rule: fread_loop.induct)
  case (1 sm e ret)
  show ?case
  proof (cases "BUFSIZ \<le> length (sm_rest sm)")
    case True
    then have f: "fread BUFSIZ sm e = (take BUFSIZ (sm_rest sm), advance BUFSIZ sm, e)"
      by (simp add: fread_def Let_def min_absorb2)
    have ne: "take BUFSIZ (sm_rest sm) \<noteq> []" using True by (auto simp: BUFSIZ_def)
    from 1(1)[OF f[symmetric] refl ne] 1(2) True ne show ?thesis
      by (simp add: fread_loop.simps[of sm] f)
  next
    case False
    let ?last = "(advance (length (sm_rest sm)) sm)\<lparr>sm_eof := True\<rparr>"
    have f: "fread BUFSIZ sm e = (sm_rest sm, ?last, e)"
      using False 1(2) by (simp add: fread_def Let_def hit_end_ok)
    have stop: "fread_loop ?last e r = (r, ?last, e)" for r
      using fread_loop_end[of ?last e r] 1(2) by simp
    show ?thesis by (simp add: fread_loop.simps[of sm] f stop)
  qed
qed

text \<open>The lines of a text: what is between its newlines, without an empty last one.\<close>

fun text_lines :: "string \<Rightarrow> string list" where
  "text_lines [] = []"
| "text_lines (c # cs) =
     (let line = takeWhile (\<lambda>c. c \<noteq> newline) (c # cs) in
      chomp line # text_lines (drop (length line + 1) (c # cs)))"

lemma chomp_newline [simp]: "chomp (line @ [newline]) = chomp line"
  by (induction line) (auto simp: chomp_def)

lemma text_lines_rest:
  "s \<noteq> [] \<Longrightarrow> text_lines s = (let line = takeWhile (\<lambda>c. c \<noteq> newline) s in
     chomp line # text_lines (drop (length line + 1) s))"
  by (cases s) simp_all

lemma eof_again [simp]: "advance n (sm\<lparr>sm_eof := b\<rparr>) = (advance n sm)\<lparr>sm_eof := b\<rparr>"
  by (simp add: advance_def)

lemma lines_loop_all:
  "sm_fail sm = None \<Longrightarrow> lines_loop sm e ls =
    (ls @ text_lines (sm_rest sm), (advance (length (sm_rest sm)) sm)\<lparr>sm_eof := True\<rparr>, e)"
proof (induction sm e ls rule: lines_loop.induct)
  case (1 sm e ls)
  let ?s = "sm_rest sm" and ?line = "takeWhile (\<lambda>c. c \<noteq> newline) (sm_rest sm)"
  have le: "length ?line \<le> length ?s" by (rule length_takeWhile_le)
  have all: "?line = ?s" if "\<not> length ?line < length ?s"
    using that takeWhile_eq_take[of "\<lambda>c. c \<noteq> newline" ?s] by (simp add: not_less)
  consider "?s = []" | "?s \<noteq> []" "length ?line < length ?s" | "?s \<noteq> []" "?line = ?s"
    using all by blast
  then show ?case
  proof cases
    case 1
    then have "getline sm e = (None, sm\<lparr>sm_eof := True\<rparr>, e)"
      using \<open>sm_fail sm = None\<close> by (simp add: getline_def Let_def hit_end_ok)
    then show ?thesis using 1 by (simp add: lines_loop.simps[of sm])
  next
    case 2
    then have g: "getline sm e = (Some (?line @ [newline]), advance (length ?line + 1) sm, e)"
      by (simp add: getline_def Let_def)
    from "1.IH"[OF g[symmetric] refl refl] \<open>sm_fail sm = None\<close> 2 show ?thesis
      by (simp add: lines_loop.simps[of sm] g text_lines_rest Let_def)
  next
    case 3
    then have g: "getline sm e = (Some ?s, (advance (length ?s) sm)\<lparr>sm_eof := True\<rparr>, e)"
      using \<open>sm_fail sm = None\<close> 3(1) by (simp only: getline_def Let_def 3(2)) (simp add: hit_end_ok)
    have "text_lines ?s = [chomp ?s]"
      using text_lines_rest[OF 3(1)] by (simp only: Let_def 3(2)) simp
    with "1.IH"[OF g[symmetric] refl refl] \<open>sm_fail sm = None\<close> show ?thesis
      by (simp add: lines_loop.simps[of sm] g)
  qed
qed

section \<open>Properties\<close>

lemma self_at:
  "get_prop this FILE_SIGNATURE = JPtr p \<Longrightarrow> fw_heap w p = Some f \<Longrightarrow> file_self this w k = k p f"
  by (simp add: file_self_def)

lemma reads_all:
  assumes "get_prop this FILE_SIGNATURE = JPtr p" "fw_heap w p = Some f" "fl_fp f = Some sm"
    "sm_fail sm = None" "\<not> sm_error sm"
  shows "fst (File_prototype_lines this [] w) = Ret (JArr (map JStr (text_lines (sm_rest sm))))"
    and "fst (File_prototype_read this [] w) = Ret (JStr (sm_rest sm))"
proof -
  note self = self_at[OF assms(1,2)]
  show "fst (File_prototype_lines this [] w) = Ret (JArr (map JStr (text_lines (sm_rest sm))))"
    unfolding File_prototype_lines_def self using assms(3,5) by (simp add: lines_loop_all[OF assms(4)] Let_def)
  have "duk_opt_uint [] 0 (2 ^ 32 - 1) Ret = Ret (2 ^ 32 - 1)" by (simp add: duk_opt_uint_def)
  then show "fst (File_prototype_read this [] w) = Ret (JStr (sm_rest sm))"
    unfolding File_prototype_read_def self using assms(3,5)
    by (simp add: with_arg_def read_until_eof_def fread_loop_all[OF assms(4)] Let_def)
qed

lemma text_lines_Cons:
  assumes "newline \<notin> set l"
  shows "text_lines (l @ newline # s) = chomp l # text_lines s"
proof -
  have "takeWhile (\<lambda>c. c \<noteq> newline) (l @ newline # s) = l"
    using assms by (auto simp: takeWhile_append)
  then show ?thesis using text_lines_rest[of "l @ newline # s"] by (simp add: Let_def)
qed

lemma text_lines_concat:
  "list_all (\<lambda>l. newline \<notin> set l \<and> CHR 0x0D \<notin> set l \<and> NUL \<notin> set l) ls \<Longrightarrow>
    text_lines (concat (map (\<lambda>l. l @ [newline]) ls)) = ls"
proof (induction ls)
  case (Cons l ls)
  then have "chomp l = l" by (auto simp: chomp_def takeWhile_eq_all_conv)
  with Cons show ?case using text_lines_Cons[of l "concat (map (\<lambda>l. l @ [newline]) ls)"] by simp
qed simp

text \<open>
  C36. What a script writes it reads back: lines written to an empty file are, after a seek
  to its start, the lines of \<open>lines()\<close>, without their newlines, and their whole text is what
  \<open>read()\<close> returns, however many pieces the reading takes.
\<close>
theorem file_lines_roundtrip:
  assumes "fw_heap w p = Some f" "fl_fp f = Some sm" "get_prop this FILE_SIGNATURE = JPtr p"
    "sm_data sm = []" "sm_pos sm = 0" "sm_fail sm = None" "\<not> sm_error sm" "\<not> sm_pipe sm"
    "list_all (\<lambda>l. newline \<notin> set l \<and> CHR 0x0D \<notin> set l \<and> NUL \<notin> set l) ls"
    "data = concat (map (\<lambda>l. l @ [newline]) ls)" "length data \<le> sm_room sm" "length data < 2 ^ 32"
  shows "\<exists>w1 w2. File_prototype_write this [JStr data] w = (Ret (JInt (int (length data))), w1) \<and>
    File_prototype_seek this [JInt 0, JInt 0] w1 = (Ret JUndefined, w2) \<and>
    fst (File_prototype_lines this [] w2) = Ret (JArr (map JStr ls)) \<and>
    fst (File_prototype_read this [] w2) = Ret (JStr data)"
proof -
  let ?sm1 = "sm\<lparr>sm_data := data, sm_pos := length data, sm_room := sm_room sm - length data\<rparr>"
  let ?sm2 = "?sm1\<lparr>sm_pos := 0, sm_eof := False\<rparr>"
  let ?w1 = "put_stream p f (?sm1, fw_errno w) w"
  let ?f1 = "f\<lparr>fl_fp := Some ?sm1\<rparr>" and ?f2 = "f\<lparr>fl_fp := Some ?sm2\<rparr>"
  let ?w2 = "put_stream p ?f1 (?sm2, fw_errno w) ?w1"
  have "fwrite data sm (fw_errno w) = (length data, ?sm1, fw_errno w)"
    using assms(4,5,11) by (simp add: fwrite_def Let_def)
  then have wr: "File_prototype_write this [JStr data] w = (Ret (JInt (int (length data))), ?w1)"
    using assms(2,7,12) unfolding File_prototype_write_def self_at[OF assms(3,1)]
    by (simp add: with_arg_def duk_require_string_def Let_def)
  have h1: "fw_heap ?w1 p = Some ?f1" and e1: "fw_errno ?w1 = fw_errno w" by (simp_all add: put_stream_def)
  have "fseek ?sm1 0 0 (fw_errno w) = (True, ?sm2, fw_errno w)" using assms(8) by (simp add: fseek_def)
  moreover have "duk_require_int [JInt 0, JInt 0] 0 Ret = Ret 0" "duk_require_int [JInt 0, JInt 0] 1 Ret = Ret 0"
    using d2i_of_int(1)[of 0] by (simp_all add: duk_require_int_def)
  ultimately have seek: "File_prototype_seek this [JInt 0, JInt 0] ?w1 = (Ret JUndefined, ?w2)"
    unfolding File_prototype_seek_def self_at[OF assms(3) h1] by (simp add: with_arg_def e1)
  have h2: "fw_heap ?w2 p = Some ?f2" by (simp add: put_stream_def)
  have "sm_rest ?sm2 = data" by (simp add: sm_rest_def)
  then have "fst (File_prototype_lines this [] ?w2) = Ret (JArr (map JStr ls))"
    "fst (File_prototype_read this [] ?w2) = Ret (JStr data)"
    using reads_all[OF assms(3) h2, of ?sm2] assms(6,7,10) text_lines_concat[OF assms(9)] by simp_all
  with wr seek show ?thesis by blast
qed

definition demo_stream :: stream where
  "demo_stream = \<lparr>sm_data = [], sm_pos = 0, sm_fail = None, sm_eof = False, sm_error = False, sm_room = 100,
     sm_full = 28, sm_pipe = False\<rparr>"

definition demo_files :: file_world where
  "demo_files = \<lparr>fw_heap = [3 \<mapsto> \<lparr>fl_path = ''/t'', fl_fp = Some demo_stream\<rparr>], fw_errno = 0, fw_closed = []\<rparr>"

lemma file_lines_roundtrip_witness:
  "\<exists>w1 w2. File_prototype_write (JObj [(FILE_SIGNATURE, JPtr 3)]) [JStr (''a'' @ [newline, newline] @ ''bc'' @ [newline])] demo_files = (Ret (JInt 6), w1) \<and>
    File_prototype_seek (JObj [(FILE_SIGNATURE, JPtr 3)]) [JInt 0, JInt 0] w1 = (Ret JUndefined, w2) \<and>
    fst (File_prototype_lines (JObj [(FILE_SIGNATURE, JPtr 3)]) [] w2) = Ret (JArr [JStr ''a'', JStr [], JStr ''bc''])"
  using file_lines_roundtrip[of demo_files 3 "\<lparr>fl_path = ''/t'', fl_fp = Some demo_stream\<rparr>" demo_stream
      "JObj [(FILE_SIGNATURE, JPtr 3)]" "[''a'', [], ''bc'']" "''a'' @ [newline, newline] @ ''bc'' @ [newline]"]
  by (simp add: demo_files_def demo_stream_def newline_def lookup_prop_def) blast

text \<open>
  A closed file is refused everywhere.  Reading raises \<open>EBADF\<close>, the other operations
  raise an error too, with whatever \<open>errno\<close> was; no stream is touched, closing again does
  nothing, and finalising the object does not free the file.
\<close>
theorem closed_file_refused:
  assumes "fw_heap w p = Some f" "get_prop this FILE_SIGNATURE = JPtr p"
  shows "\<exists>w1. File_prototype_close this as w = (Ret JUndefined, w1) \<and>
    fw_heap w1 = (fw_heap w)(p \<mapsto> f\<lparr>fl_fp := None\<rparr>) \<and>
    File_prototype_close this as w1 = (Ret JUndefined, w1) \<and>
    File_prototype_read this [] w1 = (Throw (System_error EBADF), w1\<lparr>fw_errno := EBADF\<rparr>) \<and>
    File_prototype_readline this [] w1 = (Throw (System_error EBADF), w1\<lparr>fw_errno := EBADF\<rparr>) \<and>
    File_prototype_lines this [] w1 = (Throw (System_error EBADF), w1\<lparr>fw_errno := EBADF\<rparr>) \<and>
    File_prototype_write this [JStr data] w1 = (Throw (System_error (fw_errno w)), w1) \<and>
    File_prototype_seek this [JInt i, JInt j] w1 = (Throw (System_error (fw_errno w)), w1) \<and>
    File_prototype_tell this [] w1 = (Throw (System_error (fw_errno w)), w1) \<and>
    File_prototype_stat fy this [] w1 = (Throw (System_error (fw_errno w)), w1) \<and>
    File_destructor this w1 = w1"
proof -
  define w1 where "w1 = snd (File_prototype_close this as w)"
  have self: "file_self this v k = k p g" if "fw_heap v p = Some g" for v g and k :: "nat \<Rightarrow> js_file \<Rightarrow> jsval outcome"
    using assms(2) that by (simp add: file_self_def)
  have close: "File_prototype_close this as w = (Ret JUndefined, w1)"
    and h: "fw_heap w1 = (fw_heap w)(p \<mapsto> f\<lparr>fl_fp := None\<rparr>)" and e: "fw_errno w1 = fw_errno w"
    using assms(1) unfolding w1_def File_prototype_close_def self[OF assms(1)]
    by (auto split: option.splits)
  have hp: "fw_heap w1 p = Some (f\<lparr>fl_fp := None\<rparr>)" by (simp add: h)
  have args: "duk_opt_uint [] 0 (2 ^ 32 - 1) Ret = Ret (2 ^ 32 - 1)"
    "duk_require_int [JInt i, JInt j] 0 Ret = Ret (duk__api_coerce_d2i (Fin (of_int i)))"
    "duk_require_int [JInt i, JInt j] 1 Ret = Ret (duk__api_coerce_d2i (Fin (of_int j)))"
    "duk_require_string [JStr data] 0 Ret = Ret data"
    by (simp_all add: duk_opt_uint_def duk_require_int_def duk_require_string_def)
  have again: "File_prototype_close this as w1 = (Ret JUndefined, w1)"
    unfolding File_prototype_close_def self[OF hp] by simp
  have read: "File_prototype_read this [] w1 = (Throw (System_error EBADF), w1\<lparr>fw_errno := EBADF\<rparr>)"
    unfolding File_prototype_read_def self[OF hp] args
    by (simp add: with_arg_def raise_errno_def jsapi_system_raise_def)
  have line: "File_prototype_readline this [] w1 = (Throw (System_error EBADF), w1\<lparr>fw_errno := EBADF\<rparr>)"
    unfolding File_prototype_readline_def self[OF hp] by (simp add: raise_errno_def jsapi_system_raise_def)
  have lines: "File_prototype_lines this [] w1 = (Throw (System_error EBADF), w1\<lparr>fw_errno := EBADF\<rparr>)"
    unfolding File_prototype_lines_def self[OF hp] by (simp add: raise_errno_def jsapi_system_raise_def)
  have stale: "File_prototype_write this [JStr data] w1 = (Throw (System_error (fw_errno w)), w1)"
    "File_prototype_seek this [JInt i, JInt j] w1 = (Throw (System_error (fw_errno w)), w1)"
    "File_prototype_tell this [] w1 = (Throw (System_error (fw_errno w)), w1)"
    "File_prototype_stat fy this [] w1 = (Throw (System_error (fw_errno w)), w1)"
    unfolding File_prototype_write_def File_prototype_seek_def File_prototype_tell_def File_prototype_stat_def
      self[OF hp] args by (simp_all add: with_arg_def jsapi_system_raise_def e)
  have "File_destructor this w1 = w1" using assms(2) hp by (simp add: File_destructor_def)
  with close h again read line lines stale show ?thesis by blast
qed

lemma closed_file_refused_witness:
  "\<exists>w1. File_prototype_close (JObj [(FILE_SIGNATURE, JPtr 3)]) [] demo_files = (Ret JUndefined, w1) \<and>
    fst (File_prototype_read (JObj [(FILE_SIGNATURE, JPtr 3)]) [] w1) = Throw (System_error 9) \<and>
    fst (File_prototype_write (JObj [(FILE_SIGNATURE, JPtr 3)]) [JStr ''x''] w1) = Throw (System_error 0)"
proof -
  have "fw_heap demo_files 3 = Some \<lparr>fl_path = ''/t'', fl_fp = Some demo_stream\<rparr>" "fw_errno demo_files = 0"
    by (simp_all add: demo_files_def)
  from closed_file_refused[OF this(1), of "JObj [(FILE_SIGNATURE, JPtr 3)]" "[]" "''x''" 0 0] this(2)
  obtain w1 where "File_prototype_close (JObj [(FILE_SIGNATURE, JPtr 3)]) [] demo_files = (Ret JUndefined, w1)"
    "File_prototype_read (JObj [(FILE_SIGNATURE, JPtr 3)]) [] w1 = (Throw (System_error EBADF), w1\<lparr>fw_errno := EBADF\<rparr>)"
    "File_prototype_write (JObj [(FILE_SIGNATURE, JPtr 3)]) [JStr ''x''] w1 = (Throw (System_error 0), w1)"
    by (auto simp: lookup_prop_def)
  then show ?thesis by (simp add: EBADF_def)
qed

end
