(* ===== verification/Js_System.thy ===== *)
theory Js_System
  imports Js_File
begin

text \<open>
  \<open>Irccd.System\<close>, \<open>Irccd.Chrono\<close>, and the object \<open>Irccd\<close> itself with its errors
  (\<open>irccd/jsapi-system.c\<close>, \<open>irccd/jsapi-chrono.c\<close>, \<open>irccd/jsapi-irccd.c\<close>).  What the system
  answers is a parameter: the environment, the results of commands, the clock, how signals
  interrupt a sleep, the numbers of the errors.
\<close>

section \<open>Stopwatches\<close>

text \<open>
  A \<open>struct timespec\<close>.  The milliseconds between two of them are a \<open>long\<close> and pushed as an
  unsigned 32-bit number.
\<close>

record timespec =
  tv_sec :: int
  tv_nsec :: int

definition elapsed_ms :: "timespec \<Rightarrow> timespec \<Rightarrow> int" where
  "elapsed_ms start now =
     ((tv_sec now * 1000 - tv_sec start * 1000) + (tv_nsec now div 1000000 - tv_nsec start div 1000000)) mod 2 ^ 32"

text \<open>\<open>None\<close> is an object without the structure of a stopwatch.\<close>

definition chrono_self :: "timespec option \<Rightarrow> (timespec \<Rightarrow> 'a js) \<Rightarrow> 'a js" where
  "chrono_self obj k = (case obj of None \<Rightarrow> Throw (Type_error ''not an Chrono object'') | Some t \<Rightarrow> k t)"

definition Chrono_prototype_elapsed :: "timespec \<Rightarrow> timespec option \<Rightarrow> jsval js" where
  "Chrono_prototype_elapsed now obj = chrono_self obj (\<lambda>start. Ret (JInt (elapsed_ms start now)))"

definition Chrono_prototype_reset :: "timespec \<Rightarrow> timespec option \<Rightarrow> timespec option js" where
  "Chrono_prototype_reset now obj = chrono_self obj (\<lambda>_. Ret (Some now))"

definition Chrono_constructor :: "timespec \<Rightarrow> timespec option" where
  "Chrono_constructor now = Some now"

definition Chrono_destructor :: "timespec option \<Rightarrow> timespec option" where
  "Chrono_destructor obj = None"

definition nanoseconds :: "timespec \<Rightarrow> int" where
  "nanoseconds t = tv_sec t * 10 ^ 9 + tv_nsec t"

definition valid_time :: "timespec \<Rightarrow> bool" where
  "valid_time t = (0 \<le> tv_nsec t \<and> tv_nsec t < 10 ^ 9)"

section \<open>Sleeping\<close>

text \<open>
  The outcomes of \<open>nanosleep\<close>: how long it slept when a signal interrupted it, with the rest
  of the time left in the same structure.  When no signal is left it sleeps to the end.  The
  result is the time slept in all.
\<close>

fun nsleep_loop :: "int \<Rightarrow> int list \<Rightarrow> int" where
  "nsleep_loop rest [] = rest"
| "nsleep_loop rest (slept # signals) =
     (if slept < rest then slept + nsleep_loop (rest - slept) signals else rest)"

definition nsleep :: "int \<Rightarrow> int list \<Rightarrow> int" where
  "nsleep ns signals =
     (let sec = ns div 1000000000; nsec = ns mod 1000000000 in nsleep_loop (sec * 1000000000 + nsec) signals)"

text \<open>
  The seconds are multiplied as a \<open>long\<close> of 64 bits, the microseconds as an unsigned number of
  32 bits.  The functions return 0, that is no value; the time slept is shown beside.
\<close>

definition System_sleep :: "int list \<Rightarrow> args \<Rightarrow> (jsval \<times> int) js" where
  "System_sleep signals as =
     duk_require_uint as 0 (\<lambda>n. Ret (JUndefined, nsleep (uint (word_of_int (n * 1000000000) :: 64 word)) signals))"

definition System_usleep :: "int list \<Rightarrow> args \<Rightarrow> (jsval \<times> int) js" where
  "System_usleep signals as =
     duk_require_uint as 0 (\<lambda>n. Ret (JUndefined, nsleep (uint (word_of_int (n * 1000) :: 32 word)) signals))"

section \<open>The system\<close>

text \<open>
  The environment, \<open>system\<close>, the name of the platform, \<open>popen\<close>, \<open>sysinfo\<close> and \<open>uname\<close>; an
  integer on the left is the \<open>errno\<close> of a call that fails.
\<close>

record host_system =
  sy_getenv :: "string \<Rightarrow> string option"
  sy_system :: "string \<Rightarrow> int"
  sy_platform :: string
  sy_popen :: "string \<Rightarrow> string \<Rightarrow> int + stream"
  sy_uptime :: "int + int"
  sy_release :: "int + string"

definition System_env :: "host_system \<Rightarrow> args \<Rightarrow> file_world \<Rightarrow> jsval outcome" where
  "System_env sy as w = with_arg w (duk_require_string as 0 Ret) (\<lambda>name.
     (Ret (case sy_getenv sy name of None \<Rightarrow> JNull | Some v \<Rightarrow> JStr v), w))"

definition System_exec :: "host_system \<Rightarrow> args \<Rightarrow> file_world \<Rightarrow> jsval outcome" where
  "System_exec sy as w = with_arg w (duk_require_string as 0 Ret) (\<lambda>cmd.
     (Ret (JInt (sy_system sy cmd mod 2 ^ 32)), w))"

definition System_home :: "host_system \<Rightarrow> args \<Rightarrow> file_world \<Rightarrow> jsval outcome" where
  "System_home sy as w =
     (Ret (case sy_getenv sy ''HOME'' of Some home \<Rightarrow> JStr home | None \<Rightarrow> JUndefined), w)"

definition System_name :: "host_system \<Rightarrow> args \<Rightarrow> file_world \<Rightarrow> jsval outcome" where
  "System_name sy as w = (Ret (JStr (sy_platform sy)), w)"

definition System_popen :: "host_system \<Rightarrow> nat \<Rightarrow> args \<Rightarrow> file_world \<Rightarrow> jsval outcome" where
  "System_popen sy p as w =
     with_arg w (duk_require_string as 0 Ret) (\<lambda>cmd.
     with_arg w (duk_require_string as 1 Ret) (\<lambda>mode.
       case sy_popen sy cmd mode of
         Inl e \<Rightarrow> raise_errno e w
       | Inr fp \<Rightarrow> (case jsapi_file_push p None fp w of (v, w') \<Rightarrow> (Ret v, w'))))"

definition System_uptime :: "host_system \<Rightarrow> args \<Rightarrow> file_world \<Rightarrow> jsval outcome" where
  "System_uptime sy as w =
     (case sy_uptime sy of Inl e \<Rightarrow> raise_errno e w | Inr up \<Rightarrow> (Ret (JInt (up mod 2 ^ 32)), w))"

definition System_version :: "host_system \<Rightarrow> args \<Rightarrow> file_world \<Rightarrow> jsval outcome" where
  "System_version sy as w =
     (case sy_release sy of Inl e \<Rightarrow> raise_errno e w | Inr r \<Rightarrow> (Ret (JStr r), w))"

section \<open>The object \<open>Irccd\<close>\<close>

text \<open>The names of the errors that the object gets when the platform has all of them.\<close>

definition error_names :: "string list" where
  "error_names =
     [''E2BIG'', ''EACCES'', ''EADDRINUSE'', ''EADDRNOTAVAIL'', ''EAFNOSUPPORT'', ''EAGAIN'', ''EALREADY'',
      ''EBADF'', ''EBADMSG'', ''EBUSY'', ''ECANCELED'', ''ECHILD'', ''ECONNABORTED'', ''ECONNREFUSED'',
      ''ECONNRESET'', ''EDEADLK'', ''EDESTADDRREQ'', ''EDOM'', ''EEXIST'', ''EFAULT'', ''EFBIG'',
      ''EHOSTUNREACH'', ''EIDRM'', ''EILSEQ'', ''EINPROGRESS'', ''EINTR'', ''EINVAL'', ''EIO'', ''EISCONN'',
      ''EISDIR'', ''ELOOP'', ''EMFILE'', ''EMLINK'', ''EMSGSIZE'', ''ENAMETOOLONG'', ''ENETDOWN'',
      ''ENETRESET'', ''ENETUNREACH'', ''ENFILE'', ''ENOBUFS'', ''ENODATA'', ''ENODEV'', ''ENOENT'',
      ''ENOEXEC'', ''ENOLCK'', ''ENOLINK'', ''ENOMEM'', ''ENOMSG'', ''ENOPROTOOPT'', ''ENOSPC'', ''ENOSR'',
      ''ENOSTR'', ''ENOSYS'', ''ENOTCONN'', ''ENOTDIR'', ''ENOTEMPTY'', ''ENOTRECOVERABLE'', ''ENOTSOCK'',
      ''ENOTSUP'', ''ENOTTY'', ''ENXIO'', ''EOPNOTSUPP'', ''EOVERFLOW'', ''EOWNERDEAD'', ''EPERM'', ''EPIPE'',
      ''EPROTO'', ''EPROTONOSUPPORT'', ''EPROTOTYPE'', ''ERANGE'', ''EROFS'', ''ESPIPE'', ''ESRCH'', ''ETIME'',
      ''ETIMEDOUT'', ''ETXTBSY'', ''EWOULDBLOCK'', ''EXDEV'']"

definition SystemError_constructor :: "args \<Rightarrow> jsval js" where
  "SystemError_constructor as =
     duk_require_int as 0 (\<lambda>no. duk_require_string as 1 (\<lambda>msg.
       Ret (put_prop (put_prop (put_prop (JObj []) ''errno'' (JInt no)) ''message'' (JStr msg))
         ''name'' (JStr ''SystemError''))))"

text \<open>\<open>print\<close> writes a line on the standard output, which is shown beside the value.\<close>

definition js_print :: "args \<Rightarrow> (jsval \<times> string) js" where
  "js_print as = duk_require_string as 0 (\<lambda>s. Ret (JUndefined, s @ [newline]))"

text \<open>
  What the global \<open>Irccd\<close> holds when it is made; \<open>SystemError\<close> is the constructor above, of which
  only the properties are shown.
\<close>

definition jsapi_load :: "nat \<times> nat \<times> nat \<Rightarrow> (string \<Rightarrow> int) \<Rightarrow> jsval" where
  "jsapi_load version errno_of =
     (case version of (major, minor, patch) \<Rightarrow>
        JObj [(''Version'', JObj [(''Major'', JInt (int major)), (''Minor'', JInt (int minor)), (''Patch'', JInt (int patch))]),
              (''SystemError'', JObj (map (\<lambda>n. (n, JInt (errno_of n))) error_names))])"

section \<open>What is measured and slept\<close>

text \<open>
  C39. A stopwatch is right to a millisecond, for seven weeks.  The elapsed time differs by
  less than a millisecond from that between the two readings of the clock, as long as the
  clock was not set back by a millisecond or more and fewer than \<open>2 ^ 32\<close> milliseconds went
  by; when it was set back, by less than that, the time is what is missing to \<open>2 ^ 32\<close>.
\<close>
theorem chrono_elapsed:
  assumes "valid_time start" "valid_time now"
    and "e = (tv_sec now * 1000 + tv_nsec now div 1000000) - (tv_sec start * 1000 + tv_nsec start div 1000000)"
  shows "Chrono_prototype_elapsed now (Chrono_constructor start) = Ret (JInt (e mod 2 ^ 32)) \<and>
    \<bar>e * 10 ^ 6 - (nanoseconds now - nanoseconds start)\<bar> < 10 ^ 6 \<and>
    (0 \<le> e \<and> e < 2 ^ 32 \<longrightarrow> e mod 2 ^ 32 = e) \<and> (- (2 ^ 32) < e \<and> e < 0 \<longrightarrow> e mod 2 ^ 32 = 2 ^ 32 + e)"
proof -
  have split: "tv_nsec t = 1000000 * (tv_nsec t div 1000000) + tv_nsec t mod 1000000" for t by simp
  have "e * 10 ^ 6 - (nanoseconds now - nanoseconds start) = tv_nsec start mod 1000000 - tv_nsec now mod 1000000"
    unfolding assms(3) nanoseconds_def using split[of start] split[of now] by (simp add: algebra_simps)
  then have "\<bar>e * 10 ^ 6 - (nanoseconds now - nanoseconds start)\<bar> = \<bar>tv_nsec start mod 1000000 - tv_nsec now mod 1000000\<bar>"
    by (rule arg_cong)
  also have "\<dots> < 10 ^ 6"
    using pos_mod_bound[of 1000000 "tv_nsec start"] pos_mod_bound[of 1000000 "tv_nsec now"]
      pos_mod_sign[of 1000000 "tv_nsec start"] pos_mod_sign[of 1000000 "tv_nsec now"] by simp
  finally have "\<bar>e * 10 ^ 6 - (nanoseconds now - nanoseconds start)\<bar> < 10 ^ 6" .
  moreover have "elapsed_ms start now = e mod 2 ^ 32" by (simp add: elapsed_ms_def assms(3) algebra_simps)
  moreover have "e mod 2 ^ 32 = 2 ^ 32 + e" if "- (2 ^ 32) < e" "e < 0"
    using that mod_pos_pos_trivial[of "2 ^ 32 + e" "2 ^ 32"] by simp
  ultimately show ?thesis
    by (simp add: Chrono_prototype_elapsed_def Chrono_constructor_def chrono_self_def)
qed

theorem chrono_elapsed_witness:
  "Chrono_prototype_elapsed \<lparr>tv_sec = 9, tv_nsec = 999000000\<rparr> (Chrono_constructor \<lparr>tv_sec = 10, tv_nsec = 0\<rparr>) =
     Ret (JInt 4294967295) \<and>
   Chrono_prototype_elapsed \<lparr>tv_sec = 11, tv_nsec = 1999999\<rparr> (Chrono_constructor \<lparr>tv_sec = 10, tv_nsec = 2000000\<rparr>) =
     Ret (JInt 999)"
  using chrono_elapsed[of "\<lparr>tv_sec = 10, tv_nsec = 0\<rparr>" "\<lparr>tv_sec = 9, tv_nsec = 999000000\<rparr>" "-1"]
    chrono_elapsed[of "\<lparr>tv_sec = 10, tv_nsec = 2000000\<rparr>" "\<lparr>tv_sec = 11, tv_nsec = 1999999\<rparr>" 999]
  by (simp add: valid_time_def)

lemma nsleep_whole: "0 \<le> ns \<Longrightarrow> (\<And>k. k \<in> set signals \<Longrightarrow> 0 \<le> k) \<Longrightarrow> nsleep ns signals = ns"
proof -
  have "nsleep_loop rest signals = rest" for rest
    by (induction rest signals rule: nsleep_loop.induct) auto
  then show ?thesis by (simp add: nsleep_def Let_def)
qed

text \<open>
  C40. How long a script sleeps.  Signals do not shorten a sleep; \<open>sleep\<close> takes the seconds
  it is given, but \<open>usleep\<close> takes a thousand times the microseconds modulo \<open>2 ^ 32\<close>
  nanoseconds: it is right below 4294968 microseconds, and never sleeps longer than 4.3
  seconds.
\<close>
theorem sleep_durations:
  assumes "0 \<le> n" "n < 2 ^ 32" "\<And>k. k \<in> set signals \<Longrightarrow> 0 \<le> k"
  shows "System_sleep signals [JInt n] = Ret (JUndefined, n * 10 ^ 9) \<and>
    System_usleep signals [JInt n] = Ret (JUndefined, n * 1000 mod 2 ^ 32) \<and>
    (n * 1000 mod 2 ^ 32 = n * 1000 \<longleftrightarrow> n < 4294968)"
proof -
  have "duk_require_uint [JInt n] 0 k = k n" for k :: "int \<Rightarrow> (jsval \<times> int) js"
    using assms(1,2) d2i_of_int(2)[of n] by (simp add: duk_require_uint_def)
  moreover have "uint (word_of_int (n * 1000000000) :: 64 word) = n * 1000000000"
    by (subst uint_word_of_int) (use assms(1,2) in simp)
  moreover have "uint (word_of_int (n * 1000) :: 32 word) = n * 1000 mod 2 ^ 32"
    by (subst uint_word_of_int) simp
  moreover have "n * 1000 mod 2 ^ 32 = n * 1000 \<longleftrightarrow> n < 4294968"
  proof
    assume "n * 1000 mod 2 ^ 32 = n * 1000"
    then have "n * 1000 < 2 ^ 32" using pos_mod_bound[of "2 ^ 32" "n * 1000"] by simp
    then show "n < 4294968" by simp
  qed (use assms(1) in simp)
  ultimately show ?thesis
    using assms(1) nsleep_whole[OF _ assms(3), of "n * 1000000000"] nsleep_whole[OF _ assms(3), of "n * 1000 mod 2 ^ 32"]
    by (simp add: System_sleep_def System_usleep_def)
qed

theorem sleep_durations_witness:
  "System_usleep [300] [JInt 5000000] = Ret (JUndefined, 705032704) \<and>
   System_sleep [300] [JInt 5] = Ret (JUndefined, 5000000000)"
  using sleep_durations[of 5000000 "[300]"] sleep_durations[of 5 "[300]"] by simp

lemma error_names_distinct: "distinct error_names"
  by (simp add: error_names_def)

end
