(* ===== verification/Ev_Timer.thy ===== *)
theory Ev_Timer
  imports Prelude
begin

unbundle bit_operations_syntax

text \<open>
  The timers of the event loop (\<open>extern/libev/ev.c\<close>): the 4-heap of the active timers,
  starting, stopping and restarting them, their expiry, and the queues of pending watchers
  that the loop invokes.

  A watcher is the number of its address and the map \<open>lp_watchers\<close> its structure.  The array
  \<open>timers\<close> is a function on indices; the first heap entry is at \<open>HEAP0\<close> and index 0 is never
  in use, so that \<open>active\<close> is the index of a timer in the heap or 0.  Times are a linear order
  with an addition and a subtraction of which nothing is assumed, as they are floating point
  numbers that round.  The entry of the queue that \<open>ev_clear_pending\<close> overwrites with the
  dummy watcher \<open>pending_w\<close> is \<open>None\<close>.  An assertion of the code that fails is the result
  \<open>None\<close>.
\<close>

section \<open>State\<close>

type_synonym watcher = nat

record 't anhe =
  he_at :: 't
  he_w :: watcher

record 't ev_timer =
  ev_active :: nat
  ev_pending :: nat
  ev_priority :: int
  ev_at :: 't
  ev_repeat :: 't

type_synonym 't anheap = "nat \<Rightarrow> 't anhe"
type_synonym 't watchers = "watcher \<Rightarrow> 't ev_timer"

record 't ev_loop =
  lp_timers :: "'t anheap"
  lp_timercnt :: nat
  lp_watchers :: "'t watchers"
  lp_rfeeds :: "watcher list"
  lp_pendings :: "nat \<Rightarrow> (watcher option \<times> c_int) list"
  lp_activecnt :: int
  lp_now :: 't

definition DHEAP :: nat where "DHEAP = 4"
definition HEAP0 :: nat where "HEAP0 = DHEAP - 1"

text \<open>For the root the division of -1 by 4 truncates to 0 in C, as the truncated difference does here.\<close>

definition HPARENT :: "nat \<Rightarrow> nat" where
  "HPARENT k = (k - HEAP0 - 1) div DHEAP + HEAP0"

lemma HEAP0_eq: "HEAP0 = 3" by (simp add: HEAP0_def DHEAP_def)

lemma HPARENT_root [simp]: "HPARENT HEAP0 = HEAP0" by (simp add: HPARENT_def)

lemma HPARENT_bounds: "HEAP0 < k \<Longrightarrow> HEAP0 \<le> HPARENT k \<and> HPARENT k < k"
  by (simp add: HPARENT_def HEAP0_eq DHEAP_def)

lemma HPARENT_fix: "HEAP0 \<le> k \<Longrightarrow> HPARENT k = k \<longleftrightarrow> k = HEAP0"
  using HPARENT_bounds[of k] by (cases "k = HEAP0") auto

lemma HPARENT_child:
  "HEAP0 \<le> k \<Longrightarrow> HPARENT c = k \<and> HEAP0 < c \<longleftrightarrow> DHEAP * (k - HEAP0) + HEAP0 + 1 \<le> c \<and> c < DHEAP * (k - HEAP0) + HEAP0 + 5"
  by (auto simp: HPARENT_def HEAP0_eq DHEAP_def)

section \<open>The heap\<close>

text \<open>Store an entry and tell its watcher where it is.\<close>

definition put :: "nat \<Rightarrow> 't anhe \<Rightarrow> 't anheap \<times> 't watchers \<Rightarrow> 't anheap \<times> 't watchers" where
  "put k he = (\<lambda>(h, ws). (h(k := he), ws(he_w he := (ws (he_w he))\<lparr>ev_active := k\<rparr>)))"

function upheap_loop :: "'t::linorder anhe \<Rightarrow> 't anheap \<times> 't watchers \<Rightarrow> nat \<Rightarrow> 't anheap \<times> 't watchers" where
  "upheap_loop he hw k =
     (let p = HPARENT k
      in if p = k \<or> he_at (fst hw p) \<le> he_at he then put k he hw
         else upheap_loop he (put k (fst hw p) hw) p)"
  by pat_completeness auto
termination
  by (relation "measure (\<lambda>(_, _, k). if HEAP0 \<le> k then k else HEAP0 + 1)")
     (auto dest: HPARENT_bounds simp: HPARENT_def HEAP0_eq DHEAP_def)

definition upheap :: "'t::linorder anheap \<times> 't watchers \<Rightarrow> nat \<Rightarrow> 't anheap \<times> 't watchers" where
  "upheap hw k = upheap_loop (fst hw k) hw k"

text \<open>The smallest of the children that start at \<open>pos\<close> and end before \<open>e\<close>, the first one of equal times.\<close>

definition min_at :: "'t::linorder anheap \<Rightarrow> nat \<Rightarrow> nat \<Rightarrow> nat" where
  "min_at h m q = (if he_at (h q) < he_at (h m) then q else m)"

definition min_child :: "'t::linorder anheap \<Rightarrow> nat \<Rightarrow> nat \<Rightarrow> nat option" where
  "min_child h pos e =
     (if pos + DHEAP - 1 < e
      then Some (min_at h (min_at h (min_at h pos (pos + 1)) (pos + 2)) (pos + 3))
      else if pos < e
      then let m1 = (if pos + 1 < e then min_at h pos (pos + 1) else pos);
               m2 = (if pos + 2 < e then min_at h m1 (pos + 2) else m1)
           in Some (if pos + 3 < e then min_at h m2 (pos + 3) else m2)
      else None)"

lemma min_child_bounds: "min_child h pos e = Some m \<Longrightarrow> pos \<le> m \<and> m < pos + 4 \<and> m < e"
  by (auto simp: min_child_def min_at_def Let_def DHEAP_def split: if_splits)

lemma min_child_least:
  "min_child h pos e = Some m \<Longrightarrow> pos \<le> c \<Longrightarrow> c < pos + 4 \<Longrightarrow> c < e \<Longrightarrow> he_at (h m) \<le> he_at (h c)"
proof -
  assume m: "min_child h pos e = Some m" and c: "pos \<le> c" "c < pos + 4" "c < e"
  from c have "c = pos \<or> c = pos + 1 \<or> c = pos + 2 \<or> c = pos + 3" by linarith
  with m c(3) show ?thesis
    by (elim disjE) (auto simp: min_child_def min_at_def Let_def DHEAP_def split: if_splits)
qed

lemma min_child_None: "min_child h pos e = None \<longleftrightarrow> e \<le> pos"
  by (auto simp: min_child_def Let_def DHEAP_def)

function downheap_loop ::
  "'t::linorder anhe \<Rightarrow> nat \<Rightarrow> 't anheap \<times> 't watchers \<Rightarrow> nat \<Rightarrow> 't anheap \<times> 't watchers" where
  "downheap_loop he n hw k =
     (case min_child (fst hw) (DHEAP * (k - HEAP0) + HEAP0 + 1) (n + HEAP0) of
        None \<Rightarrow> put k he hw
      | Some m \<Rightarrow>
          if he_at he \<le> he_at (fst hw m) then put k he hw
          else downheap_loop he n (put k (fst hw m) hw) m)"
  by pat_completeness auto
termination
  by (relation "measure (\<lambda>(_, n, _, k). n + HEAP0 - k)")
     (auto dest!: min_child_bounds simp: HEAP0_eq DHEAP_def)

definition downheap :: "'t::linorder anheap \<times> 't watchers \<Rightarrow> nat \<Rightarrow> nat \<Rightarrow> 't anheap \<times> 't watchers" where
  "downheap hw n k = downheap_loop (fst hw k) n hw k"

definition adjustheap :: "'t::linorder anheap \<times> 't watchers \<Rightarrow> nat \<Rightarrow> nat \<Rightarrow> 't anheap \<times> 't watchers" where
  "adjustheap hw n k =
     (if HEAP0 < k \<and> he_at (fst hw k) \<le> he_at (fst hw (HPARENT k)) then upheap hw k else downheap hw n k)"

declare upheap_loop.simps [simp del] downheap_loop.simps [simp del]

section \<open>Sifting an entry\<close>

abbreviation slots :: "nat \<Rightarrow> nat set" where
  "slots n \<equiv> {HEAP0..<n + HEAP0}"

definition heap_ordered :: "'t::linorder anheap \<Rightarrow> nat \<Rightarrow> bool" where
  "heap_ordered h n = (\<forall>i \<in> slots n. he_at (h (HPARENT i)) \<le> he_at (h i))"

text \<open>
  The heap \<open>h\<close> with a hole at \<open>k\<close>, in which the entry \<open>he\<close> is still to be put: every other
  entry is where its watcher says, no watcher occurs twice, and but for positions nothing
  has changed since \<open>(h0, ws0)\<close>.
\<close>

definition sifting ::
  "'t anhe set \<Rightarrow> 't anheap \<Rightarrow> 't watchers \<Rightarrow> nat \<Rightarrow> 't anhe \<Rightarrow> 't anheap \<times> 't watchers \<Rightarrow> nat \<Rightarrow> bool" where
  "sifting es h0 ws0 n he = (\<lambda>(h, ws) k.
     k \<in> slots n \<and> (\<forall>i \<in> slots n - {k}. ev_active (ws (he_w (h i))) = i) \<and>
     inj_on (\<lambda>i. he_w ((h(k := he)) i)) (slots n) \<and> h(k := he) ` slots n = es \<and>
     (\<forall>i. i \<notin> slots n \<longrightarrow> h i = h0 i) \<and>
     (\<forall>x. (ws x)\<lparr>ev_active := 0\<rparr> = (ws0 x)\<lparr>ev_active := 0\<rparr>) \<and>
     (\<forall>x. x \<notin> he_w ` es \<longrightarrow> ws x = ws0 x))"

text \<open>The result of sifting: every entry is where its watcher says.\<close>

definition sifted ::
  "'t anhe set \<Rightarrow> 't anheap \<Rightarrow> 't watchers \<Rightarrow> nat \<Rightarrow> 't anheap \<times> 't watchers \<Rightarrow> bool" where
  "sifted es h0 ws0 n = (\<lambda>(h, ws).
     (\<forall>i \<in> slots n. ev_active (ws (he_w (h i))) = i) \<and> h ` slots n = es \<and>
     (\<forall>i. i \<notin> slots n \<longrightarrow> h i = h0 i) \<and>
     (\<forall>x. (ws x)\<lparr>ev_active := 0\<rparr> = (ws0 x)\<lparr>ev_active := 0\<rparr>) \<and>
     (\<forall>x. x \<notin> he_w ` es \<longrightarrow> ws x = ws0 x))"

lemma sifting_put:
  assumes "sifting es h0 ws0 n he hw k"
  shows "sifted es h0 ws0 n (put k he hw)"
proof -
  obtain h ws where hw: "hw = (h, ws)" by fastforce
  let ?H = "h(k := he)"
  from assms hw have k: "k \<in> slots n" and inj: "inj_on (\<lambda>i. he_w (?H i)) (slots n)"
    and act: "\<And>i. i \<in> slots n \<Longrightarrow> i \<noteq> k \<Longrightarrow> ev_active (ws (he_w (h i))) = i"
    and es: "?H ` slots n = es" and out: "\<forall>i. i \<notin> slots n \<longrightarrow> h i = h0 i"
    and frame: "\<forall>x. (ws x)\<lparr>ev_active := 0\<rparr> = (ws0 x)\<lparr>ev_active := 0\<rparr>" "\<forall>x. x \<notin> he_w ` es \<longrightarrow> ws x = ws0 x"
    by (auto simp: sifting_def)
  have "he_w (h i) \<noteq> he_w he" if "i \<in> slots n" "i \<noteq> k" for i
    using inj_onD[OF inj, of i k] that k by auto
  with act k have "\<forall>i \<in> slots n. ev_active ((ws(he_w he := (ws (he_w he))\<lparr>ev_active := k\<rparr>)) (he_w (?H i))) = i"
    by auto
  moreover have "he_w he \<in> he_w ` es" using k es by (metis fun_upd_same imageI)
  ultimately show ?thesis using es out frame k
    by (auto simp: sifted_def hw put_def)
qed

lemma sifting_move:
  assumes "sifting es h0 ws0 n he hw k" "m \<in> slots n" "m \<noteq> k"
  shows "sifting es h0 ws0 n he (put k (fst hw m) hw) m"
proof -
  obtain h ws where hw: "hw = (h, ws)" by fastforce
  let ?H = "h(k := he)" and ?H' = "h(k := h m, m := he)" and ?f = "id(k := m, m := k)"
  from assms hw have k: "k \<in> slots n" and inj: "inj_on (\<lambda>i. he_w (?H i)) (slots n)"
    and act: "\<And>i. i \<in> slots n \<Longrightarrow> i \<noteq> k \<Longrightarrow> ev_active (ws (he_w (h i))) = i"
    and es: "?H ` slots n = es" and out: "\<forall>i. i \<notin> slots n \<longrightarrow> h i = h0 i"
    and frame: "\<forall>x. (ws x)\<lparr>ev_active := 0\<rparr> = (ws0 x)\<lparr>ev_active := 0\<rparr>" "\<forall>x. x \<notin> he_w ` es \<longrightarrow> ws x = ws0 x"
    by (auto simp: sifting_def)
  have H': "?H' = (\<lambda>i. ?H (?f i))" using assms(3) by (intro ext) auto
  have img: "?f ` slots n = slots n" and injf: "inj_on ?f (slots n)"
    using k assms(2) by (auto simp: inj_on_def image_def split: if_splits) 
  have inj': "inj_on (\<lambda>i. he_w (?H' i)) (slots n)"
    unfolding H' using comp_inj_on[OF injf, of "\<lambda>i. he_w (?H i)"] inj unfolding img o_def by simp
  have es': "?H' ` slots n = es"
    unfolding H' using img es by (metis image_image)
  have "he_w (h i) \<noteq> he_w (h m)" if "i \<in> slots n" "i \<noteq> k" "i \<noteq> m" for i
    using inj_onD[OF inj, of i m] that assms(2,3) by auto
  with act assms(2,3) have "\<forall>i \<in> slots n - {m}.
      ev_active ((ws(he_w (h m) := (ws (he_w (h m)))\<lparr>ev_active := k\<rparr>)) (he_w ((h(k := h m)) i))) = i"
    by auto
  moreover have "he_w (h m) \<in> he_w ` es" using assms(2,3) es by (metis fun_upd_other imageI)
  ultimately show ?thesis using inj' es' out frame k assms(2)
    by (auto simp: sifting_def hw put_def)
qed

lemma parent_slot: "i \<in> slots n \<Longrightarrow> HPARENT i \<in> slots n"
  using HPARENT_bounds[of i] by (cases "i = HEAP0") auto

lemma upheap_sifted:
  "sifting es h0 ws0 n he hw k \<Longrightarrow> sifted es h0 ws0 n (upheap_loop he hw k)"
proof (induction he hw k rule: upheap_loop.induct)
  case (1 he hw k)
  have k: "k \<in> slots n" using 1(2) by (auto simp: sifting_def split: prod.splits)
  show ?case
  proof (cases "HPARENT k = k \<or> he_at (fst hw (HPARENT k)) \<le> he_at he")
    case True
    then show ?thesis using sifting_put[OF 1(2)] by (subst upheap_loop.simps) (simp add: Let_def)
  next
    case False
    with 1(1)[OF refl False] sifting_move[OF 1(2) parent_slot[OF k]] show ?thesis
      by (subst upheap_loop.simps) (simp add: Let_def)
  qed
qed

lemma downheap_sifted:
  "sifting es h0 ws0 n he hw k \<Longrightarrow> sifted es h0 ws0 n (downheap_loop he n hw k)"
proof (induction he n hw k rule: downheap_loop.induct)
  case (1 he n hw k)
  have k: "k \<in> slots n" using 1(2) by (auto simp: sifting_def split: prod.splits)
  show ?case
  proof (cases "min_child (fst hw) (DHEAP * (k - HEAP0) + HEAP0 + 1) (n + HEAP0)")
    case None
    then show ?thesis using sifting_put[OF 1(2)] by (subst downheap_loop.simps) simp
  next
    case (Some m)
    have m: "m \<in> slots n" "m \<noteq> k" using min_child_bounds[OF Some] k by (auto simp: DHEAP_def)
    show ?thesis
    proof (cases "he_at he \<le> he_at (fst hw m)")
      case True
      with Some show ?thesis using sifting_put[OF 1(2)] by (subst downheap_loop.simps) simp
    next
      case False
      with Some 1(1)[OF Some False sifting_move[OF 1(2) m]] show ?thesis by (subst downheap_loop.simps) simp
    qed
  qed
qed

text \<open>
  The order with the entry in its hole: it may be too small for its place when it moves
  up, too large when it moves down; the parent of the hole is not above the children of it.
\<close>

definition grand_ordered :: "'t::linorder anheap \<Rightarrow> nat \<Rightarrow> nat \<Rightarrow> bool" where
  "grand_ordered h n k =
     (k \<noteq> HEAP0 \<longrightarrow> (\<forall>c \<in> slots n. c \<noteq> k \<and> HPARENT c = k \<longrightarrow> he_at (h (HPARENT k)) \<le> he_at (h c)))"

definition up_ordered :: "'t::linorder anheap \<Rightarrow> nat \<Rightarrow> nat \<Rightarrow> bool" where
  "up_ordered h n k =
     ((\<forall>i \<in> slots n. i \<noteq> k \<longrightarrow> he_at (h (HPARENT i)) \<le> he_at (h i)) \<and> grand_ordered h n k)"

definition down_ordered :: "'t::linorder anheap \<Rightarrow> nat \<Rightarrow> nat \<Rightarrow> bool" where
  "down_ordered h n k =
     ((\<forall>i \<in> slots n. HPARENT i \<noteq> k \<longrightarrow> he_at (h (HPARENT i)) \<le> he_at (h i)) \<and> grand_ordered h n k)"

lemma up_step:
  assumes "up_ordered (h(k := he)) n k" "k \<in> slots n" "HPARENT k = p" "p \<noteq> k" "he_at he < he_at (h p)"
  shows "up_ordered (h(k := h p, p := he)) n p"
proof -
  let ?H = "h(k := he)" and ?H' = "h(k := h p, p := he)"
  have ord: "he_at (?H (HPARENT i)) \<le> he_at (?H i)" if "i \<in> slots n" "i \<noteq> k" for i
    using assms(1) that by (simp add: up_ordered_def)
  have k: "k \<noteq> HEAP0" using assms(3,4) by auto
  then have pk: "p < k" "HEAP0 \<le> p" using HPARENT_bounds[of k] assms(2,3) by auto
  have grand: "he_at (h p) \<le> he_at (h c)" if "c \<in> slots n" "c \<noteq> k" "HPARENT c = k" for c
    using assms(1,3) k that pk by (auto simp: up_ordered_def grand_ordered_def dest!: bspec[of _ _ c])
  have "he_at (?H' (HPARENT i)) \<le> he_at (?H' i)" if i: "i \<in> slots n" "i \<noteq> p" for i
  proof (cases "i = k")
    case True
    with assms(3,4,5) show ?thesis by simp
  next
    case False
    then show ?thesis using ord[OF i(1) False] grand[OF i(1) False] assms(4,5) i(2) by auto
  qed
  moreover have "grand_ordered ?H' n p"
  proof -
    have "he_at (?H' (HPARENT p)) \<le> he_at (?H' c)"
      if p: "p \<noteq> HEAP0" and c: "c \<in> slots n" "c \<noteq> p" "HPARENT c = p" for c
    proof -
      have pp: "HPARENT p < p" using HPARENT_bounds[of p] p pk by simp
      then have "he_at (h (HPARENT p)) \<le> he_at (h p)" using ord[of p] pk assms(2) by auto
      moreover have "he_at (h p) \<le> he_at (h c)" if "c \<noteq> k" using ord[OF c(1) that] c(3) that pk by auto
      ultimately show ?thesis using pp pk c(2) by auto
    qed
    then show ?thesis by (simp add: grand_ordered_def)
  qed
  ultimately show ?thesis by (simp add: up_ordered_def)
qed

lemma upheap_ordered:
  "up_ordered ((fst hw)(k := he)) n k \<Longrightarrow> k \<in> slots n \<Longrightarrow> heap_ordered (fst (upheap_loop he hw k)) n"
proof (induction he hw k rule: upheap_loop.induct)
  case (1 he hw k)
  obtain h ws where hw: "hw = (h, ws)" by fastforce
  show ?case
  proof (cases "HPARENT k = k \<or> he_at (fst hw (HPARENT k)) \<le> he_at he")
    case True
    then have "upheap_loop he hw k = put k he hw" by (subst upheap_loop.simps) (simp add: Let_def)
    then show ?thesis using True 1(2) by (auto simp: hw put_def heap_ordered_def up_ordered_def)
  next
    case False
    have "up_ordered (h(k := h (HPARENT k), HPARENT k := he)) n (HPARENT k)"
    proof (rule up_step[OF _ 1(3) refl])
      show "up_ordered (h(k := he)) n k" using 1(2) by (simp only: hw fst_conv)
    qed (use False hw in auto)
    then have "up_ordered ((fst (put k (fst hw (HPARENT k)) hw))(HPARENT k := he)) n (HPARENT k)"
      by (simp only: hw put_def fst_conv prod.case)
    from 1(1)[OF refl False this parent_slot[OF 1(3)]] False show ?thesis
      by (subst upheap_loop.simps) (simp add: Let_def)
  qed
qed

lemma down_step:
  assumes "down_ordered (h(k := he)) n k" "k \<in> slots n" "m \<in> slots n" "HPARENT m = k" "m \<noteq> k"
    and "he_at (h m) < he_at he"
    and least: "\<And>c. c \<in> slots n \<Longrightarrow> c \<noteq> k \<Longrightarrow> HPARENT c = k \<Longrightarrow> he_at (h m) \<le> he_at (h c)"
  shows "down_ordered (h(k := h m, m := he)) n m"
proof -
  let ?H = "h(k := he)" and ?H' = "h(k := h m, m := he)"
  have ord: "he_at (?H (HPARENT i)) \<le> he_at (?H i)" if "i \<in> slots n" "HPARENT i \<noteq> k" for i
    using assms(1) that by (simp add: down_ordered_def)
  have km: "k < m" using HPARENT_bounds[of m] assms(3-5) by (cases "m = HEAP0") auto
  have up: "he_at (h (HPARENT k)) \<le> he_at (h m)" if "k \<noteq> HEAP0"
  proof -
    have "HPARENT k \<noteq> k" using HPARENT_bounds[of k] that assms(2) by auto
    with assms(1,3-5) that show ?thesis by (auto simp: down_ordered_def grand_ordered_def dest!: bspec[of _ _ m])
  qed
  have "he_at (?H' (HPARENT i)) \<le> he_at (?H' i)" if i: "i \<in> slots n" "HPARENT i \<noteq> m" for i
  proof (cases "i = m \<or> i = k")
    case True
    then show ?thesis using assms(4,5,6) up i HPARENT_bounds[of k] km assms(2)
      by (cases "k = HEAP0") auto
  next
    case False
    then show ?thesis using ord[OF i(1)] least[OF i(1)] i(2) by auto
  qed
  moreover have "grand_ordered ?H' n m"
  proof -
    have "he_at (?H' (HPARENT m)) \<le> he_at (?H' c)" if c: "c \<in> slots n" "c \<noteq> m" "HPARENT c = m" for c
    proof -
      have "c \<noteq> k" using c(3) km HPARENT_bounds[of k] assms(2) by (cases "k = HEAP0") auto
      then show ?thesis using ord[OF c(1)] c(2,3) assms(4,5) by auto
    qed
    then show ?thesis by (simp add: grand_ordered_def)
  qed
  ultimately show ?thesis by (simp add: down_ordered_def)
qed

lemma downheap_ordered:
  "down_ordered ((fst hw)(k := he)) n k \<Longrightarrow> k \<in> slots n \<Longrightarrow> heap_ordered (fst (downheap_loop he n hw k)) n"
proof (induction he n hw k rule: downheap_loop.induct)
  case (1 he n hw k)
  obtain h ws where hw: "hw = (h, ws)" by fastforce
  let ?pos = "DHEAP * (k - HEAP0) + HEAP0 + 1"
  have ord: "down_ordered (h(k := he)) n k" using 1(2) by (simp only: hw fst_conv)
  have child: "?pos \<le> c \<and> c < ?pos + 4" if "c \<in> slots n" "c \<noteq> k" "HPARENT c = k" for c
  proof -
    from that have "c \<noteq> HEAP0" by auto
    with HPARENT_child[of k c] that 1(3) show ?thesis by auto
  qed
  have settled: "heap_ordered (fst (put k he hw)) n"
    if "\<And>c. c \<in> slots n \<Longrightarrow> c \<noteq> k \<Longrightarrow> HPARENT c = k \<Longrightarrow> he_at he \<le> he_at (h c)"
    unfolding heap_ordered_def
  proof
    fix i assume i: "i \<in> slots n"
    show "he_at (fst (put k he hw) (HPARENT i)) \<le> he_at (fst (put k he hw) i)"
    proof (cases "HPARENT i = k")
      case True
      with that[OF i] show ?thesis by (auto simp: hw put_def)
    next
      case False
      with ord i show ?thesis by (simp add: hw put_def down_ordered_def)
    qed
  qed
  show ?case
  proof (cases "min_child h ?pos (n + HEAP0)")
    case None
    then have "n + HEAP0 \<le> ?pos" by (simp only: min_child_None)
    with child have "heap_ordered (fst (put k he hw)) n" by (intro settled) fastforce
    with None show ?thesis by (subst downheap_loop.simps) (simp add: hw)
  next
    case (Some m)
    have least: "he_at (h m) \<le> he_at (h c)" if "c \<in> slots n" "c \<noteq> k" "HPARENT c = k" for c
      using min_child_least[OF Some] child[OF that] that(1) by auto
    have m: "m \<in> slots n" "HPARENT m = k" "m \<noteq> k"
      using min_child_bounds[OF Some] HPARENT_child[of k m] 1(3) by (auto simp: DHEAP_def)
    show ?thesis
    proof (cases "he_at he \<le> he_at (h m)")
      case True
      have "heap_ordered (fst (put k he hw)) n" by (rule settled) (rule order_trans[OF True least])
      moreover have "min_child (fst hw) ?pos (n + HEAP0) = Some m" "he_at he \<le> he_at (fst hw m)"
        using Some True by (simp_all add: hw)
      ultimately show ?thesis by (subst downheap_loop.simps) simp
    next
      case False
      have "down_ordered (h(k := h m, m := he)) n m"
        by (rule down_step[OF ord 1(3) m _ least]) (use False in auto)
      then have down: "down_ordered ((fst (put k (fst hw m) hw))(m := he)) n m"
        by (simp only: hw put_def fst_conv prod.case)
      have child_m: "min_child (fst hw) ?pos (n + HEAP0) = Some m" "\<not> he_at he \<le> he_at (fst hw m)"
        using Some False by (simp_all add: hw)
      from 1(1)[OF child_m down m(1)] child_m show ?thesis by (subst downheap_loop.simps) simp
    qed
  qed
qed

text \<open>
  Replacing the entry at \<open>k\<close> of an ordered heap and adjusting the heap gives an ordered heap
  again, with the same entries; so does adding an entry behind the last one and moving it up.
\<close>

lemma adjust_ordered:
  assumes "heap_ordered h n" "k \<in> slots n"
  shows "heap_ordered (fst (adjustheap (h(k := he), ws) n k)) n"
proof -
  have ord: "he_at (h (HPARENT i)) \<le> he_at (h i)" if "i \<in> slots n" for i
    using assms(1) that by (simp add: heap_ordered_def)
  have grand: "grand_ordered (h(k := he)) n k"
    unfolding grand_ordered_def
  proof (intro impI ballI)
    fix c assume k: "k \<noteq> HEAP0" and c: "c \<in> slots n" "c \<noteq> k \<and> HPARENT c = k"
    from HPARENT_bounds[of k] k assms(2) have "HPARENT k \<noteq> k" by auto
    with ord[OF assms(2)] ord[OF c(1)] c(2) show "he_at ((h(k := he)) (HPARENT k)) \<le> he_at ((h(k := he)) c)"
      by (auto intro: order_trans)
  qed
  have parent: "HEAP0 < k \<Longrightarrow> HPARENT k \<noteq> k" using HPARENT_bounds[of k] by simp
  show ?thesis
  proof (cases "HEAP0 < k \<and> he_at he \<le> he_at (h (HPARENT k))")
    case True
    have "he_at ((h(k := he)) (HPARENT i)) \<le> he_at ((h(k := he)) i)" if i: "i \<in> slots n" "i \<noteq> k" for i
      using ord[OF i(1)] ord[OF assms(2)] True i(2) by auto
    with grand have "up_ordered (h(k := he, k := he)) n k" by (simp add: up_ordered_def)
    with upheap_ordered[of "(h(k := he), ws)" k he n] True assms(2) parent show ?thesis
      by (simp add: adjustheap_def upheap_def)
  next
    case False
    have "he_at ((h(k := he)) (HPARENT i)) \<le> he_at ((h(k := he)) i)" if i: "i \<in> slots n" "HPARENT i \<noteq> k" for i
      using ord[OF i(1)] i False assms(2) by auto
    with grand have "down_ordered (h(k := he, k := he)) n k" by (simp add: down_ordered_def)
    with downheap_ordered[of "(h(k := he), ws)" k he n] False assms(2) parent show ?thesis
      by (auto simp: adjustheap_def downheap_def)
  qed
qed

lemma add_ordered:
  assumes "heap_ordered h n"
  shows "heap_ordered (fst (upheap (h(n + HEAP0 := he), ws) (n + HEAP0))) (Suc n)"
proof -
  let ?k = "n + HEAP0"
  have sub: "HPARENT i < ?k" if "i \<in> slots (Suc n)" "i \<noteq> ?k" for i
    using HPARENT_bounds[of i] that by (cases "i = HEAP0") auto
  have "he_at ((h(?k := he)) (HPARENT i)) \<le> he_at ((h(?k := he)) i)" if i: "i \<in> slots (Suc n)" "i \<noteq> ?k" for i
  proof -
    have "i \<in> slots n" using i by auto
    with assms sub[OF i] i(2) show ?thesis by (auto simp: heap_ordered_def)
  qed
  moreover have "grand_ordered (h(?k := he)) (Suc n) ?k"
    using sub by (fastforce simp: grand_ordered_def)
  ultimately have "up_ordered (h(?k := he, ?k := he)) (Suc n) ?k" by (simp add: up_ordered_def)
  with upheap_ordered[of "(h(?k := he), ws)" ?k he "Suc n"] show ?thesis by (simp add: upheap_def)
qed

text \<open>No entry is earlier than the root.\<close>

lemma root_least:
  "heap_ordered h n \<Longrightarrow> i \<in> slots n \<Longrightarrow> he_at (h HEAP0) \<le> he_at (h i)"
proof (induction i rule: less_induct)
  case (less i)
  show ?case
  proof (cases "i = HEAP0")
    case False
    with less(3) HPARENT_bounds[of i] parent_slot[OF less(3)] less(1)[OF _ less(2)]
    have "he_at (h HEAP0) \<le> he_at (h (HPARENT i))" by auto
    with less(2,3) show ?thesis unfolding heap_ordered_def by (meson order_trans)
  qed simp
qed

section \<open>Pending watchers\<close>

definition EV_MINPRI :: int where "EV_MINPRI = -2"
definition EV_MAXPRI :: int where "EV_MAXPRI = 2"
definition NUMPRI :: nat where "NUMPRI = nat (EV_MAXPRI - EV_MINPRI + 1)"
definition EV_TIMER :: c_int where "EV_TIMER = 256"

definition ABSPRI :: "'t ev_timer \<Rightarrow> nat" where
  "ABSPRI t = nat (ev_priority t - EV_MINPRI)"

definition set_watcher :: "watcher \<Rightarrow> 't ev_timer \<Rightarrow> 't ev_loop \<Rightarrow> 't ev_loop" where
  "set_watcher w t lp = lp\<lparr>lp_watchers := (lp_watchers lp)(w := t)\<rparr>"

definition set_pending :: "nat \<Rightarrow> (watcher option \<times> c_int) list \<Rightarrow> 't ev_loop \<Rightarrow> 't ev_loop" where
  "set_pending p q lp = lp\<lparr>lp_pendings := (lp_pendings lp)(p := q)\<rparr>"

definition ev_feed_event :: "c_int \<Rightarrow> watcher \<Rightarrow> 't ev_loop \<Rightarrow> 't ev_loop" where
  "ev_feed_event ev w lp =
     (let t = lp_watchers lp w; pri = ABSPRI t; q = lp_pendings lp pri; j = ev_pending t - 1
      in if ev_pending t \<noteq> 0 then set_pending pri (q[j := (fst (q ! j), snd (q ! j) OR ev)]) lp
         else set_watcher w (t\<lparr>ev_pending := length q + 1\<rparr>) (set_pending pri (q @ [(Some w, ev)]) lp))"

definition feed_reverse :: "watcher \<Rightarrow> 't ev_loop \<Rightarrow> 't ev_loop" where
  "feed_reverse w lp = lp\<lparr>lp_rfeeds := lp_rfeeds lp @ [w]\<rparr>"

definition feed_reverse_done :: "c_int \<Rightarrow> 't ev_loop \<Rightarrow> 't ev_loop" where
  "feed_reverse_done ev lp = foldr (ev_feed_event ev) (lp_rfeeds lp) (lp\<lparr>lp_rfeeds := []\<rparr>)"

definition clear_pending :: "watcher \<Rightarrow> 't ev_loop \<Rightarrow> 't ev_loop" where
  "clear_pending w lp =
     (let t = lp_watchers lp w; pri = ABSPRI t; q = lp_pendings lp pri; j = ev_pending t - 1
      in if ev_pending t \<noteq> 0
         then set_watcher w (t\<lparr>ev_pending := 0\<rparr>) (set_pending pri (q[j := (None, snd (q ! j))]) lp)
         else lp)"

text \<open>
  One turn of \<open>ev_invoke_pending\<close>: of the highest priority with a pending watcher the last
  entry is taken off the queue, and its callback called with the events.
\<close>

definition pending_pri :: "'t ev_loop \<Rightarrow> nat option" where
  "pending_pri lp = find (\<lambda>p. lp_pendings lp p \<noteq> []) (rev [0..<NUMPRI])"

definition invoke_next :: "'t ev_loop \<Rightarrow> ((watcher option \<times> c_int) \<times> 't ev_loop) option" where
  "invoke_next lp =
     (case pending_pri lp of
        None \<Rightarrow> None
      | Some p \<Rightarrow>
          (let q = lp_pendings lp p; e = last q; lp1 = set_pending p (butlast q) lp
           in Some (e, case fst e of None \<Rightarrow> lp1
                       | Some w \<Rightarrow> set_watcher w ((lp_watchers lp1 w)\<lparr>ev_pending := 0\<rparr>) lp1)))"

section \<open>Timers\<close>

definition pri_adjust :: "'t ev_timer \<Rightarrow> 't ev_timer" where
  "pri_adjust t =
     (let pri = ev_priority t;
          pri = (if pri < EV_MINPRI then EV_MINPRI else pri);
          pri = (if EV_MAXPRI < pri then EV_MAXPRI else pri)
      in t\<lparr>ev_priority := pri\<rparr>)"

definition ev_start :: "watcher \<Rightarrow> nat \<Rightarrow> 't ev_loop \<Rightarrow> 't ev_loop" where
  "ev_start w active lp =
     (set_watcher w ((pri_adjust (lp_watchers lp w))\<lparr>ev_active := active\<rparr>) lp)\<lparr>lp_activecnt := lp_activecnt lp + 1\<rparr>"

definition ev_stop :: "watcher \<Rightarrow> 't ev_loop \<Rightarrow> 't ev_loop" where
  "ev_stop w lp =
     (set_watcher w ((lp_watchers lp w)\<lparr>ev_active := 0\<rparr>) lp)\<lparr>lp_activecnt := lp_activecnt lp - 1\<rparr>"

definition ev_timer_init :: "'t::zero \<Rightarrow> 't \<Rightarrow> 't ev_timer" where
  "ev_timer_init after repeat =
     \<lparr>ev_active = 0, ev_pending = 0, ev_priority = 0, ev_at = after, ev_repeat = repeat\<rparr>"

definition set_heap :: "'t anheap \<times> 't watchers \<Rightarrow> 't ev_loop \<Rightarrow> 't ev_loop" where
  "set_heap hw lp = lp\<lparr>lp_timers := fst hw, lp_watchers := snd hw\<rparr>"

definition ev_timer_start :: "watcher \<Rightarrow> 't::{linorder,plus,minus,zero} ev_loop \<Rightarrow> 't ev_loop option" where
  "ev_timer_start w lp =
     (let t = lp_watchers lp w
      in if ev_active t \<noteq> 0 then Some lp
         else if \<not> 0 \<le> ev_repeat t then None
         else let k = lp_timercnt lp + 1 + HEAP0 - 1;
                  lp1 = set_watcher w (t\<lparr>ev_at := ev_at t + lp_now lp\<rparr>) lp;
                  lp2 = ev_start w k (lp1\<lparr>lp_timercnt := lp_timercnt lp + 1\<rparr>);
                  h = (lp_timers lp2)(k := \<lparr>he_at = ev_at (lp_watchers lp2 w), he_w = w\<rparr>)
              in Some (set_heap (upheap (h, lp_watchers lp2) k) lp2))"

definition ev_timer_stop :: "watcher \<Rightarrow> 't::{linorder,plus,minus,zero} ev_loop \<Rightarrow> 't ev_loop option" where
  "ev_timer_stop w lp =
     (let lp1 = clear_pending w lp; active = ev_active (lp_watchers lp1 w)
      in if active = 0 then Some lp1
         else if he_w (lp_timers lp1 active) \<noteq> w then None
         else let n = lp_timercnt lp1 - 1;
                  lp2 = lp1\<lparr>lp_timercnt := n\<rparr>;
                  h = lp_timers lp2;
                  lp3 = (if active < n + HEAP0
                         then set_heap (adjustheap (h(active := h (n + HEAP0)), lp_watchers lp2) n active) lp2
                         else lp2);
                  t = lp_watchers lp3 w;
                  lp4 = set_watcher w (t\<lparr>ev_at := ev_at t - lp_now lp3\<rparr>) lp3
              in Some (ev_stop w lp4))"

definition ev_timer_again :: "watcher \<Rightarrow> 't::{linorder,plus,minus,zero} ev_loop \<Rightarrow> 't ev_loop option" where
  "ev_timer_again w lp =
     (let lp1 = clear_pending w lp; t = lp_watchers lp1 w
      in if ev_active t \<noteq> 0
         then if ev_repeat t \<noteq> 0
              then let lp2 = set_watcher w (t\<lparr>ev_at := lp_now lp1 + ev_repeat t\<rparr>) lp1; k = ev_active t;
                       h = (lp_timers lp2)(k := (lp_timers lp2 k)\<lparr>he_at := ev_at (lp_watchers lp2 (he_w (lp_timers lp2 k)))\<rparr>)
                   in Some (set_heap (adjustheap (h, lp_watchers lp2) (lp_timercnt lp2) k) lp2)
              else ev_timer_stop w lp1
         else if ev_repeat t \<noteq> 0 then ev_timer_start w (set_watcher w (t\<lparr>ev_at := ev_repeat t\<rparr>) lp1)
         else Some lp1)"

definition ev_timer_remaining :: "watcher \<Rightarrow> 't::{linorder,plus,minus,zero} ev_loop \<Rightarrow> 't" where
  "ev_timer_remaining w lp =
     (let t = lp_watchers lp w in ev_at t - (if ev_active t \<noteq> 0 then lp_now lp else 0))"

text \<open>
  The loop of \<open>timers_reify\<close> handles the first timer of the heap as long as it has expired;
  that it ends is proved below.
\<close>

definition reify_first :: "'t::{linorder,plus,minus,zero} ev_loop \<Rightarrow> 't ev_loop option" where
  "reify_first lp =
     (let w = he_w (lp_timers lp HEAP0); t = lp_watchers lp w
      in map_option (feed_reverse w)
           (if ev_repeat t \<noteq> 0
            then let a = ev_at t + ev_repeat t;
                     a = (if a < lp_now lp then lp_now lp else a);
                     lp1 = set_watcher w (t\<lparr>ev_at := a\<rparr>) lp;
                     h = (lp_timers lp1)(HEAP0 := (lp_timers lp1 HEAP0)\<lparr>he_at := ev_at (lp_watchers lp1 w)\<rparr>)
                 in if 0 < ev_repeat t
                    then Some (set_heap (downheap (h, lp_watchers lp1) (lp_timercnt lp1) HEAP0) lp1)
                    else None
            else ev_timer_stop w lp))"

partial_function (option) reify_loop :: "'t::{linorder,plus,minus,zero} ev_loop \<Rightarrow> 't ev_loop option" where
  "reify_loop lp =
     (if lp_timercnt lp \<noteq> 0 \<and> he_at (lp_timers lp HEAP0) < lp_now lp
      then Option.bind (reify_first lp) reify_loop
      else Some lp)"

definition timers_reify :: "'t::{linorder,plus,minus,zero} ev_loop \<Rightarrow> 't ev_loop option" where
  "timers_reify lp =
     (if lp_timercnt lp \<noteq> 0 \<and> he_at (lp_timers lp HEAP0) < lp_now lp
      then map_option (feed_reverse_done EV_TIMER) (reify_loop lp)
      else Some lp)"

section \<open>Invariant\<close>

text \<open>
  What \<open>verify_heap\<close> of the code checks of the heap, and what it relies on: an active timer is
  in the heap, at the index it says.
\<close>

definition timers_ok :: "'t::linorder anheap \<Rightarrow> nat \<Rightarrow> 't watchers \<Rightarrow> bool" where
  "timers_ok h n ws =
     ((\<forall>i \<in> slots n. ev_active (ws (he_w (h i))) = i \<and> he_at (h i) = ev_at (ws (he_w (h i)))) \<and>
      heap_ordered h n \<and>
      (\<forall>x. ev_active (ws x) \<noteq> 0 \<longrightarrow> ev_active (ws x) \<in> slots n \<and> he_w (h (ev_active (ws x))) = x))"

text \<open>A pending watcher is in the queue of its priority, at the index it says, and nowhere else.\<close>

definition pendings_ok :: "'t ev_loop \<Rightarrow> bool" where
  "pendings_ok lp =
     ((\<forall>x. ev_pending (lp_watchers lp x) \<noteq> 0 \<longrightarrow>
         ev_priority (lp_watchers lp x) \<in> {EV_MINPRI..EV_MAXPRI} \<and>
         ev_pending (lp_watchers lp x) \<le> length (lp_pendings lp (ABSPRI (lp_watchers lp x))) \<and>
         fst (lp_pendings lp (ABSPRI (lp_watchers lp x)) ! (ev_pending (lp_watchers lp x) - 1)) = Some x) \<and>
      (\<forall>p. \<forall>j < length (lp_pendings lp p). \<forall>x. fst (lp_pendings lp p ! j) = Some x \<longrightarrow>
         ev_pending (lp_watchers lp x) = j + 1 \<and> ABSPRI (lp_watchers lp x) = p))"

text \<open>Active watchers have one of the five priorities.  \<open>repeat\<close> is not negative, as the code asserts.\<close>

definition prios_ok :: "'t::zero watchers \<Rightarrow> bool" where
  "prios_ok ws = (\<forall>x. ev_active (ws x) \<noteq> 0 \<longrightarrow> ev_priority (ws x) \<in> {EV_MINPRI..EV_MAXPRI})"

definition repeats_ok :: "'t::{linorder,zero} watchers \<Rightarrow> bool" where
  "repeats_ok ws = (\<forall>x. 0 \<le> ev_repeat (ws x))"

definition loop_ok :: "'t::{linorder,zero} ev_loop \<Rightarrow> bool" where
  "loop_ok lp =
     (timers_ok (lp_timers lp) (lp_timercnt lp) (lp_watchers lp) \<and> pendings_ok lp \<and>
      prios_ok (lp_watchers lp) \<and> repeats_ok (lp_watchers lp))"

lemma sifted_timers_ok:
  assumes "sifted es h0 ws0 n (h, ws)" "heap_ordered h n" "\<And>e. e \<in> es \<Longrightarrow> he_at e = ev_at (ws0 (he_w e))"
    and "\<And>x. x \<notin> he_w ` es \<Longrightarrow> ev_active (ws0 x) = 0"
  shows "timers_ok h n ws"
proof -
  from assms(1) have act: "\<forall>i \<in> slots n. ev_active (ws (he_w (h i))) = i" and es: "h ` slots n = es"
    and frame: "\<And>x. (ws x)\<lparr>ev_active := 0\<rparr> = (ws0 x)\<lparr>ev_active := 0\<rparr>" "\<And>x. x \<notin> he_w ` es \<Longrightarrow> ws x = ws0 x"
    by (auto simp: sifted_def)
  have "ev_at (ws x) = ev_at (ws0 x)" for x using arg_cong[OF frame(1)[of x], of ev_at] by simp
  moreover have "ev_active (ws x) \<in> slots n \<and> he_w (h (ev_active (ws x))) = x" if "ev_active (ws x) \<noteq> 0" for x
  proof -
    have "x \<in> he_w ` es" using frame(2) assms(4) that by metis
    then obtain i where "i \<in> slots n" "he_w (h i) = x" using es by auto
    with act show ?thesis by auto
  qed
  moreover have "he_at (h i) = ev_at (ws0 (he_w (h i)))" if "i \<in> slots n" for i
    using assms(3) es that by blast
  ultimately show ?thesis using act assms(2) unfolding timers_ok_def by simp
qed

lemma timers_okD:
  assumes "timers_ok h n ws"
  shows "\<And>i. i \<in> slots n \<Longrightarrow> ev_active (ws (he_w (h i))) = i"
    "\<And>i. i \<in> slots n \<Longrightarrow> he_at (h i) = ev_at (ws (he_w (h i)))"
    "heap_ordered h n"
    "\<And>x. ev_active (ws x) \<noteq> 0 \<Longrightarrow> ev_active (ws x) \<in> slots n \<and> he_w (h (ev_active (ws x))) = x"
    "inj_on (\<lambda>i. he_w (h i)) (slots n)"
proof -
  show act: "\<And>i. i \<in> slots n \<Longrightarrow> ev_active (ws (he_w (h i))) = i" using assms by (simp add: timers_ok_def)
  show "inj_on (\<lambda>i. he_w (h i)) (slots n)" by (rule inj_onI) (metis act)
qed (use assms in \<open>auto simp: timers_ok_def\<close>)

lemma slots_pos: "i \<in> slots n \<Longrightarrow> i \<noteq> 0"
  by (auto simp: HEAP0_eq)

text \<open>The watchers in the heap are the active ones.\<close>

lemma in_heap:
  assumes "timers_ok h n ws"
  shows "x \<in> he_w ` h ` slots n \<longleftrightarrow> ev_active (ws x) \<noteq> 0"
proof
  assume "x \<in> he_w ` h ` slots n"
  then obtain i where "i \<in> slots n" "x = he_w (h i)" by blast
  with timers_okD(1)[OF assms] slots_pos[of i n] show "ev_active (ws x) \<noteq> 0" by simp
next
  assume "ev_active (ws x) \<noteq> 0"
  with timers_okD(4)[OF assms, of x] show "x \<in> he_w ` h ` slots n" by (metis imageI)
qed

lemma sifting_init:
  assumes "k \<in> slots n" "\<And>i. i \<in> slots n \<Longrightarrow> i \<noteq> k \<Longrightarrow> ev_active (ws (he_w (h i))) = i"
    "inj_on (\<lambda>i. he_w (h i)) (slots n)" "h k = he"
  shows "sifting (h ` slots n) h ws n he (h, ws) k"
proof -
  have "h(k := he) = h" using assms(4) by auto
  with assms(1-3) show ?thesis by (simp del: fun_upd_apply add: sifting_def)
qed

lemma sifting_adjust:
  "sifting es h ws n (h k) (h, ws) k \<Longrightarrow> sifted es h ws n (adjustheap (h, ws) n k)"
  using upheap_sifted[of es h ws n "h k" "(h, ws)" k] downheap_sifted[of es h ws n "h k" "(h, ws)" k]
  by (simp add: adjustheap_def upheap_def downheap_def)

text \<open>
  Replacing an entry: by a new time of its watcher, or by the last entry when its own watcher
  leaves the heap.
\<close>

lemma timers_ok_adjust:
  assumes ok: "timers_ok h n ws0" and k: "k \<in> slots n" and w: "he_w (h k) = w"
    and ws: "ws = ws0(w := (ws0 w)\<lparr>ev_at := a\<rparr>)"
    and "adjustheap (h(k := (h k)\<lparr>he_at := a\<rparr>), ws) n k = (h', ws')"
  shows "timers_ok h' n ws' \<and> (\<forall>x. (ws' x)\<lparr>ev_active := 0\<rparr> = (ws x)\<lparr>ev_active := 0\<rparr>) \<and>
    (\<forall>x. (ev_active (ws' x) = 0) = (ev_active (ws0 x) = 0)) \<and> h' ` slots n = (h(k := (h k)\<lparr>he_at := a\<rparr>)) ` slots n"
proof -
  note D = timers_okD[OF ok]
  let ?he = "(h k)\<lparr>he_at := a\<rparr>" let ?h = "h(k := ?he)" let ?es = "?h ` slots n"
  have wi: "he_w (?h i) = he_w (h i)" for i by simp
  have inj: "inj_on (\<lambda>i. he_w (?h i)) (slots n)" using D(5) by (simp only: wi)
  have "ev_active (ws (he_w (?h i))) = i" if "i \<in> slots n" for i
    using D(1)[OF that] by (simp only: wi) (auto simp: ws)
  then have "sifting ?es ?h ws n (?h k) (?h, ws) k" by (rule sifting_init[OF k _ inj refl])
  then have sf: "sifted ?es ?h ws n (h', ws')" using sifting_adjust assms(5) by metis
  have ord: "heap_ordered h' n" using adjust_ordered[OF D(3) k, of ?he ws] assms(5) by simp
  have hw: "he_w ` ?es = he_w ` h ` slots n" by (simp only: image_image wi)
  have at: "he_at e = ev_at (ws (he_w e))" if e: "e \<in> ?es" for e
  proof -
    from e obtain i where i: "i \<in> slots n" "e = ?h i" by blast
    show ?thesis
    proof (cases "i = k")
      case False
      then have "he_w (h i) \<noteq> w" using inj_onD[OF D(5), of i k] i(1) k w by auto
      with False i D(2)[OF i(1)] show ?thesis by (simp add: ws)
    qed (simp add: i ws w)
  qed
  have none: "ev_active (ws x) = 0" if "x \<notin> he_w ` ?es" for x
    using that in_heap[OF ok, of x] unfolding hw by (auto simp: ws)
  have ok': "timers_ok h' n ws'" by (rule sifted_timers_ok[OF sf ord at none])
  have img: "h' ` slots n = ?es" using sf by (simp add: sifted_def)
  have "(ev_active (ws' x) = 0) = (ev_active (ws0 x) = 0)" for x
    using in_heap[OF ok', of x] in_heap[OF ok, of x] unfolding img hw by auto
  with ok' img sf show ?thesis by (simp add: sifted_def)
qed

lemma timers_ok_remove:
  assumes ok: "timers_ok h (Suc n) ws" and k: "k \<in> slots (Suc n)" "he_w (h k) = w"
    and "(if k < n + HEAP0 then adjustheap (h(k := h (n + HEAP0)), ws) n k else (h, ws)) = (h', ws')"
    and "ev_active t = 0"
  shows "timers_ok h' n (ws'(w := t)) \<and> (\<forall>x. (ws' x)\<lparr>ev_active := 0\<rparr> = (ws x)\<lparr>ev_active := 0\<rparr>) \<and>
    h' ` slots n = h ` slots (Suc n) - {h k} \<and> (\<forall>x. x \<noteq> w \<longrightarrow> (ev_active (ws' x) = 0) = (ev_active (ws x) = 0))"
proof -
  note D = timers_okD[OF ok]
  let ?last = "n + HEAP0" let ?h = "h(k := h ?last)"
  have slots: "slots (Suc n) = insert ?last (slots n)" "?last \<notin> slots n" by auto
  have winj: "he_w (h i) = he_w (h j) \<longleftrightarrow> i = j" if "i \<in> slots (Suc n)" "j \<in> slots (Suc n)" for i j
    using inj_onD[OF D(5), of i j] that by auto
  have img: "?h ` slots n = h ` slots (Suc n) - {h k}" if kn: "k < ?last"
  proof -
    have "?h ` slots n = insert (h ?last) (h ` (slots n - {k}))" using kn k(1) by auto
    also have "\<dots> = h ` (insert ?last (slots n - {k}))" by simp
    also have "insert ?last (slots n - {k}) = slots (Suc n) - {k}" using kn slots by auto
    also have "h ` (slots (Suc n) - {k}) = h ` slots (Suc n) - {h k}"
      using winj k(1) by (auto simp: image_def) metis+
    finally show ?thesis .
  qed
  have img': "h ` slots n = h ` slots (Suc n) - {h k}" if kn: "\<not> k < ?last"
  proof -
    have "k = ?last" using kn k(1) by auto
    moreover have "h ?last \<noteq> h i" if "i \<in> slots n" for i
      using winj[of ?last i] that slots by auto
    then have "h ?last \<notin> h ` slots n" by blast
    ultimately show ?thesis unfolding slots by blast
  qed
  define es where "es = h ` slots (Suc n) - {h k}"
  have w_es: "w \<notin> he_w ` es" using winj k by (auto simp: es_def)
  have others: "x \<in> he_w ` es \<longleftrightarrow> ev_active (ws x) \<noteq> 0" if "x \<noteq> w" for x
    using in_heap[OF ok, of x] that k by (auto simp: es_def)
  have "sifted es (if k < ?last then ?h else h) ws n (h', ws') \<and> heap_ordered h' n"
  proof (cases "k < ?last")
    case True
    have kn: "k \<in> slots n" using True k(1) by auto
    have ord: "heap_ordered h n" using D(3) by (auto simp: heap_ordered_def)
    have "inj_on (\<lambda>i. he_w (?h i)) (slots n)"
    proof (rule inj_onI)
      fix i j assume ij: "i \<in> slots n" "j \<in> slots n" and eq: "he_w (?h i) = he_w (?h j)"
      with winj[of i j] winj[of i ?last] winj[of j ?last] show "i = j"
        by (cases "i = k"; cases "j = k") auto
    qed
    moreover have "ev_active (ws (he_w (?h i))) = i" if "i \<in> slots n" "i \<noteq> k" for i
      using D(1)[of i] that by simp
    ultimately have "sifting (?h ` slots n) ?h ws n (?h k) (?h, ws) k" using kn by (intro sifting_init) auto
    then have "sifted es ?h ws n (adjustheap (?h, ws) n k)"
      unfolding img[OF True] es_def by (rule sifting_adjust)
    with True assms(4) adjust_ordered[OF ord kn, of "h ?last" ws] show ?thesis by simp
  next
    case False
    with assms(4) D(1,3) img'[OF False] show ?thesis
      by (auto simp: sifted_def es_def heap_ordered_def)
  qed
  then have sf: "sifted es (if k < ?last then ?h else h) ws n (h', ws')" and ord: "heap_ordered h' n" by auto
  from sf have act: "\<forall>i \<in> slots n. ev_active (ws' (he_w (h' i))) = i" and es: "h' ` slots n = es"
    and frame: "\<And>x. (ws' x)\<lparr>ev_active := 0\<rparr> = (ws x)\<lparr>ev_active := 0\<rparr>" "\<And>x. x \<notin> he_w ` es \<Longrightarrow> ws' x = ws x"
    by (auto simp: sifted_def)
  have at: "ev_at (ws' x) = ev_at (ws x)" for x using arg_cong[OF frame(1)[of x], of ev_at] by simp
  have ne: "he_w (h' i) \<noteq> w" if "i \<in> slots n" for i using w_es es that by blast
  have ats: "he_at e = ev_at (ws (he_w e))" if "e \<in> es" for e using that D(2) by (auto simp: es_def)
  have in': "ev_active (ws' x) \<in> slots n \<and> he_w (h' (ev_active (ws' x))) = x"
    if "ev_active (ws' x) \<noteq> 0" "x \<noteq> w" for x
  proof -
    have "x \<in> he_w ` es" using frame(2) others that by metis
    then obtain i where "i \<in> slots n" "he_w (h' i) = x" using es by auto
    with act show ?thesis by auto
  qed
  have "he_at (h' i) = ev_at (ws' (he_w (h' i)))" if "i \<in> slots n" for i
  proof -
    have "h' i \<in> es" using es that by blast
    then show ?thesis by (simp add: at ats)
  qed
  then have ok': "timers_ok h' n (ws'(w := t))"
    using act ord ne in' assms(5) by (simp add: timers_ok_def)
  have "(ev_active (ws' x) = 0) = (ev_active (ws x) = 0)" if "x \<noteq> w" for x
  proof (cases "x \<in> he_w ` es")
    case True
    then obtain i where "i \<in> slots n" "he_w (h' i) = x" using es by auto
    with act slots_pos[of i n] have "ev_active (ws' x) \<noteq> 0" by auto
    with others[OF that] True show ?thesis by simp
  qed (use frame(2) in auto)
  with ok' frame(1) es show ?thesis by (simp add: es_def)
qed

lemma timers_ok_add:
  assumes ok: "timers_ok h n ws0" and w: "ev_active (ws0 w) = 0"
    and ws: "ws = ws0(w := t)" "ev_active t = n + HEAP0"
    and "upheap (h(n + HEAP0 := \<lparr>he_at = ev_at t, he_w = w\<rparr>), ws) (n + HEAP0) = (h', ws')"
  shows "timers_ok h' (Suc n) ws' \<and> (\<forall>x. (ws' x)\<lparr>ev_active := 0\<rparr> = (ws x)\<lparr>ev_active := 0\<rparr>) \<and>
    (\<forall>x. (ev_active (ws' x) = 0) = (ev_active (ws0 x) = 0 \<and> x \<noteq> w))"
proof -
  note D = timers_okD[OF ok]
  let ?k = "n + HEAP0" let ?he = "\<lparr>he_at = ev_at t, he_w = w\<rparr>"
  let ?h = "h(?k := ?he)" let ?es = "?h ` slots (Suc n)"
  have slots: "slots (Suc n) = insert ?k (slots n)" "?k \<notin> slots n" by auto
  have ne: "he_w (h i) \<noteq> w" if "i \<in> slots n" for i
    using D(1)[OF that] slots_pos[OF that] w by auto
  have es: "?es = insert ?he (h ` slots n)" using slots by auto
  have "inj_on (\<lambda>i. he_w (?h i)) (slots (Suc n))"
  proof (rule inj_onI)
    fix i j assume "i \<in> slots (Suc n)" "j \<in> slots (Suc n)" "he_w (?h i) = he_w (?h j)"
    with inj_onD[OF D(5), of i j] ne[of i] ne[of j] slots show "i = j"
      by (cases "i = ?k"; cases "j = ?k") auto
  qed
  moreover have "ev_active (ws (he_w (?h i))) = i" if "i \<in> slots (Suc n)" "i \<noteq> ?k" for i
  proof -
    have i: "i \<in> slots n" using that slots by auto
    show ?thesis using D(1)[OF i] ne[OF i] that(2) by (simp add: ws)
  qed
  ultimately have sift: "sifting ?es ?h ws (Suc n) (?h ?k) (?h, ws) ?k" by (intro sifting_init) (auto simp: slots)
  have sf: "sifted ?es ?h ws (Suc n) (h', ws')"
    using upheap_sifted[OF sift] assms(5) by (simp add: upheap_def)
  have ord: "heap_ordered h' (Suc n)" using add_ordered[OF D(3), of ?he ws] assms(5) by simp
  have at: "he_at e = ev_at (ws (he_w e))" if "e \<in> ?es" for e
  proof (cases "e = ?he")
    case False
    with that obtain i where i: "i \<in> slots n" "e = h i" unfolding es by blast
    with D(2)[OF i(1)] ne[OF i(1)] show ?thesis by (simp add: ws)
  qed (simp add: ws)
  have hw: "he_w ` ?es = insert w (he_w ` h ` slots n)" unfolding es by simp
  have none: "ev_active (ws x) = 0" if "x \<notin> he_w ` ?es" for x
    using that in_heap[OF ok, of x] unfolding hw by (simp add: ws)
  have ok': "timers_ok h' (Suc n) ws'" by (rule sifted_timers_ok[OF sf ord at none])
  have img: "h' ` slots (Suc n) = ?es" using sf by (simp add: sifted_def)
  have "(ev_active (ws' x) = 0) = (ev_active (ws0 x) = 0 \<and> x \<noteq> w)" for x
    using in_heap[OF ok', of x] in_heap[OF ok, of x] unfolding img hw by auto
  with ok' sf show ?thesis by (simp add: sifted_def)
qed

section \<open>What the operations keep\<close>

text \<open>A watcher that an operation leaves alone may only move in the heap.\<close>

definition unmoved :: "'t ev_timer \<Rightarrow> 't ev_timer \<Rightarrow> bool" where
  "unmoved t t' = (t'\<lparr>ev_active := 0\<rparr> = t\<lparr>ev_active := 0\<rparr> \<and> (ev_active t' = 0) = (ev_active t = 0))"

lemma unmovedD:
  assumes "unmoved t t'"
  shows "ev_pending t' = ev_pending t" "ev_priority t' = ev_priority t" "ev_at t' = ev_at t"
    "ev_repeat t' = ev_repeat t" "(ev_active t' = 0) = (ev_active t = 0)" "ABSPRI t' = ABSPRI t"
proof -
  from assms have eq: "t'\<lparr>ev_active := 0\<rparr> = t\<lparr>ev_active := 0\<rparr>" and "(ev_active t' = 0) = (ev_active t = 0)"
    by (simp_all add: unmoved_def)
  then show "(ev_active t' = 0) = (ev_active t = 0)" by simp
  show "ev_pending t' = ev_pending t" using arg_cong[OF eq, of ev_pending] by simp
  show pri: "ev_priority t' = ev_priority t" using arg_cong[OF eq, of ev_priority] by simp
  show "ev_at t' = ev_at t" using arg_cong[OF eq, of ev_at] by simp
  show "ev_repeat t' = ev_repeat t" using arg_cong[OF eq, of ev_repeat] by simp
  show "ABSPRI t' = ABSPRI t" by (simp add: ABSPRI_def pri)
qed

lemma unmoved_refl [simp]: "unmoved t t" by (simp add: unmoved_def)

lemma unmoved_trans: "unmoved t t' \<Longrightarrow> unmoved t' t'' \<Longrightarrow> unmoved t t''"
  by (simp add: unmoved_def)

lemma timers_ok_cong:
  assumes "\<And>x. ev_active (ws' x) = ev_active (ws x)" "\<And>x. ev_at (ws' x) = ev_at (ws x)"
  shows "timers_ok h n ws' = timers_ok h n ws"
  unfolding timers_ok_def by (simp only: assms)

lemma pendings_okD:
  assumes "pendings_ok lp"
  shows "ev_pending (lp_watchers lp x) \<noteq> 0 \<Longrightarrow> ev_priority (lp_watchers lp x) \<in> {EV_MINPRI..EV_MAXPRI}"
    "ev_pending (lp_watchers lp x) \<noteq> 0 \<Longrightarrow>
       ev_pending (lp_watchers lp x) \<le> length (lp_pendings lp (ABSPRI (lp_watchers lp x)))"
    "ev_pending (lp_watchers lp x) \<noteq> 0 \<Longrightarrow>
       fst (lp_pendings lp (ABSPRI (lp_watchers lp x)) ! (ev_pending (lp_watchers lp x) - 1)) = Some x"
    "j < length (lp_pendings lp p) \<Longrightarrow> fst (lp_pendings lp p ! j) = Some x \<Longrightarrow>
       ev_pending (lp_watchers lp x) = j + 1 \<and> ABSPRI (lp_watchers lp x) = p"
  using assms unfolding pendings_ok_def by blast+

lemma pendings_ok_cong:
  assumes "pendings_ok lp" "lp_pendings lp' = lp_pendings lp"
    and "\<And>x. ev_pending (lp_watchers lp' x) = ev_pending (lp_watchers lp x)"
    and "\<And>x. ev_pending (lp_watchers lp x) \<noteq> 0 \<Longrightarrow> ev_priority (lp_watchers lp' x) = ev_priority (lp_watchers lp x)"
  shows "pendings_ok lp'"
proof -
  have pri: "ABSPRI (lp_watchers lp' x) = ABSPRI (lp_watchers lp x)" if "ev_pending (lp_watchers lp x) \<noteq> 0" for x
    using assms(4)[OF that] by (simp add: ABSPRI_def)
  show ?thesis
    unfolding pendings_ok_def
  proof (intro conjI allI impI)
    fix x assume "ev_pending (lp_watchers lp' x) \<noteq> 0"
    then have x: "ev_pending (lp_watchers lp x) \<noteq> 0" by (simp add: assms(3))
    note D = pendings_okD[OF assms(1)]
    show "ev_priority (lp_watchers lp' x) \<in> {EV_MINPRI..EV_MAXPRI}"
      unfolding assms(4)[OF x] by (rule D(1)[OF x])
    show "ev_pending (lp_watchers lp' x) \<le> length (lp_pendings lp' (ABSPRI (lp_watchers lp' x)))"
      unfolding assms(2,3) pri[OF x] by (rule D(2)[OF x])
    show "fst (lp_pendings lp' (ABSPRI (lp_watchers lp' x)) ! (ev_pending (lp_watchers lp' x) - 1)) = Some x"
      unfolding assms(2,3) pri[OF x] by (rule D(3)[OF x])
  next
    fix p j x assume "j < length (lp_pendings lp' p)" "fst (lp_pendings lp' p ! j) = Some x"
    then have "ev_pending (lp_watchers lp x) = j + 1 \<and> ABSPRI (lp_watchers lp x) = p"
      unfolding assms(2) by (rule pendings_okD(4)[OF assms(1)])
    then show "ev_pending (lp_watchers lp' x) = j + 1" "ABSPRI (lp_watchers lp' x) = p"
      by (simp_all add: assms(3) pri)
  qed
qed

lemma loop_okD:
  "loop_ok lp \<Longrightarrow> timers_ok (lp_timers lp) (lp_timercnt lp) (lp_watchers lp)" "loop_ok lp \<Longrightarrow> pendings_ok lp"
  "loop_ok lp \<Longrightarrow> prios_ok (lp_watchers lp)" "loop_ok lp \<Longrightarrow> repeats_ok (lp_watchers lp)"
  by (simp_all add: loop_ok_def)

text \<open>What stays of the loop when only timers start, stop or move.\<close>

definition same_queues :: "'t ev_loop \<Rightarrow> 't ev_loop \<Rightarrow> bool" where
  "same_queues lp lp' =
     (lp_pendings lp' = lp_pendings lp \<and> lp_rfeeds lp' = lp_rfeeds lp \<and> lp_now lp' = lp_now lp)"

lemma clear_pending_fields [simp]:
  "lp_timers (clear_pending w lp) = lp_timers lp" "lp_timercnt (clear_pending w lp) = lp_timercnt lp"
  "lp_rfeeds (clear_pending w lp) = lp_rfeeds lp" "lp_now (clear_pending w lp) = lp_now lp"
  "ev_active (lp_watchers (clear_pending w lp) x) = ev_active (lp_watchers lp x)"
  "ev_at (lp_watchers (clear_pending w lp) x) = ev_at (lp_watchers lp x)"
  "ev_repeat (lp_watchers (clear_pending w lp) x) = ev_repeat (lp_watchers lp x)"
  "ev_priority (lp_watchers (clear_pending w lp) x) = ev_priority (lp_watchers lp x)"
  "ev_pending (lp_watchers (clear_pending w lp) w) = 0"
  by (auto simp: clear_pending_def set_watcher_def set_pending_def Let_def)

lemma clear_pending_other: "x \<noteq> w \<Longrightarrow> lp_watchers (clear_pending w lp) x = lp_watchers lp x"
  by (auto simp: clear_pending_def set_watcher_def set_pending_def Let_def)

lemma clear_pending_ok:
  assumes "loop_ok lp"
  shows "loop_ok (clear_pending w lp)"
proof -
  let ?lp = "clear_pending w lp"
  have "pendings_ok ?lp"
  proof (cases "ev_pending (lp_watchers lp w) = 0")
    case True
    then show ?thesis using loop_okD(2)[OF assms] by (simp add: clear_pending_def Let_def)
  next
    case False
    note P = pendings_okD[OF loop_okD(2)[OF assms]]
    let ?pri = "ABSPRI (lp_watchers lp w)" and ?j = "ev_pending (lp_watchers lp w) - 1"
    have q: "lp_pendings ?lp p = (if p = ?pri then (lp_pendings lp p)[?j := (None, snd (lp_pendings lp p ! ?j))] else lp_pendings lp p)" for p
      using False by (simp add: clear_pending_def set_watcher_def set_pending_def Let_def)
    have pri: "ABSPRI (lp_watchers ?lp x) = ABSPRI (lp_watchers lp x)" for x by (simp add: ABSPRI_def)
    have wj: "?j < length (lp_pendings lp ?pri)" using P(2)[OF False] False by simp
    show ?thesis
      unfolding pendings_ok_def
    proof (intro conjI allI impI)
      fix x assume x': "ev_pending (lp_watchers ?lp x) \<noteq> 0"
      then have "x \<noteq> w" by auto
      then have eq: "lp_watchers ?lp x = lp_watchers lp x" by (rule clear_pending_other)
      with x' have x: "ev_pending (lp_watchers lp x) \<noteq> 0" by simp
      show "ev_priority (lp_watchers ?lp x) \<in> {EV_MINPRI..EV_MAXPRI}" using P(1)[OF x] by simp
      show "ev_pending (lp_watchers ?lp x) \<le> length (lp_pendings ?lp (ABSPRI (lp_watchers ?lp x)))"
        using P(2)[OF x] eq by (simp add: q) metis
      have "fst (lp_pendings lp (ABSPRI (lp_watchers lp x)) ! (ev_pending (lp_watchers lp x) - 1)) = Some x"
        "fst (lp_pendings lp ?pri ! ?j) = Some w" using P(3)[OF x] P(3)[OF False] by auto
      then have "\<not> (ABSPRI (lp_watchers lp x) = ?pri \<and> ev_pending (lp_watchers lp x) - 1 = ?j)"
        using \<open>x \<noteq> w\<close> by auto
      with P(3)[OF x] show "fst (lp_pendings ?lp (ABSPRI (lp_watchers ?lp x)) ! (ev_pending (lp_watchers ?lp x) - 1)) = Some x"
        by (auto simp: q eq)
    next
      fix p j x assume j: "j < length (lp_pendings ?lp p)" and e: "fst (lp_pendings ?lp p ! j) = Some x"
      have "\<not> (p = ?pri \<and> j = ?j)" using e wj by (auto simp: q)
      with j e have "j < length (lp_pendings lp p)" "fst (lp_pendings lp p ! j) = Some x"
        by (auto simp: q split: if_splits)
      with P(4) have x: "ev_pending (lp_watchers lp x) = j + 1" "ABSPRI (lp_watchers lp x) = p" by auto
      with \<open>\<not> (p = ?pri \<and> j = ?j)\<close> have "x \<noteq> w" by auto
      with x show "ev_pending (lp_watchers ?lp x) = j + 1" "ABSPRI (lp_watchers ?lp x) = p"
        by (simp_all add: clear_pending_other)
    qed
  qed
  moreover have "timers_ok (lp_timers ?lp) (lp_timercnt ?lp) (lp_watchers ?lp)"
    using loop_okD(1)[OF assms] timers_ok_cong[of "lp_watchers ?lp" "lp_watchers lp"] by simp
  ultimately show ?thesis using loop_okD(3,4)[OF assms] by (simp add: loop_ok_def prios_ok_def repeats_ok_def)
qed

lemma prios_keep:
  assumes "prios_ok ws" "\<And>x. x \<noteq> w \<Longrightarrow> unmoved (ws x) (ws' x)"
    and "ev_active (ws' w) \<noteq> 0 \<Longrightarrow> ev_priority (ws' w) \<in> {EV_MINPRI..EV_MAXPRI}"
  shows "prios_ok ws'"
  unfolding prios_ok_def
proof (intro allI impI)
  fix x assume x: "ev_active (ws' x) \<noteq> 0"
  show "ev_priority (ws' x) \<in> {EV_MINPRI..EV_MAXPRI}"
  proof (cases "x = w")
    case False
    with assms(1) unmovedD[OF assms(2)[OF False]] x show ?thesis by (auto simp: prios_ok_def)
  qed (use assms(3) x in simp)
qed

text \<open>
  The invariant after an operation on the timer \<open>w\<close> that leaves the queues, and the other
  watchers but for their place in the heap, as they are.
\<close>

lemma loop_ok_keep:
  assumes "loop_ok lp" "same_queues lp lp'" "\<And>x. x \<noteq> w \<Longrightarrow> unmoved (lp_watchers lp x) (lp_watchers lp' x)"
    and "timers_ok (lp_timers lp') (lp_timercnt lp') (lp_watchers lp')"
    and "ev_pending (lp_watchers lp' w) = ev_pending (lp_watchers lp w)"
    and "ev_pending (lp_watchers lp w) \<noteq> 0 \<Longrightarrow> ev_priority (lp_watchers lp' w) = ev_priority (lp_watchers lp w)"
    and "ev_active (lp_watchers lp' w) \<noteq> 0 \<Longrightarrow> ev_priority (lp_watchers lp' w) \<in> {EV_MINPRI..EV_MAXPRI}"
    and "ev_repeat (lp_watchers lp' w) = ev_repeat (lp_watchers lp w)"
  shows "loop_ok lp'"
proof -
  have "ev_pending (lp_watchers lp' x) = ev_pending (lp_watchers lp x)" for x
    using unmovedD(1)[OF assms(3)] assms(5) by (cases "x = w") auto
  moreover have "ev_priority (lp_watchers lp' x) = ev_priority (lp_watchers lp x)"
    if "ev_pending (lp_watchers lp x) \<noteq> 0" for x
    using unmovedD(2)[OF assms(3)] assms(6) that by (cases "x = w") auto
  ultimately have "pendings_ok lp'"
    using assms(2) by (intro pendings_ok_cong[OF loop_okD(2)[OF assms(1)]]) (auto simp: same_queues_def)
  moreover have "repeats_ok (lp_watchers lp')"
    unfolding repeats_ok_def
  proof
    fix x show "0 \<le> ev_repeat (lp_watchers lp' x)"
      using loop_okD(4)[OF assms(1)] unmovedD(4)[OF assms(3)] assms(8) by (cases "x = w") (auto simp: repeats_ok_def)
  qed
  ultimately show ?thesis
    using assms(4) prios_keep[OF loop_okD(3)[OF assms(1)] assms(3,7)] by (simp add: loop_ok_def)
qed

lemma start_effect:
  assumes ok: "loop_ok lp"
  obtains lp' where "ev_timer_start w lp = Some lp'" "loop_ok lp'" "same_queues lp lp'"
    "\<And>x. x \<noteq> w \<Longrightarrow> unmoved (lp_watchers lp x) (lp_watchers lp' x)"
    "ev_active (lp_watchers lp' w) \<noteq> 0" "ev_repeat (lp_watchers lp' w) = ev_repeat (lp_watchers lp w)"
    "ev_pending (lp_watchers lp' w) = ev_pending (lp_watchers lp w)"
    "ev_at (lp_watchers lp' w) =
       (if ev_active (lp_watchers lp w) \<noteq> 0 then ev_at (lp_watchers lp w) else ev_at (lp_watchers lp w) + lp_now lp)"
    "ev_priority (lp_watchers lp w) \<in> {EV_MINPRI..EV_MAXPRI} \<Longrightarrow>
       ev_priority (lp_watchers lp' w) = ev_priority (lp_watchers lp w)"
proof (cases "ev_active (lp_watchers lp w) = 0")
  case False
  with that[of lp] ok show thesis by (simp add: ev_timer_start_def Let_def same_queues_def)
next
  case True
  let ?t = "lp_watchers lp w" let ?n = "lp_timercnt lp"
  define t where "t = (pri_adjust (?t\<lparr>ev_at := ev_at ?t + lp_now lp\<rparr>))\<lparr>ev_active := ?n + HEAP0\<rparr>"
  define ws where "ws = (lp_watchers lp)(w := t)"
  obtain h' ws' where up: "upheap ((lp_timers lp)(?n + HEAP0 := \<lparr>he_at = ev_at t, he_w = w\<rparr>), ws) (?n + HEAP0) = (h', ws')"
    by fastforce
  define lp' where "lp' = lp\<lparr>lp_timers := h', lp_timercnt := Suc ?n, lp_watchers := ws', lp_activecnt := lp_activecnt lp + 1\<rparr>"
  have rep: "0 \<le> ev_repeat ?t" using loop_okD(4)[OF ok] by (simp add: repeats_ok_def)
  have step: "ev_timer_start w lp = Some lp'"
    using True rep up
    by (simp add: ev_timer_start_def Let_def ev_start_def set_watcher_def set_heap_def t_def ws_def lp'_def)
  have t: "ev_active t = ?n + HEAP0" "ev_repeat t = ev_repeat ?t" "ev_pending t = ev_pending ?t"
    "ev_at t = ev_at ?t + lp_now lp" "ev_priority t \<in> {EV_MINPRI..EV_MAXPRI}"
    by (auto simp: t_def pri_adjust_def Let_def EV_MINPRI_def EV_MAXPRI_def)
  have pri: "ev_priority t = ev_priority ?t" if "ev_pending ?t \<noteq> 0"
    using pendings_okD(1)[OF loop_okD(2)[OF ok] that] by (auto simp: t_def pri_adjust_def Let_def)
  from timers_ok_add[OF loop_okD(1)[OF ok] True ws_def t(1) up]
  have T: "timers_ok h' (Suc ?n) ws'" and fr: "\<And>x. (ws' x)\<lparr>ev_active := 0\<rparr> = (ws x)\<lparr>ev_active := 0\<rparr>"
    and act: "\<And>x. (ev_active (ws' x) = 0) = (ev_active (lp_watchers lp x) = 0 \<and> x \<noteq> w)" by auto
  have other: "unmoved (lp_watchers lp x) (lp_watchers lp' x)" if "x \<noteq> w" for x
    using fr[of x] act[of x] that by (simp add: unmoved_def lp'_def ws_def)
  have w: "ev_repeat (ws' w) = ev_repeat ?t" "ev_pending (ws' w) = ev_pending ?t"
    "ev_at (ws' w) = ev_at ?t + lp_now lp" "ev_priority (ws' w) = ev_priority t"
    using arg_cong[OF fr[of w], of ev_repeat] arg_cong[OF fr[of w], of ev_pending]
      arg_cong[OF fr[of w], of ev_at] arg_cong[OF fr[of w], of ev_priority] t by (simp_all add: ws_def)
  have sq: "same_queues lp lp'" by (simp add: same_queues_def lp'_def)
  have "loop_ok lp'"
    using T w pri t by (intro loop_ok_keep[OF ok sq other, of w]) (simp_all add: lp'_def)
  moreover have "ev_priority t = ev_priority ?t" if "ev_priority ?t \<in> {EV_MINPRI..EV_MAXPRI}"
    using that by (auto simp: t_def pri_adjust_def Let_def)
  ultimately show thesis using that[OF step _ sq other] act[of w] w True by (simp add: lp'_def)
qed

lemma stop_effect:
  assumes ok: "loop_ok lp"
  obtains lp' where "ev_timer_stop w lp = Some lp'" "loop_ok lp'" "same_queues (clear_pending w lp) lp'"
    "\<And>x. x \<noteq> w \<Longrightarrow> unmoved (lp_watchers lp x) (lp_watchers lp' x)"
    "ev_active (lp_watchers lp' w) = 0" "ev_pending (lp_watchers lp' w) = 0"
    "ev_repeat (lp_watchers lp' w) = ev_repeat (lp_watchers lp w)"
    "ev_active (lp_watchers lp w) \<noteq> 0 \<Longrightarrow>
       lp_timercnt lp = Suc (lp_timercnt lp') \<and>
       lp_timers lp' ` slots (lp_timercnt lp') =
         lp_timers lp ` slots (lp_timercnt lp) - {lp_timers lp (ev_active (lp_watchers lp w))}"
proof -
  let ?lp = "clear_pending w lp"
  have ok1: "loop_ok ?lp" by (rule clear_pending_ok[OF ok])
  have other1: "lp_watchers ?lp x = lp_watchers lp x" if "x \<noteq> w" for x using that by (rule clear_pending_other)
  show thesis
  proof (cases "ev_active (lp_watchers lp w) = 0")
    case True
    then have "ev_timer_stop w lp = Some ?lp" by (simp add: ev_timer_stop_def Let_def)
    with that[OF this ok1] True show thesis by (simp add: same_queues_def other1)
  next
    case False
    let ?k = "ev_active (lp_watchers lp w)"
    note D = timers_okD[OF loop_okD(1)[OF ok1]]
    have k: "?k \<in> slots (lp_timercnt lp)" "he_w (lp_timers lp ?k) = w" using D(4)[of w] False by auto
    then obtain n where n: "lp_timercnt lp = Suc n" by (cases "lp_timercnt lp") auto
    define h where "h = lp_timers lp"
    obtain h' ws' where adj: "(if ?k < n + HEAP0 then adjustheap (h(?k := h (n + HEAP0)), lp_watchers ?lp) n ?k
      else (h, lp_watchers ?lp)) = (h', ws')" by fastforce
    define t where "t = (ws' w)\<lparr>ev_at := ev_at (ws' w) - lp_now lp, ev_active := 0\<rparr>"
    define lp' where "lp' = ?lp\<lparr>lp_timers := h', lp_timercnt := n, lp_watchers := ws'(w := t), lp_activecnt := lp_activecnt ?lp - 1\<rparr>"
    have step: "ev_timer_stop w lp = Some lp'"
      using False k n adj
      by (auto simp: ev_timer_stop_def Let_def ev_stop_def set_watcher_def set_heap_def t_def lp'_def h_def split: if_splits)
    have "timers_ok h (Suc n) (lp_watchers ?lp)" using loop_okD(1)[OF ok1] n by (simp add: h_def)
    from timers_ok_remove[OF this _ _ adj, where t = t] k n
    have T: "timers_ok h' n (ws'(w := t))" and fr: "\<And>x. (ws' x)\<lparr>ev_active := 0\<rparr> = (lp_watchers ?lp x)\<lparr>ev_active := 0\<rparr>"
      and img: "h' ` slots n = h ` slots (Suc n) - {h ?k}"
      and act: "\<And>x. x \<noteq> w \<Longrightarrow> (ev_active (ws' x) = 0) = (ev_active (lp_watchers ?lp x) = 0)"
      by (auto simp: h_def t_def)
    have other: "unmoved (lp_watchers ?lp x) (lp_watchers lp' x)" if "x \<noteq> w" for x
      using fr[of x] act[OF that] that by (simp add: unmoved_def lp'_def)
    have w: "ev_repeat t = ev_repeat (lp_watchers ?lp w)" "ev_pending t = 0"
      using arg_cong[OF fr[of w], of ev_repeat] arg_cong[OF fr[of w], of ev_pending] by (simp_all add: t_def)
    have sq: "same_queues ?lp lp'" by (simp add: same_queues_def lp'_def)
    have "loop_ok lp'"
      using T w by (intro loop_ok_keep[OF ok1 sq other, of w]) (simp_all add: lp'_def t_def)
    from that[OF step this sq] other other1 w img n show thesis by (simp add: lp'_def h_def t_def)
  qed
qed

text \<open>A new time for a timer that is not in the heap, and for one that is.\<close>

lemma inactive_at:
  assumes ok: "loop_ok lp" and w: "ev_active (lp_watchers lp w) = 0"
  shows "loop_ok (set_watcher w ((lp_watchers lp w)\<lparr>ev_at := a\<rparr>) lp)"
proof -
  let ?lp = "set_watcher w ((lp_watchers lp w)\<lparr>ev_at := a\<rparr>) lp"
  have ne: "he_w (lp_timers lp i) \<noteq> w" if "i \<in> slots (lp_timercnt lp)" for i
    using timers_okD(1)[OF loop_okD(1)[OF ok] that] slots_pos[OF that] w by auto
  have "timers_ok (lp_timers lp) (lp_timercnt lp) (lp_watchers ?lp)"
    using loop_okD(1)[OF ok] ne w by (auto simp: timers_ok_def set_watcher_def)
  then show ?thesis
    using w by (intro loop_ok_keep[OF ok, of _ w]) (simp_all add: set_watcher_def same_queues_def)
qed

lemma active_at:
  assumes ok: "loop_ok lp" and w: "ev_active (lp_watchers lp w) = k" "k \<noteq> 0"
    and lp1: "lp1 = set_watcher w ((lp_watchers lp w)\<lparr>ev_at := a\<rparr>) lp"
    and lp2: "lp2 = set_heap (adjustheap ((lp_timers lp1)(k := (lp_timers lp1 k)\<lparr>he_at := a\<rparr>), lp_watchers lp1) (lp_timercnt lp1) k) lp1"
  shows "loop_ok lp2 \<and> same_queues lp lp2 \<and> lp_timercnt lp2 = lp_timercnt lp \<and>
    (\<forall>x. x \<noteq> w \<longrightarrow> unmoved (lp_watchers lp x) (lp_watchers lp2 x)) \<and>
    unmoved ((lp_watchers lp w)\<lparr>ev_at := a\<rparr>) (lp_watchers lp2 w) \<and>
    lp_timers lp2 ` slots (lp_timercnt lp2) =
      ((lp_timers lp)(k := (lp_timers lp k)\<lparr>he_at := a\<rparr>)) ` slots (lp_timercnt lp)"
proof -
  note T = loop_okD(1)[OF ok]
  from timers_okD(4)[OF T, of w] w have k: "k \<in> slots (lp_timercnt lp)" "he_w (lp_timers lp k) = w" by auto
  obtain h' ws' where adj: "adjustheap ((lp_timers lp)(k := (lp_timers lp k)\<lparr>he_at := a\<rparr>), lp_watchers lp1) (lp_timercnt lp) k = (h', ws')"
    by fastforce
  have ws: "lp_watchers lp1 = (lp_watchers lp)(w := (lp_watchers lp w)\<lparr>ev_at := a\<rparr>)"
    by (simp add: lp1 set_watcher_def)
  from timers_ok_adjust[OF T k ws adj]
  have T': "timers_ok h' (lp_timercnt lp) ws'" and fr: "\<And>x. (ws' x)\<lparr>ev_active := 0\<rparr> = (lp_watchers lp1 x)\<lparr>ev_active := 0\<rparr>"
    and act: "\<And>x. (ev_active (ws' x) = 0) = (ev_active (lp_watchers lp x) = 0)"
    and img: "h' ` slots (lp_timercnt lp) = ((lp_timers lp)(k := (lp_timers lp k)\<lparr>he_at := a\<rparr>)) ` slots (lp_timercnt lp)"
    by auto
  have eq: "lp2 = lp\<lparr>lp_timers := h', lp_watchers := ws'\<rparr>"
    using adj by (simp add: lp2 set_heap_def lp1 set_watcher_def)
  have other: "unmoved (lp_watchers lp x) (lp_watchers lp2 x)" if "x \<noteq> w" for x
    using fr[of x] act[of x] that by (simp add: unmoved_def eq ws)
  have mv: "unmoved ((lp_watchers lp w)\<lparr>ev_at := a\<rparr>) (lp_watchers lp2 w)"
    using fr[of w] act[of w] by (simp add: unmoved_def eq ws)
  have sq: "same_queues lp lp2" by (simp add: same_queues_def eq)
  have "ev_priority (lp_watchers lp w) \<in> {EV_MINPRI..EV_MAXPRI}"
    using loop_okD(3)[OF ok] w by (auto simp: prios_ok_def)
  with unmovedD[OF mv] T' have "loop_ok lp2"
    by (intro loop_ok_keep[OF ok sq other, of w]) (simp_all add: eq)
  with sq other mv img show ?thesis by (simp add: eq)
qed

lemma again_effect:
  assumes ok: "loop_ok lp"
  obtains lp' where "ev_timer_again w lp = Some lp'" "loop_ok lp'" "same_queues (clear_pending w lp) lp'"
    "\<And>x. x \<noteq> w \<Longrightarrow> unmoved (lp_watchers lp x) (lp_watchers lp' x)"
    "ev_active (lp_watchers lp' w) \<noteq> 0 \<longleftrightarrow> ev_repeat (lp_watchers lp w) \<noteq> 0"
    "ev_pending (lp_watchers lp' w) = 0" "ev_repeat (lp_watchers lp' w) = ev_repeat (lp_watchers lp w)"
proof -
  let ?lp = "clear_pending w lp"
  have ok1: "loop_ok ?lp" by (rule clear_pending_ok[OF ok])
  have other1: "lp_watchers ?lp x = lp_watchers lp x" if "x \<noteq> w" for x using that by (rule clear_pending_other)
  let ?k = "ev_active (lp_watchers lp w)" and ?r = "ev_repeat (lp_watchers lp w)"
  consider (move) "?k \<noteq> 0" "?r \<noteq> 0" | (stop) "?k \<noteq> 0" "?r = 0" | (start) "?k = 0" "?r \<noteq> 0" | (none) "?k = 0" "?r = 0"
    by blast
  then show thesis
  proof cases
    case move
    let ?a = "lp_now lp + ?r"
    have hw: "he_w (lp_timers lp ?k) = w"
      using timers_okD(4)[OF loop_okD(1)[OF ok], of w] move by simp
    define lp1 where "lp1 = set_watcher w ((lp_watchers ?lp w)\<lparr>ev_at := ?a\<rparr>) ?lp"
    define lp2 where "lp2 = set_heap (adjustheap ((lp_timers lp1)(?k := (lp_timers lp1 ?k)\<lparr>he_at := ?a\<rparr>), lp_watchers lp1) (lp_timercnt lp1) ?k) lp1"
    have at: "ev_at (lp_watchers lp1 w) = ?a" "lp_timers lp1 = lp_timers lp" by (simp_all add: lp1_def set_watcher_def)
    have "ev_timer_again w lp = Some lp2"
      using move hw at by (simp add: ev_timer_again_def Let_def lp2_def lp1_def set_watcher_def)
    moreover have A: "loop_ok lp2 \<and> same_queues ?lp lp2 \<and> lp_timercnt lp2 = lp_timercnt ?lp \<and>
      (\<forall>x. x \<noteq> w \<longrightarrow> unmoved (lp_watchers ?lp x) (lp_watchers lp2 x)) \<and>
      unmoved ((lp_watchers ?lp w)\<lparr>ev_at := ?a\<rparr>) (lp_watchers lp2 w) \<and>
      lp_timers lp2 ` slots (lp_timercnt lp2) = ((lp_timers ?lp)(?k := (lp_timers ?lp ?k)\<lparr>he_at := ?a\<rparr>)) ` slots (lp_timercnt ?lp)"
      by (rule active_at[OF ok1 _ move(1) lp1_def lp2_def]) simp
    then have "unmoved ((lp_watchers ?lp w)\<lparr>ev_at := ?a\<rparr>) (lp_watchers lp2 w)" by blast
    note w = unmovedD[OF this]
    ultimately show thesis
      using that[of lp2] A w move other1 by auto
  next
    case stop
    from stop_effect[OF ok1, of w] obtain lp' where "ev_timer_stop w ?lp = Some lp'" "loop_ok lp'"
      "same_queues (clear_pending w ?lp) lp'" "\<And>x. x \<noteq> w \<Longrightarrow> unmoved (lp_watchers ?lp x) (lp_watchers lp' x)"
      "ev_active (lp_watchers lp' w) = 0" "ev_pending (lp_watchers lp' w) = 0"
      "ev_repeat (lp_watchers lp' w) = ev_repeat (lp_watchers ?lp w)" by metis
    moreover have "clear_pending w ?lp = ?lp" by (simp add: clear_pending_def[of w ?lp] Let_def)
    ultimately show thesis using that[of lp'] stop other1 by (simp add: ev_timer_again_def Let_def)
  next
    case start
    let ?lp1 = "set_watcher w ((lp_watchers ?lp w)\<lparr>ev_at := ?r\<rparr>) ?lp"
    have ok2: "loop_ok ?lp1" using start by (intro inactive_at[OF ok1]) simp
    from start_effect[OF ok2, of w] obtain lp' where "ev_timer_start w ?lp1 = Some lp'" "loop_ok lp'" "same_queues ?lp1 lp'"
      "\<And>x. x \<noteq> w \<Longrightarrow> unmoved (lp_watchers ?lp1 x) (lp_watchers lp' x)" "ev_active (lp_watchers lp' w) \<noteq> 0"
      "ev_repeat (lp_watchers lp' w) = ev_repeat (lp_watchers ?lp1 w)"
      "ev_pending (lp_watchers lp' w) = ev_pending (lp_watchers ?lp1 w)" by metis
    with that[of lp'] start other1 show thesis
      by (simp add: ev_timer_again_def Let_def set_watcher_def same_queues_def)
  next
    case none
    with that[of ?lp] ok1 other1 show thesis by (simp add: ev_timer_again_def Let_def same_queues_def)
  qed
qed

section \<open>Expiry\<close>

definition expired :: "'t::linorder ev_loop \<Rightarrow> watcher set" where
  "expired lp = {x. ev_active (lp_watchers lp x) \<noteq> 0 \<and> ev_at (lp_watchers lp x) < lp_now lp}"

text \<open>What becomes of a timer that has expired.\<close>

definition renewed :: "'t::{linorder,plus,minus,zero} \<Rightarrow> 't ev_timer \<Rightarrow> 't ev_timer \<Rightarrow> bool" where
  "renewed now t t' =
     (ev_repeat t' = ev_repeat t \<and> ev_priority t' = ev_priority t \<and> ev_pending t' = ev_pending t \<and>
      (if ev_repeat t = 0 then ev_active t' = 0 \<and> ev_at t' = ev_at t - now
       else ev_active t' \<noteq> 0 \<and> ev_at t' = max now (ev_at t + ev_repeat t)))"

lemma renewed_unmoved: "renewed now t t' \<Longrightarrow> unmoved t' t'' \<Longrightarrow> renewed now t t''"
  using unmovedD[of t' t''] by (auto simp: renewed_def)

lemma clear_not_pending: "ev_pending (lp_watchers lp w) = 0 \<Longrightarrow> clear_pending w lp = lp"
  by (simp add: clear_pending_def Let_def)

text \<open>How many entries of the heap have expired.\<close>

definition late :: "'t::linorder ev_loop \<Rightarrow> 't anhe set" where
  "late lp = {e \<in> lp_timers lp ` slots (lp_timercnt lp). he_at e < lp_now lp}"

lemma feed_reverse_ok: "loop_ok lp \<Longrightarrow> loop_ok (feed_reverse w lp)"
  by (simp add: loop_ok_def feed_reverse_def pendings_ok_def)

lemma stop_fields:
  assumes "ev_timer_stop w lp = Some lp'" "loop_ok lp"
  shows "ev_priority (lp_watchers lp' w) = ev_priority (lp_watchers lp w) \<and>
    (ev_active (lp_watchers lp w) \<noteq> 0 \<longrightarrow> ev_at (lp_watchers lp' w) = ev_at (lp_watchers lp w) - lp_now lp)"
proof (cases "ev_active (lp_watchers lp w) = 0")
  case True
  with assms(1) show ?thesis by (auto simp: ev_timer_stop_def Let_def)
next
  case False
  note ok1 = clear_pending_ok[OF assms(2), of w]
  have k: "ev_active (lp_watchers lp w) \<in> slots (lp_timercnt lp)" "he_w (lp_timers lp (ev_active (lp_watchers lp w))) = w"
    using timers_okD(4)[OF loop_okD(1)[OF assms(2)], of w] False by auto
  then obtain n where n: "lp_timercnt lp = Suc n" by (cases "lp_timercnt lp") auto
  let ?ws = "lp_watchers (clear_pending w lp)" and ?k = "ev_active (lp_watchers lp w)"
  obtain h' ws' where adj: "(if ?k < n + HEAP0 then adjustheap ((lp_timers lp)(?k := lp_timers lp (n + HEAP0)), ?ws) n ?k
    else (lp_timers lp, ?ws)) = (h', ws')" by fastforce
  have "timers_ok (lp_timers lp) (Suc n) ?ws" using loop_okD(1)[OF ok1] n by simp
  from timers_ok_remove[OF this _ _ adj, where t = "(ws' w)\<lparr>ev_active := 0\<rparr>"] k n
  have "(ws' w)\<lparr>ev_active := 0\<rparr> = (?ws w)\<lparr>ev_active := 0\<rparr>" by auto
  from arg_cong[OF this, of ev_priority] arg_cong[OF this, of ev_at]
  have "ev_priority (ws' w) = ev_priority (lp_watchers lp w)" "ev_at (ws' w) = ev_at (lp_watchers lp w)" by simp_all
  with assms(1) False k n adj show ?thesis
    by (auto simp: ev_timer_stop_def Let_def ev_stop_def set_watcher_def set_heap_def split: if_splits)
qed

lemma reify_first_effect:
  assumes ok: "loop_ok lp" and n: "lp_timercnt lp \<noteq> 0" and top: "he_at (lp_timers lp HEAP0) < lp_now lp"
    and w: "w = he_w (lp_timers lp HEAP0)" and idle: "ev_pending (lp_watchers lp w) = 0"
  obtains lp' where "reify_first lp = Some lp'" "loop_ok lp'" "lp_pendings lp' = lp_pendings lp"
    "lp_now lp' = lp_now lp" "lp_rfeeds lp' = lp_rfeeds lp @ [w]"
    "\<And>x. x \<noteq> w \<Longrightarrow> unmoved (lp_watchers lp x) (lp_watchers lp' x)"
    "renewed (lp_now lp) (lp_watchers lp w) (lp_watchers lp' w)" "card (late lp') < card (late lp)"
proof -
  let ?t = "lp_watchers lp w" and ?e = "lp_timers lp HEAP0" and ?n = "lp_timercnt lp"
  note T = timers_okD[OF loop_okD(1)[OF ok]]
  have root: "HEAP0 \<in> slots ?n" using n by auto
  have act: "ev_active ?t = HEAP0" and at: "ev_at ?t = he_at ?e" using T(1,2)[OF root] w by auto
  have fin: "finite (late lp)" by (simp add: late_def)
  have in_late: "?e \<in> late lp" using root top by (auto simp: late_def)
  show thesis
  proof (cases "ev_repeat ?t = 0")
    case True
    have nz: "ev_active ?t \<noteq> 0" by (simp add: act HEAP0_eq)
    show thesis
    proof (rule stop_effect[OF ok, of w])
    fix lp1 assume s: "ev_timer_stop w lp = Some lp1" "loop_ok lp1"
      "same_queues (clear_pending w lp) lp1" "\<And>x. x \<noteq> w \<Longrightarrow> unmoved (lp_watchers lp x) (lp_watchers lp1 x)"
      "ev_active (lp_watchers lp1 w) = 0" "ev_pending (lp_watchers lp1 w) = 0"
      "ev_repeat (lp_watchers lp1 w) = ev_repeat ?t"
      and img: "ev_active ?t \<noteq> 0 \<Longrightarrow> ?n = Suc (lp_timercnt lp1) \<and>
        lp_timers lp1 ` slots (lp_timercnt lp1) = lp_timers lp ` slots ?n - {lp_timers lp (ev_active ?t)}"
    have img': "lp_timers lp1 ` slots (lp_timercnt lp1) = lp_timers lp ` slots ?n - {?e}"
      using img[OF nz] unfolding act by (rule conjunct2)
    have "late lp1 = late lp - {?e}"
      unfolding late_def img' using s(3) clear_not_pending[OF idle] by (auto simp: same_queues_def)
    then have "card (late lp1) < card (late lp)" using card_Diff1_less[OF fin in_late] by simp
    moreover have "reify_first lp = Some (feed_reverse w lp1)"
      using True s(1) w by (simp add: reify_first_def Let_def)
    moreover have "loop_ok (feed_reverse w lp1)"
      using s(2) by (rule feed_reverse_ok)
    ultimately show thesis
      using that[of "feed_reverse w lp1"] s True idle stop_fields[OF s(1) ok] nz clear_not_pending[OF idle]
      by (simp add: feed_reverse_def same_queues_def renewed_def late_def)
    qed
  next
    case False
    have pos: "0 < ev_repeat ?t"
      using loop_okD(4)[OF ok] False by (auto simp: repeats_ok_def order_less_le)
    let ?a = "max (lp_now lp) (ev_at ?t + ev_repeat ?t)"
    define lp1 where "lp1 = set_watcher w (?t\<lparr>ev_at := ?a\<rparr>) lp"
    define lp2 where "lp2 = set_heap (adjustheap ((lp_timers lp1)(HEAP0 := (lp_timers lp1 HEAP0)\<lparr>he_at := ?a\<rparr>), lp_watchers lp1) (lp_timercnt lp1) HEAP0) lp1"
    have A: "loop_ok lp2 \<and> same_queues lp lp2 \<and> lp_timercnt lp2 = ?n \<and>
      (\<forall>x. x \<noteq> w \<longrightarrow> unmoved (lp_watchers lp x) (lp_watchers lp2 x)) \<and>
      unmoved (?t\<lparr>ev_at := ?a\<rparr>) (lp_watchers lp2 w) \<and>
      lp_timers lp2 ` slots (lp_timercnt lp2) = ((lp_timers lp)(HEAP0 := ?e\<lparr>he_at := ?a\<rparr>)) ` slots ?n"
      by (rule active_at[OF ok act _ lp1_def lp2_def]) (simp add: HEAP0_eq)
    have max: "(if ev_at ?t + ev_repeat ?t < lp_now lp then lp_now lp else ev_at ?t + ev_repeat ?t) = ?a"
      by (auto simp: max_def)
    have step: "reify_first lp = Some (feed_reverse w lp2)"
      using pos w max False by (simp add: reify_first_def Let_def lp2_def lp1_def set_watcher_def adjustheap_def)
    have "late lp2 \<subseteq> late lp - {?e}"
    proof
      fix e assume "e \<in> late lp2"
      with A have e: "he_at e < lp_now lp" "e \<in> ((lp_timers lp)(HEAP0 := ?e\<lparr>he_at := ?a\<rparr>)) ` slots ?n"
        by (auto simp: late_def same_queues_def)
      then obtain i where i: "i \<in> slots ?n" "e = ((lp_timers lp)(HEAP0 := ?e\<lparr>he_at := ?a\<rparr>)) i" by blast
      have "i \<noteq> HEAP0" using e(1) i(2) by (auto simp: max_def split: if_splits)
      moreover from this have "lp_timers lp i \<noteq> ?e" using inj_onD[OF T(5), of i HEAP0] i(1) root by auto
      ultimately show "e \<in> late lp - {?e}" using e i by (auto simp: late_def)
    qed
    with fin have "card (late lp2) \<le> card (late lp - {?e})" by (intro card_mono) auto
    also have "\<dots> < card (late lp)" by (rule card_Diff1_less[OF fin in_late])
    finally have "card (late lp2) < card (late lp)" .
    moreover have "loop_ok (feed_reverse w lp2)"
      using A by (intro feed_reverse_ok) blast
    moreover have "renewed (lp_now lp) ?t (lp_watchers lp2 w)"
      using A unmovedD[of "?t\<lparr>ev_at := ?a\<rparr>" "lp_watchers lp2 w"] False act by (auto simp: renewed_def HEAP0_eq)
    ultimately show thesis
      using that[OF step] A by (simp add: feed_reverse_def same_queues_def late_def)
  qed
qed

lemma expired_first:
  assumes "loop_ok lp" "he_at (lp_timers lp HEAP0) < lp_now lp" "lp_timercnt lp \<noteq> 0"
  shows "he_w (lp_timers lp HEAP0) \<in> expired lp"
    "x \<in> expired lp \<Longrightarrow> ev_at (lp_watchers lp (he_w (lp_timers lp HEAP0))) \<le> ev_at (lp_watchers lp x)"
proof -
  note T = timers_okD[OF loop_okD(1)[OF assms(1)]]
  have root: "HEAP0 \<in> slots (lp_timercnt lp)" using assms(3) by auto
  show "he_w (lp_timers lp HEAP0) \<in> expired lp"
    using T(1,2)[OF root] assms(2) by (auto simp: expired_def HEAP0_eq)
  assume "x \<in> expired lp"
  then have "ev_active (lp_watchers lp x) \<noteq> 0" by (simp add: expired_def)
  from T(4)[OF this] root_least[OF T(3), of "ev_active (lp_watchers lp x)"] T(2) root
  show "ev_at (lp_watchers lp (he_w (lp_timers lp HEAP0))) \<le> ev_at (lp_watchers lp x)" by metis
qed

lemma not_expired:
  assumes "loop_ok lp" "\<not> (lp_timercnt lp \<noteq> 0 \<and> he_at (lp_timers lp HEAP0) < lp_now lp)"
  shows "expired lp = {}"
proof -
  note T = timers_okD[OF loop_okD(1)[OF assms(1)]]
  have "lp_now lp \<le> ev_at (lp_watchers lp x)" if "ev_active (lp_watchers lp x) \<noteq> 0" for x
    using T(4)[OF that] root_least[OF T(3), of "ev_active (lp_watchers lp x)"] T(2)[of "ev_active (lp_watchers lp x)"] assms(2)
    by (metis add_0 atLeastLessThan_iff leD leI order_trans)
  then show ?thesis unfolding expired_def by (blast dest: leD)
qed

text \<open>The loop ends, and takes the expired timers in the order of their times.\<close>

lemma reify_loop_effect:
  assumes "loop_ok lp" "\<And>x. ev_active (lp_watchers lp x) \<noteq> 0 \<Longrightarrow> ev_pending (lp_watchers lp x) = 0"
  shows "\<exists>lp' ws. reify_loop lp = Some lp' \<and> loop_ok lp' \<and> lp_pendings lp' = lp_pendings lp \<and>
    lp_now lp' = lp_now lp \<and> lp_rfeeds lp' = lp_rfeeds lp @ ws \<and> expired lp' = {} \<and>
    set ws = expired lp \<and> distinct ws \<and> sorted (map (\<lambda>x. ev_at (lp_watchers lp x)) ws) \<and>
    (\<forall>x. x \<notin> expired lp \<longrightarrow> unmoved (lp_watchers lp x) (lp_watchers lp' x)) \<and>
    (\<forall>x \<in> expired lp. renewed (lp_now lp) (lp_watchers lp x) (lp_watchers lp' x))"
  using assms
proof (induction "card (late lp)" arbitrary: lp rule: less_induct)
  case less
  note ok = less(2)
  show ?case
  proof (cases "lp_timercnt lp \<noteq> 0 \<and> he_at (lp_timers lp HEAP0) < lp_now lp")
    case False
    then have "reify_loop lp = Some lp" by (subst reify_loop.simps) auto
    with not_expired[OF ok False] ok show ?thesis by (intro exI[of _ lp] exI[of _ "[]"]) simp
  next
    case True
    define w where "w = he_w (lp_timers lp HEAP0)"
    note F = expired_first[OF ok, folded w_def]
    have exp: "w \<in> expired lp" and least: "\<And>x. x \<in> expired lp \<Longrightarrow> ev_at (lp_watchers lp w) \<le> ev_at (lp_watchers lp x)"
      using F True by auto
    have idle: "ev_pending (lp_watchers lp w) = 0" using less(3) exp by (simp add: expired_def)
    from reify_first_effect[OF ok _ _ w_def idle] True obtain lp1 where
      step: "reify_first lp = Some lp1" and ok1: "loop_ok lp1" and q1: "lp_pendings lp1 = lp_pendings lp"
      "lp_now lp1 = lp_now lp" "lp_rfeeds lp1 = lp_rfeeds lp @ [w]"
      and other: "\<And>x. x \<noteq> w \<Longrightarrow> unmoved (lp_watchers lp x) (lp_watchers lp1 x)"
      and new: "renewed (lp_now lp) (lp_watchers lp w) (lp_watchers lp1 w)" and smaller: "card (late lp1) < card (late lp)"
      by metis
    have w1: "w \<notin> expired lp1"
      using new by (auto simp: expired_def renewed_def q1 split: if_splits)
    have exp1: "expired lp1 = expired lp - {w}"
    proof (rule set_eqI)
      fix x show "x \<in> expired lp1 \<longleftrightarrow> x \<in> expired lp - {w}"
        using w1 unmovedD[OF other[of x]] by (cases "x = w") (auto simp: expired_def q1)
    qed
    have idle1: "ev_pending (lp_watchers lp1 x) = 0" if "ev_active (lp_watchers lp1 x) \<noteq> 0" for x
      using unmovedD[OF other[of x]] less(3)[of x] that new idle by (cases "x = w") (auto simp: renewed_def)
    from less(1)[OF smaller ok1 idle1] obtain lp' ws where
      rec: "reify_loop lp1 = Some lp'" "loop_ok lp'" "lp_pendings lp' = lp_pendings lp1" "lp_now lp' = lp_now lp1"
        "lp_rfeeds lp' = lp_rfeeds lp1 @ ws" "expired lp' = {}" "set ws = expired lp1" "distinct ws"
        "sorted (map (\<lambda>x. ev_at (lp_watchers lp1 x)) ws)"
      and un: "\<And>x. x \<notin> expired lp1 \<Longrightarrow> unmoved (lp_watchers lp1 x) (lp_watchers lp' x)"
      and rn: "\<And>x. x \<in> expired lp1 \<Longrightarrow> renewed (lp_now lp1) (lp_watchers lp1 x) (lp_watchers lp' x)"
      by metis
    have at: "map (\<lambda>x. ev_at (lp_watchers lp1 x)) ws = map (\<lambda>x. ev_at (lp_watchers lp x)) ws"
      using rec(7) exp1 unmovedD(3)[OF other] by (intro map_cong) auto
    have "reify_loop lp = Some lp'" using True step rec(1) by (subst reify_loop.simps) auto
    moreover have "set (w # ws) = expired lp" "distinct (w # ws)" using rec(7,8) exp exp1 by auto
    moreover have "sorted (map (\<lambda>x. ev_at (lp_watchers lp x)) (w # ws))"
      using rec(9) least exp1 rec(7) unfolding at by auto
    moreover have "unmoved (lp_watchers lp x) (lp_watchers lp' x)" if "x \<notin> expired lp" for x
    proof -
      have "x \<noteq> w" "x \<notin> expired lp1" using that exp exp1 by auto
      with unmoved_trans[OF other[of x] un[of x]] show ?thesis by simp
    qed
    moreover have "renewed (lp_now lp) (lp_watchers lp x) (lp_watchers lp' x)" if "x \<in> expired lp" for x
    proof (cases "x = w")
      case True
      with renewed_unmoved[OF new un[OF w1]] show ?thesis by simp
    next
      case False
      with that exp1 have "x \<in> expired lp1" by auto
      from rn[OF this] unmovedD[OF other[OF False]] show ?thesis by (simp add: renewed_def q1)
    qed
    ultimately show ?thesis using rec q1 by (intro exI[of _ lp'] exI[of _ "w # ws"]) simp
  qed
qed

text \<open>Feeding watchers that are not pending.\<close>

lemma feed_effect:
  fixes lp :: "'t::{linorder,zero} ev_loop" and ev :: c_int
  assumes ok: "loop_ok lp" and idle: "ev_pending (lp_watchers lp w) = 0"
    and pri: "ev_priority (lp_watchers lp w) \<in> {EV_MINPRI..EV_MAXPRI}"
  defines "lp' \<equiv> ev_feed_event ev w lp"
  shows "loop_ok lp'" "lp_rfeeds lp' = lp_rfeeds lp" "lp_now lp' = lp_now lp" "lp_timercnt lp' = lp_timercnt lp"
    "lp_timers lp' = lp_timers lp"
    "lp_pendings lp' p = lp_pendings lp p @ (if p = ABSPRI (lp_watchers lp w) then [(Some w, ev)] else [])"
    "x \<noteq> w \<Longrightarrow> lp_watchers lp' x = lp_watchers lp x"
    "lp_watchers lp' w = (lp_watchers lp w)\<lparr>ev_pending := length (lp_pendings lp (ABSPRI (lp_watchers lp w))) + 1\<rparr>"
proof -
  let ?p = "ABSPRI (lp_watchers lp w)" let ?q = "lp_pendings lp ?p"
  have eq: "lp' = set_watcher w ((lp_watchers lp w)\<lparr>ev_pending := length ?q + 1\<rparr>) (set_pending ?p (?q @ [(Some w, ev)]) lp)"
    using idle by (simp add: lp'_def ev_feed_event_def Let_def)
  show fields: "lp_rfeeds lp' = lp_rfeeds lp" "lp_now lp' = lp_now lp" "lp_timercnt lp' = lp_timercnt lp"
    "lp_timers lp' = lp_timers lp"
    and q: "\<And>p. lp_pendings lp' p = lp_pendings lp p @ (if p = ?p then [(Some w, ev)] else [])"
    and other: "\<And>x. x \<noteq> w \<Longrightarrow> lp_watchers lp' x = lp_watchers lp x"
    and w: "lp_watchers lp' w = (lp_watchers lp w)\<lparr>ev_pending := length ?q + 1\<rparr>"
    by (simp_all add: eq set_watcher_def set_pending_def)
  note P = pendings_okD[OF loop_okD(2)[OF ok]]
  have "pendings_ok lp'"
    unfolding pendings_ok_def
  proof (intro conjI allI impI)
    fix x assume x: "ev_pending (lp_watchers lp' x) \<noteq> 0"
    show "ev_priority (lp_watchers lp' x) \<in> {EV_MINPRI..EV_MAXPRI}"
      using P(1)[of x] x other[of x] w pri by (cases "x = w") auto
    show "ev_pending (lp_watchers lp' x) \<le> length (lp_pendings lp' (ABSPRI (lp_watchers lp' x)))"
      using P(2)[of x] x other[of x] w by (cases "x = w") (auto simp: q ABSPRI_def)
    show "fst (lp_pendings lp' (ABSPRI (lp_watchers lp' x)) ! (ev_pending (lp_watchers lp' x) - 1)) = Some x"
    proof (cases "x = w")
      case True
      then show ?thesis by (simp add: w q ABSPRI_def)
    next
      case False
      with x other have "ev_pending (lp_watchers lp x) \<noteq> 0" by simp
      moreover from this P(2)[OF this]
      have "ev_pending (lp_watchers lp x) - 1 < length (lp_pendings lp (ABSPRI (lp_watchers lp x)))" by simp
      ultimately show ?thesis using P(3)[of x] other[OF False] by (simp add: q nth_append)
    qed
  next
    fix p j x assume j: "j < length (lp_pendings lp' p)" and e: "fst (lp_pendings lp' p ! j) = Some x"
    show "ev_pending (lp_watchers lp' x) = j + 1" "ABSPRI (lp_watchers lp' x) = p"
    proof (atomize (full), cases "j < length (lp_pendings lp p)")
      case True
      with e have "fst (lp_pendings lp p ! j) = Some x" by (simp add: q nth_append split: if_splits)
      from P(4)[OF True this] have "x \<noteq> w" "ev_pending (lp_watchers lp x) = j + 1 \<and> ABSPRI (lp_watchers lp x) = p"
        using idle by auto
      with other show "ev_pending (lp_watchers lp' x) = j + 1 \<and> ABSPRI (lp_watchers lp' x) = p" by simp
    next
      case False
      with j e have "p = ?p" "j = length ?q" "x = w" by (auto simp: q nth_append split: if_splits)
      then show "ev_pending (lp_watchers lp' x) = j + 1 \<and> ABSPRI (lp_watchers lp' x) = p"
        by (simp add: w ABSPRI_def)
    qed
  qed
  moreover have same: "ev_active (lp_watchers lp' x) = ev_active (lp_watchers lp x)"
    "ev_at (lp_watchers lp' x) = ev_at (lp_watchers lp x)" "ev_repeat (lp_watchers lp' x) = ev_repeat (lp_watchers lp x)"
    "ev_priority (lp_watchers lp' x) = ev_priority (lp_watchers lp x)" for x
    using other[of x] w by (cases "x = w"; simp)+
  moreover have "timers_ok (lp_timers lp) (lp_timercnt lp) (lp_watchers lp')"
    using timers_ok_cong[of "lp_watchers lp'" "lp_watchers lp", OF same(1,2)] loop_okD(1)[OF ok] by simp
  ultimately show "loop_ok lp'"
    using loop_okD(3,4)[OF ok] by (simp add: loop_ok_def fields prios_ok_def repeats_ok_def same)
qed

text \<open>A watcher that was fed differs from what it was in \<open>pending\<close> only.\<close>

definition fed :: "'t ev_timer \<Rightarrow> 't ev_timer \<Rightarrow> bool" where
  "fed t t' = (ev_pending t' \<noteq> 0 \<and> t'\<lparr>ev_pending := 0\<rparr> = t\<lparr>ev_pending := 0\<rparr>)"

lemma fedD:
  assumes "fed t t'"
  shows "ev_pending t' \<noteq> 0" "ev_active t' = ev_active t" "ev_at t' = ev_at t" "ev_repeat t' = ev_repeat t"
    "ev_priority t' = ev_priority t"
proof -
  from assms have eq: "t'\<lparr>ev_pending := 0\<rparr> = t\<lparr>ev_pending := 0\<rparr>" and "ev_pending t' \<noteq> 0" by (simp_all add: fed_def)
  then show "ev_pending t' \<noteq> 0" by simp
  show "ev_active t' = ev_active t" using arg_cong[OF eq, of ev_active] by simp
  show "ev_at t' = ev_at t" using arg_cong[OF eq, of ev_at] by simp
  show "ev_repeat t' = ev_repeat t" using arg_cong[OF eq, of ev_repeat] by simp
  show "ev_priority t' = ev_priority t" using arg_cong[OF eq, of ev_priority] by simp
qed

lemma feeds_effect:
  assumes "loop_ok lp" "distinct ws" "\<And>x. x \<in> set ws \<Longrightarrow> ev_pending (lp_watchers lp x) = 0"
    "\<And>x. x \<in> set ws \<Longrightarrow> ev_priority (lp_watchers lp x) \<in> {EV_MINPRI..EV_MAXPRI}"
  shows "loop_ok (foldr (ev_feed_event ev) ws lp) \<and> lp_now (foldr (ev_feed_event ev) ws lp) = lp_now lp \<and>
    lp_rfeeds (foldr (ev_feed_event ev) ws lp) = lp_rfeeds lp \<and>
    (\<forall>p. lp_pendings (foldr (ev_feed_event ev) ws lp) p =
      lp_pendings lp p @ map (\<lambda>w. (Some w, ev)) (rev (filter (\<lambda>w. ABSPRI (lp_watchers lp w) = p) ws))) \<and>
    (\<forall>x. x \<notin> set ws \<longrightarrow> lp_watchers (foldr (ev_feed_event ev) ws lp) x = lp_watchers lp x) \<and>
    (\<forall>x \<in> set ws. fed (lp_watchers lp x) (lp_watchers (foldr (ev_feed_event ev) ws lp) x))"
  using assms
proof (induction ws)
  case (Cons w ws)
  let ?lp = "foldr (ev_feed_event ev) ws lp"
  from Cons have IH: "loop_ok ?lp" "lp_now ?lp = lp_now lp" "lp_rfeeds ?lp = lp_rfeeds lp"
    "\<And>p. lp_pendings ?lp p = lp_pendings lp p @ map (\<lambda>w. (Some w, ev)) (rev (filter (\<lambda>w. ABSPRI (lp_watchers lp w) = p) ws))"
    "\<And>x. x \<notin> set ws \<Longrightarrow> lp_watchers ?lp x = lp_watchers lp x"
    "\<And>x. x \<in> set ws \<Longrightarrow> fed (lp_watchers lp x) (lp_watchers ?lp x)" by auto
  have w: "lp_watchers ?lp w = lp_watchers lp w" using IH(5)[of w] Cons(3) by simp
  have idle: "ev_pending (lp_watchers ?lp w) = 0" and pri: "ev_priority (lp_watchers ?lp w) \<in> {EV_MINPRI..EV_MAXPRI}"
    using Cons(4,5)[of w] w by simp_all
  note F = feed_effect[OF IH(1) idle pri, where ev = ev]
  have "fed (lp_watchers lp w) (lp_watchers (ev_feed_event ev w ?lp) w)" unfolding F(8) w fed_def by simp
  moreover have out: "lp_watchers (ev_feed_event ev w ?lp) x = lp_watchers ?lp x" if "x \<noteq> w" for x using F(7) that .
  moreover have "fed (lp_watchers lp x) (lp_watchers (ev_feed_event ev w ?lp) x)" if "x \<in> set ws" for x
  proof -
    have "x \<noteq> w" using Cons(3) that by auto
    from IH(6)[OF that] show ?thesis unfolding out[OF \<open>x \<noteq> w\<close>] .
  qed
  ultimately show ?case using F(1-3,6) IH w by auto
qed simp

lemma timers_reify_effect:
  assumes "loop_ok lp" "lp_rfeeds lp = []"
    "\<And>x. ev_active (lp_watchers lp x) \<noteq> 0 \<Longrightarrow> ev_pending (lp_watchers lp x) = 0"
  shows "\<exists>lp' ws. timers_reify lp = Some lp' \<and> loop_ok lp' \<and> lp_rfeeds lp' = [] \<and> expired lp' = {} \<and>
    set ws = expired lp \<and> distinct ws \<and> sorted (map (\<lambda>x. ev_at (lp_watchers lp x)) ws) \<and>
    (\<forall>p. lp_pendings lp' p = lp_pendings lp p @
       map (\<lambda>w. (Some w, EV_TIMER)) (rev (filter (\<lambda>w. ABSPRI (lp_watchers lp w) = p) ws))) \<and>
    (\<forall>x. x \<notin> expired lp \<longrightarrow> unmoved (lp_watchers lp x) (lp_watchers lp' x)) \<and>
    (\<forall>x \<in> expired lp. \<exists>t. renewed (lp_now lp) (lp_watchers lp x) t \<and> fed t (lp_watchers lp' x))"
proof (cases "lp_timercnt lp \<noteq> 0 \<and> he_at (lp_timers lp HEAP0) < lp_now lp")
  case False
  then have "timers_reify lp = Some lp" by (auto simp: timers_reify_def)
  with not_expired[OF assms(1) False] assms(1,2) show ?thesis
    by (intro exI[of _ lp] exI[of _ "[]"]) simp
next
  case True
  from reify_loop_effect[OF assms(1,3)] obtain lp1 ws where
    r: "reify_loop lp = Some lp1" "loop_ok lp1" "lp_pendings lp1 = lp_pendings lp" "lp_now lp1 = lp_now lp"
      "lp_rfeeds lp1 = lp_rfeeds lp @ ws" "expired lp1 = {}" "set ws = expired lp" "distinct ws"
      "sorted (map (\<lambda>x. ev_at (lp_watchers lp x)) ws)"
    and un: "\<And>x. x \<notin> expired lp \<Longrightarrow> unmoved (lp_watchers lp x) (lp_watchers lp1 x)"
    and rn: "\<And>x. x \<in> expired lp \<Longrightarrow> renewed (lp_now lp) (lp_watchers lp x) (lp_watchers lp1 x)" by metis
  have pri: "ABSPRI (lp_watchers lp1 x) = ABSPRI (lp_watchers lp x)" if "x \<in> set ws" for x
    using rn[of x] that r(7) by (simp add: renewed_def ABSPRI_def)
  let ?lp1 = "lp1\<lparr>lp_rfeeds := []\<rparr>" let ?lp' = "foldr (ev_feed_event EV_TIMER) ws ?lp1"
  have ok: "loop_ok ?lp1" using r(2) by (simp add: loop_ok_def pendings_ok_def)
  have idle: "ev_pending (lp_watchers ?lp1 x) = 0" if "x \<in> set ws" for x
    using rn[of x] that r(7) assms(3)[of x] by (simp add: renewed_def expired_def)
  have range: "ev_priority (lp_watchers ?lp1 x) \<in> {EV_MINPRI..EV_MAXPRI}" if "x \<in> set ws" for x
    using rn[of x] that r(7) loop_okD(3)[OF assms(1)] by (auto simp: renewed_def expired_def prios_ok_def)
  note F = feeds_effect[OF ok r(8) idle range, of EV_TIMER]
  have step: "timers_reify lp = Some ?lp'"
    using True r(1,5) assms(2) by (simp add: timers_reify_def feed_reverse_done_def)
  have "filter (\<lambda>w. ABSPRI (lp_watchers lp1 w) = p) ws = filter (\<lambda>w. ABSPRI (lp_watchers lp w) = p) ws" for p
    using pri by (intro filter_cong) auto
  then have q: "lp_pendings ?lp' p = lp_pendings lp p @
      map (\<lambda>w. (Some w, EV_TIMER)) (rev (filter (\<lambda>w. ABSPRI (lp_watchers lp w) = p) ws))" for p
    using F r(3) by simp
  have un': "unmoved (lp_watchers lp x) (lp_watchers ?lp' x)" if "x \<notin> expired lp" for x
    using un[OF that] F that r(7) by simp
  have rn': "\<exists>t. renewed (lp_now lp) (lp_watchers lp x) t \<and> fed t (lp_watchers ?lp' x)" if "x \<in> expired lp" for x
    using rn[OF that] F that r(7) by auto
  have same: "ev_active (lp_watchers ?lp' x) = ev_active (lp_watchers lp1 x) \<and> ev_at (lp_watchers ?lp' x) = ev_at (lp_watchers lp1 x)" for x
    using F fedD[of "lp_watchers lp1 x" "lp_watchers ?lp' x"] by (cases "x \<in> set ws") auto
  have "expired ?lp' = {}"
    using r(6) F by (auto simp: expired_def same)
  with F q un' rn' show ?thesis
    by (intro exI[of _ ?lp'] exI[of _ ws]) (auto simp: step r(7-9))
qed

section \<open>Reachable states\<close>

lemma feed_pending_ok:
  assumes ok: "loop_ok lp" and w: "ev_pending (lp_watchers lp w) \<noteq> 0"
  shows "loop_ok (ev_feed_event ev w lp)"
proof -
  let ?p = "ABSPRI (lp_watchers lp w)" and ?j = "ev_pending (lp_watchers lp w) - 1"
  let ?lp = "ev_feed_event ev w lp"
  have eq: "?lp = set_pending ?p ((lp_pendings lp ?p)[?j := (fst (lp_pendings lp ?p ! ?j), snd (lp_pendings lp ?p ! ?j) OR ev)]) lp"
    using w by (simp add: ev_feed_event_def Let_def)
  have len: "length (lp_pendings ?lp p) = length (lp_pendings lp p)" for p by (simp add: eq set_pending_def)
  have fst: "fst (lp_pendings ?lp p ! j) = fst (lp_pendings lp p ! j)" if "j < length (lp_pendings lp p)" for p j
    using that by (cases "j = ?j") (auto simp: eq set_pending_def)
  have ws: "lp_watchers ?lp = lp_watchers lp" by (simp add: eq set_pending_def)
  note P = pendings_okD[OF loop_okD(2)[OF ok]]
  have "pendings_ok ?lp"
    unfolding pendings_ok_def ws len
  proof (intro conjI allI impI)
    fix x assume x: "ev_pending (lp_watchers lp x) \<noteq> 0"
    show "ev_priority (lp_watchers lp x) \<in> {EV_MINPRI..EV_MAXPRI}" by (rule P(1)[OF x])
    show "ev_pending (lp_watchers lp x) \<le> length (lp_pendings lp (ABSPRI (lp_watchers lp x)))" by (rule P(2)[OF x])
    from P(2)[OF x] x have "ev_pending (lp_watchers lp x) - 1 < length (lp_pendings lp (ABSPRI (lp_watchers lp x)))" by simp
    from fst[OF this] P(3)[OF x]
    show "fst (lp_pendings ?lp (ABSPRI (lp_watchers lp x)) ! (ev_pending (lp_watchers lp x) - 1)) = Some x" by simp
  next
    fix p j x assume j: "j < length (lp_pendings lp p)" and "fst (lp_pendings ?lp p ! j) = Some x"
    then have "fst (lp_pendings lp p ! j) = Some x" by (simp add: fst)
    from P(4)[OF j this] show "ev_pending (lp_watchers lp x) = j + 1" "ABSPRI (lp_watchers lp x) = p" by auto
  qed
  then show ?thesis using ok by (simp add: loop_ok_def ws) (simp add: eq set_pending_def)
qed

lemma invoke_next_ok:
  assumes ok: "loop_ok lp" and "invoke_next lp = Some (e, lp')"
  shows "loop_ok lp' \<and> lp_rfeeds lp' = lp_rfeeds lp"
proof -
  from assms(2) obtain p where p: "pending_pri lp = Some p" and e: "e = last (lp_pendings lp p)"
    by (auto simp: invoke_next_def Let_def split: option.splits)
  let ?q = "lp_pendings lp p"
  have q: "?q \<noteq> []" using p by (auto simp: pending_pri_def find_Some_iff)
  have lp': "lp' = (case fst e of None \<Rightarrow> set_pending p (butlast ?q) lp
      | Some w \<Rightarrow> set_watcher w ((lp_watchers lp w)\<lparr>ev_pending := 0\<rparr>) (set_pending p (butlast ?q) lp))"
    using assms(2) p e by (auto simp: invoke_next_def Let_def set_pending_def split: option.split)
  note P = pendings_okD[OF loop_okD(2)[OF ok]]
  have last: "e = ?q ! (length ?q - 1)" "length ?q - 1 < length ?q" using q e by (auto simp: last_conv_nth)
  have qs: "lp_pendings lp' r = (if r = p then butlast ?q else lp_pendings lp r)" for r
    by (simp add: lp' set_pending_def set_watcher_def split: option.split)
  have ws: "lp_watchers lp' x = (if fst e = Some x then (lp_watchers lp x)\<lparr>ev_pending := 0\<rparr> else lp_watchers lp x)" for x
    by (simp add: lp' set_pending_def set_watcher_def split: option.split)
  have "pendings_ok lp'"
    unfolding pendings_ok_def
  proof (intro conjI allI impI)
    fix x assume x': "ev_pending (lp_watchers lp' x) \<noteq> 0"
    then have ne: "fst e \<noteq> Some x" and x: "ev_pending (lp_watchers lp x) \<noteq> 0" by (auto simp: ws split: if_splits)
    then have same: "lp_watchers lp' x = lp_watchers lp x" by (simp add: ws)
    show "ev_priority (lp_watchers lp' x) \<in> {EV_MINPRI..EV_MAXPRI}" using P(1)[OF x] by (simp add: same)
    have "ev_pending (lp_watchers lp x) \<le> length ?q - 1" if "ABSPRI (lp_watchers lp x) = p"
    proof -
      have "ev_pending (lp_watchers lp x) - 1 \<noteq> length ?q - 1" using P(3)[OF x] that ne last(1) by auto
      with P(2)[OF x] that x show ?thesis by auto
    qed
    then show "ev_pending (lp_watchers lp' x) \<le> length (lp_pendings lp' (ABSPRI (lp_watchers lp' x)))"
      "fst (lp_pendings lp' (ABSPRI (lp_watchers lp' x)) ! (ev_pending (lp_watchers lp' x) - 1)) = Some x"
      using P(2,3)[OF x] x by (auto simp: same qs nth_butlast)
  next
    fix r j x assume j: "j < length (lp_pendings lp' r)" and f: "fst (lp_pendings lp' r ! j) = Some x"
    have jl: "j < length (lp_pendings lp r)" "fst (lp_pendings lp r ! j) = Some x"
      using j f by (auto simp: qs nth_butlast split: if_splits)
    note old = P(4)[OF jl]
    have "fst e \<noteq> Some x"
    proof
      assume "fst e = Some x"
      with P(4)[OF last(2)] last(1) have "ev_pending (lp_watchers lp x) = length ?q" "ABSPRI (lp_watchers lp x) = p"
        using q by auto
      with old j show False by (auto simp: qs)
    qed
    with old show "ev_pending (lp_watchers lp' x) = j + 1" "ABSPRI (lp_watchers lp' x) = r" by (simp_all add: ws)
  qed
  moreover have same: "ev_active (lp_watchers lp' x) = ev_active (lp_watchers lp x)"
    "ev_at (lp_watchers lp' x) = ev_at (lp_watchers lp x)" "ev_repeat (lp_watchers lp' x) = ev_repeat (lp_watchers lp x)"
    "ev_priority (lp_watchers lp' x) = ev_priority (lp_watchers lp x)" for x
    by (simp_all add: ws)
  moreover have fields: "lp_timers lp' = lp_timers lp" "lp_timercnt lp' = lp_timercnt lp" "lp_rfeeds lp' = lp_rfeeds lp"
    by (simp_all add: lp' set_pending_def set_watcher_def split: option.split)
  moreover have "timers_ok (lp_timers lp) (lp_timercnt lp) (lp_watchers lp')"
    using timers_ok_cong[of "lp_watchers lp'" "lp_watchers lp", OF same(1,2)] loop_okD(1)[OF ok] by simp
  ultimately show ?thesis
    using loop_okD(3,4)[OF ok] by (simp add: loop_ok_def prios_ok_def repeats_ok_def)
qed

lemma timer_init_ok:
  assumes ok: "loop_ok lp" and "ev_active (lp_watchers lp w) = 0" "ev_pending (lp_watchers lp w) = 0"
    and t: "ev_active t = 0" "ev_pending t = 0" "0 \<le> ev_repeat t"
  shows "loop_ok (set_watcher w t lp)"
proof -
  have ne: "he_w (lp_timers lp i) \<noteq> w" if "i \<in> slots (lp_timercnt lp)" for i
    using timers_okD(1)[OF loop_okD(1)[OF ok] that] slots_pos[OF that] assms(2) by auto
  have "timers_ok (lp_timers lp) (lp_timercnt lp) ((lp_watchers lp)(w := t))"
    using loop_okD(1)[OF ok] ne t by (auto simp: timers_ok_def)
  moreover have "pendings_ok (set_watcher w t lp)"
    using pendings_okD[OF loop_okD(2)[OF ok]] assms(3) t
    unfolding pendings_ok_def by (auto simp: set_watcher_def)
  ultimately show ?thesis
    using loop_okD(3,4)[OF ok] t by (simp add: loop_ok_def set_watcher_def prios_ok_def repeats_ok_def)
qed

text \<open>
  What the program and the loop do with timers: initialise, start, stop and restart them, feed
  events to a watcher, advance the clock, make the expired timers pending, when none is
  pending, as the loop has then just invoked the pending watchers, and invoke one of these.
\<close>

inductive loop_step :: "'t::{linorder,plus,minus,zero} ev_loop \<Rightarrow> 't ev_loop \<Rightarrow> bool" where
  Init: "ev_active (lp_watchers lp w) = 0 \<Longrightarrow> ev_pending (lp_watchers lp w) = 0 \<Longrightarrow> 0 \<le> repeat \<Longrightarrow>
    loop_step lp (set_watcher w ((ev_timer_init after repeat)\<lparr>ev_priority := pri\<rparr>) lp)"
| Start: "ev_timer_start w lp = Some lp' \<Longrightarrow> loop_step lp lp'"
| Stop: "ev_timer_stop w lp = Some lp' \<Longrightarrow> loop_step lp lp'"
| Again: "ev_timer_again w lp = Some lp' \<Longrightarrow> loop_step lp lp'"
| Feed: "ev_priority (lp_watchers lp w) \<in> {EV_MINPRI..EV_MAXPRI} \<Longrightarrow> loop_step lp (ev_feed_event ev w lp)"
| Clock: "lp_now lp \<le> now \<Longrightarrow> loop_step lp (lp\<lparr>lp_now := now\<rparr>)"
| Reify: "(\<And>x. ev_active (lp_watchers lp x) \<noteq> 0 \<Longrightarrow> ev_pending (lp_watchers lp x) = 0) \<Longrightarrow>
    timers_reify lp = Some lp' \<Longrightarrow> loop_step lp lp'"
| Invoke: "invoke_next lp = Some (e, lp') \<Longrightarrow> loop_step lp lp'"

definition loop_new :: "'t::zero ev_loop" where
  "loop_new =
     \<lparr>lp_timers = (\<lambda>_. \<lparr>he_at = 0, he_w = 0\<rparr>), lp_timercnt = 0, lp_watchers = (\<lambda>_. ev_timer_init 0 0),
      lp_rfeeds = [], lp_pendings = (\<lambda>_. []), lp_activecnt = 0, lp_now = 0\<rparr>"

lemma loop_new_ok: "loop_ok (loop_new :: 't::{linorder,zero} ev_loop)"
  by (simp add: loop_ok_def loop_new_def timers_ok_def heap_ordered_def pendings_ok_def prios_ok_def
      repeats_ok_def ev_timer_init_def)

lemma loop_step_ok:
  assumes "loop_step lp lp'" "loop_ok lp" "lp_rfeeds lp = []"
  shows "loop_ok lp' \<and> lp_rfeeds lp' = []"
  using assms
proof (cases rule: loop_step.cases)
  case (Init w repeat after pri)
  with assms timer_init_ok[of lp w] show ?thesis
    by (auto simp: set_watcher_def[of _ _ lp] ev_timer_init_def)
next
  case (Start w)
  with assms start_effect[OF assms(2), of w] show ?thesis by (metis option.inject same_queues_def)
next
  case (Stop w)
  with assms stop_effect[OF assms(2), of w] show ?thesis
    by (metis option.inject same_queues_def clear_pending_fields(3))
next
  case (Again w)
  with assms again_effect[OF assms(2), of w] show ?thesis
    by (metis option.inject same_queues_def clear_pending_fields(3))
next
  case (Feed w ev)
  with assms feed_pending_ok[OF assms(2), of w ev] feed_effect(1,2)[OF assms(2), where w = w and ev = ev] show ?thesis
    by (cases "ev_pending (lp_watchers lp w) = 0") (auto simp: ev_feed_event_def Let_def set_pending_def)
next
  case (Clock now)
  with assms show ?thesis by (simp add: loop_ok_def pendings_ok_def)
next
  case Reify
  with assms timers_reify_effect[OF assms(2,3)] show ?thesis by (metis option.inject)
next
  case (Invoke e)
  with assms invoke_next_ok show ?thesis by metis
qed

text \<open>
  C25. Timers expire in order, each once.  \<open>timers_reify\<close> returns; the timers that it makes
  pending are those whose time has passed, queued behind what is pending already so that of
  one priority the earliest is invoked first; a timer that does not repeat is stopped, one
  that repeats is due again at its next time or, when it is late, now; all others are as
  they were, and no timer whose time has passed is left in the heap.
\<close>
theorem timers_expire:
  assumes "loop_ok lp" "lp_rfeeds lp = []"
    "\<And>x. ev_active (lp_watchers lp x) \<noteq> 0 \<Longrightarrow> ev_pending (lp_watchers lp x) = 0"
  shows "\<exists>lp' ws. timers_reify lp = Some lp' \<and> loop_ok lp' \<and> lp_rfeeds lp' = [] \<and> expired lp' = {} \<and>
    set ws = expired lp \<and> distinct ws \<and> sorted (map (\<lambda>x. ev_at (lp_watchers lp x)) ws) \<and>
    (\<forall>p. lp_pendings lp' p = lp_pendings lp p @
       map (\<lambda>w. (Some w, EV_TIMER)) (rev (filter (\<lambda>w. ABSPRI (lp_watchers lp w) = p) ws))) \<and>
    (\<forall>x. x \<notin> expired lp \<longrightarrow> unmoved (lp_watchers lp x) (lp_watchers lp' x)) \<and>
    (\<forall>x \<in> expired lp. \<exists>t. renewed (lp_now lp) (lp_watchers lp x) t \<and> fed t (lp_watchers lp' x))"
  by (rule timers_reify_effect[OF assms])

lemma start_two:
  fixes a b r :: int
  assumes "0 \<le> r"
  obtains lp where "loop_ok lp" "lp_rfeeds lp = []" "lp_now lp = 0" "\<And>p. lp_pendings lp p = []"
    "\<And>x. ev_pending (lp_watchers lp x) = 0" "\<And>x. ev_active (lp_watchers lp x) \<noteq> 0 \<longleftrightarrow> x = 1 \<or> x = 2"
    "ev_at (lp_watchers lp 1) = a" "ev_at (lp_watchers lp 2) = b" "\<And>x. ABSPRI (lp_watchers lp x) = 2"
proof -
  let ?lp0 = "set_watcher 2 (ev_timer_init b 0) (set_watcher 1 (ev_timer_init a r) loop_new)"
  have ok0: "loop_ok ?lp0"
    using assms by (intro timer_init_ok loop_new_ok) (simp_all add: loop_new_def ev_timer_init_def set_watcher_def)
  have w0: "ev_pending (lp_watchers ?lp0 x) = 0" "ev_active (lp_watchers ?lp0 x) = 0" "ev_priority (lp_watchers ?lp0 x) = 0" for x
    by (auto simp: set_watcher_def loop_new_def ev_timer_init_def)
  obtain lp1 where s1: "loop_ok lp1" "same_queues ?lp0 lp1"
    "\<And>x. x \<noteq> 1 \<Longrightarrow> unmoved (lp_watchers ?lp0 x) (lp_watchers lp1 x)" "ev_active (lp_watchers lp1 1) \<noteq> 0"
    "ev_pending (lp_watchers lp1 1) = ev_pending (lp_watchers ?lp0 1)"
    "ev_at (lp_watchers lp1 1) = (if ev_active (lp_watchers ?lp0 1) \<noteq> 0 then ev_at (lp_watchers ?lp0 1) else ev_at (lp_watchers ?lp0 1) + lp_now ?lp0)"
    "ev_priority (lp_watchers ?lp0 1) \<in> {EV_MINPRI..EV_MAXPRI} \<Longrightarrow> ev_priority (lp_watchers lp1 1) = ev_priority (lp_watchers ?lp0 1)"
    by (rule start_effect[OF ok0, of 1]) blast
  obtain lp2 where s2: "loop_ok lp2" "same_queues lp1 lp2"
    "\<And>x. x \<noteq> 2 \<Longrightarrow> unmoved (lp_watchers lp1 x) (lp_watchers lp2 x)" "ev_active (lp_watchers lp2 2) \<noteq> 0"
    "ev_pending (lp_watchers lp2 2) = ev_pending (lp_watchers lp1 2)"
    "ev_at (lp_watchers lp2 2) = (if ev_active (lp_watchers lp1 2) \<noteq> 0 then ev_at (lp_watchers lp1 2) else ev_at (lp_watchers lp1 2) + lp_now lp1)"
    "ev_priority (lp_watchers lp1 2) \<in> {EV_MINPRI..EV_MAXPRI} \<Longrightarrow> ev_priority (lp_watchers lp2 2) = ev_priority (lp_watchers lp1 2)"
    by (rule start_effect[OF s1(1), of 2]) blast
  have pri1: "ev_priority (lp_watchers lp1 x) = 0" "ev_pending (lp_watchers lp1 x) = 0" for x
    using s1(5,7) unmovedD[OF s1(3), of x] w0 by (cases "x = 1"; auto simp: EV_MINPRI_def EV_MAXPRI_def)+
  have pri2: "ev_priority (lp_watchers lp2 x) = 0" "ev_pending (lp_watchers lp2 x) = 0" for x
    using s2(5,7) unmovedD[OF s2(3), of x] pri1 by (cases "x = 2"; auto simp: EV_MINPRI_def EV_MAXPRI_def)+
  have act1: "ev_active (lp_watchers lp1 x) \<noteq> 0 \<longleftrightarrow> x = 1" for x
    using s1(4) unmovedD[OF s1(3), of x] w0 by (cases "x = 1") auto
  have act2: "ev_active (lp_watchers lp2 x) \<noteq> 0 \<longleftrightarrow> x = 1 \<or> x = 2" for x
    using s2(4) unmovedD[OF s2(3), of x] act1[of x] by (cases "x = 2") auto
  have "ev_at (lp_watchers lp2 1) = a"
    using unmovedD(3)[OF s2(3), of 1] s1(6) w0 by (simp add: set_watcher_def ev_timer_init_def loop_new_def)
  moreover have "ev_at (lp_watchers lp2 2) = b"
    using s2(6) act1[of 2] unmovedD(3)[OF s1(3), of 2] s1(2)
    by (simp add: set_watcher_def ev_timer_init_def loop_new_def same_queues_def)
  ultimately show thesis
    using that[of lp2] s2(1) s1(2) s2(2) act2 pri2
    by (simp add: same_queues_def set_watcher_def loop_new_def ABSPRI_def EV_MINPRI_def)
qed

theorem timers_expire_witness:
  "\<exists>lp lp'. loop_ok (lp :: int ev_loop) \<and> expired lp = {1, 2} \<and> timers_reify lp = Some lp' \<and>
     lp_pendings lp' 2 = [(Some 1, EV_TIMER), (Some 2, EV_TIMER)]"
proof -
  obtain lp0 :: "int ev_loop" where lp0: "loop_ok lp0" "lp_rfeeds lp0 = []" "lp_now lp0 = 0"
    "\<And>p. lp_pendings lp0 p = []" "\<And>x. ev_pending (lp_watchers lp0 x) = 0"
    "\<And>x. ev_active (lp_watchers lp0 x) \<noteq> 0 \<longleftrightarrow> x = 1 \<or> x = 2"
    "ev_at (lp_watchers lp0 1) = 5" "ev_at (lp_watchers lp0 2) = 3" "\<And>x. ABSPRI (lp_watchers lp0 x) = 2"
    by (rule start_two[of 7 5 3]) auto
  let ?lp = "lp0\<lparr>lp_now := 6\<rparr>"
  have ok: "loop_ok ?lp" using lp0(1) by (simp add: loop_ok_def pendings_ok_def)
  have exp: "expired ?lp = {1, 2}" using lp0(6,7,8) by (auto simp: expired_def)
  from timers_expire[OF ok] lp0 obtain lp' ws where r: "timers_reify ?lp = Some lp'" "set ws = {1, 2}" "distinct ws"
    "sorted (map (\<lambda>x. ev_at (lp_watchers lp0 x)) ws)"
    "\<And>p. lp_pendings lp' p = map (\<lambda>w. (Some w, EV_TIMER)) (rev (filter (\<lambda>w. ABSPRI (lp_watchers lp0 w) = p) ws))"
    by (auto simp: exp)
  have "length ws = 2" using r(2,3) distinct_card[of ws] by simp
  then obtain x y where "ws = [x, y]" by (auto simp: length_Suc_conv numeral_2_eq_2)
  with r(2-4) lp0(7,8) have "ws = [2, 1]" by (auto simp: doubleton_eq_iff)
  with r(5) lp0(9) have "lp_pendings lp' 2 = [(Some 1, EV_TIMER), (Some 2, EV_TIMER)]" by simp
  with ok exp r(1) show ?thesis by blast
qed

text \<open>
  C26. The event loop's own consistency check never fails.  From a new loop, whatever timers
  are initialised, started, stopped and restarted, whatever is fed, invoked and expires:
  the heap is ordered, every timer in it is where its \<open>active\<close> field says and nowhere else,
  the cached times are right, a pending watcher is in the queue of its priority where its
  \<open>pending\<close> field says, and no assertion of \<open>ev_timer_start\<close>, \<open>ev_timer_stop\<close> and
  \<open>ev_timer_again\<close> fails.
\<close>
theorem loop_invariant:
  assumes "loop_step\<^sup>*\<^sup>* loop_new lp"
  shows "timers_ok (lp_timers lp) (lp_timercnt lp) (lp_watchers lp) \<and> pendings_ok lp \<and>
    (\<forall>w. ev_timer_start w lp \<noteq> None \<and> ev_timer_stop w lp \<noteq> None \<and> ev_timer_again w lp \<noteq> None)"
proof -
  from assms have ok: "loop_ok lp \<and> lp_rfeeds lp = []"
  proof (induction rule: rtranclp_induct)
    case base
    then show ?case using loop_new_ok by (simp add: loop_new_def)
  qed (use loop_step_ok in blast)
  then have "ev_timer_start w lp \<noteq> None" "ev_timer_stop w lp \<noteq> None" "ev_timer_again w lp \<noteq> None" for w
    using start_effect[of lp w] stop_effect[of lp w] again_effect[of lp w] by (metis option.distinct(1))+
  with ok show ?thesis by (simp add: loop_ok_def)
qed

theorem loop_invariant_witness:
  "\<exists>lp. loop_step\<^sup>*\<^sup>* (loop_new :: int ev_loop) lp \<and> ev_active (lp_watchers lp 1) \<noteq> 0 \<and>
     timers_ok (lp_timers lp) (lp_timercnt lp) (lp_watchers lp)"
proof -
  let ?lp0 = "set_watcher 1 ((ev_timer_init 5 7)\<lparr>ev_priority := -1\<rparr>) (loop_new :: int ev_loop)"
  have 1: "loop_step loop_new ?lp0"
    by (rule Init) (simp_all add: loop_new_def ev_timer_init_def)
  have "loop_ok ?lp0" by (rule conjunct1[OF loop_step_ok[OF 1 loop_new_ok]]) (simp add: loop_new_def)
  then obtain lp1 where 2: "ev_timer_start 1 ?lp0 = Some lp1" "ev_active (lp_watchers lp1 1) \<noteq> 0"
    by (rule start_effect[of _ 1])
  from 1 Start[OF 2(1)] have "loop_step\<^sup>*\<^sup>* loop_new lp1" by auto
  with loop_invariant[OF this] 2(2) show ?thesis by blast
qed

end
