(* ===== verification/Js_Timer.thy ===== *)
theory Js_Timer
  imports Script Ev_Timer
begin

text \<open>
  \<open>Irccd.Timer\<close> (\<open>irccd/jsapi-timer.c\<close>): timers of a script over those of the event loop.

  An object of a script is known by its heap pointer; \<open>tw_objects\<close> has those that are alive,
  with their properties.  A \<open>struct stimer\<close> has an address, that of the watcher in it;
  \<open>tw_stimers\<close> has those that are allocated.  Times are exact here, in seconds; what the theory
  of the loop shows holds with rounding too.  Following a pointer that is not alive is \<open>Crash\<close>.
\<close>

section \<open>State\<close>

record stimer =
  st_addr :: nat

record timer_world =
  tw_loop :: "rat ev_loop"
  tw_stimers :: "watcher \<Rightarrow> stimer option"
  tw_objects :: "nat \<Rightarrow> jsval option"

definition TIMER_SIGNATURE :: string where
  "TIMER_SIGNATURE = CHR 0xFF # ''Irccd.Timer''"

definition PROP_CALLBACK :: string where
  "PROP_CALLBACK = CHR 0xFF # ''Irccd.Timer.callback''"

definition STIMER_TYPE_REPEAT :: int where "STIMER_TYPE_REPEAT = 0"
definition STIMER_TYPE_ONESHOT :: int where "STIMER_TYPE_ONESHOT = 1"
definition STIMER_TYPE_LAST :: int where "STIMER_TYPE_LAST = 2"

definition set_loop :: "rat ev_loop \<Rightarrow> timer_world \<Rightarrow> timer_world" where
  "set_loop lp w = w\<lparr>tw_loop := lp\<rparr>"

section \<open>The callback\<close>

text \<open>
  What \<open>stimer_cb\<close> calls: the callback of the object, on the object.  \<open>None\<close> is the use of a
  structure or of an object that was freed.
\<close>

definition stimer_cb :: "watcher \<Rightarrow> timer_world \<Rightarrow> (nat \<times> jsval) option" where
  "stimer_cb p w =
     (case tw_stimers w p of
        None \<Rightarrow> None
      | Some st \<Rightarrow>
          (case tw_objects w (st_addr st) of
             None \<Rightarrow> None
           | Some obj \<Rightarrow> Some (st_addr st, get_prop obj PROP_CALLBACK)))"

section \<open>Methods\<close>

definition stimer_init :: "int \<Rightarrow> int \<Rightarrow> rat ev_timer" where
  "stimer_init type duration =
     (let after = of_int duration / 1000; repeat = (if type = STIMER_TYPE_REPEAT then after else 0)
      in ev_timer_init after repeat)"

type_synonym 'a timer_outcome = "'a js \<times> timer_world"

definition on_loop :: "(rat ev_loop \<Rightarrow> rat ev_loop option) \<Rightarrow> timer_world \<Rightarrow> jsval timer_outcome" where
  "on_loop f w = (case f (tw_loop w) of None \<Rightarrow> (Crash, w) | Some lp \<Rightarrow> (Ret JUndefined, set_loop lp w))"

definition stimer_start :: "watcher \<Rightarrow> timer_world \<Rightarrow> jsval timer_outcome" where
  "stimer_start p w = on_loop (ev_timer_start p) w"

definition stimer_restart :: "watcher \<Rightarrow> timer_world \<Rightarrow> jsval timer_outcome" where
  "stimer_restart p w = on_loop (ev_timer_again p) w"

definition stimer_stop :: "watcher \<Rightarrow> timer_world \<Rightarrow> jsval timer_outcome" where
  "stimer_stop p w = on_loop (ev_timer_stop p) w"

definition stimer_self :: "nat \<Rightarrow> timer_world \<Rightarrow> (watcher \<Rightarrow> 'a timer_outcome) \<Rightarrow> 'a timer_outcome" where
  "stimer_self this w k =
     (case map_option (\<lambda>obj. get_prop obj TIMER_SIGNATURE) (tw_objects w this) of
        Some (JPtr p) \<Rightarrow> if tw_stimers w p = None then (Crash, w) else k p
      | _ \<Rightarrow> (Throw (Type_error ''not a Timer object''), w))"

definition Timer_prototype_restart :: "nat \<Rightarrow> timer_world \<Rightarrow> jsval timer_outcome" where
  "Timer_prototype_restart this w = stimer_self this w (\<lambda>p. stimer_restart p w)"

definition Timer_prototype_start :: "nat \<Rightarrow> timer_world \<Rightarrow> jsval timer_outcome" where
  "Timer_prototype_start this w = stimer_self this w (\<lambda>p. stimer_start p w)"

definition Timer_prototype_stop :: "nat \<Rightarrow> timer_world \<Rightarrow> jsval timer_outcome" where
  "Timer_prototype_stop this w = stimer_self this w (\<lambda>p. stimer_stop p w)"

text \<open>
  The index of a value counted from the top of a stack of \<open>height\<close> values when it is negative
  (\<open>duk_require_normalize_index\<close>); the sum wraps, so that an index below the bottom is refused.
\<close>

definition duk_require_normalize_index :: "nat \<Rightarrow> int \<Rightarrow> nat option" where
  "duk_require_normalize_index height idx =
     (let uidx = nat ((if idx < 0 then int height + idx else idx) mod 2 ^ 32)
      in if uidx < height then Some uidx else None)"

definition duk_del_prop_string :: "jsval \<Rightarrow> string \<Rightarrow> jsval" where
  "duk_del_prop_string obj k = JObj (filter (\<lambda>(k', _). k' \<noteq> k) (as_props obj))"

text \<open>
  The finalizer, whose stack holds the object alone when the pointer that was read is popped:
  the property is deleted of the value at -2.
\<close>

definition Timer_destructor :: "nat \<Rightarrow> timer_world \<Rightarrow> jsval timer_outcome" where
  "Timer_destructor obj w =
     (let ptr = (case tw_objects w obj of None \<Rightarrow> JUndefined | Some ob \<Rightarrow> get_prop ob TIMER_SIGNATURE)
      in case duk_require_normalize_index 1 (-2) of
           None \<Rightarrow> (Throw (Range_error ''invalid stack index -2''), w)
         | Some _ \<Rightarrow>
             let w1 = w\<lparr>tw_objects := (tw_objects w)(obj := map_option (\<lambda>ob. duk_del_prop_string ob TIMER_SIGNATURE) (tw_objects w obj))\<rparr>
             in case ptr of
                  JPtr p \<Rightarrow>
                    (case stimer_stop p w1 of
                       (Ret v, w2) \<Rightarrow> (Ret v, w2\<lparr>tw_stimers := (tw_stimers w2)(p := None)\<rparr>)
                     | r \<Rightarrow> r)
                | _ \<Rightarrow> (Ret JUndefined, w1))"

text \<open>The collector runs the finalizer, whose errors are dropped, and frees the object.\<close>

definition collect_object :: "nat \<Rightarrow> timer_world \<Rightarrow> timer_world" where
  "collect_object obj w = (let w' = snd (Timer_destructor obj w) in w'\<lparr>tw_objects := (tw_objects w')(obj := None)\<rparr>)"

text \<open>
  The constructor, called on the new object \<open>this\<close>; \<open>p\<close> is the address the allocation gives.
  The type is read as a signed number and compared as an unsigned one.
\<close>

definition Timer_constructor :: "bool \<Rightarrow> nat \<Rightarrow> watcher \<Rightarrow> args \<Rightarrow> timer_world \<Rightarrow> jsval timer_outcome" where
  "Timer_constructor is_new this p as w =
     (if \<not> is_new then (Ret JUndefined, w)
      else case duk_require_int as 0 Ret of
             Throw e \<Rightarrow> (Throw e, w) | Crash \<Rightarrow> (Crash, w)
           | Ret i \<Rightarrow>
               (case duk_require_uint as 1 Ret of
                  Throw e \<Rightarrow> (Throw e, w) | Crash \<Rightarrow> (Crash, w)
                | Ret duration \<Rightarrow>
                    let type = i mod 2 ^ 32 in
                    if STIMER_TYPE_LAST \<le> type then (Throw (Type_error ''invalid timer type''), w)
                    else if \<not> is_function (js_arg as 2) then (Throw (Type_error ''missing callback function''), w)
                    else
                      let obj = (case tw_objects w this of None \<Rightarrow> JObj [] | Some ob \<Rightarrow> ob);
                          obj = put_prop (put_prop obj TIMER_SIGNATURE (JPtr p)) PROP_CALLBACK (js_arg as 2)
                      in (Ret JUndefined,
                          w\<lparr>tw_loop := set_watcher p (stimer_init type duration) (tw_loop w),
                            tw_stimers := (tw_stimers w)(p \<mapsto> \<lparr>st_addr = this\<rparr>),
                            tw_objects := (tw_objects w)(this \<mapsto> obj)\<rparr>)))"

definition timer_methods :: "(string \<times> (nat \<Rightarrow> timer_world \<Rightarrow> jsval timer_outcome)) list" where
  "timer_methods =
     [(''restart'', Timer_prototype_restart), (''start'', Timer_prototype_start), (''stop'', Timer_prototype_stop)]"

section \<open>A turn of the loop\<close>

text \<open>
  The expired timers become pending, then the pending watchers are invoked in turn: the
  calls that are made for timers of scripts.  A callback is script code; what it calls back
  here is not followed.
\<close>

definition pending_count :: "'t ev_loop \<Rightarrow> nat" where
  "pending_count lp = (\<Sum>p < NUMPRI. length (lp_pendings lp p))"

lemma NUMPRI_eq: "NUMPRI = 5"
  by (simp add: NUMPRI_def EV_MAXPRI_def EV_MINPRI_def)

lemma invoke_next_shorter:
  assumes "invoke_next lp = Some (e, lp')"
  shows "pending_count lp' < pending_count lp"
proof -
  from assms obtain p where p: "pending_pri lp = Some p"
    by (auto simp: invoke_next_def split: option.splits)
  then have "p < NUMPRI" "lp_pendings lp p \<noteq> []"
    by (auto simp: pending_pri_def find_Some_iff rev_nth)
  moreover have "lp_pendings lp' = (lp_pendings lp)(p := butlast (lp_pendings lp p))"
    using assms p by (auto simp: invoke_next_def Let_def set_pending_def set_watcher_def split: option.splits)
  ultimately show ?thesis
    unfolding pending_count_def by (intro sum_strict_mono_ex1) auto
qed

function invoke_pending :: "timer_world \<Rightarrow> ((nat \<times> jsval) list \<times> timer_world) option" where
  "invoke_pending w =
     (case invoke_next (tw_loop w) of
        None \<Rightarrow> Some ([], w)
      | Some (e, lp) \<Rightarrow>
          let w1 = set_loop lp w in
          (case fst e of
             None \<Rightarrow> invoke_pending w1
           | Some p \<Rightarrow>
               (case stimer_cb p w1 of
                  None \<Rightarrow> None
                | Some call \<Rightarrow> map_option (\<lambda>(calls, w2). (call # calls, w2)) (invoke_pending w1))))"
  by pat_completeness auto
termination
  by (relation "measure (\<lambda>w. pending_count (tw_loop w))") (auto simp: set_loop_def intro: invoke_next_shorter)

declare invoke_pending.simps [simp del]

definition loop_turn :: "rat \<Rightarrow> timer_world \<Rightarrow> ((nat \<times> jsval) list \<times> timer_world) option" where
  "loop_turn now w =
     (case timers_reify ((tw_loop w)\<lparr>lp_now := now\<rparr>) of
        None \<Rightarrow> None | Some lp \<Rightarrow> invoke_pending (set_loop lp w))"

lemma stimer_cb_loop [simp]: "stimer_cb p (set_loop lp w) = stimer_cb p w" "tw_loop (set_loop lp w) = lp"
  "set_loop lp' (set_loop lp w) = set_loop lp' w"
  by (simp_all add: stimer_cb_def set_loop_def split: option.split)

lemma pris: "rev [0..<NUMPRI] = [4, 3, 2, 1, 0]"
  by (simp add: NUMPRI_eq upt_rec)

lemma invoke_scripts:
  assumes "\<And>p. p \<noteq> 2 \<Longrightarrow> lp_pendings (tw_loop w) p = []"
    and "lp_pendings (tw_loop w) 2 = map (\<lambda>x. (Some x, EV_TIMER)) (rev ws)"
    and "\<And>x. x \<in> set ws \<Longrightarrow> stimer_cb x w \<noteq> None"
  shows "\<exists>lp. invoke_pending w = Some (map (\<lambda>x. the (stimer_cb x w)) ws, set_loop lp w) \<and>
    (\<forall>p. lp_pendings lp p = []) \<and>
    (\<forall>x. ev_active (lp_watchers lp x) = ev_active (lp_watchers (tw_loop w) x) \<and>
         ev_at (lp_watchers lp x) = ev_at (lp_watchers (tw_loop w) x)) \<and> lp_now lp = lp_now (tw_loop w)"
  using assms
proof (induction ws arbitrary: w)
  case Nil
  then have all: "lp_pendings (tw_loop w) p = []" for p by (cases "p = 2") auto
  then have "invoke_next (tw_loop w) = None" by (simp add: invoke_next_def pending_pri_def pris)
  then have "invoke_pending w = Some ([], w)" by (subst invoke_pending.simps) simp
  moreover have "set_loop (tw_loop w) w = w" by (simp add: set_loop_def)
  ultimately show ?case using all by (intro exI[of _ "tw_loop w"]) simp
next
  case (Cons x ws)
  let ?lp = "tw_loop w"
  define lp1 where "lp1 = set_watcher x ((lp_watchers ?lp x)\<lparr>ev_pending := 0\<rparr>) (set_pending 2 (map (\<lambda>x. (Some x, EV_TIMER)) (rev ws)) ?lp)"
  have "pending_pri ?lp = Some 2" using Cons(2,3) by (simp add: pending_pri_def pris)
  then have next1: "invoke_next ?lp = Some ((Some x, EV_TIMER), lp1)"
    using Cons(3) by (simp add: invoke_next_def lp1_def set_pending_def set_watcher_def butlast_append)
  obtain call where call: "stimer_cb x w = Some call" using Cons(4)[of x] by auto
  let ?w1 = "set_loop lp1 w"
  have "\<exists>lp. invoke_pending ?w1 = Some (map (\<lambda>x. the (stimer_cb x ?w1)) ws, set_loop lp ?w1) \<and>
    (\<forall>p. lp_pendings lp p = []) \<and>
    (\<forall>x. ev_active (lp_watchers lp x) = ev_active (lp_watchers (tw_loop ?w1) x) \<and>
         ev_at (lp_watchers lp x) = ev_at (lp_watchers (tw_loop ?w1) x)) \<and> lp_now lp = lp_now (tw_loop ?w1)"
  proof (rule Cons(1))
    show "lp_pendings (tw_loop ?w1) p = []" if "p \<noteq> 2" for p
      using Cons(2)[OF that] that by (simp add: lp1_def set_pending_def set_watcher_def)
  qed (use Cons(4) in \<open>auto simp: lp1_def set_pending_def set_watcher_def\<close>)
  then obtain lp where IH: "invoke_pending ?w1 = Some (map (\<lambda>x. the (stimer_cb x w)) ws, set_loop lp w)"
    "\<forall>p. lp_pendings lp p = []" "lp_now lp = lp_now lp1"
    "\<forall>x. ev_active (lp_watchers lp x) = ev_active (lp_watchers lp1 x) \<and> ev_at (lp_watchers lp x) = ev_at (lp_watchers lp1 x)"
    by auto
  have "invoke_pending w = Some (map (\<lambda>x. the (stimer_cb x w)) (x # ws), set_loop lp w)"
    using next1 call IH(1) by (subst invoke_pending.simps) simp
  with IH(2-4) show ?case
    by (intro exI[of _ lp]) (auto simp: lp1_def set_pending_def set_watcher_def)
qed


section \<open>Objects that are collected\<close>

lemma destructor_throws:
  "Timer_destructor obj w = (Throw (Range_error ''invalid stack index -2''), w)"
  by (simp add: Timer_destructor_def duk_require_normalize_index_def)

text \<open>
  C28. The finalizer of a timer does nothing but fail: the stack index it deletes the property
  at does not exist, so the error leaves it before the timer is stopped and freed.  A timer
  that runs when its object is collected stays in the loop with its structure, becomes due
  whenever the clock passes its time, and its callback then uses the freed object.
\<close>
theorem collected_timer_runs:
  assumes "loop_ok (tw_loop w)" "tw_stimers w p = Some st" "ev_active (lp_watchers (tw_loop w) p) \<noteq> 0"
    and "w' = collect_object (st_addr st) w"
  shows "fst (Timer_destructor (st_addr st) w) = Throw (Range_error ''invalid stack index -2'') \<and>
    tw_loop w' = tw_loop w \<and> tw_stimers w' p = Some st \<and>
    (\<forall>now. ev_at (lp_watchers (tw_loop w) p) < now \<longrightarrow> p \<in> expired ((tw_loop w')\<lparr>lp_now := now\<rparr>)) \<and>
    stimer_cb p w' = None"
  using assms by (simp add: collect_object_def destructor_throws Let_def expired_def stimer_cb_def)

section \<open>Starting a timer again\<close>

text \<open>
  A one-shot timer that has expired and is started again is due at once, whatever its
  delay: stopping a timer keeps its remaining time, which is negative when it has expired,
  and starting adds the clock to it.
\<close>
theorem single_timer_restarts_due:
  assumes "loop_ok lp" "lp_rfeeds lp = []" "\<And>x. ev_active (lp_watchers lp x) \<noteq> 0 \<Longrightarrow> ev_pending (lp_watchers lp x) = 0"
    and "p \<in> expired (lp :: rat ev_loop)" "ev_repeat (lp_watchers lp p) = 0" "timers_reify lp = Some lp1"
    and "loop_ok (tw_loop w)" "lp_watchers (tw_loop w) p = (lp_watchers lp1 p)\<lparr>ev_pending := 0\<rparr>"
    and "tw_objects w this = Some obj" "get_prop obj TIMER_SIGNATURE = JPtr p" "tw_stimers w p \<noteq> None"
  shows "\<exists>w'. Timer_prototype_start this w = (Ret JUndefined, w') \<and>
    ev_at (lp_watchers (tw_loop w') p) < lp_now (tw_loop w') \<and> p \<in> expired (tw_loop w')"
proof -
  from timers_reify_effect[OF assms(1,2,3)] assms(4,6) obtain t where
    t: "renewed (lp_now lp) (lp_watchers lp p) t" "fed t (lp_watchers lp1 p)" by auto
  from t(1) assms(4,5) have "ev_active t = 0" "ev_at t < 0" by (simp_all add: renewed_def expired_def)
  with fedD[OF t(2)] assms(8) have idle: "ev_active (lp_watchers (tw_loop w) p) = 0" "ev_at (lp_watchers (tw_loop w) p) < 0"
    by simp_all
  obtain lp' where s: "ev_timer_start p (tw_loop w) = Some lp'" "same_queues (tw_loop w) lp'"
    "ev_active (lp_watchers lp' p) \<noteq> 0"
    "ev_at (lp_watchers lp' p) = (if ev_active (lp_watchers (tw_loop w) p) \<noteq> 0 then ev_at (lp_watchers (tw_loop w) p)
       else ev_at (lp_watchers (tw_loop w) p) + lp_now (tw_loop w))"
    by (rule start_effect[OF assms(7), of p]) blast
  from s idle have due: "ev_at (lp_watchers lp' p) < lp_now lp'" by (simp add: same_queues_def)
  have "Timer_prototype_start this w = (Ret JUndefined, set_loop lp' w)"
    using assms(9-11) s(1) by (simp add: Timer_prototype_start_def stimer_self_def stimer_start_def on_loop_def)
  with due s(3) show ?thesis by (intro exI[of _ "set_loop lp' w"]) (simp add: expired_def)
qed

section \<open>A script\<close>

text \<open>A script makes a one-shot timer of a second and starts it.\<close>

definition world_new :: timer_world where
  "world_new = \<lparr>tw_loop = loop_new, tw_stimers = Map.empty, tw_objects = Map.empty\<rparr>"

definition demo_object :: jsval where
  "demo_object = JObj [(TIMER_SIGNATURE, JPtr 3), (PROP_CALLBACK, JFun ''f'')]"

lemma timer_props_differ [simp]: "TIMER_SIGNATURE \<noteq> PROP_CALLBACK"
  by (simp add: TIMER_SIGNATURE_def PROP_CALLBACK_def)

lemma demo_props [simp]: "get_prop demo_object TIMER_SIGNATURE = JPtr 3" "get_prop demo_object PROP_CALLBACK = JFun ''f''"
  by (simp_all add: demo_object_def lookup_prop_def timer_props_differ[symmetric])

lemma demo_constructed:
  "Timer_constructor True 10 3 [JInt 1, JInt 1000, JFun ''f''] world_new =
     (Ret JUndefined, \<lparr>tw_loop = set_watcher 3 (ev_timer_init 1 0) loop_new,
        tw_stimers = [3 \<mapsto> \<lparr>st_addr = 10\<rparr>], tw_objects = [10 \<mapsto> demo_object]\<rparr>)"
  using d2i_of_int(1)[of 1] d2i_of_int(2)[of 1000]
  by (simp add: Timer_constructor_def duk_require_int_def duk_require_uint_def world_new_def Let_def
      STIMER_TYPE_LAST_def STIMER_TYPE_REPEAT_def stimer_init_def demo_object_def put_prop_def)

lemma demo_started:
  obtains w where
    "Timer_prototype_start 10 (snd (Timer_constructor True 10 3 [JInt 1, JInt 1000, JFun ''f''] world_new)) = (Ret JUndefined, w)"
    "loop_ok (tw_loop w)" "lp_rfeeds (tw_loop w) = []" "\<And>p. lp_pendings (tw_loop w) p = []" "lp_now (tw_loop w) = 0"
    "tw_stimers w = [3 \<mapsto> \<lparr>st_addr = 10\<rparr>]" "tw_objects w = [10 \<mapsto> demo_object]"
    "\<And>x. ev_active (lp_watchers (tw_loop w) x) \<noteq> 0 \<longleftrightarrow> x = 3" "\<And>x. ev_pending (lp_watchers (tw_loop w) x) = 0"
    "ev_at (lp_watchers (tw_loop w) 3) = 1" "ev_repeat (lp_watchers (tw_loop w) 3) = 0"
    "ev_priority (lp_watchers (tw_loop w) 3) = 0"
proof -
  let ?lp0 = "set_watcher 3 (ev_timer_init 1 0) loop_new :: rat ev_loop"
  have ok0: "loop_ok ?lp0"
    by (intro timer_init_ok loop_new_ok) (simp_all add: loop_new_def ev_timer_init_def)
  have w0: "lp_watchers ?lp0 x = (if x = 3 then ev_timer_init 1 0 else ev_timer_init 0 0)" for x
    by (simp add: set_watcher_def loop_new_def)
  obtain lp where s: "ev_timer_start 3 ?lp0 = Some lp" "loop_ok lp" "same_queues ?lp0 lp"
    "\<And>x. x \<noteq> 3 \<Longrightarrow> unmoved (lp_watchers ?lp0 x) (lp_watchers lp x)" "ev_active (lp_watchers lp 3) \<noteq> 0"
    "ev_repeat (lp_watchers lp 3) = ev_repeat (lp_watchers ?lp0 3)"
    "ev_pending (lp_watchers lp 3) = ev_pending (lp_watchers ?lp0 3)"
    "ev_at (lp_watchers lp 3) = (if ev_active (lp_watchers ?lp0 3) \<noteq> 0 then ev_at (lp_watchers ?lp0 3) else ev_at (lp_watchers ?lp0 3) + lp_now ?lp0)"
    "ev_priority (lp_watchers ?lp0 3) \<in> {EV_MINPRI..EV_MAXPRI} \<Longrightarrow> ev_priority (lp_watchers lp 3) = ev_priority (lp_watchers ?lp0 3)"
    by (rule start_effect[OF ok0, of 3]) blast
  have q: "lp_rfeeds lp = [] \<and> (\<forall>p. lp_pendings lp p = []) \<and> lp_now lp = 0"
    using s(3) by (simp add: same_queues_def set_watcher_def loop_new_def)
  have now0: "lp_now ?lp0 = 0" by (simp add: set_watcher_def loop_new_def)
  have z: "ev_active (lp_watchers ?lp0 x) = 0" "ev_pending (lp_watchers ?lp0 x) = 0" for x
    unfolding w0 by (simp_all add: ev_timer_init_def)
  have act: "ev_active (lp_watchers lp x) \<noteq> 0 \<longleftrightarrow> x = 3" for x
    using s(5) unmovedD(5)[OF s(4), of x] z[of x] by (cases "x = 3") auto
  have pen: "ev_pending (lp_watchers lp x) = 0" for x
    using s(7) unmovedD(1)[OF s(4), of x] z[of x] by (cases "x = 3") auto
  let ?w0 = "\<lparr>tw_loop = ?lp0, tw_stimers = [3 \<mapsto> \<lparr>st_addr = 10\<rparr>], tw_objects = [10 \<mapsto> demo_object]\<rparr>"
  have "Timer_prototype_start 10 (snd (Timer_constructor True 10 3 [JInt 1, JInt 1000, JFun ''f''] world_new)) = (Ret JUndefined, set_loop lp ?w0)"
    unfolding demo_constructed using s(1)
    by (simp add: Timer_prototype_start_def stimer_self_def stimer_start_def on_loop_def)
  moreover have r: "ev_repeat (lp_watchers ?lp0 3) = 0" "ev_at (lp_watchers ?lp0 3) = 1" "ev_priority (lp_watchers ?lp0 3) = 0"
    unfolding w0 by (simp_all add: ev_timer_init_def)
  have "ev_at (lp_watchers lp 3) = 1" using s(8) r(2) z(1)[of 3] now0 by simp
  moreover have "ev_repeat (lp_watchers lp 3) = 0" using s(6) r(1) by simp
  moreover have "ev_priority (lp_watchers lp 3) = 0" using s(9) r(3) by (simp add: EV_MINPRI_def EV_MAXPRI_def)
  ultimately show thesis
    using that[of "set_loop lp ?w0"] s(2) q act pen by (simp add: set_loop_def)
qed


theorem collected_timer_runs_witness:
  "\<exists>w. Timer_prototype_start 10 (snd (Timer_constructor True 10 3 [JInt 1, JInt 1000, JFun ''f''] world_new)) = (Ret JUndefined, w) \<and>
     stimer_cb 3 w = Some (10, JFun ''f'') \<and> stimer_cb 3 (collect_object 10 w) = None \<and>
     3 \<in> expired ((tw_loop (collect_object 10 w))\<lparr>lp_now := 2\<rparr>)"
proof -
  obtain w where w:
    "Timer_prototype_start 10 (snd (Timer_constructor True 10 3 [JInt 1, JInt 1000, JFun ''f''] world_new)) = (Ret JUndefined, w)"
    "loop_ok (tw_loop w)" "tw_stimers w = [3 \<mapsto> \<lparr>st_addr = 10\<rparr>]" "tw_objects w = [10 \<mapsto> demo_object]"
    "\<And>x. ev_active (lp_watchers (tw_loop w) x) \<noteq> 0 \<longleftrightarrow> x = 3" "ev_at (lp_watchers (tw_loop w) 3) = 1"
    by (rule demo_started) blast
  have st: "tw_stimers w 3 = Some \<lparr>st_addr = 10\<rparr>" "ev_active (lp_watchers (tw_loop w) 3) \<noteq> 0" using w(3,5) by auto
  note C = collected_timer_runs[OF w(2) st refl]
  have none: "stimer_cb 3 (collect_object 10 w) = None" using C by simp
  have "ev_at (lp_watchers (tw_loop w) 3) < 2" using w(6) by simp
  moreover have "\<forall>now. ev_at (lp_watchers (tw_loop w) 3) < now \<longrightarrow>
      3 \<in> expired ((tw_loop (collect_object 10 w))\<lparr>lp_now := now\<rparr>)"
    using conjunct1[OF conjunct2[OF conjunct2[OF conjunct2[OF C]]]] unfolding stimer.select_convs .
  ultimately have "3 \<in> expired ((tw_loop (collect_object 10 w))\<lparr>lp_now := 2\<rparr>)" by blast
  moreover have "stimer_cb 3 w = Some (10, JFun ''f'')" using w(3,4) by (simp add: stimer_cb_def)
  ultimately show ?thesis using w(1) none by blast
qed

theorem single_timer_restarts_due_witness:
  "\<exists>w0 w w'. Timer_prototype_start 10 (snd (Timer_constructor True 10 3 [JInt 1, JInt 1000, JFun ''f''] world_new)) = (Ret JUndefined, w0) \<and>
     3 \<in> expired ((tw_loop w0)\<lparr>lp_now := 2\<rparr>) \<and> ev_active (lp_watchers (tw_loop w) 3) = 0 \<and>
     Timer_prototype_start 10 w = (Ret JUndefined, w') \<and> 3 \<in> expired (tw_loop w')"
proof -
  obtain w0 where w0:
    "Timer_prototype_start 10 (snd (Timer_constructor True 10 3 [JInt 1, JInt 1000, JFun ''f''] world_new)) = (Ret JUndefined, w0)"
    "loop_ok (tw_loop w0)" "lp_rfeeds (tw_loop w0) = []" "\<And>p. lp_pendings (tw_loop w0) p = []"
    "tw_stimers w0 = [3 \<mapsto> \<lparr>st_addr = 10\<rparr>]" "tw_objects w0 = [10 \<mapsto> demo_object]"
    "\<And>x. ev_active (lp_watchers (tw_loop w0) x) \<noteq> 0 \<longleftrightarrow> x = 3" "\<And>x. ev_pending (lp_watchers (tw_loop w0) x) = 0"
    "ev_at (lp_watchers (tw_loop w0) 3) = 1" "ev_repeat (lp_watchers (tw_loop w0) 3) = 0"
    by (rule demo_started) blast
  let ?lp = "(tw_loop w0)\<lparr>lp_now := 2\<rparr>"
  have ok: "loop_ok ?lp" using w0(2) by (simp add: loop_ok_def pendings_ok_def)
  have exp: "3 \<in> expired ?lp" using w0(7,9) by (simp add: expired_def)
  have idle: "ev_pending (lp_watchers ?lp x) = 0" for x using w0(8) by simp
  from timers_reify_effect[OF ok _ idle] w0(3) obtain lp1 t where
    r: "timers_reify ?lp = Some lp1" "loop_ok lp1" "lp_rfeeds lp1 = []" "renewed 2 (lp_watchers (tw_loop w0) 3) t" "fed t (lp_watchers lp1 3)"
    using exp by auto
  have off: "ev_active (lp_watchers lp1 3) = 0" using r(4) fedD[OF r(5)] w0(10) by (simp add: renewed_def)
  let ?lp2 = "clear_pending 3 lp1" let ?w = "w0\<lparr>tw_loop := ?lp2\<rparr>"
  have "lp_watchers ?lp2 3 = (lp_watchers lp1 3)\<lparr>ev_pending := 0\<rparr>"
    by (simp add: clear_pending_def set_watcher_def Let_def)
  with single_timer_restarts_due[OF ok _ idle exp _ r(1), of ?w 10 demo_object] w0(3,5,6,10) clear_pending_ok[OF r(2)]
  obtain w' where "Timer_prototype_start 10 ?w = (Ret JUndefined, w')" "3 \<in> expired (tw_loop w')" by auto
  with w0(1) exp off show ?thesis
    by (intro exI[of _ w0] exI[of _ ?w] exI[of _ w']) simp
qed

end
