(* ===== verification/Dl_Plugin.thy ===== *)
theory Dl_Plugin
  imports Paths Plugin
begin

text \<open>
  Native plugins (\<open>irccd/dl-plugin.c\<close>).  A plugin is a library whose symbols are the name
  of its file, made an identifier, and the name of the callback.

  The library itself is a parameter: what \<open>dlsym\<close> finds under a symbol, at the type the
  caller casts it to.
\<close>

section \<open>Libraries\<close>

text \<open>
  One function per signature: what the symbol is when it is used that way.  \<open>lb_data\<close> is the
  value of a variable that points to a string; the functions run on the state of the library,
  and \<open>lb_close\<close> is what closing it does to that state.
\<close>

record 's library =
  lb_data :: "string \<Rightarrow> string option option"
  lb_setter :: "string \<Rightarrow> ('s \<Rightarrow> string \<Rightarrow> string \<Rightarrow> 's) option"
  lb_getter :: "string \<Rightarrow> ('s \<Rightarrow> string \<Rightarrow> string option) option"
  lb_lister :: "string \<Rightarrow> ('s \<Rightarrow> string list option) option"
  lb_loader :: "string \<Rightarrow> ('s \<Rightarrow> int \<times> 's) option"
  lb_action :: "string \<Rightarrow> ('s \<Rightarrow> 's) option"
  lb_event :: "string \<Rightarrow> ('s \<Rightarrow> irc_event \<Rightarrow> 's) option"
  lb_close :: "'s \<Rightarrow> 's"

text \<open>The loader of the system: the result of \<open>stat\<close> and of \<open>dlopen\<close>, or its message.\<close>

record 's system =
  sy_stat :: "string \<Rightarrow> errno option"
  sy_dlopen :: "string option \<Rightarrow> string + 's library \<times> 's"
  sy_strerror :: "errno \<Rightarrow> string"

record 's dl_self =
  dl_name :: string
  dl_prefix :: string
  dl_handle :: "'s library"

definition isalnum :: "char \<Rightarrow> bool" where
  "isalnum c = (is_digit c \<or> CHR ''A'' \<le> c \<and> c \<le> CHR ''Z'' \<or> CHR ''a'' \<le> c \<and> c \<le> CHR ''z'')"

definition symbol :: "'s dl_self \<Rightarrow> string \<Rightarrow> string" where
  "symbol self func = fit 128 (dl_prefix self @ ''_'' @ func)"

definition dl_metadata :: "'s dl_self \<Rightarrow> string \<Rightarrow> string option" where
  "dl_metadata self name =
     (case lb_data (dl_handle self) (symbol self name) of None \<Rightarrow> None | Some v \<Rightarrow> v)"

section \<open>Callbacks\<close>

text \<open>A callback whose symbol is missing does nothing.\<close>

definition dl_set :: "'s dl_self \<Rightarrow> string \<Rightarrow> 's \<Rightarrow> string \<Rightarrow> string \<Rightarrow> 's" where
  "dl_set self name s key value =
     (case lb_setter (dl_handle self) (symbol self name) of None \<Rightarrow> s | Some f \<Rightarrow> f s key value)"

definition dl_get :: "'s dl_self \<Rightarrow> string \<Rightarrow> 's \<Rightarrow> string \<Rightarrow> string option" where
  "dl_get self name s key =
     (case lb_getter (dl_handle self) (symbol self name) of None \<Rightarrow> None | Some f \<Rightarrow> f s key)"

definition dl_list :: "'s dl_self \<Rightarrow> string \<Rightarrow> 's \<Rightarrow> string list option" where
  "dl_list self name s =
     (case lb_lister (dl_handle self) (symbol self name) of None \<Rightarrow> None | Some f \<Rightarrow> f s)"

definition dl_load :: "'s dl_self \<Rightarrow> 's \<Rightarrow> int \<times> 's" where
  "dl_load self s =
     (case lb_loader (dl_handle self) (symbol self ''load'') of None \<Rightarrow> (0, s) | Some f \<Rightarrow> f s)"

definition dl_reload :: "'s dl_self \<Rightarrow> 's \<Rightarrow> 's" where
  "dl_reload self s =
     (case lb_action (dl_handle self) (symbol self ''reload'') of None \<Rightarrow> s | Some f \<Rightarrow> f s)"

definition dl_unload :: "'s dl_self \<Rightarrow> 's \<Rightarrow> 's" where
  "dl_unload self s =
     (case lb_action (dl_handle self) (symbol self ''unload'') of None \<Rightarrow> s | Some f \<Rightarrow> f s)"

definition dl_event :: "'s dl_self \<Rightarrow> 's \<Rightarrow> irc_event \<Rightarrow> 's" where
  "dl_event self s ev =
     (case lb_event (dl_handle self) (symbol self ''event'') of None \<Rightarrow> s | Some f \<Rightarrow> f s ev)"

definition dl_finish :: "'s dl_self \<Rightarrow> 's \<Rightarrow> 's" where
  "dl_finish self s = lb_close (dl_handle self) s"

section \<open>Opening\<close>

definition dl_identifier :: "string \<Rightarrow> string" where
  "dl_identifier p = map (\<lambda>c. if isalnum c then c else CHR ''_'') p"

definition compute_prefix :: "string \<Rightarrow> string option \<Rightarrow> string" where
  "compute_prefix name path =
     dl_identifier
       (case path of
          Some p \<Rightarrow> takeWhile (\<lambda>c. c \<noteq> CHR ''.'') (fit 32 (irc_util_basename p))
        | None \<Rightarrow> fit 32 name)"

text \<open>The lines are given to \<open>irc_log_warn\<close>.\<close>

definition dl_init ::
  "'s system \<Rightarrow> string \<Rightarrow> string option \<Rightarrow> string list \<times> ('s dl_self \<times> 's) option" where
  "dl_init sy name path =
     (let text = (\<lambda>m. ''plugin: '' @ (case path of Some p \<Rightarrow> p | None \<Rightarrow> ''(null)'') @ '': '' @ m) in
      if path \<noteq> None \<and> sy_stat sy (the path) = Some ENOENT
      then ([text (sy_strerror sy ENOENT)], None)
      else case sy_dlopen sy path of
        Inl e \<Rightarrow> ([text e], None)
      | Inr (handle, s) \<Rightarrow>
          ([], Some (\<lparr>dl_name = name, dl_prefix = compute_prefix name path, dl_handle = handle\<rparr>, s)))"

text \<open>
  The values of \<open>author\<close>, \<open>description\<close>, \<open>version\<close> and \<open>license\<close> are given where
  \<open>irc_plugin_set_info\<close> takes the license, the version, the author and the description.
\<close>

definition dl_plugin_open ::
  "'s system \<Rightarrow> string \<Rightarrow> string \<Rightarrow> string option \<Rightarrow> string list \<times> 's irc_plugin option" where
  "dl_plugin_open sy version name path =
     (case dl_init sy name path of
        (warnings, None) \<Rightarrow> (warnings, None)
      | (warnings, Some (self, s)) \<Rightarrow>
          (warnings, Some (irc_plugin_set_info
             ((irc_plugin_init version s name)\<lparr>
                pl_set_template := Some (dl_set self ''set_template''),
                pl_get_template := Some (dl_get self ''get_template''),
                pl_get_templates := Some (dl_list self ''get_templates''),
                pl_set_path := Some (dl_set self ''set_path''),
                pl_get_path := Some (dl_get self ''get_path''),
                pl_get_paths := Some (dl_list self ''get_paths''),
                pl_set_option := Some (dl_set self ''set_option''),
                pl_get_option := Some (dl_get self ''get_option''),
                pl_get_options := Some (dl_list self ''get_options''),
                pl_load := Some (dl_load self),
                pl_reload := Some (dl_reload self),
                pl_unload := Some (dl_unload self),
                pl_handle := Some (dl_event self),
                pl_finish := Some (dl_finish self)\<rparr>)
             (dl_metadata self ''author'') (dl_metadata self ''description'')
             (dl_metadata self ''version'') (dl_metadata self ''license''))))"

definition wrap_open :: "'s system \<Rightarrow> string \<Rightarrow> string \<Rightarrow> string \<Rightarrow> 's irc_plugin option" where
  "wrap_open sy version name path = snd (dl_plugin_open sy version name (Some path))"

text \<open>Elsewhere than on macOS.\<close>

definition dl_plugin_loader_new :: "'s system \<Rightarrow> string \<Rightarrow> string \<Rightarrow> 's irc_plugin_loader" where
  "dl_plugin_loader_new sy version libdir =
     \<lparr>ld_paths = Some (libdir @ ''/irccd''), ld_extensions = Some ''so'', ld_open = wrap_open sy version\<rparr>"

section \<open>Properties\<close>

text \<open>The names of the callbacks and of the variables.\<close>

definition dl_names :: "string list" where
  "dl_names =
     [''set_template'', ''get_template'', ''get_templates'', ''set_path'', ''get_path'', ''get_paths'',
      ''set_option'', ''get_option'', ''get_options'', ''load'', ''reload'', ''unload'', ''event'',
      ''author'', ''description'', ''version'', ''license'']"

definition is_identifier_char :: "char \<Rightarrow> bool" where
  "is_identifier_char c = (isalnum c \<or> c = CHR ''_'')"

lemma prefix_chars: "list_all is_identifier_char (compute_prefix name path)"
  by (auto simp: compute_prefix_def dl_identifier_def list_all_iff is_identifier_char_def)

lemma prefix_length: "length (compute_prefix name path) < 32"
proof (cases path)
  case (Some p)
  have "length (takeWhile (\<lambda>c. c \<noteq> CHR ''.'') (fit 32 (irc_util_basename p))) \<le> length (fit 32 (irc_util_basename p))"
    by (rule length_takeWhile_le)
  also have "\<dots> < 32" by simp
  finally show ?thesis using Some by (simp add: compute_prefix_def dl_identifier_def)
qed (simp add: compute_prefix_def dl_identifier_def)


text \<open>A library with a load function, in a file whose name is not an identifier.\<close>

definition demo_library :: "nat library" where
  "demo_library = \<lparr>lb_data = Map.empty, lb_setter = Map.empty, lb_getter = Map.empty, lb_lister = Map.empty,
     lb_loader = [''my_plugin_load'' \<mapsto> \<lambda>n. (0, n + 5)], lb_action = Map.empty, lb_event = Map.empty,
     lb_close = id\<rparr>"

definition demo_system :: "nat system" where
  "demo_system = \<lparr>sy_stat = Map.empty, sy_dlopen = (\<lambda>_. Inr (demo_library, 0)), sy_strerror = (\<lambda>_. [])\<rparr>"


end
