(* ===== verification/Nce_Stream.thy ===== *)
theory Nce_Stream
  imports Conn
begin

unbundle bit_operations_syntax

text \<open>
  Buffered streams over a descriptor (\<open>extern/libnce/nce/stream.c\<close>, with the watcher of
  \<open>io.c\<close>), which the clients of the control socket use.

  A buffer is \<open>None\<close> for the pointer NULL and otherwise the bytes in use.  The watcher is
  \<open>None\<close> when it is not active and otherwise the events it waits for.  An assertion that
  fails and an access through NULL are the error \<open>Stream_abort\<close>; the code -1, which the
  functions return for \<open>EAGAIN\<close> when they write, is the number of \<open>EPERM\<close>.  The results of
  the system calls are arguments, and so are those of \<open>malloc\<close>.
\<close>

section \<open>State\<close>

datatype stream_err =
    Stream_EBADF | Stream_EPIPE | Stream_EAGAIN | Stream_ENOBUFS | Stream_ENOMEM | Stream_EPERM
  | Stream_sys sys_err | Stream_abort

record nce_stream =
  st_fd :: int
  st_in :: "string option"
  st_in_cap :: nat
  st_in_dyn :: bool
  st_out :: "string option"
  st_out_cap :: nat
  st_out_dyn :: bool
  st_watch :: "io_events option"
  st_revents :: io_events
  st_close :: bool
  st_open :: bool

definition buf :: "string option \<Rightarrow> string" where
  "buf b = (case b of None \<Rightarrow> [] | Some s \<Rightarrow> s)"

lemma buf_simps [simp]: "buf None = []" "buf (Some s) = s"
  by (simp_all add: buf_def)

definition ROOM_IN :: "nce_stream \<Rightarrow> nat" where
  "ROOM_IN s = (case st_in s of None \<Rightarrow> 0 | Some b \<Rightarrow> st_in_cap s - length b)"

definition ROOM_OUT :: "nce_stream \<Rightarrow> nat" where
  "ROOM_OUT s = (case st_out s of None \<Rightarrow> 0 | Some b \<Rightarrow> st_out_cap s - length b)"

section \<open>The watcher\<close>

text \<open>
  \<open>nce_io_cb\<close> stores the events that the loop reports, and aborts when the last ones were
  not fetched; \<open>nce_io_ready\<close> fetches them.
\<close>

definition nce_io_cb :: "io_events \<Rightarrow> nce_stream \<Rightarrow> stream_err + nce_stream" where
  "nce_io_cb ev s =
     (if ev AND (EV_READ OR EV_WRITE) \<noteq> 0
      then if st_revents s \<noteq> 0 then Inl Stream_abort else Inr (s\<lparr>st_revents := ev\<rparr>)
      else Inr s)"

definition nce_io_active :: "nce_stream \<Rightarrow> bool" where
  "nce_io_active s = (st_watch s \<noteq> None)"

definition nce_io_stop :: "nce_stream \<Rightarrow> nce_stream" where
  "nce_io_stop s = s\<lparr>st_revents := 0, st_watch := None\<rparr>"

definition nce_io_start :: "io_events \<Rightarrow> nce_stream \<Rightarrow> nce_stream" where
  "nce_io_start events s = (if st_watch s \<noteq> None then s else s\<lparr>st_watch := Some events\<rparr>)"

definition nce_io_ready :: "nce_stream \<Rightarrow> io_events \<times> nce_stream" where
  "nce_io_ready s =
     (if st_revents s AND (EV_READ OR EV_WRITE) \<noteq> 0 then (st_revents s, s\<lparr>st_revents := 0\<rparr>)
      else (0, s))"

text \<open>Read while there is room, write while there is something to send.\<close>

definition stream_events :: "nce_stream \<Rightarrow> io_events" where
  "stream_events s =
     (if st_in s \<noteq> None \<and> length (buf (st_in s)) < st_in_cap s then EV_READ else 0) OR
     (if st_out s \<noteq> None \<and> buf (st_out s) \<noteq> [] then EV_WRITE else 0)"

definition nce_stream_io_set :: "bool \<Rightarrow> nce_stream \<Rightarrow> nce_stream" where
  "nce_stream_io_set enable s =
     (if \<not> enable \<and> \<not> nce_io_active s then s
      else let events = stream_events s; s' = nce_io_stop s
           in if events \<noteq> 0 then nce_io_start events s' else s')"

section \<open>System calls\<close>

definition nce_stream_regular_read :: "recv_res \<Rightarrow> nat \<Rightarrow> stream_err + string" where
  "nce_stream_regular_read r len =
     (case r of
        Recv_ok s \<Rightarrow> if s = [] then Inl Stream_EPIPE else Inr (take len s)
      | Recv_err e \<Rightarrow> if e \<noteq> Sys_EAGAIN then Inl (Stream_sys e) else Inr [])"

definition nce_stream_regular_write :: "send_res \<Rightarrow> nat \<Rightarrow> stream_err + nat" where
  "nce_stream_regular_write r len =
     (case r of
        Send_ok n \<Rightarrow> Inr (min n len)
      | Send_err e \<Rightarrow> if e \<noteq> Sys_EAGAIN then Inl (Stream_sys e) else Inl Stream_EPERM)"

definition nce_stream_socket_read :: "recv_res \<Rightarrow> nat \<Rightarrow> stream_err + string" where
  "nce_stream_socket_read r len =
     (case r of
        Recv_ok s \<Rightarrow> if s = [] then Inl Stream_EPIPE else Inr (take len s)
      | Recv_err e \<Rightarrow> if e \<noteq> Sys_EAGAIN then Inl (Stream_sys e) else Inr [])"

definition nce_stream_socket_write :: "send_res \<Rightarrow> nat \<Rightarrow> stream_err + nat" where
  "nce_stream_socket_write r len =
     (case r of
        Send_ok n \<Rightarrow> Inr (min n len)
      | Send_err e \<Rightarrow> if e \<noteq> Sys_EAGAIN then Inl (Stream_sys e) else Inl Stream_EPERM)"

record nce_stream_ops =
  op_read :: "recv_res \<Rightarrow> nat \<Rightarrow> stream_err + string"
  op_write :: "send_res \<Rightarrow> nat \<Rightarrow> stream_err + nat"

definition nce_stream_ops_regular :: nce_stream_ops where
  "nce_stream_ops_regular = \<lparr>op_read = nce_stream_regular_read, op_write = nce_stream_regular_write\<rparr>"

definition nce_stream_ops_socket :: nce_stream_ops where
  "nce_stream_ops_socket = \<lparr>op_read = nce_stream_socket_read, op_write = nce_stream_socket_write\<rparr>"

section \<open>Input and output\<close>

definition nce_stream_io_read :: "nce_stream_ops \<Rightarrow> recv_res \<Rightarrow> nce_stream \<Rightarrow> stream_err option \<times> nce_stream" where
  "nce_stream_io_read ops r s =
     (if ROOM_IN s = 0 then (None, s)
      else case op_read ops r (ROOM_IN s) of
             Inl e \<Rightarrow> (Some e, s)
           | Inr data \<Rightarrow>
               if data = [] then (None, s)
               else if st_in_cap s < length (buf (st_in s)) + length data then (Some Stream_abort, s)
               else (None, nce_stream_io_set True (s\<lparr>st_in := Some (buf (st_in s) @ data)\<rparr>)))"

definition nce_stream_io_write :: "nce_stream_ops \<Rightarrow> send_res \<Rightarrow> nce_stream \<Rightarrow> stream_err option \<times> nce_stream" where
  "nce_stream_io_write ops w s =
     (if buf (st_out s) = [] then (None, s)
      else case op_write ops w (length (buf (st_out s))) of
             Inl e \<Rightarrow> (Some e, s)
           | Inr n \<Rightarrow>
               if n = 0 then (None, s)
               else if st_out_cap s < n then (Some Stream_abort, s)
               else (None, nce_stream_io_set True (s\<lparr>st_out := map_option (drop n) (st_out s)\<rparr>)))"

text \<open>Take bytes out of the input, and put bytes behind the output.\<close>

definition nce_stream_extract :: "nat \<Rightarrow> nce_stream \<Rightarrow> string \<times> nce_stream" where
  "nce_stream_extract n s =
     (case st_in s of
        None \<Rightarrow> ([], s)
      | Some b \<Rightarrow> (take n b, nce_stream_io_set False (s\<lparr>st_in := Some (drop n b)\<rparr>)))"

definition nce_stream_insert :: "string \<Rightarrow> nce_stream \<Rightarrow> stream_err + nce_stream" where
  "nce_stream_insert data s =
     (case st_out s of
        None \<Rightarrow> Inl Stream_abort
      | Some b \<Rightarrow> Inr (nce_stream_io_set False (s\<lparr>st_out := Some (b @ data)\<rparr>)))"

definition nce_stream_allocate :: "bool \<Rightarrow> string option \<Rightarrow> nat \<Rightarrow> bool \<Rightarrow> string option \<times> bool" where
  "nce_stream_allocate malloc_ok b cap dyn =
     (if b = None \<and> cap \<noteq> 0 \<and> malloc_ok then (Some [], True) else (b, dyn))"

definition nce_stream_deallocate :: "string option \<Rightarrow> bool \<Rightarrow> string option \<times> bool" where
  "nce_stream_deallocate b dyn = (if dyn then (None, False) else (b, dyn))"

definition nce_stream_start :: "bool \<Rightarrow> bool \<Rightarrow> nce_stream \<Rightarrow> nce_stream" where
  "nce_stream_start malloc_in malloc_out s =
     (let (i, idyn) = nce_stream_allocate malloc_in (map_option (\<lambda>_. []) (st_in s)) (st_in_cap s) (st_in_dyn s);
          (out, odyn) = nce_stream_allocate malloc_out (map_option (\<lambda>_. []) (st_out s)) (st_out_cap s) (st_out_dyn s)
      in nce_stream_io_set True (s\<lparr>st_in := i, st_in_dyn := idyn, st_out := out, st_out_dyn := odyn\<rparr>))"

definition nce_stream_active :: "nce_stream \<Rightarrow> bool" where
  "nce_stream_active s = nce_io_active s"

definition nce_stream_stop :: "nce_stream \<Rightarrow> nce_stream" where
  "nce_stream_stop s =
     (if \<not> nce_stream_active s then s
      else let s1 = nce_io_stop s;
               (i, idyn) = nce_stream_deallocate (st_in s1) (st_in_dyn s1);
               (out, odyn) = nce_stream_deallocate (st_out s1) (st_out_dyn s1);
               s2 = s1\<lparr>st_in := i, st_in_dyn := idyn, st_out := out, st_out_dyn := odyn\<rparr>
           in if st_close s2 then s2\<lparr>st_open := False\<rparr> else s2)"

definition nce_stream_read :: "nat \<Rightarrow> nce_stream \<Rightarrow> stream_err + string \<times> nce_stream" where
  "nce_stream_read n s =
     (if st_fd s = -1 then Inl Stream_EBADF
      else Inr (nce_stream_extract (min n (length (buf (st_in s)))) s))"

definition nce_stream_write :: "string \<Rightarrow> nce_stream \<Rightarrow> stream_err + nat \<times> nce_stream" where
  "nce_stream_write data s =
     (if st_fd s = -1 then Inl Stream_EBADF
      else let room = ROOM_OUT s; n = min (length data) room
           in if room = 0 then Inl Stream_ENOBUFS
              else map_sum id (\<lambda>s'. (n, s')) (nce_stream_insert (take n data) s))"

definition nce_stream_pull :: "nat \<Rightarrow> nce_stream \<Rightarrow> stream_err + string \<times> nce_stream" where
  "nce_stream_pull n s =
     (if st_fd s = -1 then Inl Stream_EBADF
      else if length (buf (st_in s)) < n then Inl Stream_EAGAIN
      else Inr (nce_stream_extract n s))"

definition nce_stream_push :: "nce_stream \<Rightarrow> string \<Rightarrow> stream_err + nce_stream" where
  "nce_stream_push s data =
     (if st_fd s = -1 then Inl Stream_EBADF
      else if ROOM_OUT s < length data then Inl Stream_ENOBUFS
      else nce_stream_insert data s)"

text \<open>\<open>nce_stream_printf\<close> only collects its arguments; the text is \<open>None\<close> when it cannot be made.\<close>

definition nce_stream_vprintf :: "nce_stream \<Rightarrow> string option \<Rightarrow> stream_err + nce_stream" where
  "nce_stream_vprintf s txt =
     (case txt of None \<Rightarrow> Inl Stream_ENOMEM | Some line \<Rightarrow> nce_stream_push s line)"

definition nce_stream_clear :: "bool \<Rightarrow> bool \<Rightarrow> nce_stream \<Rightarrow> nce_stream" where
  "nce_stream_clear clear_in clear_out s =
     (let s1 = (if clear_in then s\<lparr>st_in := map_option (\<lambda>_. []) (st_in s)\<rparr> else s);
          s2 = (if clear_out then s1\<lparr>st_out := map_option (\<lambda>_. []) (st_out s1)\<rparr> else s1)
      in nce_stream_io_set False s2)"

definition nce_stream_drain :: "nat \<Rightarrow> nce_stream \<Rightarrow> stream_err + nce_stream" where
  "nce_stream_drain count s =
     (case st_in s of
        None \<Rightarrow> if st_in_cap s = 0 then Inr (nce_stream_io_set False s) else Inl Stream_abort
      | Some b \<Rightarrow> Inr (nce_stream_io_set False (s\<lparr>st_in := Some (drop (min count (length b)) b)\<rparr>)))"

text \<open>
  One round of the coroutine behind \<open>nce_stream_wait\<close>: \<open>None\<close> as long as no event came, so
  that the coroutine stays suspended.
\<close>

definition nce_stream_io ::
  "nce_stream_ops \<Rightarrow> recv_res \<Rightarrow> send_res \<Rightarrow> io_events \<Rightarrow> nce_stream \<Rightarrow> stream_err option \<times> nce_stream" where
  "nce_stream_io ops r w ev s =
     (case (if ev AND EV_READ \<noteq> 0 then nce_stream_io_read ops r s else (None, s)) of
        (Some e, s1) \<Rightarrow> (Some e, s1)
      | (None, s1) \<Rightarrow> if ev AND EV_WRITE \<noteq> 0 then nce_stream_io_write ops w s1 else (None, s1))"

definition nce_stream_wait ::
  "nce_stream_ops \<Rightarrow> recv_res \<Rightarrow> send_res \<Rightarrow> nce_stream \<Rightarrow> (stream_err option \<times> nce_stream) option" where
  "nce_stream_wait ops r w s =
     (if st_fd s < 0 then Some (Some Stream_EBADF, s)
      else case nce_io_ready s of
             (ev, s1) \<Rightarrow> if ev = 0 then None else Some (nce_stream_io ops r w ev s1))"

definition nce_stream_ready ::
  "nce_stream_ops \<Rightarrow> recv_res \<Rightarrow> send_res \<Rightarrow> nce_stream \<Rightarrow> stream_err option \<times> nce_stream" where
  "nce_stream_ready ops r w s =
     (case nce_io_ready s of
        (ev, s1) \<Rightarrow> if ev \<noteq> 0 then nce_stream_io ops r w ev s1 else (Some Stream_EAGAIN, s1))"

text \<open>
  A round of the event loop: the events the kernel reports, of those the watcher waits for,
  are stored, then the coroutine is resumed; \<open>nce_stream_flush\<close> runs rounds until the output
  is sent or an error is met.
\<close>

definition stream_round ::
  "nce_stream_ops \<Rightarrow> io_events \<times> recv_res \<times> send_res \<Rightarrow> nce_stream \<Rightarrow> stream_err option \<times> nce_stream" where
  "stream_round ops io s =
     (case io of (ev, r, w) \<Rightarrow>
        case st_watch s of
          None \<Rightarrow> (None, s)
        | Some events \<Rightarrow>
            (case nce_io_cb (ev AND events) s of
               Inl e \<Rightarrow> (Some e, s)
             | Inr s1 \<Rightarrow>
                 (case nce_stream_wait ops r w s1 of None \<Rightarrow> (None, s1) | Some res \<Rightarrow> res)))"

fun nce_stream_flush ::
  "nce_stream_ops \<Rightarrow> (io_events \<times> recv_res \<times> send_res) list \<Rightarrow> nce_stream \<Rightarrow> (stream_err option \<times> nce_stream) option" where
  "nce_stream_flush ops ios s =
     (if buf (st_out s) = [] then Some (None, s)
      else case ios of
             [] \<Rightarrow> None
           | io # rest \<Rightarrow>
               (case stream_round ops io s of
                  (Some e, s') \<Rightarrow> Some (Some e, s')
                | (None, s') \<Rightarrow> nce_stream_flush ops rest s'))"

declare nce_stream_flush.simps [simp del]

section \<open>Invariant\<close>

text \<open>
  The buffers keep to their capacity and an active watcher waits for exactly the events
  that can be served.
\<close>

definition stream_ok :: "nce_stream \<Rightarrow> bool" where
  "stream_ok s =
     (length (buf (st_in s)) \<le> st_in_cap s \<and> length (buf (st_out s)) \<le> st_out_cap s \<and>
      (case st_watch s of None \<Rightarrow> st_revents s = 0 | Some ev \<Rightarrow> ev = stream_events s \<and> ev \<noteq> 0))"

lemma events_revents [simp]: "stream_events (s\<lparr>st_revents := ev\<rparr>) = stream_events s"
  by (simp add: stream_events_def)

lemma io_set_ok:
  "length (buf (st_in s)) \<le> st_in_cap s \<Longrightarrow> length (buf (st_out s)) \<le> st_out_cap s \<Longrightarrow>
   enable \<or> st_watch s \<noteq> None \<or> st_revents s = 0 \<Longrightarrow> stream_ok (nce_stream_io_set enable s)"
  by (auto simp: stream_ok_def nce_stream_io_set_def nce_io_active_def nce_io_stop_def nce_io_start_def
      stream_events_def Let_def)

lemma io_set_keeps [simp]:
  "st_in (nce_stream_io_set enable s) = st_in s" "st_out (nce_stream_io_set enable s) = st_out s"
  "st_in_cap (nce_stream_io_set enable s) = st_in_cap s" "st_out_cap (nce_stream_io_set enable s) = st_out_cap s"
  "st_fd (nce_stream_io_set enable s) = st_fd s" "st_open (nce_stream_io_set enable s) = st_open s"
  "st_in_dyn (nce_stream_io_set enable s) = st_in_dyn s" "st_out_dyn (nce_stream_io_set enable s) = st_out_dyn s"
  "st_close (nce_stream_io_set enable s) = st_close s"
  by (simp_all add: nce_stream_io_set_def nce_io_stop_def nce_io_start_def Let_def)

lemma stream_okD:
  assumes "stream_ok s"
  shows "length (buf (st_in s)) \<le> st_in_cap s" "length (buf (st_out s)) \<le> st_out_cap s"
    "st_watch s \<noteq> None \<or> st_revents s = 0"
  using assms by (auto simp: stream_ok_def split: option.splits)

lemma ok_setters:
  "stream_ok s \<Longrightarrow> length (buf i) \<le> st_in_cap s \<Longrightarrow>
     stream_ok (nce_stream_io_set enable (s\<lparr>st_in := i\<rparr>))"
  "stream_ok s \<Longrightarrow> length (buf out) \<le> st_out_cap s \<Longrightarrow>
     stream_ok (nce_stream_io_set enable (s\<lparr>st_out := out\<rparr>))"
  by (rule io_set_ok; auto dest: stream_okD)+

lemma insert_ok:
  "nce_stream_insert data s = Inr s' \<Longrightarrow> stream_ok s \<Longrightarrow> length data \<le> ROOM_OUT s \<Longrightarrow> stream_ok s'"
  using stream_okD(2)[of s]
  by (auto simp: nce_stream_insert_def ROOM_OUT_def split: option.splits intro!: ok_setters)

lemma extract_ok: "stream_ok s \<Longrightarrow> stream_ok (snd (nce_stream_extract n s))"
  using stream_okD(1)[of s] by (auto simp: nce_stream_extract_def split: option.splits intro!: ok_setters)

lemma io_read_ok: "stream_ok s \<Longrightarrow> stream_ok (snd (nce_stream_io_read ops r s))"
  by (auto simp: nce_stream_io_read_def split: sum.splits intro!: ok_setters)

lemma io_write_ok: "stream_ok s \<Longrightarrow> stream_ok (snd (nce_stream_io_write ops w s))"
  using stream_okD(2)[of s]
  by (cases "st_out s") (auto simp: nce_stream_io_write_def split: sum.splits intro!: ok_setters)

lemma stream_io_ok: "stream_ok s \<Longrightarrow> stream_ok (snd (nce_stream_io ops r w ev s))"
  using io_read_ok[of s ops r] io_write_ok[of _ ops w]
  by (auto simp: nce_stream_io_def split: prod.splits option.splits if_splits) 

lemma ok_revents: "stream_ok s \<Longrightarrow> stream_ok (s\<lparr>st_revents := 0\<rparr>)"
  by (auto simp: stream_ok_def split: option.splits)

lemma io_ready_ok: "stream_ok s \<Longrightarrow> stream_ok (snd (nce_io_ready s))"
  by (simp add: nce_io_ready_def ok_revents)

lemma io_cb_ok: "nce_io_cb ev s = Inr s' \<Longrightarrow> stream_ok s \<Longrightarrow> st_watch s \<noteq> None \<Longrightarrow> stream_ok s'"
  by (auto simp: nce_io_cb_def stream_ok_def split: if_splits option.splits)

lemma wait_ok: "nce_stream_wait ops r w s = Some res \<Longrightarrow> stream_ok s \<Longrightarrow> stream_ok (snd res)"
  using io_ready_ok[of s] stream_io_ok[of _ ops r w]
  by (auto simp: nce_stream_wait_def split: prod.splits if_splits)

lemma round_ok: "stream_ok s \<Longrightarrow> stream_ok (snd (stream_round ops io s))"
  using io_cb_ok[of _ s] wait_ok[of ops _ _ _]
  by (auto simp: stream_round_def split: prod.splits option.splits sum.splits)


section \<open>Runs of a stream\<close>

text \<open>
  What its owner and the loop do to a started stream.  The run records the bytes the owner
  had accepted, those the kernel was given, those the kernel delivered and those the owner
  took out or drained.
\<close>

datatype stream_op =
    Op_push string | Op_write string | Op_read nat | Op_pull nat | Op_drain nat
  | Op_round io_events recv_res send_res

record stream_log =
  lg_accepted :: string
  lg_sent :: string
  lg_received :: string
  lg_taken :: string

definition no_log :: stream_log where
  "no_log = \<lparr>lg_accepted = [], lg_sent = [], lg_received = [], lg_taken = []\<rparr>"

text \<open>What the kernel gives and takes in a round, if it is asked to.\<close>

definition delivers :: "io_events \<Rightarrow> recv_res \<Rightarrow> nce_stream \<Rightarrow> string" where
  "delivers ev r s =
     (case r of Recv_ok data \<Rightarrow> if ev AND EV_READ \<noteq> 0 then take (ROOM_IN s) data else [] | Recv_err _ \<Rightarrow> [])"

definition takes :: "io_events \<Rightarrow> recv_res \<Rightarrow> send_res \<Rightarrow> nce_stream \<Rightarrow> string" where
  "takes ev r w s =
     (case w of Send_ok n \<Rightarrow>
        if ev AND EV_WRITE \<noteq> 0 \<and> (ev AND EV_READ = 0 \<or> ROOM_IN s = 0 \<or> \<not> isl (nce_stream_socket_read r (ROOM_IN s)))
        then take n (buf (st_out s)) else []
      | Send_err _ \<Rightarrow> [])"

fun stream_do :: "stream_op \<Rightarrow> nce_stream \<Rightarrow> stream_log \<times> nce_stream" where
  "stream_do (Op_push data) s =
     (case nce_stream_push s data of
        Inl _ \<Rightarrow> (no_log, s) | Inr s' \<Rightarrow> (no_log\<lparr>lg_accepted := data\<rparr>, s'))"
| "stream_do (Op_write data) s =
     (case nce_stream_write data s of
        Inl _ \<Rightarrow> (no_log, s) | Inr (n, s') \<Rightarrow> (no_log\<lparr>lg_accepted := take n data\<rparr>, s'))"
| "stream_do (Op_read n) s =
     (case nce_stream_read n s of
        Inl _ \<Rightarrow> (no_log, s) | Inr (data, s') \<Rightarrow> (no_log\<lparr>lg_taken := data\<rparr>, s'))"
| "stream_do (Op_pull n) s =
     (case nce_stream_pull n s of
        Inl _ \<Rightarrow> (no_log, s) | Inr (data, s') \<Rightarrow> (no_log\<lparr>lg_taken := data\<rparr>, s'))"
| "stream_do (Op_drain n) s =
     (case nce_stream_drain n s of
        Inl _ \<Rightarrow> (no_log, s) | Inr s' \<Rightarrow> (no_log\<lparr>lg_taken := take n (buf (st_in s))\<rparr>, s'))"
| "stream_do (Op_round ev r w) s =
     (let ev' = (case st_watch s of None \<Rightarrow> 0 | Some events \<Rightarrow> ev AND events)
      in (no_log\<lparr>lg_received := delivers ev' r s, lg_sent := takes ev' r w s\<rparr>,
          snd (stream_round nce_stream_ops_socket (ev, r, w) s)))"

fun stream_run :: "nce_stream \<Rightarrow> stream_op list \<Rightarrow> stream_log \<times> nce_stream" where
  "stream_run s [] = (no_log, s)"
| "stream_run s (op # ops) =
     (case stream_do op s of (l1, s1) \<Rightarrow>
        case stream_run s1 ops of (l2, s2) \<Rightarrow>
          (\<lparr>lg_accepted = lg_accepted l1 @ lg_accepted l2, lg_sent = lg_sent l1 @ lg_sent l2,
            lg_received = lg_received l1 @ lg_received l2, lg_taken = lg_taken l1 @ lg_taken l2\<rparr>, s2))"

text \<open>A step, and a run, move bytes through the two buffers in order and lose none.\<close>

definition moved :: "nce_stream \<Rightarrow> stream_log \<Rightarrow> nce_stream \<Rightarrow> bool" where
  "moved s l s' =
     (buf (st_out s) @ lg_accepted l = lg_sent l @ buf (st_out s') \<and>
      buf (st_in s) @ lg_received l = lg_taken l @ buf (st_in s'))"

lemma moved_refl [simp]: "moved s no_log s"
  by (simp add: moved_def no_log_def)

lemma push_moved: "nce_stream_push s data = Inr s' \<Longrightarrow> buf (st_out s') = buf (st_out s) @ data \<and> st_in s' = st_in s"
  by (auto simp: nce_stream_push_def nce_stream_insert_def split: if_splits option.splits)

lemma io_read_moved:
  "nce_stream_io_read nce_stream_ops_socket r s = (e, s') \<Longrightarrow> stream_ok s \<Longrightarrow>
   st_out s' = st_out s \<and>
   buf (st_in s') = buf (st_in s) @ (case r of Recv_ok d \<Rightarrow> take (ROOM_IN s) d | _ \<Rightarrow> []) \<and>
   (e = None) = (ROOM_IN s = 0 \<or> \<not> isl (nce_stream_socket_read r (ROOM_IN s)))"
  using stream_okD(1)[of s]
  by (cases "st_in s") (auto simp: nce_stream_io_read_def nce_stream_ops_socket_def nce_stream_socket_read_def ROOM_IN_def
      split: recv_res.splits if_splits)

lemma io_write_moved:
  "nce_stream_io_write nce_stream_ops_socket w s = (e, s') \<Longrightarrow> stream_ok s \<Longrightarrow>
   st_in s' = st_in s \<and>
   buf (st_out s) = (case w of Send_ok n \<Rightarrow> take n (buf (st_out s)) | _ \<Rightarrow> []) @ buf (st_out s')"
  using stream_okD(2)[of s]
  by (cases "st_out s") (auto simp: nce_stream_io_write_def nce_stream_ops_socket_def nce_stream_socket_write_def
      min_def split: send_res.splits if_splits)

text \<open>Pushing is an instance of the interface of buffers that refuse what does not fit.\<close>

interpretation pushed: bounded_append "\<lambda>s. buf (st_out s)" ROOM_OUT nce_stream_push "\<lambda>data. data"
  by unfold_locales
    (auto simp: nce_stream_push_def nce_stream_insert_def ROOM_OUT_def split: if_splits option.splits)

definition started :: "nce_stream \<Rightarrow> bool" where
  "started s = (stream_ok s \<and> st_revents s = 0 \<and> 0 \<le> st_fd s)"

lemma stream_io_moved:
  assumes "nce_stream_io nce_stream_ops_socket r w ev s = (e, s')" "stream_ok s"
  shows "moved s (no_log\<lparr>lg_received := delivers ev r s, lg_sent := takes ev r w s\<rparr>) s'"
proof -
  obtain e1 s1 where rd: "(if ev AND EV_READ \<noteq> 0 then nce_stream_io_read nce_stream_ops_socket r s else (None, s)) = (e1, s1)"
    by fastforce
  have ok: "stream_ok s1" using rd io_read_ok[OF assms(2)] assms(2) by (auto split: if_splits) (metis snd_conv)
  have 1: "st_out s1 = st_out s" "buf (st_in s1) = buf (st_in s) @ delivers ev r s"
    "e1 = None \<longleftrightarrow> ev AND EV_READ = 0 \<or> ROOM_IN s = 0 \<or> \<not> isl (nce_stream_socket_read r (ROOM_IN s))"
    using rd io_read_moved[of r s e1 s1] assms(2) by (auto simp: delivers_def split: if_splits recv_res.splits)
  show ?thesis
  proof (cases "e1 = None \<and> ev AND EV_WRITE \<noteq> 0")
    case True
    with assms(1) rd have wr: "nce_stream_io_write nce_stream_ops_socket w s1 = (e, s')"
      by (simp add: nce_stream_io_def)
    have "takes ev r w s = (case w of Send_ok n \<Rightarrow> take n (buf (st_out s)) | _ \<Rightarrow> [])"
      using True 1(3) by (simp add: takes_def split: send_res.split)
    with io_write_moved[OF wr ok] 1(1)
    have "takes ev r w s @ buf (st_out s') = buf (st_out s)" "st_in s' = st_in s1" by metis+
    with 1(2) show ?thesis by (simp add: moved_def no_log_def)
  next
    case False
    with assms(1) rd have "s' = s1" by (cases e1) (simp_all add: nce_stream_io_def)
    moreover have "takes ev r w s = []" using False 1(3) by (auto simp: takes_def split: send_res.split)
    ultimately show ?thesis using 1 by (simp add: moved_def no_log_def)
  qed
qed

lemma io_revents [simp]:
  "st_revents s = 0 \<Longrightarrow> st_revents (nce_stream_io_set enable s) = 0"
  by (auto simp: nce_stream_io_set_def nce_io_stop_def nce_io_start_def Let_def)

definition idle_as :: "nce_stream \<Rightarrow> nce_stream \<Rightarrow> bool" where
  "idle_as s s' = (st_fd s' = st_fd s \<and> (st_revents s = 0 \<longrightarrow> st_revents s' = 0))"

lemma io_read_idle: "idle_as s (snd (nce_stream_io_read ops r s))"
  by (simp add: nce_stream_io_read_def idle_as_def split: sum.split)

lemma io_write_idle: "idle_as s (snd (nce_stream_io_write ops w s))"
  by (simp add: nce_stream_io_write_def idle_as_def split: sum.split)

lemma io_idle: "idle_as s (snd (nce_stream_io ops r w ev s))"
proof -
  obtain e1 s1 where rd: "(if ev AND EV_READ \<noteq> 0 then nce_stream_io_read ops r s else (None, s)) = (e1, s1)"
    by fastforce
  then have "idle_as s s1" using io_read_idle[of s ops r] by (auto simp: idle_as_def split: if_splits)
  with rd io_write_idle[of s1 ops w] show ?thesis
    by (cases e1) (auto simp: nce_stream_io_def idle_as_def)
qed

lemma events_mask: "stream_events s AND (EV_READ OR EV_WRITE) = stream_events s"
  by (auto simp: stream_events_def EV_READ_def EV_WRITE_def)

lemma round_started:
  assumes "started s"
  shows "stream_round ops (ev, r, w) s =
    (case st_watch s of None \<Rightarrow> (None, s)
     | Some events \<Rightarrow> if ev AND events = 0 then (None, s) else nce_stream_io ops r w (ev AND events) s)"
proof (cases "st_watch s")
  case (Some events)
  with assms have events: "events = stream_events s" by (simp add: started_def stream_ok_def)
  have "(ev AND events) AND (EV_READ OR EV_WRITE) = ev AND events"
    by (simp add: events and.assoc events_mask)
  moreover have eq: "s\<lparr>st_revents := 0\<rparr> = s" using assms by (cases s) (simp add: started_def)
  ultimately show ?thesis using Some assms
    by (simp add: stream_round_def nce_io_cb_def nce_stream_wait_def nce_io_ready_def started_def)
      (simp only: eq simp_thms)
qed (simp add: stream_round_def)

lemma round_keeps: "started s \<Longrightarrow> started (snd (stream_round ops io s))"
  using stream_io_ok[of s ops] io_idle[of s ops]
  by (cases io) (auto simp: round_started started_def idle_as_def split: option.split)

lemma do_started: "started s \<Longrightarrow> started (snd (stream_do op s))"
proof (cases op)
  case (Op_push data)
  assume "started s" then show ?thesis using Op_push insert_ok[of data s]
    by (auto simp: started_def nce_stream_push_def nce_stream_insert_def split: sum.splits if_splits option.splits)
next
  case (Op_write data)
  assume "started s" then show ?thesis using Op_write insert_ok[of "take (min (length data) (ROOM_OUT s)) data" s]
    by (auto simp: started_def nce_stream_write_def nce_stream_insert_def Let_def split: sum.splits if_splits option.splits)
next
  case (Op_read n)
  assume "started s" then show ?thesis using Op_read extract_ok[of s "min n (length (buf (st_in s)))"]
    by (auto simp: started_def nce_stream_read_def nce_stream_extract_def split: sum.splits if_splits option.splits)
next
  case (Op_pull n)
  assume "started s" then show ?thesis using Op_pull extract_ok[of s n]
    by (auto simp: started_def nce_stream_pull_def nce_stream_extract_def split: sum.splits if_splits option.splits)
next
  case (Op_drain n)
  assume "started s" then show ?thesis using Op_drain stream_okD[of s]
    by (auto simp: started_def nce_stream_drain_def split: sum.splits if_splits option.splits intro!: ok_setters io_set_ok)
next
  case (Op_round ev r w)
  assume "started s" then show ?thesis using Op_round round_keeps by (simp add: Let_def)
qed

lemma do_moved:
  assumes "started s" "stream_do op s = (l, s')"
  shows "moved s l s'"
proof (cases op)
  case (Op_push data)
  with assms show ?thesis by (auto simp: moved_def no_log_def dest: push_moved split: sum.splits)
next
  case (Op_write data)
  with assms show ?thesis
    by (auto simp: moved_def no_log_def nce_stream_write_def nce_stream_insert_def Let_def
        split: sum.splits if_splits option.splits)
next
  case (Op_read n)
  with assms show ?thesis
    by (auto simp: moved_def no_log_def nce_stream_read_def nce_stream_extract_def split: sum.splits if_splits option.splits)
next
  case (Op_pull n)
  with assms show ?thesis
    by (auto simp: moved_def no_log_def nce_stream_pull_def nce_stream_extract_def split: sum.splits if_splits option.splits)
next
  case (Op_drain n)
  with assms show ?thesis
    by (auto simp: moved_def no_log_def nce_stream_drain_def min_def split: sum.splits if_splits option.splits)
next
  case (Op_round ev r w)
  have none: "delivers 0 r s = []" "takes 0 r w s = []"
    by (simp_all add: delivers_def takes_def split: recv_res.splits send_res.splits)
  show ?thesis
  proof (cases "st_watch s")
    case None
    with Op_round assms none show ?thesis by (auto simp: round_started moved_def no_log_def)
  next
    case (Some events)
    with Op_round assms none show ?thesis
      using stream_io_moved[of r w "ev AND events" s, OF prod.collapse[symmetric]]
      by (simp add: round_started Let_def started_def split: if_splits) (auto simp: moved_def no_log_def)
  qed
qed

lemma moved_cat:
  assumes "moved s l1 s1" "moved s1 l2 s2"
  shows "moved s \<lparr>lg_accepted = lg_accepted l1 @ lg_accepted l2, lg_sent = lg_sent l1 @ lg_sent l2,
    lg_received = lg_received l1 @ lg_received l2, lg_taken = lg_taken l1 @ lg_taken l2\<rparr> s2"
proof -
  from assms have "buf (st_out s) @ lg_accepted l1 @ lg_accepted l2 = lg_sent l1 @ lg_sent l2 @ buf (st_out s2)"
    "buf (st_in s) @ lg_received l1 @ lg_received l2 = lg_taken l1 @ lg_taken l2 @ buf (st_in s2)"
    unfolding moved_def by (metis append.assoc)+
  then show ?thesis by (simp add: moved_def)
qed

text \<open>
  C19. A stream loses, repeats and reorders nothing.  Whatever its owner pushes, writes,
  reads, pulls and drains, and whatever the socket gives and takes in the rounds of the
  event loop: the bytes sent and those still in the output are the bytes accepted, the
  bytes taken and those still in the input are the bytes received, in their order; the
  buffers keep to their capacity, and an active watcher waits for exactly the events that
  can be served.
\<close>
theorem stream_fifo:
  assumes "stream_run s ops = (l, s')" "started s"
  shows "buf (st_out s) @ lg_accepted l = lg_sent l @ buf (st_out s') \<and>
    buf (st_in s) @ lg_received l = lg_taken l @ buf (st_in s') \<and> stream_ok s'"
proof -
  have "moved s l s' \<and> started s'"
    using assms
  proof (induction s ops arbitrary: l s' rule: stream_run.induct)
    case (2 s op ops)
    obtain l1 s1 where 1: "stream_do op s = (l1, s1)" by fastforce
    obtain l2 s2 where run: "stream_run s1 ops = (l2, s2)" by fastforce
    have "started s1" using do_started[OF 2(3), of op] 1 by simp
    with 2(1)[OF 1[symmetric] run] have "moved s1 l2 s2" "started s2" by auto
    with do_moved[OF 2(3) 1] 2(2) 1 run show ?case by (auto intro: moved_cat)
  qed simp
  then show ?thesis by (simp add: moved_def started_def)
qed

text \<open>The stream of a client of the control socket, with buffers of \<open>n\<close> bytes.\<close>

definition stream_new :: "nat \<Rightarrow> nce_stream" where
  "stream_new n =
     \<lparr>st_fd = 5, st_in = None, st_in_cap = n, st_in_dyn = False, st_out = None, st_out_cap = n,
      st_out_dyn = False, st_watch = None, st_revents = 0, st_close = True, st_open = True\<rparr>"

lemmas stream_defs =
  nce_stream_push_def nce_stream_insert_def nce_stream_write_def nce_stream_read_def nce_stream_pull_def
  nce_stream_drain_def nce_stream_extract_def nce_stream_io_def nce_stream_io_read_def
  nce_stream_io_write_def nce_stream_io_set_def nce_stream_ops_socket_def nce_stream_socket_read_def
  nce_stream_socket_write_def stream_round_def nce_io_cb_def nce_stream_wait_def nce_io_ready_def
  nce_io_stop_def nce_io_start_def nce_io_active_def stream_events_def ROOM_IN_def ROOM_OUT_def
  EV_READ_def EV_WRITE_def nce_stream_start_def nce_stream_allocate_def stream_new_def Let_def

lemma start_new [simp]:
  "0 < n \<Longrightarrow> nce_stream_start True True (stream_new n) =
     (stream_new n)\<lparr>st_in := Some [], st_in_dyn := True, st_out := Some [], st_out_dyn := True, st_watch := Some EV_READ\<rparr>"
  by (simp add: stream_defs)

lemma started_new: "0 < n \<Longrightarrow> started (nce_stream_start True True (stream_new n))"
  by (simp add: started_def stream_ok_def stream_defs)

theorem stream_fifo_witness:
  "stream_run (nce_stream_start True True (stream_new 4))
      [Op_push ''abc'', Op_push ''de'', Op_round EV_WRITE (Recv_err Sys_EAGAIN) (Send_ok 2), Op_write ''xyzt''] =
    (\<lparr>lg_accepted = ''abcxyz'', lg_sent = ''ab'', lg_received = [], lg_taken = []\<rparr>,
     (stream_new 4)\<lparr>st_in := Some [], st_in_dyn := True, st_out := Some ''cxyz'', st_out_dyn := True, st_watch := Some 3\<rparr>) \<and>
   ''abcxyz'' = ''ab'' @ ''cxyz''"
proof -
  let ?s = "(stream_new 4)\<lparr>st_in := Some [], st_in_dyn := True, st_out := Some ''cxyz'', st_out_dyn := True, st_watch := Some 3\<rparr>"
  have run: "stream_run (nce_stream_start True True (stream_new 4))
      [Op_push ''abc'', Op_push ''de'', Op_round EV_WRITE (Recv_err Sys_EAGAIN) (Send_ok 2), Op_write ''xyzt''] =
    (\<lparr>lg_accepted = ''abcxyz'', lg_sent = ''ab'', lg_received = [], lg_taken = []\<rparr>, ?s)"
    by (simp add: stream_defs no_log_def delivers_def takes_def)
  show ?thesis using stream_fifo[OF run started_new] run by simp
qed

section \<open>A stalled stream\<close>

text \<open>Nothing but a start makes the watcher active again.\<close>

lemma stalled_do:
  assumes "st_watch s = None" "st_revents s = 0" "stream_do op s = (l, s')"
  shows "st_watch s' = None \<and> st_revents s' = 0 \<and> lg_sent l = [] \<and> lg_received l = [] \<and> st_open s' = st_open s"
  using assms
  by (cases op)
    (auto simp: nce_stream_push_def nce_stream_insert_def nce_stream_write_def nce_stream_read_def
      nce_stream_pull_def nce_stream_drain_def nce_stream_extract_def nce_stream_io_set_def nce_io_active_def
      no_log_def Let_def stream_round_def delivers_def takes_def
      split: sum.splits if_splits option.splits recv_res.splits send_res.splits)

text \<open>
  C20. A client that fills its input is never served again.  When a packet fills the input
  buffer while nothing waits to be sent, the watcher is stopped; whatever the owner then
  takes out of the input or pushes as an answer, it is not started again: no byte is
  received or sent any more, the commands in the buffer are answered to nobody, and
  stopping the stream neither closes the descriptor nor frees the buffers.
\<close>
theorem stream_stalls:
  assumes "started s" "st_watch s = Some EV_READ" "0 < ROOM_IN s" "ROOM_IN s \<le> length data"
    and "stream_round nce_stream_ops_socket (EV_READ, Recv_ok data, w) s = (e, s1)"
    and "stream_run s1 ops = (l, s2)"
  shows "e = None \<and> length (buf (st_in s1)) = st_in_cap s1 \<and>
    lg_sent l = [] \<and> lg_received l = [] \<and> \<not> nce_stream_active s2 \<and>
    nce_stream_stop s2 = s2 \<and> st_open s2 = st_open s"
proof -
  from assms(1,2) have ok: "stream_ok s" and ev: "stream_events s = EV_READ"
    by (simp_all add: started_def stream_ok_def)
  from ev have out: "st_out s = None \<or> buf (st_out s) = []"
    by (auto simp: stream_events_def EV_READ_def EV_WRITE_def split: if_splits)
  from assms(3) obtain b where b: "st_in s = Some b" "length b < st_in_cap s"
    by (auto simp: ROOM_IN_def split: option.splits)
  have d: "data \<noteq> []" using assms(3,4) by auto
  have "(e, s1) = nce_stream_io nce_stream_ops_socket (Recv_ok data) w EV_READ s"
    using assms(2,5) round_started[OF assms(1), of nce_stream_ops_socket EV_READ] by (simp add: EV_READ_def)
  then have s1: "e = None \<and> buf (st_in s1) = b @ take (st_in_cap s - length b) data \<and> st_in_cap s1 = st_in_cap s \<and>
      st_watch s1 = None \<and> st_revents s1 = 0 \<and> st_open s1 = st_open s"
    using b assms(3,4) out d
    by (auto simp: nce_stream_io_def nce_stream_io_read_def nce_stream_ops_socket_def nce_stream_socket_read_def
        ROOM_IN_def EV_READ_def EV_WRITE_def nce_stream_io_set_def nce_io_stop_def stream_events_def Let_def)
  have "st_watch s2 = None \<and> lg_sent l = [] \<and> lg_received l = [] \<and> st_open s2 = st_open s1"
    using assms(6) conjunct1[OF conjunct2[OF conjunct2[OF conjunct2[OF s1]]]]
      conjunct1[OF conjunct2[OF conjunct2[OF conjunct2[OF conjunct2[OF s1]]]]]
  proof (induction s1 ops arbitrary: l s2 rule: stream_run.induct)
    case (2 s op ops)
    obtain l1 s1 where 1: "stream_do op s = (l1, s1)" by fastforce
    obtain l2 s2' where run: "stream_run s1 ops = (l2, s2')" by fastforce
    from stalled_do[OF 2(3,4) 1] 2(1)[OF 1[symmetric] run] 2(2) 1 run show ?case by auto
  qed (simp add: no_log_def)
  with s1 b assms(4) show ?thesis
    by (auto simp: nce_stream_active_def nce_io_active_def nce_stream_stop_def ROOM_IN_def)
qed

theorem stream_stalls_witness:
  "\<exists>s1 l s2. stream_round nce_stream_ops_socket (EV_READ, Recv_ok ''a;b;'', Send_ok 4)
       (nce_stream_start True True (stream_new 4)) = (None, s1) \<and>
     stream_run s1 [Op_drain 2, Op_push ''A'', Op_drain 2, Op_push ''B'', Op_round 3 (Recv_ok ''c;'') (Send_ok 4)] = (l, s2) \<and>
     buf (st_out s2) = ''AB'' \<and> lg_sent l = [] \<and> \<not> nce_stream_active s2 \<and> st_open (nce_stream_stop s2)"
proof -
  let ?ops = "[Op_drain 2, Op_push ''A'', Op_drain 2, Op_push ''B'', Op_round 3 (Recv_ok ''c;'') (Send_ok 4)]"
  let ?s = "nce_stream_start True True (stream_new 4)"
  obtain e s1 where r: "stream_round nce_stream_ops_socket (EV_READ, Recv_ok ''a;b;'', Send_ok 4) ?s = (e, s1)"
    by fastforce
  obtain l s2 where run: "stream_run s1 ?ops = (l, s2)" by fastforce
  have "st_watch ?s = Some EV_READ" "0 < ROOM_IN ?s" "ROOM_IN ?s \<le> length ''a;b;''"
    by (simp_all add: stream_defs)
  note stalls = stream_stalls[OF started_new this r run, simplified]
  have "st_open ?s" by (simp add: stream_defs)
  with stalls have facts: "e = None" "lg_sent l = []" "\<not> nce_stream_active s2" "nce_stream_stop s2 = s2" "st_open s2"
    by simp_all
  have "s1 = (stream_new 4)\<lparr>st_in := Some ''a;b;'', st_in_dyn := True, st_out := Some [], st_out_dyn := True, st_watch := None\<rparr>"
    using r by (auto simp: stream_defs)
  with run have "buf (st_out s2) = ''AB''" by (auto simp: stream_defs)
  with facts r run show ?thesis by auto
qed

text \<open>
  A socket whose buffer is full makes \<open>send\<close> fail with \<open>EAGAIN\<close>; the documentation of the
  operations asks for 0 then, the code returns -1, an error to its callers.
\<close>
lemma slow_reader_fails:
  "started s \<Longrightarrow> st_watch s = Some EV_WRITE \<Longrightarrow>
   stream_round nce_stream_ops_socket (EV_WRITE, r, Send_err Sys_EAGAIN) s = (Some Stream_EPERM, s)"
  by (auto simp: round_started nce_stream_io_def nce_stream_io_write_def nce_stream_ops_socket_def
      nce_stream_socket_write_def EV_READ_def EV_WRITE_def started_def stream_ok_def stream_events_def
      split: if_splits)

section \<open>The coroutine of a stream\<close>

text \<open>
  Starting the stream with its coroutine, which may not be created; the callback that ends
  it and its destruction, which runs the callback when the coroutine exists.
\<close>

definition nce_stream_coro_spawn :: "bool \<Rightarrow> bool \<Rightarrow> bool \<Rightarrow> bool \<Rightarrow> nce_stream \<Rightarrow> stream_err option \<times> nce_stream" where
  "nce_stream_coro_spawn inactive malloc_in malloc_out created s =
     (let s1 = (if inactive then s else nce_stream_start malloc_in malloc_out s)
      in if created then (None, s1) else (Some Stream_ENOMEM, nce_stream_stop s1))"

definition nce_stream_coro_terminate :: "nce_stream \<Rightarrow> nce_stream" where
  "nce_stream_coro_terminate s = nce_stream_stop s"

definition nce_stream_coro_destroy :: "bool \<Rightarrow> nce_stream \<Rightarrow> nce_stream" where
  "nce_stream_coro_destroy created s =
     (let s1 = nce_stream_stop s in if created then nce_stream_coro_terminate s1 else s1)"

text \<open>Destroying an active stream closes its descriptor if asked to, once, and frees its buffers.\<close>

lemma destroy_active:
  assumes "nce_stream_active s" "st_in_dyn s" "st_out_dyn s"
  shows "let s' = nce_stream_coro_destroy created s in
    st_open s' = (st_open s \<and> \<not> st_close s) \<and> st_in s' = None \<and> st_out s' = None \<and> \<not> nce_stream_active s'"
  using assms
  by (auto simp: nce_stream_coro_destroy_def nce_stream_coro_terminate_def nce_stream_stop_def
      nce_stream_active_def nce_io_active_def nce_io_stop_def nce_stream_deallocate_def Let_def)

end
