(* ===== verification/Peer_Stream.thy ===== *)
theory Peer_Stream
  imports Transport Nce_Stream
begin

text \<open>
  A client of the control socket on its stream (\<open>peer_stream_entry\<close>, \<open>peer_push\<close>,
  \<open>peer_new\<close> and \<open>peer_free\<close> of \<open>irccd/peer.c\<close>): what the theory \<open>Transport\<close> says of the lines a
  client sends and receives, here with the two buffers of 2048 bytes between the lines and
  the socket.  The clients are pairs of \<open>is_watching\<close> and the stream.
\<close>

section \<open>Lines on a stream\<close>

definition PEER_BUF :: nat where "PEER_BUF = 2048"

definition peer_stream_new :: "bool \<Rightarrow> bool \<Rightarrow> bool \<Rightarrow> int \<Rightarrow> stream_err option \<times> nce_stream" where
  "peer_stream_new malloc_in malloc_out created sockfd =
     nce_stream_coro_spawn False malloc_in malloc_out created ((stream_new PEER_BUF)\<lparr>st_fd := sockfd\<rparr>)"

definition peer_free :: "bool \<Rightarrow> nce_stream \<Rightarrow> nce_stream" where
  "peer_free created s = nce_stream_coro_destroy created s"

definition peer_stream_push :: "nce_stream \<Rightarrow> string \<Rightarrow> stream_err option \<times> nce_stream" where
  "peer_stream_push s txt =
     (case nce_stream_vprintf s (Some txt) of
        Inl e \<Rightarrow> (Some e, s)
      | Inr s1 \<Rightarrow> (case nce_stream_push s1 [LF] of Inl e \<Rightarrow> (Some e, s1) | Inr s2 \<Rightarrow> (None, s2)))"

type_synonym stream_peer = "bool \<times> nce_stream"

record 's stream_daemon =
  sd_irccd :: "'s irccd"
  sd_peers :: "stream_peer list"

definition stream_broadcast :: "stream_peer list \<Rightarrow> string \<Rightarrow> stream_peer list" where
  "stream_broadcast peers txt =
     map (\<lambda>(w, s). (w, if w then snd (peer_stream_push s txt) else s)) peers"

definition stream_broadcaster :: "stream_peer list \<Rightarrow> irc_event \<Rightarrow> stream_peer list" where
  "stream_broadcaster peers ev =
     (case irc_event_str ev [] IRC_BUF_LEN of (rep, txt) \<Rightarrow> if rep then stream_broadcast peers txt else peers)"

fun stream_deliver :: "nat \<Rightarrow> stream_peer list \<Rightarrow> effect list \<Rightarrow> stream_peer list" where
  "stream_deliver i peers [] = peers"
| "stream_deliver i peers (Reply s # es) =
     stream_deliver i (peers[i := apsnd (\<lambda>st. snd (peer_stream_push st s)) (peers ! i)]) es"
| "stream_deliver i peers (Act a # es) =
     stream_deliver i (case a of Observe ev \<Rightarrow> stream_broadcaster peers ev | _ \<Rightarrow> peers) es"

definition stream_line :: "peer_env \<Rightarrow> nat \<Rightarrow> string \<Rightarrow> 's stream_daemon \<Rightarrow> 's stream_daemon option" where
  "stream_line env i line d =
     map_option (\<lambda>p. \<lparr>sd_irccd = pr_irccd p,
         sd_peers = (let peers = stream_deliver i (sd_peers d) (pr_log p)
                     in peers[i := (pr_is_watching p, snd (peers ! i))])\<rparr>)
       (invoke env \<lparr>pr_irccd = sd_irccd d, pr_is_watching = fst (sd_peers d ! i), pr_log = []\<rparr> line)"

section \<open>What a push does\<close>

lemma push_cases:
  assumes "st_out s = Some out" "st_fd s \<noteq> -1"
  shows "nce_stream_push s data =
    (if ROOM_OUT s < length data then Inl Stream_ENOBUFS
     else Inr (nce_stream_io_set False (s\<lparr>st_out := Some (out @ data)\<rparr>)))"
  using assms by (simp add: nce_stream_push_def nce_stream_insert_def)

lemma room_out_some: "st_out s = Some out \<Longrightarrow> ROOM_OUT s = st_out_cap s - length out"
  by (simp add: ROOM_OUT_def)

text \<open>
  C38. An answer is one line only if it fits.  A text and its newline are two pushes: with
  room for both the line is put behind the output; with room for neither nothing is sent and
  the answer is lost; when the text fills the output exactly it is left without its end,
  and what is pushed next is read as the rest of that line.
\<close>
theorem peer_push_lines:
  assumes "st_out s = Some out" "st_fd s \<noteq> -1" "length out \<le> st_out_cap s"
  shows "case peer_stream_push s txt of (e, s') \<Rightarrow>
    (if length out + length txt < st_out_cap s
     then e = None \<and> buf (st_out s') = out @ txt @ [LF]
     else if length out + length txt = st_out_cap s
     then e = Some Stream_ENOBUFS \<and> buf (st_out s') = out @ txt
     else e = Some Stream_ENOBUFS \<and> s' = s)"
  using assms
  by (auto simp: peer_stream_push_def nce_stream_vprintf_def push_cases room_out_some)

theorem peer_push_lines_witness:
  "\<exists>e s'. peer_stream_push (nce_stream_start True True (stream_new 4)) ''ERRO'' = (e, s') \<and>
     e = Some Stream_ENOBUFS \<and> buf (st_out s') = ''ERRO''"
proof -
  obtain e s' where p: "peer_stream_push (nce_stream_start True True (stream_new 4)) ''ERRO'' = (e, s')"
    by fastforce
  then show ?thesis
    using peer_push_lines[of "nce_stream_start True True (stream_new 4)" "[]" "''ERRO''"]
    by (simp add: stream_defs)
qed

section \<open>The loop over the input\<close>

lemma push_keeps_input [simp]: "st_in (snd (peer_stream_push s txt)) = st_in s"
  by (auto simp: peer_stream_push_def nce_stream_vprintf_def nce_stream_push_def nce_stream_insert_def
      split: sum.splits option.splits if_splits)

lemma length_stream_deliver [simp]: "length (stream_deliver i peers es) = length peers"
  by (induction i peers es rule: stream_deliver.induct)
     (simp_all add: stream_broadcaster_def stream_broadcast_def split: act.split prod.split)

text \<open>What a list of effects puts on the stream of one client.\<close>

definition push_all :: "string list \<Rightarrow> nce_stream \<Rightarrow> nce_stream" where
  "push_all txts s = foldl (\<lambda>s txt. snd (peer_stream_push s txt)) s txts"

lemma push_all_simps [simp]:
  "push_all [] s = s" "push_all (t # ts) s = push_all ts (snd (peer_stream_push s t))"
  "push_all (ts @ us) s = push_all us (push_all ts s)"
  by (simp_all add: push_all_def)

lemma push_all_input [simp]: "st_in (push_all ts s) = st_in s"
  by (induction ts arbitrary: s) simp_all

lemma stream_broadcaster_nth:
  "j < length peers \<Longrightarrow> stream_broadcaster peers ev ! j =
     apsnd (push_all (if fst (peers ! j) then event_text ev else [])) (peers ! j)"
  by (cases "peers ! j") (simp add: stream_broadcaster_def stream_broadcast_def event_text_def split: prod.split)

lemma length_stream_broadcaster [simp]: "length (stream_broadcaster peers ev) = length peers"
  by (simp add: stream_broadcaster_def stream_broadcast_def split: prod.split)

lemma stream_deliver_nth:
  "j < length peers \<Longrightarrow> stream_deliver i peers es ! j =
     apsnd (push_all (concat (map (sees (j = i) (fst (peers ! j))) es))) (peers ! j)"
proof (induction i peers es rule: stream_deliver.induct)
  case (1 i peers)
  then show ?case by (cases "peers ! j") simp
next
  case (2 i peers s es)
  then show ?case by (cases "j = i"; cases "peers ! j") simp_all
next
  case (3 i peers a es)
  then show ?case by (cases a; cases "peers ! j") (simp_all add: stream_broadcaster_nth)
qed

lemma stream_line_input:
  assumes "stream_line env i line d = Some d'" "j < length (sd_peers d)"
  shows "st_in (snd (sd_peers d' ! j)) = st_in (snd (sd_peers d ! j))" "length (sd_peers d') = length (sd_peers d)"
  using assms by (cases "i = j"; auto simp: stream_line_def Let_def stream_deliver_nth)+

definition peer_at :: "'s stream_daemon \<Rightarrow> nat \<Rightarrow> nce_stream" where
  "peer_at d i = snd (sd_peers d ! i)"

definition set_peer :: "'s stream_daemon \<Rightarrow> nat \<Rightarrow> nce_stream \<Rightarrow> 's stream_daemon" where
  "set_peer d i s = d\<lparr>sd_peers := (sd_peers d)[i := (fst (sd_peers d ! i), s)]\<rparr>"

text \<open>
  The loop over the complete lines in the buffer; a drain that fails has no result.  A client
  \<open>i\<close> that does not exist has no line.
\<close>

function stream_lines :: "peer_env \<Rightarrow> nat \<Rightarrow> 's stream_daemon \<Rightarrow> 's stream_daemon option" where
  "stream_lines env i d =
     (if length (sd_peers d) \<le> i then None
      else case split_at LF (buf (st_in (peer_at d i))) of
        (_, None) \<Rightarrow> Some d
      | (line, Some rest) \<Rightarrow>
          (case (if line = [] then Some d else stream_line env i (takeWhile (\<lambda>c. c \<noteq> NUL) line) d) of
             None \<Rightarrow> None
           | Some d1 \<Rightarrow>
               (case nce_stream_drain (length line + 1) (peer_at d1 i) of
                  Inl _ \<Rightarrow> None
                | Inr s' \<Rightarrow> stream_lines env i (set_peer d1 i s'))))"
  by pat_completeness auto
termination
proof (relation "measure (\<lambda>(_, i, d). length (buf (st_in (peer_at d i))))", simp, clarsimp split del: if_split)
  fix env i and d :: "'s stream_daemon" and line rest d1 s'
  assume i: "\<not> length (sd_peers d) \<le> i" and split: "(line, Some rest) = split_at LF (buf (st_in (peer_at d i)))"
    and d1: "(if line = [] then Some d else stream_line env i (takeWhile (\<lambda>c. c \<noteq> NUL) line) d) = Some d1"
    and dr: "nce_stream_drain (Suc (length line)) (peer_at d1 i) = Inr s'"
  have "st_in (peer_at d1 i) = st_in (peer_at d i)" "length (sd_peers d1) = length (sd_peers d)"
    using d1 i stream_line_input by (fastforce simp: peer_at_def split: if_splits)+
  moreover from split have "buf (st_in (peer_at d i)) \<noteq> []" by (cases "buf (st_in (peer_at d i))") auto
  ultimately show "length (buf (st_in (peer_at (set_peer d1 i s') i))) < length (buf (st_in (peer_at d i)))"
    using dr i by (auto simp: nce_stream_drain_def peer_at_def set_peer_def split: option.splits if_splits)
qed

declare stream_lines.simps [simp del]

section \<open>The lines of the protocol on the wire\<close>

definition wire_lines :: "string list \<Rightarrow> string" where
  "wire_lines ts = concat (map (\<lambda>t. t @ [LF]) ts)"

lemma wire_lines_simps [simp]:
  "wire_lines [] = []" "wire_lines (t # ts) = t @ LF # wire_lines ts"
  "wire_lines (ts @ us) = wire_lines ts @ wire_lines us"
  by (simp_all add: wire_lines_def)

text \<open>A client and its stream: the output is the lines sent to it, none of which was refused.\<close>

definition rep :: "client \<Rightarrow> stream_peer \<Rightarrow> bool" where
  "rep c p = (cl_watching c = fst p \<and> st_fd (snd p) \<noteq> -1 \<and> st_out (snd p) = Some (wire_lines (cl_out c)))"

definition sim :: "'s daemon \<Rightarrow> 's stream_daemon \<Rightarrow> bool" where
  "sim d sd =
     (dm_irccd d = sd_irccd sd \<and> length (dm_peers d) = length (sd_peers sd) \<and>
      (\<forall>j < length (sd_peers sd). rep (dm_peers d ! j) (sd_peers sd ! j)))"

definition all_fit :: "'s daemon \<Rightarrow> 's stream_daemon \<Rightarrow> bool" where
  "all_fit d sd = (\<forall>j < length (sd_peers sd). length (wire_lines (cl_out (dm_peers d ! j))) \<le> st_out_cap (peer_at sd j))"

lemma push_fits:
  assumes "st_out s = Some out" "st_fd s \<noteq> -1" "length out + length txt < st_out_cap s"
  shows "st_out (snd (peer_stream_push s txt)) = Some (out @ txt @ [LF])"
    "st_fd (snd (peer_stream_push s txt)) = st_fd s" "st_out_cap (snd (peer_stream_push s txt)) = st_out_cap s"
    "st_in_cap (snd (peer_stream_push s txt)) = st_in_cap s"
  using assms by (simp_all add: peer_stream_push_def nce_stream_vprintf_def push_cases room_out_some)

lemma push_all_fits:
  "st_out s = Some out \<Longrightarrow> st_fd s \<noteq> -1 \<Longrightarrow> length out + length (wire_lines ts) \<le> st_out_cap s \<Longrightarrow>
   st_out (push_all ts s) = Some (out @ wire_lines ts) \<and> st_fd (push_all ts s) = st_fd s \<and>
   st_out_cap (push_all ts s) = st_out_cap s"
proof (induction ts arbitrary: s out)
  case (Cons t ts)
  with push_fits[of s out t] show ?case by simp
qed simp

definition line_texts :: "'s daemon \<Rightarrow> nat \<Rightarrow> effect list \<Rightarrow> nat \<Rightarrow> string list" where
  "line_texts d i es j = concat (map (sees (j = i) (cl_watching (dm_peers d ! j))) es)"

lemma daemon_line_at:
  assumes "daemon_line env i line d = Some d'" "i < length (dm_peers d)"
  obtains p where "invoke env \<lparr>pr_irccd = dm_irccd d, pr_is_watching = cl_watching (dm_peers d ! i), pr_log = []\<rparr> line = Some p"
    "dm_irccd d' = pr_irccd p" "length (dm_peers d') = length (dm_peers d)"
    "\<And>j. j < length (dm_peers d) \<Longrightarrow> cl_out (dm_peers d' ! j) = cl_out (dm_peers d ! j) @ line_texts d i (pr_log p) j"
    "\<And>j. j < length (dm_peers d) \<Longrightarrow>
       cl_watching (dm_peers d' ! j) = (if j = i then pr_is_watching p else cl_watching (dm_peers d ! j))"
  using assms
  by (auto simp: daemon_line_def Let_def deliver_nth nth_list_update line_texts_def)

text \<open>A client that is served: its stream is active and in order.\<close>

definition served :: "nce_stream \<Rightarrow> bool" where
  "served s = (stream_ok s \<and> nce_stream_active s)"

lemma events_zero:
  "stream_events s = 0 \<longleftrightarrow>
     \<not> (st_in s \<noteq> None \<and> length (buf (st_in s)) < st_in_cap s) \<and> \<not> (st_out s \<noteq> None \<and> buf (st_out s) \<noteq> [])"
  by (auto simp: stream_events_def EV_READ_def EV_WRITE_def)

lemma served_set:
  "st_watch s \<noteq> None \<Longrightarrow> length (buf (st_in s)) \<le> st_in_cap s \<Longrightarrow> length (buf (st_out s)) \<le> st_out_cap s \<Longrightarrow>
   stream_events s \<noteq> 0 \<Longrightarrow> served (nce_stream_io_set False s)"
  by (simp add: served_def io_set_ok nce_stream_active_def nce_io_active_def)
    (simp add: nce_stream_io_set_def nce_io_active_def nce_io_start_def nce_io_stop_def Let_def)

lemma served_events: "served s \<Longrightarrow> st_watch s \<noteq> None \<and> stream_events s \<noteq> 0"
  by (auto simp: served_def stream_ok_def nce_stream_active_def nce_io_active_def)

lemma served_push:
  assumes "served s" "nce_stream_push s data = Inr s'"
  shows "served s'"
proof -
  from assms(2) obtain out where out: "st_out s = Some out" "length data \<le> st_out_cap s - length out"
    "s' = nce_stream_io_set False (s\<lparr>st_out := Some (out @ data)\<rparr>)"
    by (auto simp: nce_stream_push_def nce_stream_insert_def ROOM_OUT_def split: if_splits option.splits)
  from assms(1) have "length (buf (st_in s)) \<le> st_in_cap s" "length out \<le> st_out_cap s"
    using stream_okD[of s] out(1) by (auto simp: served_def)
  with served_events[OF assms(1)] out show ?thesis
    by (auto simp: events_zero intro!: served_set)
qed

lemma served_line: "served s \<Longrightarrow> served (snd (peer_stream_push s txt))"
  by (auto simp: peer_stream_push_def nce_stream_vprintf_def dest: served_push split: sum.split)

lemma served_push_all: "served s \<Longrightarrow> served (push_all ts s)"
  by (induction ts arbitrary: s) (auto intro: served_line)

lemma served_drain:
  assumes "served s" "st_in s = Some input" "n \<le> length input" "0 < n"
  shows "served (nce_stream_io_set False (s\<lparr>st_in := Some (drop n input)\<rparr>))"
proof -
  from assms have "length input \<le> st_in_cap s" "length (buf (st_out s)) \<le> st_out_cap s"
    using stream_okD[of s] by (auto simp: served_def)
  with served_events[OF assms(1)] assms(2-4) show ?thesis
    by (intro served_set) (auto simp: events_zero)
qed

lemma line_refines:
  assumes line: "daemon_line env i line d = Some d'" and sim: "sim d sd" and "all_fit d' sd" and i: "i < length (sd_peers sd)"
  obtains sd' where "stream_line env i line sd = Some sd'" "sim d' sd'"
    "length (sd_peers sd') = length (sd_peers sd)"
    "\<And>j. j < length (sd_peers sd) \<Longrightarrow> st_in (peer_at sd' j) = st_in (peer_at sd j) \<and>
       st_out_cap (peer_at sd' j) = st_out_cap (peer_at sd j) \<and> (served (peer_at sd j) \<longrightarrow> served (peer_at sd' j))"
proof -
  from sim i have i': "i < length (dm_peers d)" and len: "length (dm_peers d) = length (sd_peers sd)"
    and watch: "fst (sd_peers sd ! i) = cl_watching (dm_peers d ! i)" and irccd: "sd_irccd sd = dm_irccd d"
    by (auto simp: sim_def rep_def)
  from daemon_line_at[OF line i'] obtain p where
    p: "invoke env \<lparr>pr_irccd = dm_irccd d, pr_is_watching = cl_watching (dm_peers d ! i), pr_log = []\<rparr> line = Some p"
      "dm_irccd d' = pr_irccd p" "length (dm_peers d') = length (dm_peers d)"
    and out: "\<And>j. j < length (dm_peers d) \<Longrightarrow> cl_out (dm_peers d' ! j) = cl_out (dm_peers d ! j) @ line_texts d i (pr_log p) j"
    and w: "\<And>j. j < length (dm_peers d) \<Longrightarrow>
       cl_watching (dm_peers d' ! j) = (if j = i then pr_is_watching p else cl_watching (dm_peers d ! j))"
    by blast
  let ?peers = "stream_deliver i (sd_peers sd) (pr_log p)"
  let ?sd = "\<lparr>sd_irccd = pr_irccd p, sd_peers = ?peers[i := (pr_is_watching p, snd (?peers ! i))]\<rparr>"
  have step: "stream_line env i line sd = Some ?sd"
    using p(1) by (simp add: stream_line_def Let_def irccd watch)
  have at: "snd (sd_peers ?sd ! j) = push_all (line_texts d i (pr_log p) j) (peer_at sd j)"
    "fst (sd_peers ?sd ! j) = (if j = i then pr_is_watching p else cl_watching (dm_peers d ! j))"
    if "j < length (sd_peers sd)" for j
    using that i sim by (auto simp: stream_deliver_nth line_texts_def peer_at_def nth_list_update sim_def rep_def)
  have fit: "st_out (snd (sd_peers ?sd ! j)) = Some (wire_lines (cl_out (dm_peers d' ! j))) \<and>
      st_fd (snd (sd_peers ?sd ! j)) \<noteq> -1 \<and> st_out_cap (snd (sd_peers ?sd ! j)) = st_out_cap (peer_at sd j)"
    if "j < length (sd_peers sd)" for j
  proof -
    have "st_out (peer_at sd j) = Some (wire_lines (cl_out (dm_peers d ! j)))" "st_fd (peer_at sd j) \<noteq> -1"
      using that sim by (auto simp: sim_def rep_def peer_at_def)
    moreover have "length (wire_lines (cl_out (dm_peers d ! j))) + length (wire_lines (line_texts d i (pr_log p) j))
        \<le> st_out_cap (peer_at sd j)"
      using that \<open>all_fit d' sd\<close> by (auto simp: all_fit_def out len)
    ultimately have "st_out (push_all (line_texts d i (pr_log p) j) (peer_at sd j)) =
        Some (wire_lines (cl_out (dm_peers d' ! j))) \<and>
      st_fd (push_all (line_texts d i (pr_log p) j) (peer_at sd j)) \<noteq> -1 \<and>
      st_out_cap (push_all (line_texts d i (pr_log p) j) (peer_at sd j)) = st_out_cap (peer_at sd j)"
      using push_all_fits[of "peer_at sd j"] that by (simp add: out len)
    then show ?thesis unfolding at(1)[OF that] .
  qed
  have "sim d' ?sd"
    unfolding sim_def rep_def
    using fit at(2) by (auto simp: p(2,3) len w simp del: nth_list_update)
  moreover have "st_in (peer_at ?sd j) = st_in (peer_at sd j) \<and> st_out_cap (peer_at ?sd j) = st_out_cap (peer_at sd j) \<and>
      (served (peer_at sd j) \<longrightarrow> served (peer_at ?sd j))"
    if "j < length (sd_peers sd)" for j
    using fit[OF that] at(1)[OF that] served_push_all[of "peer_at sd j"] by (simp add: peer_at_def)
  ultimately show thesis using that[OF step] by simp
qed

lemma daemon_lines_outs:
  assumes "daemon_lines env i input d = Some (d', rest)" "i < length (dm_peers d)"
  shows "length (dm_peers d') = length (dm_peers d) \<and>
    (\<forall>j < length (dm_peers d). \<exists>ts. cl_out (dm_peers d' ! j) = cl_out (dm_peers d ! j) @ ts)"
  using assms
proof (induction env i input d arbitrary: d' rest rule: daemon_lines.induct)
  case (1 env i input d)
  obtain line r where split: "split_at LF input = (line, r)" by fastforce
  show ?case
  proof (cases r)
    case None
    with split 1(3) show ?thesis by (simp add: daemon_lines.simps)
  next
    case (Some rest1)
    show ?thesis
    proof (cases "line = []")
      case True
      with split Some 1(3) have "daemon_lines env i rest1 d = Some (d', rest)" by (simp add: daemon_lines.simps)
      with 1(1)[OF split[symmetric] Some True] 1(4) show ?thesis by simp
    next
      case False
      with split Some 1(3) obtain d1 where d1: "daemon_line env i (takeWhile (\<lambda>c. c \<noteq> NUL) line) d = Some d1"
        and rec: "daemon_lines env i rest1 d1 = Some (d', rest)"
        by (auto simp: daemon_lines.simps[of env i input] bind_eq_Some_conv)
      from daemon_line_at[OF d1 1(4)] have "length (dm_peers d1) = length (dm_peers d)"
        "\<And>j. j < length (dm_peers d) \<Longrightarrow> \<exists>ts. cl_out (dm_peers d1 ! j) = cl_out (dm_peers d ! j) @ ts" by blast+
      with 1(2)[OF split[symmetric] Some False d1 rec] 1(4) show ?thesis by (metis append.assoc)
    qed
  qed
qed

lemma fits_mono:
  assumes "daemon_lines env i input d = Some (d', rest)" "i < length (dm_peers d)" "all_fit d' sd"
    "length (dm_peers d) = length (sd_peers sd)"
  shows "all_fit d sd"
  using daemon_lines_outs[OF assms(1,2)] assms(3,4)
  by (fastforce simp: all_fit_def dest: spec)

lemma sim_set_peer:
  "sim d sd \<Longrightarrow> st_out s = st_out (peer_at sd i) \<Longrightarrow> st_fd s = st_fd (peer_at sd i) \<Longrightarrow> sim d (set_peer sd i s)"
  by (cases "i < length (sd_peers sd)")
    (auto simp: sim_def set_peer_def rep_def peer_at_def nth_list_update)

text \<open>The last line is taken out of the input and the daemon goes on with the rest.\<close>

lemma stream_lines_drain:
  assumes "i < length (sd_peers sd)" "st_in (peer_at sd i) = Some input" "split_at LF input = (line, Some rest)"
    and "(if line = [] then Some sd else stream_line env i (takeWhile (\<lambda>c. c \<noteq> NUL) line) sd) = Some sd1"
    and "st_in (peer_at sd1 i) = Some input"
  shows "stream_lines env i sd = stream_lines env i
    (set_peer sd1 i (nce_stream_io_set False ((peer_at sd1 i)\<lparr>st_in := Some rest\<rparr>)))"
proof -
  from assms(3) have "input = line @ LF # rest" by (simp add: split_at_Some)
  then have "drop (min (length line + 1) (length input)) input = rest" "\<not> length input \<le> length line" by auto
  with assms show ?thesis
    by (subst stream_lines.simps) (simp add: nce_stream_drain_def)
qed

text \<open>
  C15. The stream carries the protocol.  Serving the complete lines in the input buffer of a
  client does what the protocol says of these lines (theory \<open>Transport\<close>), provided that what
  they send fits into the output of every client: the same bot, the same watchers, every
  line on the wire of its client with its newline and in order, the incomplete line left in
  the input, and a client that could be served before still can be.
\<close>
theorem peer_lines_refine:
  assumes "daemon_lines env i input d = Some (d', rest)" "sim d sd" "i < length (sd_peers sd)"
    "st_in (peer_at sd i) = Some input" "all_fit d' sd"
  shows "\<exists>sd'. stream_lines env i sd = Some sd' \<and> sim d' sd' \<and> st_in (peer_at sd' i) = Some rest \<and>
    (served (peer_at sd i) \<longrightarrow> served (peer_at sd' i))"
  using assms
proof (induction env i input d arbitrary: d' rest sd rule: daemon_lines.induct)
  case (1 env i input d)
  note sim = 1(4) and i = 1(5) and inp = 1(6) and fits = 1(7)
  have len: "length (dm_peers d) = length (sd_peers sd)" using sim by (simp add: sim_def)
  obtain line r where split: "split_at LF input = (line, r)" by fastforce
  show ?case
  proof (cases r)
    case None
    with split 1(3) sim i inp show ?thesis by (auto simp: daemon_lines.simps stream_lines.simps)
  next
    case (Some rest1)
    let ?next = "\<lambda>sd1. set_peer sd1 i (nce_stream_io_set False ((peer_at sd1 i)\<lparr>st_in := Some rest1\<rparr>))"
    have eq: "input = line @ LF # rest1" using split Some by (simp add: split_at_Some)
    have srv: "served (nce_stream_io_set False ((peer_at sd1 i)\<lparr>st_in := Some rest1\<rparr>))"
      if "served (peer_at sd1 i)" "st_in (peer_at sd1 i) = Some input" for sd1 :: "'a stream_daemon"
      using served_drain[OF that, of "length line + 1"] eq by simp
    obtain d1 sd1 where step: "(if line = [] then Some sd else stream_line env i (takeWhile (\<lambda>c. c \<noteq> NUL) line) sd) = Some sd1"
      and rec: "daemon_lines env i rest1 d1 = Some (d', rest)" and sim1: "sim d1 sd1"
      and len1: "length (sd_peers sd1) = length (sd_peers sd)"
      and keep: "\<And>j. j < length (sd_peers sd) \<Longrightarrow> st_in (peer_at sd1 j) = st_in (peer_at sd j) \<and>
        st_out_cap (peer_at sd1 j) = st_out_cap (peer_at sd j) \<and> (served (peer_at sd j) \<longrightarrow> served (peer_at sd1 j))"
      and IH: "\<And>sd'. sim d1 sd' \<Longrightarrow> i < length (sd_peers sd') \<Longrightarrow> st_in (peer_at sd' i) = Some rest1 \<Longrightarrow> all_fit d' sd' \<Longrightarrow>
        \<exists>sd''. stream_lines env i sd' = Some sd'' \<and> sim d' sd'' \<and> st_in (peer_at sd'' i) = Some rest \<and>
          (served (peer_at sd' i) \<longrightarrow> served (peer_at sd'' i))"
    proof (cases "line = []")
      case True
      with split Some 1(3) have rec: "daemon_lines env i rest1 d = Some (d', rest)" by (simp add: daemon_lines.simps)
      show thesis by (rule that[OF _ rec sim]) (use True 1(1)[OF split[symmetric] Some True rec] in auto)
    next
      case False
      with split Some 1(3) obtain d1 where d1: "daemon_line env i (takeWhile (\<lambda>c. c \<noteq> NUL) line) d = Some d1"
        and rec: "daemon_lines env i rest1 d1 = Some (d', rest)"
        by (auto simp: daemon_lines.simps[of env i input] bind_eq_Some_conv)
      have len1: "length (dm_peers d1) = length (sd_peers sd)"
        using daemon_line_at[OF d1] i len by metis
      have "all_fit d1 sd" using fits_mono[OF rec _ fits] i len1 by simp
      from line_refines[OF d1 sim this i] obtain sd1 where
        "stream_line env i (takeWhile (\<lambda>c. c \<noteq> NUL) line) sd = Some sd1" "sim d1 sd1"
        "length (sd_peers sd1) = length (sd_peers sd)"
        "\<And>j. j < length (sd_peers sd) \<Longrightarrow> st_in (peer_at sd1 j) = st_in (peer_at sd j) \<and>
          st_out_cap (peer_at sd1 j) = st_out_cap (peer_at sd j) \<and> (served (peer_at sd j) \<longrightarrow> served (peer_at sd1 j))"
        by blast
      with that[of sd1 d1] False rec 1(2)[OF split[symmetric] Some False d1 rec] show thesis by auto
    qed
    have "sim d1 (?next sd1)" by (rule sim_set_peer[OF sim1]) simp_all
    moreover have "all_fit d' (?next sd1)"
      using fits keep len1 i unfolding all_fit_def
      by (intro allI impI, case_tac "j = i") (auto simp: set_peer_def peer_at_def)
    moreover have "st_in (peer_at (?next sd1) i) = Some rest1"
      using i len1 by (simp add: peer_at_def set_peer_def)
    ultimately obtain sd' where sd': "stream_lines env i (?next sd1) = Some sd'" "sim d' sd'"
      "st_in (peer_at sd' i) = Some rest" "served (peer_at (?next sd1) i) \<longrightarrow> served (peer_at sd' i)"
      using IH[of "?next sd1"] i len1 by (auto simp: set_peer_def)
    have "peer_at (?next sd1) i = nce_stream_io_set False ((peer_at sd1 i)\<lparr>st_in := Some rest1\<rparr>)"
      using i len1 by (simp add: peer_at_def set_peer_def)
    with srv[of sd1] keep[OF i] inp sd'(4) have "served (peer_at sd i) \<longrightarrow> served (peer_at sd' i)" by auto
    moreover have "stream_lines env i sd = stream_lines env i (?next sd1)"
      by (rule stream_lines_drain[OF i inp _ step]) (use split Some keep[OF i] inp in auto)
    ultimately show ?thesis using sd' by simp
  qed
qed

theorem peer_lines_refine_witness:
  "\<forall>env. let sd = \<lparr>sd_irccd = (bot_empty :: unit irccd),
        sd_peers = [(False, (nce_stream_start True True (stream_new PEER_BUF))\<lparr>st_in := Some ''HELLO\<newline>ab''\<rparr>)]\<rparr> in
     \<exists>sd'. stream_lines env 0 sd = Some sd' \<and> st_in (peer_at sd' 0) = Some ''ab'' \<and>
       st_out (peer_at sd' 0) = Some (''command not found'' @ [LF])"
proof
  fix env
  let ?d = "\<lparr>dm_irccd = (bot_empty :: unit irccd), dm_peers = [client_new]\<rparr>"
  let ?sd = "\<lparr>sd_irccd = (bot_empty :: unit irccd),
        sd_peers = [(False, (nce_stream_start True True (stream_new PEER_BUF))\<lparr>st_in := Some ''HELLO\<newline>ab''\<rparr>)]\<rparr>"
  have "first_word ''HELLO'' = ''HELLO''" by code_simp
  then have "find_cmd env ''HELLO'' = (None :: (unit peer \<Rightarrow> string \<Rightarrow> unit outcome) option)"
    by (simp add: find_cmd_eq cmds_def)
  moreover have "split_at LF ''HELLO\<newline>ab'' = (''HELLO'', Some ''ab'')" "split_at LF ''ab'' = (''ab'', None)"
    by code_simp+
  moreover have "takeWhile (\<lambda>c. c \<noteq> NUL) ''HELLO'' = ''HELLO''" by code_simp
  ultimately obtain d' where d': "daemon_lines env 0 ''HELLO\<newline>ab'' ?d = Some (d', ''ab'')"
    "map cl_out (dm_peers d') = [[''command not found'']]"
    by (simp add: daemon_lines.simps daemon_line_def invoke_def peer_push_def client_push_def client_new_def)
  have "sim ?d ?sd" by (simp add: sim_def rep_def client_new_def PEER_BUF_def stream_defs)
  moreover have "all_fit d' ?sd" using d'(2) by (auto simp: all_fit_def peer_at_def PEER_BUF_def stream_defs)
  ultimately obtain sd' where "stream_lines env 0 ?sd = Some sd'" "sim d' sd'" "st_in (peer_at sd' 0) = Some ''ab''"
    using peer_lines_refine[OF d'(1), of ?sd] by (auto simp: peer_at_def)
  with d'(2) show "let sd = ?sd in \<exists>sd'. stream_lines env 0 sd = Some sd' \<and> st_in (peer_at sd' 0) = Some ''ab'' \<and>
       st_out (peer_at sd' 0) = Some (''command not found'' @ [LF])"
    by (auto simp: Let_def sim_def rep_def peer_at_def dest!: spec[of _ 0])
qed

section \<open>The coroutine of a client\<close>

text \<open>
  \<open>peer_stream_entry\<close>: the greeting is pushed and flushed, then every round of events is
  followed by the complete lines; an error ends it and stops the stream.
\<close>

datatype peer_phase = Greeting | Serving | Ended

definition hello_line :: "nat \<Rightarrow> nat \<Rightarrow> nat \<Rightarrow> string" where
  "hello_line major minor patch =
     ''IRCCD '' @ show_nat major @ ''.'' @ show_nat minor @ ''.'' @ show_nat patch @ [LF]"

definition peer_stream_hello :: "nat \<Rightarrow> nat \<Rightarrow> nat \<Rightarrow> nce_stream \<Rightarrow> peer_phase \<times> nce_stream" where
  "peer_stream_hello major minor patch s =
     (case nce_stream_vprintf s (Some (hello_line major minor patch)) of
        Inl _ \<Rightarrow> (Ended, nce_stream_stop s)
      | Inr s1 \<Rightarrow> (if buf (st_out s1) = [] then Serving else Greeting, s1))"

definition peer_stream_entry ::
  "peer_env \<Rightarrow> nat \<Rightarrow> io_events \<times> recv_res \<times> send_res \<Rightarrow> peer_phase \<times> 's stream_daemon \<Rightarrow>
   (peer_phase \<times> 's stream_daemon) option" where
  "peer_stream_entry env i io pd =
     (case pd of (phase, d) \<Rightarrow>
        let s = peer_at d i in
        if phase = Ended \<or> (case st_watch s of None \<Rightarrow> True | Some events \<Rightarrow> fst io AND events = 0) then Some (phase, d)
        else case stream_round nce_stream_ops_socket io s of
               (Some e, s') \<Rightarrow> Some (Ended, set_peer d i (nce_stream_stop s'))
             | (None, s') \<Rightarrow>
                 let d' = set_peer d i s' in
                 if phase = Greeting then Some (if buf (st_out s') = [] then Serving else Greeting, d')
                 else map_option (Pair Serving) (stream_lines env i d'))"

text \<open>A client whose socket fails is told nothing more: its stream is stopped and closed.\<close>

lemma peer_error_closes:
  assumes "started (peer_at d i)" "i < length (sd_peers d)" "phase \<noteq> Ended" "st_close (peer_at d i)"
    and "st_watch (peer_at d i) = Some events" "fst io AND events \<noteq> 0"
    and "stream_round nce_stream_ops_socket io (peer_at d i) = (Some e, s')" "st_watch s' \<noteq> None" "st_close s'"
  shows "\<exists>d'. peer_stream_entry env i io (phase, d) = Some (Ended, d') \<and>
    \<not> st_open (peer_at d' i) \<and> \<not> nce_stream_active (peer_at d' i)"
  using assms
  by (auto simp: peer_stream_entry_def Let_def peer_at_def set_peer_def nce_stream_stop_def nce_stream_active_def
      nce_io_active_def nce_io_stop_def nce_stream_deallocate_def)

end
