(* ===== verification/Spec2Isabelle.thy ===== *)
theory Spec2Isabelle
  imports Ctl_Facts Conf_Safe Unicode_Facts Js_Server_Facts Js_Api_Facts Js_Directory Js_System Js_Timer Dl_Plugin Peer_Stream
begin

text \<open>
  irccd, a bot for IRC: a verification library for its C sources under \<open>src/\<close>.

  \<^bold>\<open>The program.\<close>  \<open>lib/irccd\<close> is the bot as a library, \<open>irccd/\<close> the daemon around it and
  \<open>irccdctl/\<close> its control client.  A server (\<open>server.c\<close>) owns a connection
  (\<open>conn.c\<close>), whose input coroutine fills and drains two fixed buffers, whose producer cuts
  the input into messages and whose timer restarts it; the consumer coroutine of the server
  pulls the messages and calls the handler of their command, which updates the channels
  (\<open>channel.c\<close>) and the state of the server and dispatches an event (\<open>event.c\<close>).  The bot
  (\<open>irccd.c\<close>) runs the hooks (\<open>hook.c\<close>), asks the rules (\<open>rule.c\<close>) which plugins may see
  the event, calls these (\<open>plugin.c\<close>) and reports to an observer.  Plugins send messages
  through the commands of a server and expand templates (\<open>subst.c\<close>), as the loggers do
  (\<open>log.c\<close>).  The daemon reads its configuration (\<open>irccd/conf.c\<close>), which fills the bot,
  listens on a socket (\<open>irccd/transport.c\<close>), executes the lines its clients send
  (\<open>irccd/peer.c\<close>) and sends them the events the bot observes; \<open>irccdctl.c\<close> is such a client.
  \<open>irccd/unicode.c\<close> holds the text encodings offered to Javascript.

  \<^bold>\<open>The theories\<close>, in the order of their imports.

  \<^item> \<open>Prelude\<close>: C strings, the tokenisers of the C library, fixed size copies, linked lists,
    and three interfaces as locales: \<open>ci_set\<close> (collections keyed up to case), \<open>registry\<close>
    (objects found by name) and \<open>bounded_append\<close> (buffers that refuse what does not fit).
  \<^item> \<open>Util\<close> (\<open>util.c\<close>): splitting, the prefix of a message, bounded copies, integers.
  \<^item> \<open>Rule\<close> (\<open>rule.c\<close>): criteria and rules; \<open>criteria\<close> interprets \<open>ci_set\<close>.
  \<^item> \<open>Channel\<close> (\<open>channel.c\<close>): members; \<open>members\<close> interprets \<open>ci_set\<close>.
  \<^item> \<open>Unicode\<close> (\<open>unicode.c\<close>): encoders and decoders on \<open>8 word\<close> and \<open>32 word\<close>.
  \<^item> \<open>Conn\<close> (\<open>conn.c\<close>): the record \<open>conn\<close> has the fields of \<open>struct conn\<close> that the program
    reads; the state machine is the relation \<open>conn_step\<close>; \<open>outbuf\<close> interprets
    \<open>bounded_append\<close>.
  \<^item> \<open>Event\<close> (\<open>event.c\<close>): one record per structure, a datatype for the tagged union.
  \<^item> \<open>Server\<close> and \<open>Handlers\<close> (\<open>server.c\<close>): the record \<open>irc_server\<close>, its commands, and the
    handlers with their table; \<open>channels\<close> interprets \<open>ci_set\<close>.
  \<^item> \<open>Hook\<close>, \<open>Plugin\<close>, \<open>Bot\<close> (\<open>hook.c\<close>, \<open>plugin.c\<close>, \<open>irccd.c\<close>): argument vectors, the table of
    callbacks, and the singleton, passed explicitly; \<open>hooks\<close>, \<open>plugins\<close> and \<open>servers\<close>
    interpret \<open>registry\<close>.
  \<^item> \<open>Subst\<close> (\<open>subst.c\<close>): template expansion; \<open>scat\<close> and \<open>ccat\<close> interpret \<open>bounded_append\<close>.
  \<^item> \<open>Log\<close> (\<open>log.c\<close>): the loggers over the static state of the file.
  \<^item> \<open>Peer\<close> and \<open>Peer_Facts\<close> (\<open>irccd/peer.c\<close>): the 31 commands of the control protocol, their
    table, the loop that cuts the input into lines; a calculus of outcomes for them.
  \<^item> \<open>Transport\<close> (\<open>irccd/transport.c\<close>, the broadcast of \<open>irccd/irccd.c\<close>): the socket, the
    clients in the order of their connection, who receives what.
  \<^item> \<open>Ctl\<close> and \<open>Ctl_Facts\<close> (\<open>irccdctl.c\<close>): the commands of the client with their options, the
    request and its answer, the display of events; together with \<open>Peer\<close>, the way of a request
    from the command line to the bot.
  \<^item> \<open>Conf\<close>, \<open>Conf_Facts\<close> and \<open>Conf_Safe\<close> (\<open>irccd/conf.c\<close>): the lexer as the list of the tokens
    it pushes, the parser that consumes it, the application to bot, log and transport;
    documents as an abstract syntax with a meaning and a printer; the interface
    \<open>conf_invariant\<close> for what the parser keeps for every text, interpreted by \<open>sounds\<close>
    (servers can be connected, names are unique), \<open>places\<close> (positions) and \<open>defined\<close>.

  \<^bold>\<open>Conventions.\<close>  Operations keep the names of the C functions and take and return the state
  explicitly.  A linked list is a HOL list, a string its bytes without the terminator, a
  possibly NULL pointer an \<open>option\<close>, an \<open>int\<close> used as a mask a \<open>32 word\<close>.  An error the code
  handles is a value (\<open>errno + 'a\<close>, or \<open>None\<close> for the pointer NULL).  An execution that C
  leaves undefined, or that fails an assertion, is the result \<open>None\<close> of an \<open>option\<close>: a NULL
  or out of bounds access, an array written past its end, an uninitialised pointer; the
  client and the parser of the configuration have result types of their own for it, which
  also tell a process that dies with a message.  What a command of the protocol does is
  recorded in a log of effects, its replies and the actions of the bot.  Memory allocation
  succeeds, as the program dies when it does not.

  \<^bold>\<open>What is shown.\<close>  Invariants that every operation and every message keep (buffer sizes,
  channels and members without duplicates, unique names); the effect of each handler and
  of each command on the state and on the wire; that framing does not depend on packets,
  that parsing inverts printing, encoding decoding and escaping expansion; that the output
  is first in first out; that expansion is bounded by its buffer; that the rule list is
  decided by its last match; what one event runs; that every command line is answered once,
  to its client only, and that watching clients see each event once; that requests and
  configurations are read back as they were written; that reading a configuration ends and
  its errors name the right line.  Several theorems state behaviour that
  differs from what the comments or the manual promise; their text says so.

  \<^bold>\<open>Bounds and loops.\<close>  The sizes are those of the sources: 8096 bytes of input, 65536 of
  output, 512 for a line of either protocol, 64 for a name in a template, 1024 for a line of
  the log.  All recursive functions are total:
  structural, or by a measure (the length of the input, the distance of two indices, the
  messages or tokens left).  Loops that a system call may keep alive (\<open>conn_tcp_recv\<close>,
  \<open>conn_tcp_send\<close>, \<open>conn_connect\<close>, \<open>conn_ident\<close>, \<open>poll\<close> and \<open>req\<close> of the client) take the list
  of the outcomes; those of the connection give \<open>None\<close> when they have not ended with the last
  one, those of the client see a closed socket behind the last \<open>recv\<close> and a kernel that takes
  everything behind the last \<open>send\<close>.

  \<^bold>\<open>Parameters.\<close>  The environment, the output of commands, the text of \<open>strftime\<close> and \<open>ctime\<close>,
  the resolver and socket results, the texts of \<open>strerror\<close>, the databases of users and
  groups, the build options and the callbacks of plugins and loaders are arguments of the
  functions that use them.

  \<^bold>\<open>Not modelled.\<close>  The coroutine scheduler and \<open>libev\<close> (what a coroutine does between two
  yields is one function), TLS callbacks, reference counting beyond the counter, release of
  memory, the lines that the bot logs about itself (the logger is modelled, its calls are
  only followed when the configuration registers hooks), forking of hooks, callbacks that
  edit the registries during a dispatch, the stream buffers of the control sockets, the
  options and the printing of build paths of \<open>irccd/irccd.c\<close>, the character class tables of
  \<open>unicode.c\<close>, the Javascript and native plugin bindings.  The tables of \<open>unicode.c\<close>, the
  main program and the plugin loaders are next, in that order.
\<close>

end
